(* ===== verification/Prelude.thy ===== *)
theory Prelude
  imports Main "HOL-Library.AList" "HOL-Library.Word"
begin

text \<open>
  Shared ground of the development: Go errors, contexts, the readings of the clock and of the
  uuid generator, decimal rendering, and the lemmas on association lists that every in-memory
  store uses.

  Go strings are byte strings, so they are \<open>string\<close> (a list of 8-bit characters).
  A Go error value is a text together with the sentinels that \<open>errors.Is\<close> finds in its
  wrap chain: \<open>fmt.Errorf\<close> with \<open>%w\<close> keeps the sentinels, with \<open>%v\<close> it
  drops them.
\<close>

named_theorems repo_defs \<open>definitions of the repository operations\<close>
named_theorems svc_defs \<open>definitions of the service operations\<close>
named_theorems world_simps \<open>field and frame equations of the application state\<close>

section \<open>Go errors\<close>

datatype sentinel =
    ErrNotFound | ErrConflict | ErrConcurrentModification
  | ErrInvalidInput | ErrInvalidTransition
  | ErrNotPending | ErrInvalidRequest | ErrExpired | ErrResultUnknown
  | ErrMaxToolCalls | ErrPublishNotConfirmed | ErrPublishUnroutable
  | CtxCanceled | CtxDeadlineExceeded

datatype gerror = GErr (err_chain: "sentinel list") (err_text: string)

fun sentinel_text :: "sentinel \<Rightarrow> string" where
  "sentinel_text ErrNotFound = ''incident not found''"
| "sentinel_text ErrConflict = ''incident already exists''"
| "sentinel_text ErrConcurrentModification = ''state changed concurrently''"
| "sentinel_text ErrInvalidInput = ''invalid incident input''"
| "sentinel_text ErrInvalidTransition = ''invalid incident transition''"
| "sentinel_text ErrNotPending = ''approval is not pending''"
| "sentinel_text ErrInvalidRequest = ''invalid approval request''"
| "sentinel_text ErrExpired = ''approval expired''"
| "sentinel_text ErrResultUnknown = ''action result unknown''"
| "sentinel_text ErrMaxToolCalls = ''tool call count exceeds max''"
| "sentinel_text ErrPublishNotConfirmed = ''publish not confirmed by rabbitmq broker''"
| "sentinel_text ErrPublishUnroutable = ''publish unroutable: no queue bound to routing key''"
| "sentinel_text CtxCanceled = ''context canceled''"
| "sentinel_text CtxDeadlineExceeded = ''context deadline exceeded''"

text \<open>\<open>errors.Is\<close>, a bare sentinel, \<open>fmt.Errorf("%w: ...", sentinel)\<close>,
  \<open>fmt.Errorf("...%w", err)\<close>, a fresh error without sentinel, and \<open>errors.Join\<close>.\<close>

definition errIs :: "gerror \<Rightarrow> sentinel \<Rightarrow> bool" where
  "errIs e s = (s \<in> set (err_chain e))"

definition sentinel_err :: "sentinel \<Rightarrow> gerror" where
  "sentinel_err s = GErr [s] (sentinel_text s)"

definition wrap_sentinel :: "sentinel \<Rightarrow> string \<Rightarrow> gerror" where
  "wrap_sentinel s suffix = GErr [s] (sentinel_text s @ '': '' @ suffix)"

definition wrap_err :: "string \<Rightarrow> gerror \<Rightarrow> gerror" where
  "wrap_err prefix e = GErr (err_chain e) (prefix @ err_text e)"

definition plain_err :: "string \<Rightarrow> gerror" where
  "plain_err t = GErr [] t"

definition errors_join :: "gerror \<Rightarrow> gerror \<Rightarrow> gerror" where
  "errors_join e f = GErr (err_chain e @ err_chain f) (err_text e @ [CHR 0x0A] @ err_text f)"

lemma errIs_sentinel_err [simp]: "errIs (sentinel_err s) t = (t = s)"
  by (simp add: errIs_def sentinel_err_def)

lemma errIs_wrap_sentinel [simp]: "errIs (wrap_sentinel s x) t = (t = s)"
  by (simp add: errIs_def wrap_sentinel_def)

lemma errIs_wrap_err [simp]: "errIs (wrap_err p e) t = errIs e t"
  by (simp add: errIs_def wrap_err_def)

lemma errIs_plain_err [simp]: "\<not> errIs (plain_err x) t"
  by (simp add: errIs_def plain_err_def)

lemma errIs_join [simp]: "errIs (errors_join e f) t = (errIs e t \<or> errIs f t)"
  by (simp add: errIs_def errors_join_def)

section \<open>Contexts, clock and uuid readings\<close>

type_synonym time = int

text \<open>
  The part of a \<open>context.Context\<close> the code uses: whether it is done (and why), and the
  values put into it. \<open>without_cancel\<close> is \<open>context.WithoutCancel\<close> under a short
  timeout: values kept, cancellation dropped.
\<close>

record ctx =
  cx_err :: "gerror option"
  cx_run_id :: string
  cx_tool_call_id :: string
  cx_approval_id :: string

definition background :: ctx where
  "background = \<lparr>cx_err = None, cx_run_id = '''', cx_tool_call_id = '''', cx_approval_id = ''''\<rparr>"

definition without_cancel :: "ctx \<Rightarrow> ctx" where
  "without_cancel c = c\<lparr>cx_err := None\<rparr>"

text \<open>
  The values that \<open>time.Now()\<close> and \<open>uuid.NewString()\<close> return during one operation:
  \<open>clk f i\<close> is its i-th reading of the clock, \<open>uid f i\<close> the i-th uuid it draws.
  They are arguments of the operations, so a theorem holds whatever the clock and the
  generator (a third-party package) return. \<open>later m n f\<close> is what is left of them after
  m clock readings and n uuids.
\<close>

record fresh =
  clk :: "nat \<Rightarrow> time"
  uid :: "nat \<Rightarrow> string"

definition later :: "nat \<Rightarrow> nat \<Rightarrow> fresh \<Rightarrow> fresh" where
  "later m n f = \<lparr>clk = (\<lambda>i. clk f (m + i)), uid = (\<lambda>i. uid f (n + i))\<rparr>"

lemma clk_later [simp]: "clk (later m n f) i = clk f (m + i)"
  and uid_later [simp]: "uid (later m n f) i = uid f (n + i)"
  by (simp_all add: later_def)

section \<open>Decimal rendering\<close>

definition digit_char :: "nat \<Rightarrow> char" where
  "digit_char d = char_of (48 + d)"

fun dec_nat :: "nat \<Rightarrow> string" where
  "dec_nat n = (if n < 10 then [digit_char n] else dec_nat (n div 10) @ [digit_char (n mod 10)])"

declare dec_nat.simps [simp del]

definition dec_int :: "int \<Rightarrow> string" where
  "dec_int i = (if i < 0 then CHR ''-'' # dec_nat (nat (- i)) else dec_nat (nat i))"

definition utf8_bytes :: "nat list \<Rightarrow> string" where
  "utf8_bytes bs = map char_of bs"

lemma dec_nat_nonempty [simp]: "dec_nat n \<noteq> []"
  by (subst dec_nat.simps) simp

section \<open>Association lists\<close>

lemma map_of_update [simp]: "map_of (AList.update k v al) = (map_of al)(k \<mapsto> v)"
  by (rule ext) (simp add: update_conv)

lemma distinct_keys_update [simp]:
  "distinct (map fst al) \<Longrightarrow> distinct (map fst (AList.update k v al))"
  by (rule distinct_update)

text \<open>With distinct keys, membership of a pair and lookup are the same.\<close>

lemma map_of_set:
  "distinct (map fst al) \<Longrightarrow> (k, v) \<in> set al \<longleftrightarrow> map_of al k = Some v"
  by simp

lemma snd_set_map_of:
  assumes "distinct (map fst al)"
  shows "v \<in> snd ` set al \<longleftrightarrow> (\<exists>k. map_of al k = Some v)"
  using assms by (force simp flip: map_of_set)

end
