(* ===== verification/Incident_Model.thy ===== *)
theory Incident_Model
  imports Sha256
begin

text \<open>
  The domain model of \<open>internal/incident/model\<close>: incidents and their statuses, the audit
  events of their life cycle, agent runs with their steps, tool calls and evidences, and
  approvals. Go's string enumerations are datatypes with their wire strings beside them.
\<close>

section \<open>Incident status\<close>

datatype status =
    StatusOpen | StatusInvestigating | StatusNeedApproval | StatusWaitingApproval
  | StatusMitigating | StatusVerifying | StatusResolved | StatusFailed | StatusCancelled

fun status_string :: "status \<Rightarrow> string" where
  "status_string StatusOpen = ''OPEN''"
| "status_string StatusInvestigating = ''INVESTIGATING''"
| "status_string StatusNeedApproval = ''NEED_APPROVAL''"
| "status_string StatusWaitingApproval = ''WAITING_APPROVAL''"
| "status_string StatusMitigating = ''MITIGATING''"
| "status_string StatusVerifying = ''VERIFYING''"
| "status_string StatusResolved = ''RESOLVED''"
| "status_string StatusFailed = ''FAILED''"
| "status_string StatusCancelled = ''CANCELLED''"

definition all_statuses :: "status list" where
  "all_statuses = [StatusOpen, StatusInvestigating, StatusNeedApproval, StatusWaitingApproval,
     StatusMitigating, StatusVerifying, StatusResolved, StatusFailed, StatusCancelled]"

text \<open>\<open>Status\<close> is a Go string, so \<open>Valid\<close> decides which strings are one of the nine.\<close>

definition Valid :: "string \<Rightarrow> bool" where
  "Valid s = (s \<in> status_string ` set all_statuses)"

fun IsTerminal :: "status \<Rightarrow> bool" where
  "IsTerminal s = (s = StatusResolved \<or> s = StatusFailed \<or> s = StatusCancelled)"

declare IsTerminal.simps [simp del]

lemma IsTerminal_statuses [simp]:
  "\<not> IsTerminal StatusOpen" "\<not> IsTerminal StatusInvestigating" "\<not> IsTerminal StatusNeedApproval"
  "\<not> IsTerminal StatusWaitingApproval" "\<not> IsTerminal StatusMitigating" "\<not> IsTerminal StatusVerifying"
  "IsTerminal StatusResolved" "IsTerminal StatusFailed" "IsTerminal StatusCancelled"
  by (simp_all add: IsTerminal.simps)

lemma status_string_inj [simp]: "status_string s = status_string t \<longleftrightarrow> s = t"
  by (cases s; cases t) simp_all

lemma status_string_nonempty [simp]: "status_string s \<noteq> []"
  by (cases s) simp_all

section \<open>Incidents\<close>

datatype severity = SeverityCritical | SeverityHigh | SeverityMedium | SeverityLow

fun severity_string :: "severity \<Rightarrow> string" where
  "severity_string SeverityCritical = ''CRITICAL''"
| "severity_string SeverityHigh = ''HIGH''"
| "severity_string SeverityMedium = ''MEDIUM''"
| "severity_string SeverityLow = ''LOW''"

record incident =
  inc_ID :: string
  inc_Service :: string
  inc_Severity :: string
  inc_Title :: string
  inc_Description :: string
  inc_AlertName :: string
  inc_Fingerprint :: string
  inc_Status :: status
  inc_StartedAt :: time
  inc_ResolvedAt :: "time option"
  inc_CreatedAt :: time
  inc_UpdatedAt :: time
  inc_Version :: "64 word"

text \<open>The identity key: service, a NUL byte, then the alert name, or the title when there is no
  alert name.\<close>

definition fingerprint_key :: "string \<Rightarrow> string \<Rightarrow> string \<Rightarrow> string" where
  "fingerprint_key service alertName title =
     service @ [CHR 0x00] @ (if alertName \<noteq> '''' then alertName else title)"

definition Fingerprint :: "string \<Rightarrow> string \<Rightarrow> string \<Rightarrow> string" where
  "Fingerprint service alertName title =
     hex_EncodeToString (sha256_Sum256 (fingerprint_key service alertName title))"

lemma length_Fingerprint [simp]: "length (Fingerprint service alertName title) = 64"
  by (simp add: Fingerprint_def)

lemma Fingerprint_nonempty [simp]: "Fingerprint service alertName title \<noteq> []"
  using length_Fingerprint [of service alertName title] by fastforce

section \<open>Audit events\<close>

text \<open>JSON values as the code puts them into payloads (\<open>any\<close> holding a string, an integer or
  a Boolean); a payload is a Go map.\<close>

datatype gany = VStr string | VInt int | VBool bool

type_synonym payload = "string \<rightharpoonup> gany"

record incident_event =
  ev_ID :: string
  ev_IncidentID :: string
  ev_EventType :: string
  ev_Payload :: payload
  ev_CreatedAt :: time

definition EventIncidentCreated :: string where "EventIncidentCreated = ''INCIDENT_CREATED''"
definition EventStatusTransition :: string where "EventStatusTransition = ''STATUS_TRANSITION''"
definition EventActionCompleted :: string where "EventActionCompleted = ''ACTION_COMPLETED''"
definition EventActionFailed :: string where "EventActionFailed = ''ACTION_FAILED''"
definition EventVerificationFailed :: string where "EventVerificationFailed = ''VERIFICATION_FAILED''"
definition EventPostmortemGenerated :: string where "EventPostmortemGenerated = ''POSTMORTEM_GENERATED''"

lemmas event_type_defs = EventIncidentCreated_def EventStatusTransition_def EventActionCompleted_def
  EventActionFailed_def EventVerificationFailed_def EventPostmortemGenerated_def

text \<open>\<open>NewAuditEvent\<close>; a nil payload becomes the empty map. The uuid and the time are the
  values that \<open>uuid.NewString\<close> and \<open>time.Now\<close> return.\<close>

definition NewAuditEvent :: "string \<Rightarrow> string \<Rightarrow> payload option \<Rightarrow> string \<Rightarrow> time \<Rightarrow> incident_event" where
  "NewAuditEvent incidentID eventType pl u now =
     \<lparr>ev_ID = ''evt_'' @ u, ev_IncidentID = incidentID, ev_EventType = eventType,
      ev_Payload = (case pl of None \<Rightarrow> Map.empty | Some m \<Rightarrow> m), ev_CreatedAt = now\<rparr>"

text \<open>\<open>NewIncidentEvent\<close>: \<open>from\<close> and \<open>to\<close> always, \<open>reason\<close> and \<open>error\<close> only when
  not empty. The status before creation is the empty string, here \<open>None\<close>.\<close>

definition opt_status_string :: "status option \<Rightarrow> string" where
  "opt_status_string s = (case s of None \<Rightarrow> '''' | Some t \<Rightarrow> status_string t)"

definition NewIncidentEvent ::
  "string \<Rightarrow> string \<Rightarrow> status option \<Rightarrow> status \<Rightarrow> string \<Rightarrow> string \<Rightarrow> string \<Rightarrow> time \<Rightarrow> incident_event" where
  "NewIncidentEvent incidentID eventType frm to reason errMsg u now =
     (let p0 = [''from'' \<mapsto> VStr (opt_status_string frm), ''to'' \<mapsto> VStr (status_string to)];
          p1 = (if reason \<noteq> '''' then p0(''reason'' \<mapsto> VStr reason) else p0);
          p2 = (if errMsg \<noteq> '''' then p1(''error'' \<mapsto> VStr errMsg) else p1)
      in \<lparr>ev_ID = ''evt_'' @ u, ev_IncidentID = incidentID, ev_EventType = eventType,
          ev_Payload = p2, ev_CreatedAt = now\<rparr>)"

definition payloadString :: "payload \<Rightarrow> string \<Rightarrow> string" where
  "payloadString p key = (case p key of Some (VStr s) \<Rightarrow> s | _ \<Rightarrow> '''')"

definition StatusChange :: "incident_event \<Rightarrow> string \<times> string" where
  "StatusChange e = (payloadString (ev_Payload e) ''from'', payloadString (ev_Payload e) ''to'')"

definition ReasonText :: "incident_event \<Rightarrow> string" where
  "ReasonText e = (let r = payloadString (ev_Payload e) ''reason'' in
     if r \<noteq> '''' then r else payloadString (ev_Payload e) ''error'')"

lemma NewIncidentEvent_simps [simp]:
  "ev_ID (NewIncidentEvent i t f to r m u now) = ''evt_'' @ u"
  "ev_IncidentID (NewIncidentEvent i t f to r m u now) = i"
  "ev_EventType (NewIncidentEvent i t f to r m u now) = t"
  "ev_CreatedAt (NewIncidentEvent i t f to r m u now) = now"
  by (simp_all add: NewIncidentEvent_def Let_def)

lemma NewAuditEvent_simps [simp]:
  "ev_ID (NewAuditEvent i t p u now) = ''evt_'' @ u"
  "ev_IncidentID (NewAuditEvent i t p u now) = i"
  "ev_EventType (NewAuditEvent i t p u now) = t"
  "ev_CreatedAt (NewAuditEvent i t p u now) = now"
  "ev_Payload (NewAuditEvent i t (Some m) u now) = m"
  by (simp_all add: NewAuditEvent_def)

lemma StatusChange_New [simp]:
  "StatusChange (NewIncidentEvent i t f to r m u now) = (opt_status_string f, status_string to)"
  by (simp add: StatusChange_def NewIncidentEvent_def payloadString_def Let_def)

lemma ReasonText_New:
  "ReasonText (NewIncidentEvent i t f to r m u now) = (if r \<noteq> '''' then r else m)"
  by (simp add: ReasonText_def NewIncidentEvent_def payloadString_def Let_def)

section \<open>Agent runs\<close>

datatype run_status = RunRunning | RunCompleted | RunFailed | RunInterrupted

fun IsActive :: "run_status \<Rightarrow> bool" where
  "IsActive r = (r = RunRunning \<or> r = RunCompleted)"

declare IsActive.simps [simp del]

lemma IsActive_statuses [simp]:
  "IsActive RunRunning" "IsActive RunCompleted" "\<not> IsActive RunFailed" "\<not> IsActive RunInterrupted"
  by (simp_all add: IsActive.simps)

fun run_status_string :: "run_status \<Rightarrow> string" where
  "run_status_string RunRunning = ''RUNNING''"
| "run_status_string RunCompleted = ''COMPLETED''"
| "run_status_string RunFailed = ''FAILED''"
| "run_status_string RunInterrupted = ''INTERRUPTED''"

record agent_run =
  run_ID :: string
  run_IncidentID :: string
  run_AgentType :: string
  run_Status :: run_status
  run_Goal :: string
  run_CurrentStep :: int
  run_StartedAt :: time
  run_FinishedAt :: "time option"
  run_Error :: string

record agent_step =
  step_ID :: string
  step_RunID :: string
  step_StepIndex :: int
  step_Agent :: string
  step_Action :: string
  step_Status :: string
  step_Input :: string
  step_Output :: string
  step_Duration :: int

record tool_call =
  call_ID :: string
  call_RunID :: string
  call_ToolName :: string
  call_RiskLevel :: string
  call_Arguments :: string
  call_Result :: string
  call_Status :: string
  call_DurationMs :: int
  call_CreatedAt :: time

datatype evidence_type =
  EvidenceMetric | EvidenceLog | EvidenceRunbook | EvidenceHistory | EvidenceToolResult | EvidenceDeployment

record evidence =
  evd_ID :: string
  evd_RunID :: string
  evd_Type :: evidence_type
  evd_Source :: string
  evd_Content :: string
  evd_Metadata :: payload
  evd_CreatedAt :: time

section \<open>Approvals\<close>

datatype approval_status =
    ApprovalPending | ApprovalApproved | ApprovalExecuting | ApprovalExecuted
  | ApprovalFailed | ApprovalRejected | ApprovalExpired | ApprovalUnknown

fun approval_status_string :: "approval_status \<Rightarrow> string" where
  "approval_status_string ApprovalPending = ''PENDING''"
| "approval_status_string ApprovalApproved = ''APPROVED''"
| "approval_status_string ApprovalExecuting = ''EXECUTING''"
| "approval_status_string ApprovalExecuted = ''EXECUTED''"
| "approval_status_string ApprovalFailed = ''FAILED''"
| "approval_status_string ApprovalRejected = ''REJECTED''"
| "approval_status_string ApprovalExpired = ''EXPIRED''"
| "approval_status_string ApprovalUnknown = ''UNKNOWN''"

record approval =
  ap_ID :: string
  ap_IncidentID :: string
  ap_RunID :: string
  ap_ToolCallID :: string
  ap_Action :: string
  ap_Arguments :: string
  ap_Reason :: string
  ap_Status :: approval_status
  ap_ApprovedBy :: string
  ap_Result :: string
  ap_Error :: string
  ap_OperationID :: string
  ap_CreatedAt :: time
  ap_UpdatedAt :: time
  ap_ApprovedAt :: "time option"

end
