(* ===== verification/State_Machine.thy ===== *)
theory State_Machine
  imports Incident_Model
begin

text \<open>
  \<open>internal/incident/state_machine/transition.go\<close>: the transition table, the check of one
  transition, and the same machine as a step relation, over which the facts on whole
  histories (an incident reaches RESOLVED only through every stage, terminal statuses are
  final, every history is short) are rule inductions.
\<close>

fun AllowedTargets :: "status \<Rightarrow> status list" where
  "AllowedTargets StatusOpen = [StatusInvestigating, StatusFailed]"
| "AllowedTargets StatusInvestigating = [StatusWaitingApproval, StatusFailed]"
| "AllowedTargets StatusWaitingApproval = [StatusMitigating, StatusFailed]"
| "AllowedTargets StatusMitigating = [StatusVerifying, StatusFailed]"
| "AllowedTargets StatusVerifying = [StatusResolved, StatusFailed]"
| "AllowedTargets _ = []"

fun target_in :: "status \<Rightarrow> status list \<Rightarrow> bool" where
  "target_in next [] = False"
| "target_in next (t # ts) = (if t = next then True else target_in next ts)"

definition CanTransition :: "status \<Rightarrow> status \<Rightarrow> bool" where
  "CanTransition current next = target_in next (AllowedTargets current)"

definition TransitionError_text :: "status \<Rightarrow> status \<Rightarrow> string" where
  "TransitionError_text f t =
     ''invalid incident state transition: '' @ status_string f @ '' -> '' @ status_string t"

definition Transition :: "status \<Rightarrow> status \<Rightarrow> gerror option" where
  "Transition current next =
     (if CanTransition current next then None else Some (plain_err (TransitionError_text current next)))"

lemma target_in_set [simp]: "target_in n ts = (n \<in> set ts)"
  by (induction ts) auto

lemma Transition_None_iff [simp]: "Transition s t = None \<longleftrightarrow> CanTransition s t"
  by (simp add: Transition_def)

section \<open>The machine as a relation\<close>

inductive moves :: "status \<Rightarrow> status \<Rightarrow> bool" where
  open_investigating: "moves StatusOpen StatusInvestigating"
| investigating_waiting: "moves StatusInvestigating StatusWaitingApproval"
| waiting_mitigating: "moves StatusWaitingApproval StatusMitigating"
| mitigating_verifying: "moves StatusMitigating StatusVerifying"
| verifying_resolved: "moves StatusVerifying StatusResolved"
| fails: "s \<in> {StatusOpen, StatusInvestigating, StatusWaitingApproval, StatusMitigating, StatusVerifying}
    \<Longrightarrow> moves s StatusFailed"

code_pred moves .

inductive_cases moves_to_resolved: "moves s StatusResolved"
inductive_cases moves_to_verifying: "moves s StatusVerifying"
inductive_cases moves_to_mitigating: "moves s StatusMitigating"
inductive_cases moves_to_waiting: "moves s StatusWaitingApproval"
inductive_cases moves_to_investigating: "moves s StatusInvestigating"
inductive_cases moves_to_open: "moves s StatusOpen"

lemma CanTransition_moves: "CanTransition s t \<longleftrightarrow> moves s t"
  by (cases s; cases t) (auto simp: CanTransition_def intro: moves.intros elim: moves.cases)

text \<open>How far along the main flow a status is; every permitted move increases it.\<close>

fun stage :: "status \<Rightarrow> nat" where
  "stage StatusOpen = 0"
| "stage StatusInvestigating = 1"
| "stage StatusNeedApproval = 2"
| "stage StatusWaitingApproval = 2"
| "stage StatusMitigating = 3"
| "stage StatusVerifying = 4"
| "stage StatusResolved = 5"
| "stage StatusFailed = 5"
| "stage StatusCancelled = 5"

lemma moves_stage: "moves s t \<Longrightarrow> stage s < stage t"
  by (cases rule: moves.cases) auto

lemma moves_not_terminal: "moves s t \<Longrightarrow> \<not> IsTerminal s"
  by (cases rule: moves.cases) auto

lemma moves_cancelled: "\<not> moves s StatusCancelled" and moves_need: "\<not> moves s StatusNeedApproval"
  by (auto elim: moves.cases)

text \<open>A history is the list of statuses an incident takes, oldest first, starting at OPEN.\<close>

inductive history :: "status list \<Rightarrow> bool" where
  created: "history [StatusOpen]"
| moved: "history h \<Longrightarrow> CanTransition (last h) t \<Longrightarrow> history (h @ [t])"

lemma history_nonempty: "history h \<Longrightarrow> h \<noteq> []"
  by (cases rule: history.cases) auto

text \<open>Each reachable status determines the statuses before it, FAILED apart.\<close>

fun main_flow :: "status \<Rightarrow> status list" where
  "main_flow StatusOpen = [StatusOpen]"
| "main_flow StatusInvestigating = [StatusOpen, StatusInvestigating]"
| "main_flow StatusWaitingApproval = [StatusOpen, StatusInvestigating, StatusWaitingApproval]"
| "main_flow StatusMitigating = [StatusOpen, StatusInvestigating, StatusWaitingApproval, StatusMitigating]"
| "main_flow StatusVerifying =
     [StatusOpen, StatusInvestigating, StatusWaitingApproval, StatusMitigating, StatusVerifying]"
| "main_flow StatusResolved =
     [StatusOpen, StatusInvestigating, StatusWaitingApproval, StatusMitigating, StatusVerifying, StatusResolved]"
| "main_flow _ = []"

lemma history_main_flow:
  assumes "history h"
  shows "(last h \<noteq> StatusFailed \<and> h = main_flow (last h))
    \<or> (last h = StatusFailed \<and> butlast h \<noteq> [] \<and> last (butlast h) \<noteq> StatusFailed
        \<and> butlast h = main_flow (last (butlast h)))"
  using assms
proof (induction rule: history.induct)
  case created
  then show ?case by simp
next
  case (moved h t)
  from moved.hyps have mv: "moves (last h) t" and ne: "h \<noteq> []"
    by (auto simp: CanTransition_moves history_nonempty)
  then have "last h \<noteq> StatusFailed" by (auto dest: moves_not_terminal)
  with moved.IH have h: "h = main_flow (last h)" by simp
  from mv show ?case
  proof (cases rule: moves.cases)
    case fails
    with h ne \<open>last h \<noteq> StatusFailed\<close> show ?thesis by simp
  qed (use h in \<open>simp_all\<close>)
qed

end
