(* ===== verification/Repo_Interface.thy ===== *)
theory Repo_Interface
  imports State_Machine
begin

text \<open>
  The persistence interfaces of \<open>internal/incident/repository\<close>. A Go interface is a record
  of operations on a state \<open>'w\<close>, so the services take any implementation; what
  \<open>repository.go\<close> and \<open>approval_repository.go\<close> promise of an implementation are the
  assumptions of the locales. An operation may fail for a reason of its own (a lost connection,
  a cancelled context): the contracts then promise that nothing was written.
\<close>

section \<open>Operations\<close>

record list_filter =
  lf_Service :: string
  lf_Status :: string
  lf_Limit :: int
  lf_Offset :: int

text \<open>
  Updates take a pointer and advance its version on success, so they return the incident the
  caller holds afterwards. A slice of event pointers may hold nil.
\<close>

record 'w incident_repo =
  ir_CreateWithEvent :: "ctx \<Rightarrow> incident \<Rightarrow> incident_event option \<Rightarrow> 'w \<Rightarrow> gerror option \<times> 'w"
  ir_GetByID :: "ctx \<Rightarrow> string \<Rightarrow> 'w \<Rightarrow> gerror + incident"
  ir_GetByFingerprint :: "ctx \<Rightarrow> string \<Rightarrow> 'w \<Rightarrow> gerror + incident"
  ir_GetActiveByFingerprint :: "ctx \<Rightarrow> string \<Rightarrow> 'w \<Rightarrow> gerror + incident"
  ir_List :: "ctx \<Rightarrow> list_filter \<Rightarrow> 'w \<Rightarrow> gerror + incident list"
  ir_UpdateWithEvent :: "ctx \<Rightarrow> incident \<Rightarrow> incident_event option \<Rightarrow> 'w \<Rightarrow> (gerror + incident) \<times> 'w"
  ir_UpdateWithEvents :: "ctx \<Rightarrow> incident \<Rightarrow> incident_event option list \<Rightarrow> 'w \<Rightarrow> (gerror + incident) \<times> 'w"
  ir_ListEvents :: "ctx \<Rightarrow> string \<Rightarrow> 'w \<Rightarrow> gerror + incident_event list"

record 'w approval_repo =
  ar_Create :: "ctx \<Rightarrow> approval \<Rightarrow> 'w \<Rightarrow> gerror option \<times> 'w"
  ar_Get :: "ctx \<Rightarrow> string \<Rightarrow> 'w \<Rightarrow> gerror + approval"
  ar_ListByRun :: "ctx \<Rightarrow> string \<Rightarrow> 'w \<Rightarrow> gerror + approval list"
  ar_ListPending :: "ctx \<Rightarrow> 'w \<Rightarrow> gerror + approval list"
  ar_TransitionStatus :: "ctx \<Rightarrow> string \<Rightarrow> approval_status \<Rightarrow> approval_status \<Rightarrow> (approval \<Rightarrow> approval)
    \<Rightarrow> time \<Rightarrow> 'w \<Rightarrow> (gerror + approval) \<times> 'w"
  ar_ExpirePendingByIncident :: "ctx \<Rightarrow> string \<Rightarrow> fresh \<Rightarrow> 'w \<Rightarrow> (gerror + int) \<times> 'w"

record 'w run_repo =
  rr_CreateRun :: "ctx \<Rightarrow> agent_run \<Rightarrow> 'w \<Rightarrow> gerror option \<times> 'w"
  rr_UpdateRun :: "ctx \<Rightarrow> agent_run \<Rightarrow> 'w \<Rightarrow> gerror option \<times> 'w"
  rr_GetRun :: "ctx \<Rightarrow> string \<Rightarrow> 'w \<Rightarrow> gerror + agent_run"
  rr_ListRunsByIncident :: "ctx \<Rightarrow> string \<Rightarrow> 'w \<Rightarrow> gerror + agent_run list"
  rr_AddStep :: "ctx \<Rightarrow> agent_step \<Rightarrow> 'w \<Rightarrow> gerror option \<times> 'w"
  rr_ListSteps :: "ctx \<Rightarrow> string \<Rightarrow> 'w \<Rightarrow> gerror + agent_step list"
  rr_AddToolCall :: "ctx \<Rightarrow> tool_call \<Rightarrow> 'w \<Rightarrow> gerror option \<times> 'w"
  rr_UpdateToolCall :: "ctx \<Rightarrow> tool_call \<Rightarrow> 'w \<Rightarrow> gerror option \<times> 'w"
  rr_ListToolCalls :: "ctx \<Rightarrow> string \<Rightarrow> 'w \<Rightarrow> gerror + tool_call list"
  rr_AddEvidence :: "ctx \<Rightarrow> evidence \<Rightarrow> 'w \<Rightarrow> gerror option \<times> 'w"
  rr_ListEvidences :: "ctx \<Rightarrow> string \<Rightarrow> 'w \<Rightarrow> gerror + evidence list"

section \<open>Contracts\<close>

text \<open>
  What an update may change: the four columns that the state machine writes. An update of an
  incident that was read, with only these changed, means the same to every implementation.
\<close>

definition same_identity :: "incident \<Rightarrow> incident \<Rightarrow> bool" where
  "same_identity cur inc =
     (inc = cur\<lparr>inc_Status := inc_Status inc, inc_ResolvedAt := inc_ResolvedAt inc,
                inc_UpdatedAt := inc_UpdatedAt inc, inc_Version := inc_Version inc\<rparr>)"

definition bump_version :: "incident \<Rightarrow> incident" where
  "bump_version inc = inc\<lparr>inc_Version := inc_Version inc + 1\<rparr>"

definition events_of :: "string \<Rightarrow> incident_event list \<Rightarrow> incident_event list" where
  "events_of i evs = filter (\<lambda>e. ev_IncidentID e = i) evs"

definition some_events :: "incident_event option list \<Rightarrow> incident_event list" where
  "some_events evs = concat (map (case_option [] (\<lambda>e. [e])) evs)"

lemma same_identity_refl [simp]: "same_identity inc inc"
  by (simp add: same_identity_def)

lemma same_identityD:
  "same_identity cur inc \<Longrightarrow> inc_ID inc = inc_ID cur \<and> inc_Fingerprint inc = inc_Fingerprint cur
    \<and> inc_Service inc = inc_Service cur \<and> inc_Title inc = inc_Title cur
    \<and> inc_Description inc = inc_Description cur \<and> inc_AlertName inc = inc_AlertName cur
    \<and> inc_Severity inc = inc_Severity cur
    \<and> inc_CreatedAt inc = inc_CreatedAt cur \<and> inc_StartedAt inc = inc_StartedAt cur"
  by (cases cur; cases inc) (simp add: same_identity_def)

lemma bump_version_simps [simp]:
  "inc_ID (bump_version inc) = inc_ID inc" "inc_Status (bump_version inc) = inc_Status inc"
  "inc_Fingerprint (bump_version inc) = inc_Fingerprint inc"
  "inc_Version (bump_version inc) = inc_Version inc + 1"
  "inc_CreatedAt (bump_version inc) = inc_CreatedAt inc"
  "inc_ResolvedAt (bump_version inc) = inc_ResolvedAt inc"
  "inc_StartedAt (bump_version inc) = inc_StartedAt inc"
  by (simp_all add: bump_version_def)

lemma some_events_simps [simp]:
  "some_events [] = []" "some_events (None # es) = some_events es"
  "some_events (Some e # es) = e # some_events es"
  by (simp_all add: some_events_def)

text \<open>
  \<open>istored w\<close> is the incident table, \<open>ijournal w i\<close> the audit events of incident \<open>i\<close> in the
  order written, \<open>iframe w\<close> everything else. The unique index of
  \<open>migrations/000004\<close> is part of the invariant: two open incidents never share a
  (nonempty) fingerprint.
\<close>

locale incident_repository =
  fixes repo :: "'w incident_repo"
    and istored :: "'w \<Rightarrow> string \<Rightarrow> incident option"
    and ijournal :: "'w \<Rightarrow> string \<Rightarrow> incident_event list"
    and iinv :: "'w \<Rightarrow> bool"
    and iframe :: "'w \<Rightarrow> 'f"
  assumes key_id: "iinv w \<Longrightarrow> istored w i = Some inc \<Longrightarrow> inc_ID inc = i"
    and unique_active: "iinv w \<Longrightarrow> istored w i = Some inc \<Longrightarrow> istored w j = Some inc'
      \<Longrightarrow> inc_Fingerprint inc = inc_Fingerprint inc' \<Longrightarrow> inc_Fingerprint inc \<noteq> ''''
      \<Longrightarrow> \<not> IsTerminal (inc_Status inc) \<Longrightarrow> \<not> IsTerminal (inc_Status inc') \<Longrightarrow> i = j"
    and get_ok: "iinv w \<Longrightarrow> ir_GetByID repo c i w = Inr inc \<Longrightarrow> istored w i = Some inc"
    and get_notfound: "iinv w \<Longrightarrow> ir_GetByID repo c i w = Inl e \<Longrightarrow> errIs e ErrNotFound \<Longrightarrow> istored w i = None"
    and active_ok: "iinv w \<Longrightarrow> ir_GetActiveByFingerprint repo c fp w = Inr inc
      \<Longrightarrow> istored w (inc_ID inc) = Some inc \<and> inc_Fingerprint inc = fp \<and> \<not> IsTerminal (inc_Status inc)"
    and active_notfound: "iinv w \<Longrightarrow> ir_GetActiveByFingerprint repo c fp w = Inl e \<Longrightarrow> errIs e ErrNotFound
      \<Longrightarrow> istored w i = Some inc \<Longrightarrow> inc_Fingerprint inc = fp \<Longrightarrow> IsTerminal (inc_Status inc)"
    and latest_ok: "iinv w \<Longrightarrow> ir_GetByFingerprint repo c fp w = Inr inc
      \<Longrightarrow> istored w (inc_ID inc) = Some inc \<and> inc_Fingerprint inc = fp
        \<and> (\<forall>j inc'. istored w j = Some inc' \<longrightarrow> inc_Fingerprint inc' = fp \<longrightarrow> inc_CreatedAt inc' \<le> inc_CreatedAt inc)"
    and latest_notfound: "iinv w \<Longrightarrow> ir_GetByFingerprint repo c fp w = Inl e \<Longrightarrow> errIs e ErrNotFound
      \<Longrightarrow> istored w i = Some inc \<Longrightarrow> inc_Fingerprint inc \<noteq> fp"
    and create_ok: "iinv w \<Longrightarrow> ir_CreateWithEvent repo c inc ev w = (None, w')
      \<Longrightarrow> istored w (inc_ID inc) = None \<and> istored w' = (istored w)(inc_ID inc \<mapsto> inc)
        \<and> ijournal w' = (\<lambda>i. ijournal w i @ events_of i (some_events [ev]))
        \<and> iframe w' = iframe w \<and> iinv w'"
    and create_err: "iinv w \<Longrightarrow> ir_CreateWithEvent repo c inc ev w = (Some e, w')
      \<Longrightarrow> istored w' = istored w \<and> ijournal w' = ijournal w \<and> iframe w' = iframe w \<and> iinv w'"
    and update_ok: "iinv w \<Longrightarrow> ir_UpdateWithEvents repo c inc evs w = (Inr inc', w')
      \<Longrightarrow> \<exists>cur. istored w (inc_ID inc) = Some cur \<and> inc_Version cur = inc_Version inc
        \<and> (same_identity cur inc \<longrightarrow> (IsTerminal (inc_Status cur) \<longrightarrow> IsTerminal (inc_Status inc))
           \<longrightarrow> inc' = bump_version inc \<and> istored w' = (istored w)(inc_ID inc \<mapsto> inc')
             \<and> ijournal w' = (\<lambda>i. ijournal w i @ events_of i (some_events evs))
             \<and> iframe w' = iframe w \<and> iinv w')"
    and update_err: "iinv w \<Longrightarrow> ir_UpdateWithEvents repo c inc evs w = (Inl e, w')
      \<Longrightarrow> istored w' = istored w \<and> ijournal w' = ijournal w \<and> iframe w' = iframe w \<and> iinv w'"
    and update_conflict: "iinv w \<Longrightarrow> istored w (inc_ID inc) = Some cur \<Longrightarrow> inc_Version cur \<noteq> inc_Version inc
      \<Longrightarrow> \<exists>e. fst (ir_UpdateWithEvents repo c inc evs w) = Inl e"
    and update_one: "ir_UpdateWithEvent repo c inc ev w = ir_UpdateWithEvents repo c inc [ev] w"

text \<open>
  The approval table: statuses change only through the compare-and-set
  \<open>TransitionStatus\<close> and through \<open>ExpirePendingByIncident\<close>.
\<close>

locale approval_repository =
  fixes arepo :: "'w approval_repo"
    and astored :: "'w \<Rightarrow> string \<Rightarrow> approval option"
    and ainv :: "'w \<Rightarrow> bool"
    and aframe :: "'w \<Rightarrow> 'g"
  assumes akey: "ainv w \<Longrightarrow> astored w i = Some a \<Longrightarrow> ap_ID a = i"
    and aget_ok: "ainv w \<Longrightarrow> ar_Get arepo c i w = Inr a \<Longrightarrow> astored w i = Some a"
    and acreate_ok: "ainv w \<Longrightarrow> ar_Create arepo c a w = (None, w')
      \<Longrightarrow> astored w (ap_ID a) = None \<and> astored w' = (astored w)(ap_ID a \<mapsto> a)
        \<and> aframe w' = aframe w \<and> ainv w'"
    and acreate_err: "ainv w \<Longrightarrow> ar_Create arepo c a w = (Some e, w')
      \<Longrightarrow> astored w' = astored w \<and> aframe w' = aframe w \<and> ainv w'"
    and cas_ok: "ainv w \<Longrightarrow> ar_TransitionStatus arepo c i frm to m now w = (Inr a, w')
      \<Longrightarrow> (\<And>x. ap_ID (m x) = ap_ID x)
      \<Longrightarrow> \<exists>cur. astored w i = Some cur \<and> ap_Status cur = frm
        \<and> a = m (cur\<lparr>ap_Status := to, ap_UpdatedAt := now\<rparr>)
        \<and> astored w' = (astored w)(i \<mapsto> a) \<and> aframe w' = aframe w \<and> ainv w'"
    and cas_err: "ainv w \<Longrightarrow> ar_TransitionStatus arepo c i frm to m now w = (Inl e, w')
      \<Longrightarrow> astored w' = astored w \<and> aframe w' = aframe w \<and> ainv w'"
    and cas_conflict: "ainv w \<Longrightarrow> ar_TransitionStatus arepo c i frm to m now w = (Inl e, w')
      \<Longrightarrow> errIs e ErrConflict \<Longrightarrow> astored w i = Some cur \<Longrightarrow> ap_Status cur \<noteq> frm"
    and expire_ok: "ainv w \<Longrightarrow> ar_ExpirePendingByIncident arepo c inc f w = (Inr n, w')
      \<Longrightarrow> inc \<noteq> '''' \<Longrightarrow> astored w i = Some a
      \<Longrightarrow> \<exists>a'. astored w' i = Some a'
        \<and> (if ap_IncidentID a = inc \<and> ap_Status a = ApprovalPending
            then \<exists>why t. a' = a\<lparr>ap_Status := ApprovalExpired, ap_Error := why, ap_UpdatedAt := t\<rparr>
            else a' = a)"
    and expire_new: "ainv w \<Longrightarrow> ar_ExpirePendingByIncident arepo c inc f w = (r, w')
      \<Longrightarrow> astored w i = None \<Longrightarrow> astored w' i = None"
    and expire_frame: "ainv w \<Longrightarrow> ar_ExpirePendingByIncident arepo c inc f w = (r, w')
      \<Longrightarrow> aframe w' = aframe w \<and> ainv w'"
    and expire_err: "ainv w \<Longrightarrow> ar_ExpirePendingByIncident arepo c inc f w = (Inl e, w')
      \<Longrightarrow> astored w' = astored w"

end
