(* ===== verification/Run_Repo.thy ===== *)
theory Run_Repo
  imports Repo_Interface "HOL-Library.Char_ord" "HOL-Library.List_Lexorder" "HOL-Library.Product_Lexorder"
begin

text \<open>
  \<open>internal/incident/repository/run_memory.go\<close>: the in-memory repository of agent runs with
  their steps, tool calls and evidences. At most one run of an incident is RUNNING or COMPLETED,
  which is what makes the consumption of duplicated messages idempotent.
\<close>

record mem_runs =
  mr_runs :: "(string \<times> agent_run) list"
  mr_steps :: "string \<Rightarrow> agent_step list"
  mr_calls :: "string \<Rightarrow> tool_call list"
  mr_evids :: "string \<Rightarrow> evidence list"

definition NewMemoryRun :: mem_runs where
  "NewMemoryRun = \<lparr>mr_runs = [], mr_steps = (\<lambda>_. []), mr_calls = (\<lambda>_. []), mr_evids = (\<lambda>_. [])\<rparr>"

section \<open>Operations\<close>

definition memr_CreateRun :: "ctx \<Rightarrow> agent_run \<Rightarrow> mem_runs \<Rightarrow> gerror option \<times> mem_runs" where
  "memr_CreateRun c run m =
     (case map_of (mr_runs m) (run_ID run) of
        Some _ \<Rightarrow> (Some (sentinel_err ErrConflict), m)
      | None \<Rightarrow>
          if list_ex (\<lambda>(_, existing). run_IncidentID existing = run_IncidentID run
                       \<and> IsActive (run_Status existing)) (mr_runs m)
          then (Some (sentinel_err ErrConflict), m)
          else (None, m\<lparr>mr_runs := AList.update (run_ID run) run (mr_runs m)\<rparr>))"

definition memr_UpdateRun :: "ctx \<Rightarrow> agent_run \<Rightarrow> mem_runs \<Rightarrow> gerror option \<times> mem_runs" where
  "memr_UpdateRun c run m =
     (case map_of (mr_runs m) (run_ID run) of
        None \<Rightarrow> (Some (sentinel_err ErrNotFound), m)
      | Some _ \<Rightarrow>
          if IsActive (run_Status run) \<and>
             list_ex (\<lambda>(_, existing). run_ID existing \<noteq> run_ID run
                       \<and> run_IncidentID existing = run_IncidentID run
                       \<and> IsActive (run_Status existing)) (mr_runs m)
          then (Some (sentinel_err ErrConflict), m)
          else (None, m\<lparr>mr_runs := AList.update (run_ID run) run (mr_runs m)\<rparr>))"

definition memr_GetRun :: "ctx \<Rightarrow> string \<Rightarrow> mem_runs \<Rightarrow> gerror + agent_run" where
  "memr_GetRun c i m =
     (case map_of (mr_runs m) i of None \<Rightarrow> Inl (sentinel_err ErrNotFound) | Some run \<Rightarrow> Inr run)"

text \<open>Newest first, ties by id.\<close>

definition memr_ListRunsByIncident :: "ctx \<Rightarrow> string \<Rightarrow> mem_runs \<Rightarrow> gerror + agent_run list" where
  "memr_ListRunsByIncident c incidentID m =
     Inr (sort_key (\<lambda>r. (- run_StartedAt r, run_ID r))
            (filter (\<lambda>r. run_IncidentID r = incidentID) (map snd (mr_runs m))))"

definition memr_AddStep :: "ctx \<Rightarrow> agent_step \<Rightarrow> mem_runs \<Rightarrow> gerror option \<times> mem_runs" where
  "memr_AddStep c s m =
     (None, m\<lparr>mr_steps := (mr_steps m)(step_RunID s := mr_steps m (step_RunID s) @ [s])\<rparr>)"

definition memr_ListSteps :: "ctx \<Rightarrow> string \<Rightarrow> mem_runs \<Rightarrow> gerror + agent_step list" where
  "memr_ListSteps c runID m = Inr (sort_key step_StepIndex (mr_steps m runID))"

definition memr_AddToolCall :: "ctx \<Rightarrow> tool_call \<Rightarrow> mem_runs \<Rightarrow> gerror option \<times> mem_runs" where
  "memr_AddToolCall c call m =
     (None, m\<lparr>mr_calls := (mr_calls m)(call_RunID call := mr_calls m (call_RunID call) @ [call])\<rparr>)"

text \<open>Only the first record with the id is completed, and only its result fields.\<close>

fun complete_call :: "tool_call \<Rightarrow> tool_call list \<Rightarrow> tool_call list option" where
  "complete_call call [] = None"
| "complete_call call (existing # rest) =
     (if call_ID existing \<noteq> call_ID call then map_option ((#) existing) (complete_call call rest)
      else Some (existing\<lparr>call_Result := call_Result call, call_Status := call_Status call,
                          call_DurationMs := call_DurationMs call\<rparr> # rest))"

definition memr_UpdateToolCall :: "ctx \<Rightarrow> tool_call \<Rightarrow> mem_runs \<Rightarrow> gerror option \<times> mem_runs" where
  "memr_UpdateToolCall c call m =
     (case complete_call call (mr_calls m (call_RunID call)) of
        None \<Rightarrow> (Some (sentinel_err ErrNotFound), m)
      | Some cs \<Rightarrow> (None, m\<lparr>mr_calls := (mr_calls m)(call_RunID call := cs)\<rparr>))"

definition memr_ListToolCalls :: "ctx \<Rightarrow> string \<Rightarrow> mem_runs \<Rightarrow> gerror + tool_call list" where
  "memr_ListToolCalls c runID m =
     Inr (sort_key (\<lambda>x. (call_CreatedAt x, call_ID x)) (mr_calls m runID))"

definition memr_AddEvidence :: "ctx \<Rightarrow> evidence \<Rightarrow> mem_runs \<Rightarrow> gerror option \<times> mem_runs" where
  "memr_AddEvidence c e m =
     (None, m\<lparr>mr_evids := (mr_evids m)(evd_RunID e := mr_evids m (evd_RunID e) @ [e])\<rparr>)"

definition memr_ListEvidences :: "ctx \<Rightarrow> string \<Rightarrow> mem_runs \<Rightarrow> gerror + evidence list" where
  "memr_ListEvidences c runID m = Inr (sort_key evd_CreatedAt (mr_evids m runID))"

definition memory_run_repo :: "mem_runs run_repo" where
  "memory_run_repo = \<lparr>rr_CreateRun = memr_CreateRun, rr_UpdateRun = memr_UpdateRun, rr_GetRun = memr_GetRun,
     rr_ListRunsByIncident = memr_ListRunsByIncident, rr_AddStep = memr_AddStep, rr_ListSteps = memr_ListSteps,
     rr_AddToolCall = memr_AddToolCall, rr_UpdateToolCall = memr_UpdateToolCall,
     rr_ListToolCalls = memr_ListToolCalls, rr_AddEvidence = memr_AddEvidence,
     rr_ListEvidences = memr_ListEvidences\<rparr>"

section \<open>The contract\<close>

text \<open>What the callers of a run repository rely on: one active run for each incident, an
  insertion that fails rather than make a second one, and tool calls that exist once added.\<close>

locale run_repository =
  fixes rrepo :: "'w run_repo"
    and rstored :: "'w \<Rightarrow> string \<Rightarrow> agent_run option"
    and rcalls :: "'w \<Rightarrow> string \<Rightarrow> string list"
    and rinv :: "'w \<Rightarrow> bool"
    and rframe :: "'w \<Rightarrow> 'h"
  assumes rkey: "rinv w \<Longrightarrow> rstored w i = Some r \<Longrightarrow> run_ID r = i"
    and one_active: "rinv w \<Longrightarrow> rstored w i = Some r \<Longrightarrow> rstored w j = Some s
      \<Longrightarrow> run_IncidentID r = run_IncidentID s \<Longrightarrow> IsActive (run_Status r) \<Longrightarrow> IsActive (run_Status s) \<Longrightarrow> i = j"
    and rget_ok: "rinv w \<Longrightarrow> rr_GetRun rrepo c i w = Inr r \<Longrightarrow> rstored w i = Some r"
    and rlist_ok: "rinv w \<Longrightarrow> rr_ListRunsByIncident rrepo c inc w = Inr rs
      \<Longrightarrow> set rs = {r. \<exists>i. rstored w i = Some r \<and> run_IncidentID r = inc}"
    and rcreate_ok: "rinv w \<Longrightarrow> rr_CreateRun rrepo c r w = (None, w')
      \<Longrightarrow> rstored w (run_ID r) = None
        \<and> (\<forall>i s. rstored w i = Some s \<longrightarrow> run_IncidentID s = run_IncidentID r \<longrightarrow> \<not> IsActive (run_Status s))
        \<and> rstored w' = (rstored w)(run_ID r \<mapsto> r) \<and> rcalls w' = rcalls w \<and> rframe w' = rframe w \<and> rinv w'"
    and rcreate_err: "rinv w \<Longrightarrow> rr_CreateRun rrepo c r w = (Some e, w')
      \<Longrightarrow> rstored w' = rstored w \<and> rcalls w' = rcalls w \<and> rframe w' = rframe w \<and> rinv w'"
    and rupdate_ok: "rinv w \<Longrightarrow> rr_UpdateRun rrepo c r w = (None, w')
      \<Longrightarrow> rstored w (run_ID r) \<noteq> None \<and> rstored w' = (rstored w)(run_ID r \<mapsto> r)
        \<and> rcalls w' = rcalls w \<and> rframe w' = rframe w \<and> rinv w'"
    and rupdate_err: "rinv w \<Longrightarrow> rr_UpdateRun rrepo c r w = (Some e, w')
      \<Longrightarrow> rstored w' = rstored w \<and> rcalls w' = rcalls w \<and> rframe w' = rframe w \<and> rinv w'"
    and rstep_frame: "rinv w \<Longrightarrow> rr_AddStep rrepo c stp w = (x, w')
      \<Longrightarrow> rstored w' = rstored w \<and> rcalls w' = rcalls w \<and> rframe w' = rframe w \<and> rinv w'"
    and rcall_ok: "rinv w \<Longrightarrow> rr_AddToolCall rrepo c call w = (None, w')
      \<Longrightarrow> rcalls w' = (rcalls w)(call_RunID call := rcalls w (call_RunID call) @ [call_ID call])
        \<and> rstored w' = rstored w \<and> rframe w' = rframe w \<and> rinv w'"
    and rcall_err: "rinv w \<Longrightarrow> rr_AddToolCall rrepo c call w = (Some e, w')
      \<Longrightarrow> rcalls w' = rcalls w \<and> rstored w' = rstored w \<and> rframe w' = rframe w \<and> rinv w'"
    and rcomplete_frame: "rinv w \<Longrightarrow> rr_UpdateToolCall rrepo c call w = (x, w')
      \<Longrightarrow> rcalls w' = rcalls w \<and> rstored w' = rstored w \<and> rframe w' = rframe w \<and> rinv w'"

definition memr_stored :: "mem_runs \<Rightarrow> string \<Rightarrow> agent_run option" where
  "memr_stored m = map_of (mr_runs m)"

definition memr_calls :: "mem_runs \<Rightarrow> string \<Rightarrow> string list" where
  "memr_calls m = (\<lambda>r. map call_ID (mr_calls m r))"

definition one_active_run :: "(string \<Rightarrow> agent_run option) \<Rightarrow> bool" where
  "one_active_run t = (\<forall>i j r s. t i = Some r \<longrightarrow> t j = Some s \<longrightarrow> run_IncidentID r = run_IncidentID s
     \<longrightarrow> IsActive (run_Status r) \<longrightarrow> IsActive (run_Status s) \<longrightarrow> i = j)"

definition memr_inv :: "mem_runs \<Rightarrow> bool" where
  "memr_inv m = (distinct (map fst (mr_runs m)) \<and> (\<forall>i r. memr_stored m i = Some r \<longrightarrow> run_ID r = i)
     \<and> one_active_run (memr_stored m))"

lemma NewMemoryRun_inv: "memr_inv NewMemoryRun"
  by (simp add: memr_inv_def NewMemoryRun_def memr_stored_def one_active_run_def)

lemma complete_call_ids: "complete_call call cs = Some cs' \<Longrightarrow> map call_ID cs' = map call_ID cs"
  by (induction call cs arbitrary: cs' rule: complete_call.induct) (auto split: if_splits)

lemma list_ex_runs:
  assumes "distinct (map fst al)"
  shows "list_ex (\<lambda>(_, x). P x) al \<longleftrightarrow> (\<exists>k x. map_of al k = Some x \<and> P x)"
proof -
  have "list_ex (\<lambda>(_, x). P x) al \<longleftrightarrow> (\<exists>k x. (k, x) \<in> set al \<and> P x)"
    by (auto simp: list_ex_iff)
  with assms show ?thesis by simp
qed

lemma memr_put_inv:
  assumes "memr_inv m"
    and "IsActive (run_Status r) \<Longrightarrow> \<forall>k s. memr_stored m k = Some s \<longrightarrow> k \<noteq> run_ID r
      \<longrightarrow> run_IncidentID s = run_IncidentID r \<longrightarrow> \<not> IsActive (run_Status s)"
  shows "memr_inv (m\<lparr>mr_runs := AList.update (run_ID r) r (mr_runs m)\<rparr>)"
proof -
  have "one_active_run ((memr_stored m)(run_ID r \<mapsto> r))"
    using assms unfolding memr_inv_def one_active_run_def by (auto split: if_splits)
  with assms(1) show ?thesis by (auto simp: memr_inv_def memr_stored_def distinct_update)
qed

lemma memr_create_inv:
  assumes "memr_inv m"
    and "\<not> list_ex (\<lambda>(_, x). run_IncidentID x = run_IncidentID r \<and> IsActive (run_Status x)) (mr_runs m)"
  shows "memr_inv (m\<lparr>mr_runs := AList.update (run_ID r) r (mr_runs m)\<rparr>)
    \<and> (\<forall>i s. memr_stored m i = Some s \<longrightarrow> run_IncidentID s = run_IncidentID r \<longrightarrow> \<not> IsActive (run_Status s))"
proof -
  have "distinct (map fst (mr_runs m))" using assms(1) by (simp add: memr_inv_def)
  with assms(2) have no: "\<forall>i s. memr_stored m i = Some s \<longrightarrow> run_IncidentID s = run_IncidentID r
      \<longrightarrow> \<not> IsActive (run_Status s)"
    by (auto simp: list_ex_runs memr_stored_def)
  then show ?thesis using memr_put_inv [OF assms(1)] by blast
qed

lemma memr_update_inv:
  assumes "memr_inv m"
    and "\<not> (IsActive (run_Status r) \<and> list_ex (\<lambda>(_, x). run_ID x \<noteq> run_ID r
          \<and> run_IncidentID x = run_IncidentID r \<and> IsActive (run_Status x)) (mr_runs m))"
  shows "memr_inv (m\<lparr>mr_runs := AList.update (run_ID r) r (mr_runs m)\<rparr>)"
proof (rule memr_put_inv [OF assms(1)])
  assume "IsActive (run_Status r)"
  moreover have "distinct (map fst (mr_runs m))" using assms(1) by (simp add: memr_inv_def)
  ultimately show "\<forall>k s. memr_stored m k = Some s \<longrightarrow> k \<noteq> run_ID r
      \<longrightarrow> run_IncidentID s = run_IncidentID r \<longrightarrow> \<not> IsActive (run_Status s)"
    using assms by (auto simp: list_ex_runs memr_stored_def memr_inv_def)
qed

lemma memr_frames [simp]:
  "memr_stored (m\<lparr>mr_steps := x\<rparr>) = memr_stored m" "memr_stored (m\<lparr>mr_calls := y\<rparr>) = memr_stored m"
  "memr_calls (m\<lparr>mr_steps := x\<rparr>) = memr_calls m" "memr_calls (m\<lparr>mr_runs := z\<rparr>) = memr_calls m"
  "memr_inv (m\<lparr>mr_steps := x\<rparr>) = memr_inv m" "memr_inv (m\<lparr>mr_calls := y\<rparr>) = memr_inv m"
  "memr_stored (m\<lparr>mr_runs := z\<rparr>) = map_of z"
  by (simp_all add: memr_stored_def memr_calls_def memr_inv_def)

lemmas memr_ops = memory_run_repo_def memr_CreateRun_def memr_UpdateRun_def memr_GetRun_def
  memr_AddStep_def memr_AddToolCall_def memr_UpdateToolCall_def memr_ListRunsByIncident_def

interpretation memr: run_repository memory_run_repo memr_stored memr_calls memr_inv "\<lambda>_. ()"
proof (unfold_locales, goal_cases)
  case (1 w i r) then show ?case by (simp add: memr_inv_def)
next
  case (2 w i r j s) then show ?case by (auto simp: memr_inv_def one_active_run_def)
next
  case (3 w c i r) then show ?case by (simp add: memr_ops memr_stored_def split: option.splits)
next
  case (4 w c inc rs)
  then have "distinct (map fst (mr_runs w))" "set rs = {r \<in> snd ` set (mr_runs w). run_IncidentID r = inc}"
    by (force simp: memr_ops memr_inv_def)+
  then show ?case by (auto simp: snd_set_map_of memr_stored_def)
next
  case (5 w c r w')
  then show ?case
    using memr_create_inv [of w r] by (auto simp: memr_ops memr_stored_def split: option.splits if_splits)
next
  case (6 w c r e w') then show ?case by (auto simp: memr_ops split: option.splits if_splits)
next
  case (7 w c r w')
  then show ?case
    using memr_update_inv [of w r]
    by (auto simp: memr_ops memr_stored_def split: option.splits if_splits)
next
  case (8 w c r e w') then show ?case by (auto simp: memr_ops split: option.splits if_splits)
next
  case (9 w c s x w') then show ?case by (auto simp: memr_ops)
next
  case (10 w c call w') then show ?case by (auto simp: memr_ops memr_calls_def fun_eq_iff)
next
  case (11 w c call e w') then show ?case by (simp add: memr_ops)
next
  case (12 w c call x w') then show ?case
    by (auto simp: memr_ops memr_calls_def fun_eq_iff complete_call_ids split: option.splits)
qed

end
