(* ===== verification/Repo_Lift.thy ===== *)
theory Repo_Lift
  imports Repo_Interface Run_Repo
begin

text \<open>
  Repositories inside a larger state. The application holds three stores, a broker and counters;
  a lens names one of them, \<open>lift_*_repo\<close> runs a repository through the lens, and the sublocales
  show that the lifted repository keeps its contract and writes nothing outside its store.
\<close>

locale store_lens =
  fixes get :: "'w \<Rightarrow> 's" and put :: "'s \<Rightarrow> 'w \<Rightarrow> 'w" and rest :: "'w \<Rightarrow> 'r"
  assumes get_put [simp]: "get (put s w) = s"
    and rest_put [simp]: "rest (put s w) = rest w"

definition through :: "('w \<Rightarrow> 's) \<Rightarrow> ('s \<Rightarrow> 'w \<Rightarrow> 'w) \<Rightarrow> ('s \<Rightarrow> 'x \<times> 's) \<Rightarrow> 'w \<Rightarrow> 'x \<times> 'w" where
  "through get put op w = (case op (get w) of (x, s) \<Rightarrow> (x, put s w))"

lemma throughD: "through get put op w = (x, w') \<Longrightarrow> \<exists>s. op (get w) = (x, s) \<and> w' = put s w"
  by (auto simp: through_def split: prod.splits)

lemma fst_through [simp]: "fst (through get put op w) = fst (op (get w))"
  by (simp add: through_def split: prod.splits)

definition lift_incident_repo ::
  "('w \<Rightarrow> 's) \<Rightarrow> ('s \<Rightarrow> 'w \<Rightarrow> 'w) \<Rightarrow> 's incident_repo \<Rightarrow> 'w incident_repo" where
  "lift_incident_repo get put repo =
     \<lparr>ir_CreateWithEvent = (\<lambda>c inc ev. through get put (ir_CreateWithEvent repo c inc ev)),
      ir_GetByID = (\<lambda>c i w. ir_GetByID repo c i (get w)),
      ir_GetByFingerprint = (\<lambda>c fp w. ir_GetByFingerprint repo c fp (get w)),
      ir_GetActiveByFingerprint = (\<lambda>c fp w. ir_GetActiveByFingerprint repo c fp (get w)),
      ir_List = (\<lambda>c f w. ir_List repo c f (get w)),
      ir_UpdateWithEvent = (\<lambda>c inc ev. through get put (ir_UpdateWithEvent repo c inc ev)),
      ir_UpdateWithEvents = (\<lambda>c inc evs. through get put (ir_UpdateWithEvents repo c inc evs)),
      ir_ListEvents = (\<lambda>c i w. ir_ListEvents repo c i (get w))\<rparr>"

definition lift_approval_repo ::
  "('w \<Rightarrow> 's) \<Rightarrow> ('s \<Rightarrow> 'w \<Rightarrow> 'w) \<Rightarrow> 's approval_repo \<Rightarrow> 'w approval_repo" where
  "lift_approval_repo get put repo =
     \<lparr>ar_Create = (\<lambda>c a. through get put (ar_Create repo c a)),
      ar_Get = (\<lambda>c i w. ar_Get repo c i (get w)),
      ar_ListByRun = (\<lambda>c r w. ar_ListByRun repo c r (get w)),
      ar_ListPending = (\<lambda>c w. ar_ListPending repo c (get w)),
      ar_TransitionStatus = (\<lambda>c i frm to m now. through get put (ar_TransitionStatus repo c i frm to m now)),
      ar_ExpirePendingByIncident = (\<lambda>c i f. through get put (ar_ExpirePendingByIncident repo c i f))\<rparr>"

definition lift_run_repo ::
  "('w \<Rightarrow> 's) \<Rightarrow> ('s \<Rightarrow> 'w \<Rightarrow> 'w) \<Rightarrow> 's run_repo \<Rightarrow> 'w run_repo" where
  "lift_run_repo get put repo =
     \<lparr>rr_CreateRun = (\<lambda>c r. through get put (rr_CreateRun repo c r)),
      rr_UpdateRun = (\<lambda>c r. through get put (rr_UpdateRun repo c r)),
      rr_GetRun = (\<lambda>c i w. rr_GetRun repo c i (get w)),
      rr_ListRunsByIncident = (\<lambda>c i w. rr_ListRunsByIncident repo c i (get w)),
      rr_AddStep = (\<lambda>c x. through get put (rr_AddStep repo c x)),
      rr_ListSteps = (\<lambda>c i w. rr_ListSteps repo c i (get w)),
      rr_AddToolCall = (\<lambda>c x. through get put (rr_AddToolCall repo c x)),
      rr_UpdateToolCall = (\<lambda>c x. through get put (rr_UpdateToolCall repo c x)),
      rr_ListToolCalls = (\<lambda>c i w. rr_ListToolCalls repo c i (get w)),
      rr_AddEvidence = (\<lambda>c x. through get put (rr_AddEvidence repo c x)),
      rr_ListEvidences = (\<lambda>c i w. rr_ListEvidences repo c i (get w))\<rparr>"

locale lifted_incident_repository = incident_repository repo istored ijournal iinv iframe
    + store_lens get put rest
  for repo :: "'s incident_repo" and istored ijournal iinv and iframe :: "'s \<Rightarrow> 'f"
    and get :: "'w \<Rightarrow> 's" and put and rest :: "'w \<Rightarrow> 'r"

sublocale lifted_incident_repository \<subseteq> lifted: incident_repository "lift_incident_repo get put repo"
  "\<lambda>w. istored (get w)" "\<lambda>w. ijournal (get w)" "\<lambda>w. iinv (get w)" "\<lambda>w. (iframe (get w), rest w)"
proof (unfold_locales, goal_cases)
  case (1 w i inc) then show ?case by (rule key_id)
next
  case (2 w i inc j inc') then show ?case using unique_active by blast
next
  case (3 w c i inc) then show ?case by (simp add: lift_incident_repo_def get_ok)
next
  case (4 w c i e) then show ?case by (simp add: lift_incident_repo_def get_notfound)
next
  case (5 w c fp inc) then show ?case using active_ok by (simp add: lift_incident_repo_def)
next
  case (6 w c fp e i inc) then show ?case using active_notfound by (simp add: lift_incident_repo_def)
next
  case (7 w c fp inc) then show ?case using latest_ok by (simp add: lift_incident_repo_def)
next
  case (8 w c fp e i inc) then show ?case using latest_notfound by (simp add: lift_incident_repo_def)
next
  case (9 w c inc ev w')
  then show ?case using create_ok by (auto simp: lift_incident_repo_def dest!: throughD)
next
  case (10 w c inc ev e w')
  then show ?case using create_err by (auto simp: lift_incident_repo_def dest!: throughD)
next
  case (11 w c inc evs inc' w')
  then obtain s where s: "ir_UpdateWithEvents repo c inc evs (get w) = (Inr inc', s)" "w' = put s w"
    by (auto simp: lift_incident_repo_def dest!: throughD)
  from update_ok [OF 11(1) s(1)] s(2) show ?case by auto
next
  case (12 w c inc evs e w')
  then show ?case using update_err by (auto simp: lift_incident_repo_def dest!: throughD)
next
  case (13 w inc cur c evs) then show ?case using update_conflict by (simp add: lift_incident_repo_def)
next
  case (14 c inc ev w) then show ?case by (simp add: lift_incident_repo_def through_def update_one)
qed

locale lifted_approval_repository = approval_repository arepo astored ainv aframe
    + store_lens get put rest
  for arepo :: "'s approval_repo" and astored ainv and aframe :: "'s \<Rightarrow> 'g"
    and get :: "'w \<Rightarrow> 's" and put and rest :: "'w \<Rightarrow> 'r"

sublocale lifted_approval_repository \<subseteq> lifted: approval_repository "lift_approval_repo get put arepo"
  "\<lambda>w. astored (get w)" "\<lambda>w. ainv (get w)" "\<lambda>w. (aframe (get w), rest w)"
proof (unfold_locales, goal_cases)
  case (1 w i a) then show ?case by (rule akey)
next
  case (2 w c i a) then show ?case by (simp add: lift_approval_repo_def aget_ok)
next
  case (3 w c a w')
  then show ?case using acreate_ok by (auto simp: lift_approval_repo_def dest!: throughD)
next
  case (4 w c a e w')
  then show ?case using acreate_err by (auto simp: lift_approval_repo_def dest!: throughD)
next
  case (5 w c i frm to m now a w')
  then obtain s where s: "ar_TransitionStatus arepo c i frm to m now (get w) = (Inr a, s)" "w' = put s w"
    by (auto simp: lift_approval_repo_def dest!: throughD)
  from cas_ok [OF 5(1) s(1) 5(3)] s(2) show ?case by auto
next
  case (6 w c i frm to m now e w')
  then show ?case using cas_err by (auto simp: lift_approval_repo_def dest!: throughD)
next
  case (7 w c i frm to m now e w' cur)
  then obtain s where "ar_TransitionStatus arepo c i frm to m now (get w) = (Inl e, s)"
    by (auto simp: lift_approval_repo_def dest!: throughD)
  from cas_conflict [OF 7(1) this 7(3,4)] show ?case .
next
  case (8 w c inc f n w' i a)
  then obtain s where s: "ar_ExpirePendingByIncident arepo c inc f (get w) = (Inr n, s)" "w' = put s w"
    by (auto simp: lift_approval_repo_def dest!: throughD)
  from expire_ok [OF 8(1) s(1) 8(3,4)] s(2) show ?case by simp
next
  case (9 w c inc f r w' i)
  then show ?case using expire_new by (auto simp: lift_approval_repo_def dest!: throughD)
next
  case (10 w c inc f r w')
  then show ?case using expire_frame by (auto simp: lift_approval_repo_def dest!: throughD)
next
  case (11 w c inc f e w')
  then show ?case using expire_err by (auto simp: lift_approval_repo_def dest!: throughD)
qed

locale lifted_run_repository = run_repository rrepo rstored rcalls rinv rframe
    + store_lens get put rest
  for rrepo :: "'s run_repo" and rstored rcalls rinv and rframe :: "'s \<Rightarrow> 'h"
    and get :: "'w \<Rightarrow> 's" and put and rest :: "'w \<Rightarrow> 'r"

sublocale lifted_run_repository \<subseteq> lifted: run_repository "lift_run_repo get put rrepo"
  "\<lambda>w. rstored (get w)" "\<lambda>w. rcalls (get w)" "\<lambda>w. rinv (get w)" "\<lambda>w. (rframe (get w), rest w)"
proof (unfold_locales, goal_cases)
  case (1 w i r) then show ?case by (rule rkey)
next
  case (2 w i r j s) then show ?case using one_active by blast
next
  case (3 w c i r) then show ?case by (simp add: lift_run_repo_def rget_ok)
next
  case (4 w c inc rs) then show ?case using rlist_ok by (simp add: lift_run_repo_def)
next
  case (5 w c r w') then show ?case using rcreate_ok by (auto simp: lift_run_repo_def dest!: throughD)
next
  case (6 w c r e w') then show ?case using rcreate_err by (auto simp: lift_run_repo_def dest!: throughD)
next
  case (7 w c r w') then show ?case using rupdate_ok by (auto simp: lift_run_repo_def dest!: throughD)
next
  case (8 w c r e w') then show ?case using rupdate_err by (auto simp: lift_run_repo_def dest!: throughD)
next
  case (9 w c stp x w') then show ?case using rstep_frame by (auto simp: lift_run_repo_def dest!: throughD)
next
  case (10 w c call w') then show ?case using rcall_ok by (auto simp: lift_run_repo_def dest!: throughD)
next
  case (11 w c call e w') then show ?case using rcall_err by (auto simp: lift_run_repo_def dest!: throughD)
next
  case (12 w c call x w') then show ?case using rcomplete_frame by (auto simp: lift_run_repo_def dest!: throughD)
qed

end
