(* ===== verification/Telemetry.thy ===== *)
theory Telemetry
  imports Incident_Model "HOL-Library.Sublist"
begin

text \<open>
  What the services report while they work: the Prometheus counters of
  \<open>internal/observability/metrics\<close> and the event broker of
  \<open>internal/agent/runtime/streambroker.go\<close>, the back end of the SSE stream.

  The broker is a history for each run, the channels subscribed to it in order, and a store of
  channels. A channel of Go is its buffer, its closed flag, and the capacity 256 that
  \<open>Subscribe\<close> gives it. A send on a full channel waits: inside \<open>Publish\<close> the
  \<open>select\<close> has a default branch and drops the event, inside \<open>Subscribe\<close> it has none.
\<close>

section \<open>Counters\<close>

text \<open>One constructor for each counter vector, with its labels; the closure histogram carries the
  observed duration.\<close>

datatype metric =
    IncidentsTotal string string
  | AgentRunsTotal string run_status
  | ToolCallsTotal string string
  | ApprovalsTotal string approval_status
  | WebhookTotal string string
  | RetriesTotal
  | DLQTotal
  | ExecutionsTotal string string
  | VerificationsTotal string string
  | ClosureDurationSeconds string int

text \<open>The collector of the status gauges: one count for each status that occurs.\<close>

fun count_statuses :: "string list \<Rightarrow> (string \<Rightarrow> nat)" where
  "count_statuses [] = (\<lambda>_. 0)"
| "count_statuses (s # ss) = (count_statuses ss)(s := Suc (count_statuses ss s))"

lemma count_statuses_count: "count_statuses ss s = length (filter (\<lambda>t. t = s) ss)"
  by (induction ss) auto

section \<open>The stream broker\<close>

record stream_event =
  se_Type :: string
  se_Data :: payload

record channel =
  ch_buf :: "stream_event list"
  ch_closed :: bool

record stream_broker =
  sb_history :: "string \<Rightarrow> stream_event list"
  sb_subs :: "string \<Rightarrow> nat list"
  sb_chans :: "nat \<Rightarrow> channel"
  sb_next :: nat

definition chan_capacity :: nat where "chan_capacity = 256"

definition NewStreamBroker :: stream_broker where
  "NewStreamBroker = \<lparr>sb_history = (\<lambda>_. []), sb_subs = (\<lambda>_. []),
     sb_chans = (\<lambda>_. \<lparr>ch_buf = [], ch_closed = False\<rparr>), sb_next = 0\<rparr>"

text \<open>The non-blocking send of \<open>Publish\<close>.\<close>

definition try_send :: "stream_event \<Rightarrow> channel \<Rightarrow> channel" where
  "try_send ev ch = (if length (ch_buf ch) < chan_capacity then ch\<lparr>ch_buf := ch_buf ch @ [ev]\<rparr> else ch)"

definition Publish :: "string \<Rightarrow> stream_event \<Rightarrow> stream_broker \<Rightarrow> stream_broker" where
  "Publish runID ev b =
     b\<lparr>sb_history := (sb_history b)(runID := sb_history b runID @ [ev]),
       sb_chans := fold (\<lambda>c chans. chans(c := try_send ev (chans c))) (sb_subs b runID) (sb_chans b)\<rparr>"

text \<open>The blocking sends of \<open>Subscribe\<close>, into a channel nobody reads yet; \<open>None\<close> is a send
  that never returns, with the mutex held.\<close>

fun replay :: "stream_event list \<Rightarrow> stream_event list \<Rightarrow> stream_event list option" where
  "replay buf [] = Some buf"
| "replay buf (ev # evs) = (if length buf < chan_capacity then replay (buf @ [ev]) evs else None)"

definition Subscribe :: "string \<Rightarrow> stream_broker \<Rightarrow> (nat \<times> stream_broker) option" where
  "Subscribe runID b =
     (case replay [] (sb_history b runID) of
        None \<Rightarrow> None
      | Some buf \<Rightarrow> Some (sb_next b,
          b\<lparr>sb_chans := (sb_chans b)(sb_next b := \<lparr>ch_buf = buf, ch_closed = False\<rparr>),
            sb_subs := (sb_subs b)(runID := sb_subs b runID @ [sb_next b]),
            sb_next := Suc (sb_next b)\<rparr>))"

text \<open>The cancel function: the first entry of the channel leaves the list and the channel is closed;
  \<open>sync.Once\<close> makes later calls no-ops, and only this function closes a channel.\<close>

definition cancel_subscription :: "string \<Rightarrow> nat \<Rightarrow> stream_broker \<Rightarrow> stream_broker" where
  "cancel_subscription runID c b =
     (if ch_closed (sb_chans b c) then b
      else b\<lparr>sb_subs := (sb_subs b)(runID := remove1 c (sb_subs b runID)),
             sb_chans := (sb_chans b)(c := (sb_chans b c)\<lparr>ch_closed := True\<rparr>)\<rparr>)"

text \<open>The reader of \<open>RunHandler.Stream\<close> takes the oldest buffered event.\<close>

definition receive :: "nat \<Rightarrow> stream_broker \<Rightarrow> stream_event option \<times> stream_broker" where
  "receive c b =
     (case ch_buf (sb_chans b c) of
        [] \<Rightarrow> (None, b)
      | ev # rest \<Rightarrow> (Some ev, b\<lparr>sb_chans := (sb_chans b)(c := (sb_chans b c)\<lparr>ch_buf := rest\<rparr>)\<rparr>))"

section \<open>Facts\<close>

lemma replay_room: "length buf + length evs \<le> chan_capacity \<Longrightarrow> replay buf evs = Some (buf @ evs)"
  by (induction buf evs rule: replay.induct) auto

lemma replay_full: "length buf \<le> chan_capacity \<Longrightarrow> chan_capacity < length buf + length evs \<Longrightarrow> replay buf evs = None"
  by (induction buf evs rule: replay.induct) auto

lemma replay_iff:
  "replay [] evs = (if length evs \<le> chan_capacity then Some evs else None)"
  using replay_room [of "[]" evs] replay_full [of "[]" evs] by simp

text \<open>Channels subscribed to different runs, or twice, never happen: the lists are distinct and hold
  only channels already made.\<close>

definition broker_ok :: "stream_broker \<Rightarrow> bool" where
  "broker_ok b = (\<forall>r. distinct (sb_subs b r) \<and> (\<forall>c \<in> set (sb_subs b r). c < sb_next b \<and> \<not> ch_closed (sb_chans b c)
     \<and> (\<forall>r'. r' \<noteq> r \<longrightarrow> c \<notin> set (sb_subs b r'))))"

lemma fold_send:
  "distinct cs \<Longrightarrow> fold (\<lambda>c chans. chans(c := try_send ev (chans c))) cs chans c
    = (if c \<in> set cs then try_send ev (chans c) else chans c)"
  by (induction cs arbitrary: chans) auto

lemma Publish_chan:
  "broker_ok b \<Longrightarrow> sb_chans (Publish r ev b) c
    = (if c \<in> set (sb_subs b r) then try_send ev (sb_chans b c) else sb_chans b c)"
  by (simp add: Publish_def broker_ok_def fold_send)

lemma try_send_closed [simp]: "ch_closed (try_send ev ch) = ch_closed ch"
  by (simp add: try_send_def)

lemma Publish_ok: "broker_ok b \<Longrightarrow> broker_ok (Publish r ev b)"
  using Publish_chan [of b r ev]
  by (auto simp: broker_ok_def) (auto simp: Publish_def)

lemma Subscribe_ok:
  assumes "broker_ok b" and "Subscribe r b = Some (c, b')"
  shows "broker_ok b'"
proof -
  from assms(1) have old: "d < sb_next b \<and> \<not> ch_closed (sb_chans b d)" if "d \<in> set (sb_subs b r')" for d r'
    using that by (auto simp: broker_ok_def)
  from assms(1) have dist: "distinct (sb_subs b r')" for r' by (simp add: broker_ok_def)
  from assms(1) have other: "d \<notin> set (sb_subs b r'')" if "d \<in> set (sb_subs b r')" "r'' \<noteq> r'" for d r' r''
    using that by (auto simp: broker_ok_def)
  have fresh: "sb_next b \<notin> set (sb_subs b r')" for r' using old by blast
  from assms(2) obtain buf where b': "b' = b\<lparr>sb_chans := (sb_chans b)(sb_next b := \<lparr>ch_buf = buf, ch_closed = False\<rparr>),
      sb_subs := (sb_subs b)(r := sb_subs b r @ [sb_next b]), sb_next := Suc (sb_next b)\<rparr>"
    by (auto simp: Subscribe_def split: option.splits)
  show ?thesis
    unfolding broker_ok_def b' using old dist other fresh by (auto simp: less_Suc_eq)
qed

lemma cancel_ok: "broker_ok b \<Longrightarrow> c \<in> set (sb_subs b r) \<Longrightarrow> broker_ok (cancel_subscription r c b)"
  unfolding broker_ok_def cancel_subscription_def by auto

lemma receive_ok: "broker_ok b \<Longrightarrow> receive c b = (x, b') \<Longrightarrow> broker_ok b'"
  unfolding broker_ok_def receive_def by (auto split: list.splits if_splits)

text \<open>One subscription as its reader sees it: the steps of the broker on that run, and the events read
  so far.\<close>

datatype stream_step = SPublish stream_event | SReceive

fun stream_run :: "string \<Rightarrow> nat \<Rightarrow> stream_step list \<Rightarrow> stream_event list \<times> stream_broker
    \<Rightarrow> stream_event list \<times> stream_broker" where
  "stream_run r c [] (got, b) = (got, b)"
| "stream_run r c (SPublish ev # steps) (got, b) = stream_run r c steps (got, Publish r ev b)"
| "stream_run r c (SReceive # steps) (got, b) =
     (case receive c b of
        (None, b') \<Rightarrow> stream_run r c steps (got, b')
      | (Some ev, b') \<Rightarrow> stream_run r c steps (got @ [ev], b'))"

lemma receive_frames:
  "receive c b = (x, b') \<Longrightarrow> sb_history b' = sb_history b \<and> sb_subs b' = sb_subs b
    \<and> ch_buf (sb_chans b c) = (case x of None \<Rightarrow> [] | Some ev \<Rightarrow> [ev]) @ ch_buf (sb_chans b' c)"
  by (auto simp: receive_def split: list.splits)

lemma stream_run_subseq:
  assumes "broker_ok b" and "c \<in> set (sb_subs b r)"
    and "subseq (got @ ch_buf (sb_chans b c)) (sb_history b r)"
    and "stream_run r c steps (got, b) = (got', b')"
  shows "subseq (got' @ ch_buf (sb_chans b' c)) (sb_history b' r)"
  using assms
proof (induction r c steps "(got, b)" arbitrary: got b rule: stream_run.induct)
  case (1 r c got b)
  then show ?case by simp
next
  case (2 r c ev steps got b)
  let ?ch = "sb_chans b c"
  have "subseq (got @ ch_buf (try_send ev ?ch)) (sb_history b r @ [ev])"
  proof (cases "length (ch_buf ?ch) < chan_capacity")
    case True
    have "subseq ((got @ ch_buf ?ch) @ [ev]) (sb_history b r @ [ev])"
      using "2.prems"(3) by (rule list_emb_append_mono) simp
    with True show ?thesis by (simp add: try_send_def)
  next
    case False
    moreover have "subseq ((got @ ch_buf ?ch) @ []) (sb_history b r @ [ev])"
      using "2.prems"(3) by (rule list_emb_append_mono) simp
    ultimately show ?thesis by (simp add: try_send_def)
  qed
  moreover have "sb_chans (Publish r ev b) c = try_send ev ?ch" "c \<in> set (sb_subs (Publish r ev b) r)"
      "sb_history (Publish r ev b) r = sb_history b r @ [ev]"
    using "2.prems"(1,2) by (simp_all add: Publish_chan) (simp_all add: Publish_def)
  ultimately show ?case
    using "2.prems" by (intro "2.hyps") (simp_all add: Publish_ok)
next
  case (3 r c steps got b)
  obtain x b1 where rcv: "receive c b = (x, b1)" by force
  note fr = receive_frames [OF rcv] and ok = receive_ok [OF "3.prems"(1) rcv]
  show ?case
  proof (cases x)
    case None
    with "3.prems" fr ok rcv show ?thesis by (intro "3.hyps"(1)) auto
  next
    case (Some ev)
    with "3.prems" fr ok rcv show ?thesis by (intro "3.hyps"(2)) auto
  qed
qed

section \<open>Properties\<close>



text \<open>C32. Subscribing returns exactly when the history of the run fits into the channel: from the 257th event
  on \<open>Subscribe\<close> blocks for ever, with the mutex of the broker held.\<close>

theorem subscribe_returns_iff:
  "(\<exists>c b'. Subscribe r b = Some (c, b')) \<longleftrightarrow> length (sb_history b r) \<le> 256"
  by (auto simp: Subscribe_def replay_iff chan_capacity_def)

end
