(* ===== verification/Incident_Service.thy ===== *)
theory Incident_Service
  imports Repo_Lift Telemetry
begin

text \<open>
  \<open>internal/incident/service/service.go\<close>: creation with deduplication by fingerprint, the
  transitions of the state machine with their audit events, and the close by a resolved alert.
  The service runs on any incident repository; the lemmas are proved once from the repository's
  contract (\<open>incident_client\<close>) and, for the external close, from what it needs of the component
  that expires approvals (\<open>incident_closing\<close>).
\<close>

section \<open>The service\<close>

record 'w incident_service =
  is_repo :: "'w incident_repo"
  is_expirer :: "(ctx \<Rightarrow> string \<Rightarrow> fresh \<Rightarrow> 'w \<Rightarrow> (gerror + int) \<times> 'w) option"
  is_count :: "metric \<Rightarrow> 'w \<Rightarrow> 'w"

record create_input =
  ci_Service :: string
  ci_Severity :: string
  ci_Title :: string
  ci_Description :: string
  ci_AlertName :: string

definition new_incident :: "create_input \<Rightarrow> fresh \<Rightarrow> incident" where
  "new_incident inp f =
     \<lparr>inc_ID = ''inc_'' @ uid f 0, inc_Service = ci_Service inp,
      inc_Severity = (if ci_Severity inp = '''' then severity_string SeverityMedium else ci_Severity inp),
      inc_Title = ci_Title inp, inc_Description = ci_Description inp, inc_AlertName = ci_AlertName inp,
      inc_Fingerprint = Fingerprint (ci_Service inp) (ci_AlertName inp) (ci_Title inp),
      inc_Status = StatusOpen, inc_StartedAt = clk f 0, inc_ResolvedAt = None,
      inc_CreatedAt = clk f 0, inc_UpdatedAt = clk f 0, inc_Version = 0\<rparr>"

definition svc_Create ::
  "'w incident_service \<Rightarrow> ctx \<Rightarrow> create_input \<Rightarrow> fresh \<Rightarrow> 'w \<Rightarrow> (gerror + incident \<times> bool) \<times> 'w" where
  "svc_Create s c inp f w =
     (if ci_Service inp = '''' then (Inl (wrap_sentinel ErrInvalidInput ''service is required''), w)
      else if ci_Title inp = '''' then (Inl (wrap_sentinel ErrInvalidInput ''title is required''), w)
      else
        (let fp = Fingerprint (ci_Service inp) (ci_AlertName inp) (ci_Title inp)
         in case ir_GetActiveByFingerprint (is_repo s) c fp w of
              Inr existing \<Rightarrow> (Inr (existing, False), w)
            | Inl err \<Rightarrow>
                if \<not> errIs err ErrNotFound then (Inl err, w)
                else
                  (let inc = new_incident inp f;
                       ev = NewIncidentEvent (inc_ID inc) EventIncidentCreated None StatusOpen
                              ''alert firing'' '''' (uid f 1) (clk f 1)
                   in case ir_CreateWithEvent (is_repo s) c inc (Some ev) w of
                        (Some err, w1) \<Rightarrow>
                          if errIs err ErrConflict
                          then (case ir_GetActiveByFingerprint (is_repo s) c fp w1 of
                                  Inr existing \<Rightarrow> (Inr (existing, False), w1)
                                | Inl _ \<Rightarrow> (Inl err, w1))
                          else (Inl err, w1)
                      | (None, w1) \<Rightarrow>
                          (Inr (inc, True), is_count s (IncidentsTotal (inc_Service inc) (inc_Severity inc)) w1))))"

definition svc_Get :: "'w incident_service \<Rightarrow> ctx \<Rightarrow> string \<Rightarrow> 'w \<Rightarrow> gerror + incident" where
  "svc_Get s c i w = ir_GetByID (is_repo s) c i w"

definition svc_GetByFingerprint :: "'w incident_service \<Rightarrow> ctx \<Rightarrow> string \<Rightarrow> 'w \<Rightarrow> gerror + incident" where
  "svc_GetByFingerprint s c fp w = ir_GetByFingerprint (is_repo s) c fp w"

definition svc_List :: "'w incident_service \<Rightarrow> ctx \<Rightarrow> list_filter \<Rightarrow> 'w \<Rightarrow> gerror + incident list" where
  "svc_List s c flt w = ir_List (is_repo s) c flt w"

text \<open>\<open>transitionWithAudit\<close>: read, check against the state machine, write the status with one or two
  audit events. The status event always; the business event only when its type is not empty, with
  \<open>from\<close> and \<open>to\<close> set over the caller's payload.\<close>

definition audit_payload :: "payload \<Rightarrow> status \<Rightarrow> status \<Rightarrow> payload" where
  "audit_payload pl frm to = pl(''from'' \<mapsto> VStr (status_string frm), ''to'' \<mapsto> VStr (status_string to))"

definition moved_incident :: "incident \<Rightarrow> status \<Rightarrow> fresh \<Rightarrow> incident" where
  "moved_incident inc to f =
     (let inc1 = inc\<lparr>inc_Status := to, inc_UpdatedAt := clk f 0\<rparr>
      in if to = StatusResolved then inc1\<lparr>inc_ResolvedAt := Some (clk f 1)\<rparr> else inc1)"

definition transition_events ::
  "incident \<Rightarrow> status \<Rightarrow> string \<Rightarrow> string \<Rightarrow> string \<Rightarrow> payload \<Rightarrow> fresh \<Rightarrow> incident_event list" where
  "transition_events inc to reason errMsg eventType pl f =
     (let k = (if to = StatusResolved then 2 else 1);
          statusEvent = NewIncidentEvent (inc_ID inc) EventStatusTransition (Some (inc_Status inc)) to
                          reason errMsg (uid f 0) (clk f k)
      in if eventType = '''' then [statusEvent]
         else [statusEvent, NewAuditEvent (inc_ID inc) eventType
                 (Some (audit_payload pl (inc_Status inc) to)) (uid f 1) (clk f (Suc k))])"

definition transitionWithAudit ::
  "'w incident_service \<Rightarrow> ctx \<Rightarrow> string \<Rightarrow> status \<Rightarrow> string \<Rightarrow> string \<Rightarrow> string \<Rightarrow> payload \<Rightarrow> fresh
     \<Rightarrow> 'w \<Rightarrow> (gerror + incident) \<times> 'w" where
  "transitionWithAudit s c i to reason errMsg eventType pl f w =
     (case ir_GetByID (is_repo s) c i w of
        Inl err \<Rightarrow> (Inl err, w)
      | Inr inc \<Rightarrow>
          (case Transition (inc_Status inc) to of
             Some err \<Rightarrow> (Inl (wrap_sentinel ErrInvalidTransition (err_text err)), w)
           | None \<Rightarrow>
               (let evs = map Some (transition_events inc to reason errMsg eventType pl f);
                    inc1 = moved_incident inc to f
                in case (if eventType = '''' then ir_UpdateWithEvent (is_repo s) c inc1 (hd evs) w
                         else ir_UpdateWithEvents (is_repo s) c inc1 evs w) of
                     (Inl err, w1) \<Rightarrow>
                       if errIs err ErrConcurrentModification
                       then (Inl (wrap_sentinel ErrConcurrentModification (''incident '' @ i)), w1)
                       else (Inl err, w1)
                   | (Inr inc2, w1) \<Rightarrow> (Inr inc2, w1))))"

definition svc_transition ::
  "'w incident_service \<Rightarrow> ctx \<Rightarrow> string \<Rightarrow> status \<Rightarrow> string \<Rightarrow> string \<Rightarrow> fresh \<Rightarrow> 'w \<Rightarrow> (gerror + incident) \<times> 'w" where
  "svc_transition s c i to reason errMsg f w = transitionWithAudit s c i to reason errMsg '''' Map.empty f w"

definition svc_Transition ::
  "'w incident_service \<Rightarrow> ctx \<Rightarrow> string \<Rightarrow> status \<Rightarrow> fresh \<Rightarrow> 'w \<Rightarrow> (gerror + incident) \<times> 'w" where
  "svc_Transition s c i to f w = svc_transition s c i to ''state machine transition'' '''' f w"

definition MoveToWithAudit ::
  "'w incident_service \<Rightarrow> ctx \<Rightarrow> string \<Rightarrow> status \<Rightarrow> string \<Rightarrow> payload \<Rightarrow> fresh \<Rightarrow> 'w \<Rightarrow> (gerror + incident) \<times> 'w" where
  "MoveToWithAudit s c i to eventType pl f w =
     transitionWithAudit s c i to ''state machine transition'' '''' eventType pl f w"

definition svc_Fail ::
  "'w incident_service \<Rightarrow> ctx \<Rightarrow> string \<Rightarrow> string \<Rightarrow> string \<Rightarrow> fresh \<Rightarrow> 'w \<Rightarrow> (gerror + incident) \<times> 'w" where
  "svc_Fail s c i reason errMsg f w = svc_transition s c i StatusFailed reason errMsg f w"

definition svc_ListEvents :: "'w incident_service \<Rightarrow> ctx \<Rightarrow> string \<Rightarrow> 'w \<Rightarrow> gerror + incident_event list" where
  "svc_ListEvents s c i w =
     (case ir_GetByID (is_repo s) c i w of Inl err \<Rightarrow> Inl err | Inr _ \<Rightarrow> ir_ListEvents (is_repo s) c i w)"

definition svc_MoveTo ::
  "'w incident_service \<Rightarrow> ctx \<Rightarrow> string \<Rightarrow> status \<Rightarrow> fresh \<Rightarrow> 'w \<Rightarrow> (gerror + incident) \<times> 'w" where
  "svc_MoveTo s c i next f w = svc_Transition s c i next f w"

definition svc_Analyze ::
  "'w incident_service \<Rightarrow> ctx \<Rightarrow> string \<Rightarrow> fresh \<Rightarrow> 'w \<Rightarrow> (gerror + incident) \<times> 'w" where
  "svc_Analyze s c i f w = svc_Transition s c i StatusInvestigating f w"

definition svc_Resolve ::
  "'w incident_service \<Rightarrow> ctx \<Rightarrow> string \<Rightarrow> fresh \<Rightarrow> 'w \<Rightarrow> (gerror + incident) \<times> 'w" where
  "svc_Resolve s c i f w = svc_Transition s c i StatusResolved f w"

text \<open>\<open>ResolveExternally\<close>: an open incident whose remediation has not begun is closed, its pending
  approvals expired first. The expirer reads an unknown number of clock values, so it takes the
  even readings and the close itself the odd ones.\<close>

definition evens :: "fresh \<Rightarrow> fresh" where
  "evens f = \<lparr>clk = (\<lambda>i. clk f (2 * i)), uid = (\<lambda>i. uid f (2 * i))\<rparr>"

definition odds :: "fresh \<Rightarrow> fresh" where
  "odds f = \<lparr>clk = (\<lambda>i. clk f (2 * i + 1)), uid = (\<lambda>i. uid f (2 * i + 1))\<rparr>"

definition externally_resolved :: "incident \<Rightarrow> fresh \<Rightarrow> incident" where
  "externally_resolved inc f =
     inc\<lparr>inc_Status := StatusResolved, inc_ResolvedAt := Some (clk f 0), inc_UpdatedAt := clk f 0\<rparr>"

definition ResolveExternally ::
  "'w incident_service \<Rightarrow> ctx \<Rightarrow> string \<Rightarrow> fresh \<Rightarrow> 'w \<Rightarrow> (gerror + incident) \<times> 'w" where
  "ResolveExternally s c fp f w =
     (case ir_GetActiveByFingerprint (is_repo s) c fp w of
        Inl err \<Rightarrow>
          if errIs err ErrNotFound
          then (case ir_GetByFingerprint (is_repo s) c fp w of
                  Inl gerr \<Rightarrow> if errIs gerr ErrNotFound
                              then (Inl (wrap_sentinel ErrNotFound ''no incident for fingerprint''), w)
                              else (Inl gerr, w)
                | Inr latest \<Rightarrow> (Inr latest, w))
          else (Inl err, w)
      | Inr inc \<Rightarrow>
          if inc_Status inc = StatusMitigating \<or> inc_Status inc = StatusVerifying
          then (Inl (wrap_sentinel ErrInvalidTransition
                       (''incident '' @ inc_ID inc @ '' is '' @ status_string (inc_Status inc))), w)
          else
            (case (case is_expirer s of None \<Rightarrow> (Inr 0, w) | Some expire \<Rightarrow> expire c (inc_ID inc) (evens f) w) of
               (Inl err, w1) \<Rightarrow> (Inl (wrap_err (''expire pending approvals of '' @ inc_ID inc @ '': '') err), w1)
             | (Inr _, w1) \<Rightarrow>
                 (let ev = NewIncidentEvent (inc_ID inc) EventStatusTransition (Some (inc_Status inc)) StatusResolved
                             ''external alert resolved'' '''' (uid (odds f) 0) (clk (odds f) 1)
                  in ir_UpdateWithEvent (is_repo s) c (externally_resolved inc (odds f)) (Some ev) w1)))"

section \<open>What the contract gives\<close>

lemmas svc_ops = svc_transition_def svc_Transition_def MoveToWithAudit_def svc_Fail_def svc_MoveTo_def
  svc_Analyze_def svc_Resolve_def

lemma moved_incident_simps [simp]:
  "inc_ID (moved_incident inc to f) = inc_ID inc" "inc_Status (moved_incident inc to f) = to"
  "inc_Version (moved_incident inc to f) = inc_Version inc"
  "same_identity inc (moved_incident inc to f)"
  by (simp_all add: moved_incident_def same_identity_def Let_def)

lemma moved_incident_resolved:
  "inc_ResolvedAt (moved_incident inc to f) = (if to = StatusResolved then Some (clk f 1) else inc_ResolvedAt inc)"
  by (simp add: moved_incident_def Let_def)

lemma externally_resolved_simps [simp]:
  "inc_ID (externally_resolved inc f) = inc_ID inc" "inc_Status (externally_resolved inc f) = StatusResolved"
  "inc_Version (externally_resolved inc f) = inc_Version inc"
  "inc_ResolvedAt (externally_resolved inc f) = Some (clk f 0)"
  "inc_Fingerprint (externally_resolved inc f) = inc_Fingerprint inc"
  "same_identity inc (externally_resolved inc f)"
  by (simp_all add: externally_resolved_def same_identity_def)

lemma transition_events_own:
  "e \<in> set (transition_events inc to reason errMsg eventType pl f) \<Longrightarrow> ev_IncidentID e = inc_ID inc"
  by (auto simp: transition_events_def Let_def split: if_splits)

lemma events_of_transition:
  "events_of i (transition_events inc to reason errMsg eventType pl f)
    = (if i = inc_ID inc then transition_events inc to reason errMsg eventType pl f else [])"
  by (auto simp: events_of_def transition_events_own)

lemma some_events_map_Some [simp]: "some_events (map Some es) = es"
  by (induction es) auto

lemma transition_events_hd:
  "eventType = '''' \<Longrightarrow>
    [hd (map Some (transition_events inc to reason errMsg eventType pl f))]
      = map Some (transition_events inc to reason errMsg eventType pl f)"
  by (simp add: transition_events_def Let_def)

locale incident_client = incident_repository repo istored ijournal iinv iframe
  for repo :: "'w incident_repo" and istored ijournal iinv and iframe :: "'w \<Rightarrow> 'f" +
  fixes svc :: "'w incident_service"
  assumes svc_repo: "is_repo svc = repo"
    and count_frame: "istored (is_count svc m w) = istored w" "ijournal (is_count svc m w) = ijournal w"
      "iframe (is_count svc m w) = iframe w" "iinv (is_count svc m w) = iinv w"
begin

text \<open>A transition either changes nothing and says why, or moves exactly one incident along an edge of
  the state machine and appends exactly its audit events.\<close>

lemma transition_cases:
  assumes inv: "iinv w" and step: "transitionWithAudit svc c i to reason errMsg eventType pl f w = (r, w')"
  obtains (failed) e where "r = Inl e" "istored w' = istored w" "ijournal w' = ijournal w"
      "iframe w' = iframe w" "iinv w'"
  | (moved) cur inc where "istored w i = Some cur" "inc_ID cur = i" "CanTransition (inc_Status cur) to"
      "inc = bump_version (moved_incident cur to f)" "r = Inr inc"
      "istored w' = (istored w)(i \<mapsto> inc)"
      "ijournal w' = (ijournal w)(i := ijournal w i @ transition_events cur to reason errMsg eventType pl f)"
      "iframe w' = iframe w" "iinv w'"
proof (cases "ir_GetByID repo c i w")
  case (Inl e)
  with step inv show ?thesis by (intro failed [of e]) (auto simp: transitionWithAudit_def svc_repo)
next
  case (Inr cur)
  note got = get_ok [OF inv Inr]
  then have id: "inc_ID cur = i" by (rule key_id [OF inv])
  show ?thesis
  proof (cases "CanTransition (inc_Status cur) to")
    case False
    with step inv Inr show ?thesis
      by (intro failed) (auto simp: transitionWithAudit_def svc_repo Transition_def)
  next
    case True
    let ?evs = "transition_events cur to reason errMsg eventType pl f"
    obtain u w1 where upd: "ir_UpdateWithEvents repo c (moved_incident cur to f) (map Some ?evs) w = (u, w1)"
      by force
    have one: "ir_UpdateWithEvent repo c x (hd (map Some ?evs)) w = ir_UpdateWithEvents repo c x (map Some ?evs) w"
      if "eventType = ''''" for x
      using transition_events_hd [OF that, of cur to reason errMsg pl f] update_one by metis
    have res: "(r, w') = (case u of Inl err \<Rightarrow> (Inl (if errIs err ErrConcurrentModification
          then wrap_sentinel ErrConcurrentModification (''incident '' @ i) else err), w1) | Inr inc2 \<Rightarrow> (Inr inc2, w1))"
      using step Inr True upd one
      by (auto simp: transitionWithAudit_def svc_repo Transition_def Let_def split: sum.splits if_splits)
    show ?thesis
    proof (cases u)
      case (Inl e)
      with upd res update_err [OF inv] show ?thesis by (intro failed) auto
    next
      case (Inr inc)
      with upd have ok: "ir_UpdateWithEvents repo c (moved_incident cur to f) (map Some ?evs) w = (Inr inc, w1)"
        by simp
      have nt: "\<not> IsTerminal (inc_Status cur)" using True by (auto simp: CanTransition_moves dest: moves_not_terminal)
      from update_ok [OF inv ok] got id nt
      have "inc = bump_version (moved_incident cur to f)" "istored w1 = (istored w)(i \<mapsto> inc)"
          "ijournal w1 = (\<lambda>j. ijournal w j @ events_of j ?evs)" "iframe w1 = iframe w" "iinv w1"
        by auto
      with res Inr got id True show ?thesis
        by (intro moved [of cur inc]) (auto simp: events_of_transition)
    qed
  qed
qed

lemma transition_keeps:
  assumes "iinv w" and "transitionWithAudit svc c i to reason errMsg eventType pl f w = (r, w')"
  shows "iinv w'" and "iframe w' = iframe w"
  using assms by (rule transition_cases; simp)+

text \<open>Creation: refused, deduplicated, or one new open incident.\<close>

lemma create_cases:
  assumes inv: "iinv w" and step: "svc_Create svc c inp f w = (r, w')"
  obtains (refused) e where "r = Inl e" "istored w' = istored w" "ijournal w' = ijournal w"
      "iframe w' = iframe w" "iinv w'"
  | (existing) inc where "r = Inr (inc, False)" "istored w (inc_ID inc) = Some inc" "\<not> IsTerminal (inc_Status inc)"
      "inc_Fingerprint inc = Fingerprint (ci_Service inp) (ci_AlertName inp) (ci_Title inp)"
      "istored w' = istored w" "ijournal w' = ijournal w" "iframe w' = iframe w" "iinv w'"
  | (created) inc ev where "r = Inr (inc, True)" "inc = new_incident inp f" "istored w (inc_ID inc) = None"
      "istored w' = (istored w)(inc_ID inc \<mapsto> inc)"
      "ijournal w' = (ijournal w)(inc_ID inc := ijournal w (inc_ID inc) @ [ev])"
      "ev_EventType ev = EventIncidentCreated" "StatusChange ev = ('''', status_string StatusOpen)"
      "iframe w' = iframe w" "iinv w'"
proof -
  let ?fp = "Fingerprint (ci_Service inp) (ci_AlertName inp) (ci_Title inp)"
  let ?inc = "new_incident inp f"
  let ?ev = "NewIncidentEvent (inc_ID ?inc) EventIncidentCreated None StatusOpen ''alert firing'' '''' (uid f 1) (clk f 1)"
  show ?thesis
  proof (cases "ci_Service inp = '''' \<or> ci_Title inp = ''''")
    case True
    with step have "\<exists>e. r = Inl e" "w' = w" by (auto simp: svc_Create_def split: if_splits)
    with inv show ?thesis using refused by blast
  next
    case valid: False
    show ?thesis
    proof (cases "ir_GetActiveByFingerprint repo c ?fp w")
      case (Inr inc)
      with step valid inv active_ok [OF inv Inr] show ?thesis
        by (intro existing [of inc]) (auto simp: svc_Create_def svc_repo)
    next
      case miss: (Inl err)
      show ?thesis
      proof (cases "errIs err ErrNotFound")
        case False
        with step valid inv miss show ?thesis by (intro refused) (auto simp: svc_Create_def svc_repo)
      next
        case True
        obtain u w1 where ins: "ir_CreateWithEvent repo c ?inc (Some ?ev) w = (u, w1)" by force
        show ?thesis
        proof (cases u)
          case None
          with ins create_ok [OF inv] have
            "istored w (inc_ID ?inc) = None" "istored w1 = (istored w)(inc_ID ?inc \<mapsto> ?inc)"
            "ijournal w1 = (\<lambda>j. ijournal w j @ events_of j [?ev])" "iframe w1 = iframe w" "iinv w1"
            by auto
          with step valid miss True None ins show ?thesis
            by (intro created [of ?inc ?ev])
               (auto simp: svc_Create_def svc_repo Let_def count_frame events_of_def opt_status_string_def)
        next
          case (Some e)
          with ins create_err [OF inv] have same: "istored w1 = istored w" "ijournal w1 = ijournal w"
              "iframe w1 = iframe w" "iinv w1"
            by auto
          show ?thesis
          proof (cases "errIs e ErrConflict \<and> (\<exists>inc. ir_GetActiveByFingerprint repo c ?fp w1 = Inr inc)")
            case conflict: True
            then obtain inc where found: "ir_GetActiveByFingerprint repo c ?fp w1 = Inr inc" by blast
            have "r = Inr (inc, False)" "w' = w1"
              using step valid miss True Some ins conflict found
              by (auto simp: svc_Create_def svc_repo Let_def)
            with active_ok [OF same(4) found] same show ?thesis by (intro existing [of inc]) auto
          next
            case other: False
            have "r = Inl e" "w' = w1"
              using step valid miss True Some ins other
              by (auto simp: svc_Create_def svc_repo Let_def split: sum.splits if_splits)
            with same show ?thesis by (intro refused [of e]) auto
          qed
        qed
      qed
    qed
  qed
qed

end

text \<open>The external close needs of the expirer only that it leaves the incidents alone.\<close>

locale incident_closing = incident_client repo istored ijournal iinv iframe svc
  for repo :: "'w incident_repo" and istored ijournal iinv and iframe :: "'w \<Rightarrow> 'f" and svc +
  fixes expire :: "ctx \<Rightarrow> string \<Rightarrow> fresh \<Rightarrow> 'w \<Rightarrow> (gerror + int) \<times> 'w"
  assumes expirer: "is_expirer svc = Some expire"
    and expire_frames: "iinv w \<Longrightarrow> expire c i f w = (r, w') \<Longrightarrow> istored w' = istored w \<and> ijournal w' = ijournal w \<and> iinv w'"
begin

lemma resolve_cases:
  assumes inv: "iinv w" and step: "ResolveExternally svc c fp f w = (r, w')"
  obtains (unchanged) "w' = w" "\<forall>inc. r = Inr inc \<longrightarrow> inc_Fingerprint inc = fp \<and> istored w (inc_ID inc) = Some inc
        \<and> IsTerminal (inc_Status inc)"
      "\<forall>inc j x. r = Inr inc \<longrightarrow> istored w j = Some x \<longrightarrow> inc_Fingerprint x = fp \<longrightarrow> IsTerminal (inc_Status x)"
  | (stopped) e cur x where "r = Inl e" "istored w (inc_ID cur) = Some cur" "expire c (inc_ID cur) (evens f) w = (x, w')"
      "istored w' = istored w" "ijournal w' = ijournal w" "iinv w'"
  | (stopped_late) e cur n w1 where "r = Inl e" "istored w (inc_ID cur) = Some cur"
      "expire c (inc_ID cur) (evens f) w = (Inr n, w1)"
      "istored w' = istored w" "ijournal w' = ijournal w" "iframe w' = iframe w1" "iinv w'"
  | (closed) cur inc n w1 ev where "istored w (inc_ID cur) = Some cur" "inc_Fingerprint cur = fp"
      "inc_Status cur \<notin> {StatusMitigating, StatusVerifying, StatusResolved, StatusFailed, StatusCancelled}"
      "expire c (inc_ID cur) (evens f) w = (Inr n, w1)"
      "inc = bump_version (externally_resolved cur (odds f))" "r = Inr inc"
      "istored w' = (istored w)(inc_ID cur \<mapsto> inc)"
      "ijournal w' = (ijournal w)(inc_ID cur := ijournal w (inc_ID cur) @ [ev])"
      "StatusChange ev = (status_string (inc_Status cur), status_string StatusResolved)"
      "ev_EventType ev = EventStatusTransition"
      "iframe w' = iframe w1" "iinv w'"
proof (cases "ir_GetActiveByFingerprint repo c fp w")
  case miss: (Inl err)
  show ?thesis
  proof (cases "errIs err ErrNotFound")
    case True
    note none = active_notfound [OF inv miss True]
    have "IsTerminal (inc_Status inc)" if "ir_GetByFingerprint repo c fp w = Inr inc" for inc
      using none latest_ok [OF inv that] by blast
    with none step miss True latest_ok [OF inv] show ?thesis
      by (intro unchanged) (auto simp: ResolveExternally_def svc_repo split: sum.splits if_splits)
  next
    case False
    with step miss show ?thesis by (intro unchanged) (auto simp: ResolveExternally_def svc_repo)
  qed
next
  case hit: (Inr cur)
  note act = active_ok [OF inv hit]
  show ?thesis
  proof (cases "inc_Status cur = StatusMitigating \<or> inc_Status cur = StatusVerifying")
    case True
    with step hit show ?thesis by (intro unchanged) (auto simp: ResolveExternally_def svc_repo)
  next
    case False
    obtain x w1 where ex: "expire c (inc_ID cur) (evens f) w = (x, w1)" by force
    note fr = expire_frames [OF inv ex]
    show ?thesis
    proof (cases x)
      case (Inl e)
      with step hit False ex have "\<exists>e'. r = Inl e'" "w' = w1"
        by (auto simp: ResolveExternally_def svc_repo expirer)
      with act ex fr show ?thesis using stopped by blast
    next
      case (Inr n)
      let ?ev = "NewIncidentEvent (inc_ID cur) EventStatusTransition (Some (inc_Status cur)) StatusResolved
                   ''external alert resolved'' '''' (uid (odds f) 0) (clk (odds f) 1)"
      have upd: "ir_UpdateWithEvents repo c (externally_resolved cur (odds f)) [Some ?ev] w1 = (r, w')"
        using step hit False ex Inr by (auto simp: ResolveExternally_def svc_repo expirer update_one Let_def)
      show ?thesis
      proof (cases r)
        case (Inl e)
        with upd update_err [of w1] fr have "istored w' = istored w" "ijournal w' = ijournal w"
            "iframe w' = iframe w1" "iinv w'"
          by metis+
        with Inl \<open>x = _\<close> ex act show ?thesis using stopped_late by blast
      next
        case (Inr inc)
        with upd have ok: "ir_UpdateWithEvents repo c (externally_resolved cur (odds f)) [Some ?ev] w1 = (Inr inc, w')"
          by simp
        from update_ok [OF conjunct2 [OF conjunct2 [OF fr]] ok] act fr
        have new: "inc = bump_version (externally_resolved cur (odds f))" "istored w' = (istored w)(inc_ID cur \<mapsto> inc)"
            "ijournal w' = (\<lambda>j. ijournal w j @ events_of j [?ev])" "iframe w' = iframe w1" "iinv w'"
          by auto
        have "ijournal w' = (ijournal w)(inc_ID cur := ijournal w (inc_ID cur) @ [?ev])"
          using new(3) by (auto simp: events_of_def)
        with new \<open>x = _\<close> ex act False \<open>r = _\<close> show ?thesis
          by (intro closed [of cur n w1 inc ?ev]) (auto simp: opt_status_string_def IsTerminal.simps)
      qed
    qed
  qed
qed

end

end
