(* ===== verification/Approval_Service.thy ===== *)
theory Approval_Service
  imports Incident_Service
begin

text \<open>
  \<open>internal/execution/approval/service.go\<close>: the approval of a remediation, from the request to
  the recorded result. The right to execute is gained by one compare-and-set on the approval; the
  incident is moved before the executor runs; what the executor did is persisted with a context
  that the client cannot cancel.
\<close>

section \<open>The service\<close>

record execution_result =
  xr_Output :: string
  xr_OperationID :: string
  xr_IncidentID :: string
  xr_Verified :: bool

type_synonym 'w action_executor =
  "ctx \<Rightarrow> string \<Rightarrow> string \<Rightarrow> string \<Rightarrow> fresh \<Rightarrow> 'w \<Rightarrow> (gerror + execution_result) \<times> 'w"

record 'w approval_service =
  as_repo :: "'w approval_repo"
  as_broker :: "(string \<Rightarrow> stream_event \<Rightarrow> 'w \<Rightarrow> 'w) option"
  as_executor :: "'w action_executor option"
  as_incidents :: "'w incident_service option"
  as_runs :: "'w run_repo option"
  as_count :: "metric \<Rightarrow> 'w \<Rightarrow> 'w"

definition WithApprovalID :: "ctx \<Rightarrow> string \<Rightarrow> ctx" where
  "WithApprovalID c i = c\<lparr>cx_approval_id := i\<rparr>"

definition ApprovalIDFrom :: "ctx \<Rightarrow> string" where
  "ApprovalIDFrom c = cx_approval_id c"

definition persistContext :: "ctx \<Rightarrow> ctx" where
  "persistContext c = without_cancel c"

definition as_publish :: "'w approval_service \<Rightarrow> string \<Rightarrow> string \<Rightarrow> payload \<Rightarrow> 'w \<Rightarrow> 'w" where
  "as_publish s runID typ d w =
     (case as_broker s of None \<Rightarrow> w | Some publish \<Rightarrow> publish runID \<lparr>se_Type = typ, se_Data = d\<rparr> w)"

section \<open>Which incident\<close>

definition resolveIncidentID :: "'w approval_service \<Rightarrow> ctx \<Rightarrow> string \<Rightarrow> 'w \<Rightarrow> gerror + string" where
  "resolveIncidentID s c runID w =
     (case as_runs s of
        None \<Rightarrow> Inr ''''
      | Some runs \<Rightarrow>
          if runID = '''' then Inl (wrap_sentinel ErrInvalidRequest ''run_id is required to bind an approval'')
          else
            (case rr_GetRun runs c runID w of
               Inl err \<Rightarrow> Inl (wrap_sentinel ErrInvalidRequest (''run '' @ runID @ '': '' @ err_text err))
             | Inr run \<Rightarrow>
                 (case as_incidents s of
                    None \<Rightarrow> Inr (run_IncidentID run)
                  | Some isvc \<Rightarrow>
                      (case svc_Get isvc c (run_IncidentID run) w of
                         Inl err \<Rightarrow> Inl (wrap_sentinel ErrInvalidRequest
                           (''incident '' @ run_IncidentID run @ '' of run '' @ runID @ '': '' @ err_text err))
                       | Inr _ \<Rightarrow> Inr (run_IncidentID run)))))"

definition approvalIncidentID :: "'w approval_service \<Rightarrow> ctx \<Rightarrow> approval \<Rightarrow> 'w \<Rightarrow> gerror + string" where
  "approvalIncidentID s c a w =
     (case as_incidents s of
        None \<Rightarrow> Inr ''''
      | Some _ \<Rightarrow>
          if ap_IncidentID a \<noteq> '''' then Inr (ap_IncidentID a)
          else
            (case as_runs s of
               None \<Rightarrow> Inl (plain_err (''approval '' @ ap_ID a @ '' is not bound to any incident''))
             | Some runs \<Rightarrow>
                 if ap_RunID a = '''' then Inl (plain_err (''approval '' @ ap_ID a @ '' is not bound to any incident''))
                 else
                   (case rr_GetRun runs c (ap_RunID a) w of
                      Inl err \<Rightarrow> Inl (wrap_err (''resolve incident of approval '' @ ap_ID a @ '': '') err)
                    | Inr run \<Rightarrow> Inr (run_IncidentID run))))"

definition moveIncident ::
  "'w approval_service \<Rightarrow> ctx \<Rightarrow> approval \<Rightarrow> status \<Rightarrow> fresh \<Rightarrow> 'w \<Rightarrow> gerror option \<times> 'w" where
  "moveIncident s c a next f w =
     (case approvalIncidentID s c a w of
        Inl err \<Rightarrow> (Some err, w)
      | Inr incidentID \<Rightarrow>
          if incidentID = '''' then (None, w)
          else
            (case as_incidents s of
               None \<Rightarrow> (None, w)
             | Some isvc \<Rightarrow>
                 (case svc_MoveTo isvc c incidentID next f w of
                    (Inl err, w1) \<Rightarrow>
                      (Some (wrap_err (''move incident '' @ incidentID @ '' to '' @ status_string next @ '': '') err), w1)
                  | (Inr _, w1) \<Rightarrow> (None, w1))))"

section \<open>Operations\<close>

text \<open>\<open>expire\<close>: the approval that cannot go on becomes EXPIRED; the returned error wraps
  \<open>ErrExpired\<close> unless the write itself failed.\<close>

definition approval_event :: "approval \<Rightarrow> payload" where
  "approval_event a = [''approval_id'' \<mapsto> VStr (ap_ID a), ''action'' \<mapsto> VStr (ap_Action a)]"

definition set_error :: "gerror \<Rightarrow> approval \<Rightarrow> approval" where
  "set_error cause x = x\<lparr>ap_Error := err_text cause\<rparr>"

definition expire_approval ::
  "'w approval_service \<Rightarrow> ctx \<Rightarrow> approval \<Rightarrow> approval_status \<Rightarrow> gerror \<Rightarrow> fresh \<Rightarrow> 'w \<Rightarrow> gerror \<times> 'w" where
  "expire_approval s c a frm cause f w =
     (case ar_TransitionStatus (as_repo s) (persistContext c) (ap_ID a) frm ApprovalExpired (set_error cause) (clk f 0) w of
        (Inl err, w1) \<Rightarrow>
          if errIs err ErrConflict then (wrap_sentinel ErrExpired (err_text cause), w1)
          else (wrap_err (''expire approval '' @ ap_ID a @ '' after '' @ err_text cause @ '': '') err, w1)
      | (Inr _, w1) \<Rightarrow>
          (wrap_sentinel ErrExpired (err_text cause),
           as_publish s (ap_RunID a) ''action.expired''
             ((approval_event a)(''error'' \<mapsto> VStr (err_text cause)))
             (as_count s (ApprovalsTotal (ap_Action a) ApprovalExpired) w1)))"

definition new_approval :: "string \<Rightarrow> string \<Rightarrow> string \<Rightarrow> string \<Rightarrow> string \<Rightarrow> string \<Rightarrow> fresh \<Rightarrow> approval" where
  "new_approval incidentID runID toolCallID action arguments reason f =
     \<lparr>ap_ID = ''ap_'' @ uid f 0, ap_IncidentID = incidentID, ap_RunID = runID, ap_ToolCallID = toolCallID,
      ap_Action = action, ap_Arguments = arguments, ap_Reason = reason, ap_Status = ApprovalPending,
      ap_ApprovedBy = '''', ap_Result = '''', ap_Error = '''', ap_OperationID = '''',
      ap_CreatedAt = clk f 0, ap_UpdatedAt = clk f 1, ap_ApprovedAt = None\<rparr>"

definition Request ::
  "'w approval_service \<Rightarrow> ctx \<Rightarrow> string \<Rightarrow> string \<Rightarrow> string \<Rightarrow> string \<Rightarrow> string \<Rightarrow> fresh \<Rightarrow> 'w
     \<Rightarrow> (gerror + approval) \<times> 'w" where
  "Request s c runID toolCallID action arguments reason f w =
     (case resolveIncidentID s c runID w of
        Inl err \<Rightarrow> (Inl err, w)
      | Inr incidentID \<Rightarrow>
          (let a = new_approval incidentID runID toolCallID action arguments reason f
           in case ar_Create (as_repo s) c a w of
                (Some err, w1) \<Rightarrow> (Inl err, w1)
              | (None, w1) \<Rightarrow>
                  (let w2 = as_count s (ApprovalsTotal (ap_Action a) ApprovalPending) w1
                   in case moveIncident s c a StatusWaitingApproval (later 2 1 f) w2 of
                        (Some err, w3) \<Rightarrow>
                          (case expire_approval s c a ApprovalPending err (later 6 3 f) w3 of
                             (expireErr, w4) \<Rightarrow>
                               if \<not> errIs expireErr ErrExpired then (Inl expireErr, w4) else (Inl err, w4))
                      | (None, w3) \<Rightarrow>
                          (Inr a, as_publish s (ap_RunID a) ''approval.required'' (approval_event a) w3))))"

definition set_decider :: "string \<Rightarrow> time \<Rightarrow> approval \<Rightarrow> approval" where
  "set_decider actor now x = x\<lparr>ap_ApprovedBy := actor, ap_ApprovedAt := Some now\<rparr>"

definition outcome_status :: "gerror + execution_result \<Rightarrow> approval_status" where
  "outcome_status res =
     (case res of
        Inr _ \<Rightarrow> ApprovalExecuted
      | Inl execErr \<Rightarrow> if errIs execErr ErrResultUnknown then ApprovalUnknown else ApprovalFailed)"

definition set_outcome :: "gerror + execution_result \<Rightarrow> approval \<Rightarrow> approval" where
  "set_outcome res x =
     (case res of
        Inl execErr \<Rightarrow> x\<lparr>ap_Error := err_text execErr\<rparr>
      | Inr xr \<Rightarrow> x\<lparr>ap_Result := xr_Output xr, ap_OperationID := xr_OperationID xr\<rparr>)"

definition outcome_event :: "approval \<Rightarrow> gerror + execution_result \<Rightarrow> payload" where
  "outcome_event a res =
     (let p = [''approval_id'' \<mapsto> VStr (ap_ID a), ''status'' \<mapsto> VStr (approval_status_string (outcome_status res))]
      in case res of
           Inl execErr \<Rightarrow> p(''error'' \<mapsto> VStr (err_text execErr))
         | Inr xr \<Rightarrow> p(''result'' \<mapsto> VStr (xr_Output xr)))"

definition executeClaimed ::
  "'w approval_service \<Rightarrow> 'w action_executor \<Rightarrow> ctx \<Rightarrow> approval \<Rightarrow> fresh \<Rightarrow> 'w \<Rightarrow> (gerror + approval) \<times> 'w" where
  "executeClaimed s execute c a0 f w =
     (case ar_TransitionStatus (as_repo s) (persistContext c) (ap_ID a0) ApprovalApproved ApprovalExecuting (\<lambda>x. x) (clk f 0) w of
        (Inl err, w1) \<Rightarrow>
          (Inl (if errIs err ErrConflict then wrap_sentinel ErrNotPending (ap_ID a0) else err), w1)
      | (Inr a, w1) \<Rightarrow>
          (let w2 = as_publish s (ap_RunID a) ''action.executing'' (approval_event a)
                      (as_count s (ApprovalsTotal (ap_Action a) ApprovalExecuting) w1)
           in case execute (WithApprovalID c (ap_ID a)) (ap_Action a) (ap_Arguments a) (ap_RunID a)
                     (evens (later 1 0 f)) w2 of
                (res, w3) \<Rightarrow>
                  (case ar_TransitionStatus (as_repo s) (persistContext c) (ap_ID a) ApprovalExecuting
                          (outcome_status res) (set_outcome res) (clk (odds (later 1 0 f)) 0) w3 of
                     (Inl err, w4) \<Rightarrow>
                       (Inl (wrap_err (''persist approval '' @ ap_ID a @ '' result as ''
                                @ approval_status_string (outcome_status res) @ '': '') err), w4)
                   | (Inr done_a, w4) \<Rightarrow>
                       (Inr done_a,
                        as_publish s (ap_RunID done_a) ''action.completed'' (outcome_event done_a res)
                          (as_count s (ApprovalsTotal (ap_Action done_a) (outcome_status res)) w4)))))"

definition Approve ::
  "'w approval_service \<Rightarrow> ctx \<Rightarrow> string \<Rightarrow> string \<Rightarrow> fresh \<Rightarrow> 'w \<Rightarrow> (gerror + approval) \<times> 'w" where
  "Approve s c i approvedBy f w =
     (case ar_TransitionStatus (as_repo s) c i ApprovalPending ApprovalApproved
             (set_decider approvedBy (clk f 1)) (clk f 0) w of
        (Inl err, w1) \<Rightarrow> (Inl (if errIs err ErrConflict then wrap_sentinel ErrNotPending i else err), w1)
      | (Inr a, w1) \<Rightarrow>
          (let w2 = as_publish s (ap_RunID a) ''action.approved'' (approval_event a)
                      (as_count s (ApprovalsTotal (ap_Action a) ApprovalApproved) w1)
           in case moveIncident s c a StatusMitigating (later 2 0 f) w2 of
                (Some err, w3) \<Rightarrow>
                  (case expire_approval s c a ApprovalApproved err (later 6 2 f) w3 of (e, w4) \<Rightarrow> (Inl e, w4))
              | (None, w3) \<Rightarrow>
                  (case as_executor s of
                     None \<Rightarrow> (Inr a, w3)
                   | Some execute \<Rightarrow> executeClaimed s execute c a (later 6 2 f) w3)))"

definition Reject ::
  "'w approval_service \<Rightarrow> ctx \<Rightarrow> string \<Rightarrow> string \<Rightarrow> fresh \<Rightarrow> 'w \<Rightarrow> (gerror + approval) \<times> 'w" where
  "Reject s c i rejectedBy f w =
     (case ar_TransitionStatus (as_repo s) c i ApprovalPending ApprovalRejected
             (set_decider rejectedBy (clk f 1)) (clk f 0) w of
        (Inl err, w1) \<Rightarrow> (Inl (if errIs err ErrConflict then wrap_sentinel ErrNotPending i else err), w1)
      | (Inr a, w1) \<Rightarrow>
          (case moveIncident s c a StatusFailed (later 2 0 f)
                  (as_count s (ApprovalsTotal (ap_Action a) ApprovalRejected) w1) of
             (Some err, w2) \<Rightarrow> (Inl err, w2)
           | (None, w2) \<Rightarrow> (Inr a, as_publish s (ap_RunID a) ''action.rejected'' (approval_event a) w2)))"

definition ExpirePending ::
  "'w approval_service \<Rightarrow> ctx \<Rightarrow> string \<Rightarrow> fresh \<Rightarrow> 'w \<Rightarrow> (gerror + int) \<times> 'w" where
  "ExpirePending s c incidentID f w =
     (if incidentID = '''' then (Inl (wrap_sentinel ErrInvalidRequest ''incident_id is required''), w)
      else ar_ExpirePendingByIncident (as_repo s) c incidentID f w)"

definition as_Get :: "'w approval_service \<Rightarrow> ctx \<Rightarrow> string \<Rightarrow> 'w \<Rightarrow> gerror + approval" where
  "as_Get s c i w = ar_Get (as_repo s) c i w"

definition as_ListByRun :: "'w approval_service \<Rightarrow> ctx \<Rightarrow> string \<Rightarrow> 'w \<Rightarrow> gerror + approval list" where
  "as_ListByRun s c runID w = ar_ListByRun (as_repo s) c runID w"

definition as_ListPending :: "'w approval_service \<Rightarrow> ctx \<Rightarrow> 'w \<Rightarrow> gerror + approval list" where
  "as_ListPending s c w = ar_ListPending (as_repo s) c w"

definition as_GetRun :: "'w approval_service \<Rightarrow> ctx \<Rightarrow> string \<Rightarrow> 'w \<Rightarrow> gerror + agent_run" where
  "as_GetRun s c runID w =
     (case as_runs s of None \<Rightarrow> Inl (sentinel_err ErrNotFound) | Some runs \<Rightarrow> rr_GetRun runs c runID w)"

section \<open>The life cycle of an approval\<close>

inductive approval_moves :: "approval_status \<Rightarrow> approval_status \<Rightarrow> bool" where
  approve: "approval_moves ApprovalPending ApprovalApproved"
| reject: "approval_moves ApprovalPending ApprovalRejected"
| expire_pending: "approval_moves ApprovalPending ApprovalExpired"
| expire_approved: "approval_moves ApprovalApproved ApprovalExpired"
| execute: "approval_moves ApprovalApproved ApprovalExecuting"
| executed: "approval_moves ApprovalExecuting ApprovalExecuted"
| failed: "approval_moves ApprovalExecuting ApprovalFailed"
| unknown: "approval_moves ApprovalExecuting ApprovalUnknown"

code_pred approval_moves .

inductive_cases approval_moves_to_executing: "approval_moves s ApprovalExecuting"
inductive_cases approval_moves_to_approved: "approval_moves s ApprovalApproved"
inductive_cases approval_moves_to_pending: "approval_moves s ApprovalPending"

abbreviation approval_path :: "approval_status \<Rightarrow> approval_status \<Rightarrow> bool" where
  "approval_path \<equiv> approval_moves\<^sup>*\<^sup>*"

fun approval_stage :: "approval_status \<Rightarrow> nat" where
  "approval_stage ApprovalPending = 0"
| "approval_stage ApprovalApproved = 1"
| "approval_stage ApprovalExecuting = 2"
| "approval_stage _ = 3"

lemma approval_moves_stage: "approval_moves s t \<Longrightarrow> approval_stage s < approval_stage t"
  by (cases rule: approval_moves.cases) auto

lemma approval_path_stage: "approval_path s t \<Longrightarrow> approval_stage s \<le> approval_stage t"
  by (induction rule: rtranclp_induct) (auto dest!: approval_moves_stage)

lemma approval_path_back: "approval_path s t \<Longrightarrow> approval_stage t \<le> approval_stage s \<Longrightarrow> s = t"
proof (induction rule: converse_rtranclp_induct)
  case (step s u)
  from step.hyps have "approval_stage s < approval_stage u" "approval_stage u \<le> approval_stage t"
    by (auto dest: approval_moves_stage approval_path_stage)
  with step.prems show ?case by simp
qed simp

lemma outcome_moves [intro]: "approval_moves ApprovalExecuting (outcome_status res)"
  by (auto simp: outcome_status_def intro: approval_moves.intros split: sum.splits)

text \<open>The statuses of an approval whose executor was started.\<close>

definition claimed :: "approval \<Rightarrow> bool" where
  "claimed a = (ap_Status a \<in> {ApprovalExecuting, ApprovalExecuted, ApprovalFailed, ApprovalUnknown})"

lemma outcome_claimed: "outcome_status res \<in> {ApprovalExecuted, ApprovalFailed, ApprovalUnknown}"
  by (auto simp: outcome_status_def split: sum.splits)

text \<open>The fields that bind an approval to its run, incident and action never change.\<close>

definition same_binding :: "approval \<Rightarrow> approval \<Rightarrow> bool" where
  "same_binding a b = (ap_ID b = ap_ID a \<and> ap_IncidentID b = ap_IncidentID a \<and> ap_RunID b = ap_RunID a
     \<and> ap_ToolCallID b = ap_ToolCallID a \<and> ap_Action b = ap_Action a \<and> ap_Arguments b = ap_Arguments a
     \<and> ap_Reason b = ap_Reason a \<and> ap_CreatedAt b = ap_CreatedAt a)"

lemma same_binding_refl [simp]: "same_binding a a"
  by (simp add: same_binding_def)

lemma same_binding_trans: "same_binding a b \<Longrightarrow> same_binding b d \<Longrightarrow> same_binding a d"
  by (simp add: same_binding_def)

lemma binding_simps [simp]:
  "same_binding a (set_error e b) = same_binding a b"
  "same_binding a (set_decider x t b) = same_binding a b"
  "same_binding a (set_outcome res b) = same_binding a b"
  "same_binding a (b\<lparr>ap_Status := st, ap_UpdatedAt := t\<rparr>) = same_binding a b"
  "ap_ID (set_error e b) = ap_ID b" "ap_ID (set_decider x t b) = ap_ID b" "ap_ID (set_outcome res b) = ap_ID b"
  "ap_Status (set_error e b) = ap_Status b" "ap_Status (set_decider x t b) = ap_Status b"
  "ap_Status (set_outcome res b) = ap_Status b" "ap_ApprovedBy (set_outcome res b) = ap_ApprovedBy b"
  "ap_ApprovedBy (set_decider x t b) = x" "ap_IncidentID (set_decider x t b) = ap_IncidentID b"
  "ap_Action (set_decider x t b) = ap_Action b" "ap_RunID (set_decider x t b) = ap_RunID b"
  by (simp_all add: same_binding_def set_error_def set_decider_def set_outcome_def split: sum.splits)

text \<open>\<open>evolves\<close>: an entry stays, or goes along the life cycle with its binding;
  \<open>advanced t i t'\<close>: the table changed at most at \<open>i\<close>, and evolved there.\<close>

fun evolves :: "approval option \<Rightarrow> approval option \<Rightarrow> bool" where
  "evolves None y = (y = None)"
| "evolves (Some a) None = False"
| "evolves (Some a) (Some b) = (same_binding a b \<and> approval_path (ap_Status a) (ap_Status b))"

definition advanced :: "(string \<Rightarrow> approval option) \<Rightarrow> string \<Rightarrow> (string \<Rightarrow> approval option) \<Rightarrow> bool" where
  "advanced t i t' = (evolves (t i) (t' i) \<and> (\<forall>j. j \<noteq> i \<longrightarrow> t' j = t j))"

lemma evolves_refl [simp]: "evolves x x"
  by (cases x) simp_all

lemma evolves_trans: "evolves x y \<Longrightarrow> evolves y z \<Longrightarrow> evolves x z"
  by (cases x; cases y; cases z) (auto dest: same_binding_trans)

lemma advanced_refl [simp]: "advanced t i t"
  by (simp add: advanced_def)

lemma advanced_put:
  "t i = Some a \<Longrightarrow> same_binding a b \<Longrightarrow> approval_moves (ap_Status a) (ap_Status b) \<Longrightarrow> advanced t i (t(i \<mapsto> b))"
  by (auto simp: advanced_def)

lemma advanced_trans: "advanced t i u \<Longrightarrow> advanced u i v \<Longrightarrow> advanced t i v"
  unfolding advanced_def by (metis evolves_trans)

end
