(* ===== verification/Go_Std.thy ===== *)
theory Go_Std
  imports Complex_Main Prelude "HOL-Library.Sublist"
begin

text \<open>
  What the program uses of Go's standard library: \<open>strings.TrimSpace\<close>,
  \<open>strings.EqualFold\<close> on ASCII text, \<open>strings.Split\<close>, the verb \<open>%q\<close> of
  \<open>fmt\<close>, and \<open>float64\<close> values. Strings are byte strings; a rune is its UTF-8
  encoding.
\<close>

section \<open>Trimming white space\<close>

text \<open>The runes of \<open>unicode.IsSpace\<close>, as byte sequences.\<close>

definition space_runes :: "string list" where
  "space_runes = map utf8_bytes
     [[0x09], [0x0A], [0x0B], [0x0C], [0x0D], [0x20], [0xC2, 0x85], [0xC2, 0xA0], [0xE1, 0x9A, 0x80],
      [0xE2, 0x80, 0x80], [0xE2, 0x80, 0x81], [0xE2, 0x80, 0x82], [0xE2, 0x80, 0x83], [0xE2, 0x80, 0x84],
      [0xE2, 0x80, 0x85], [0xE2, 0x80, 0x86], [0xE2, 0x80, 0x87], [0xE2, 0x80, 0x88], [0xE2, 0x80, 0x89],
      [0xE2, 0x80, 0x8A], [0xE2, 0x80, 0xA8], [0xE2, 0x80, 0xA9], [0xE2, 0x80, 0xAF], [0xE2, 0x81, 0x9F],
      [0xE3, 0x80, 0x80]]"

definition first_prefix :: "string list \<Rightarrow> string \<Rightarrow> string option" where
  "first_prefix rs s = find (\<lambda>r. r \<noteq> [] \<and> prefix r s) rs"

lemma first_prefix_Some: "first_prefix rs s = Some r \<Longrightarrow> r \<noteq> [] \<and> prefix r s \<and> r \<in> set rs"
  by (auto simp: first_prefix_def find_Some_iff)

function strip :: "string list \<Rightarrow> string \<Rightarrow> string" where
  "strip rs s = (case first_prefix rs s of None \<Rightarrow> s | Some r \<Rightarrow> strip rs (drop (length r) s))"
  by pat_completeness auto
termination
  by (relation "measure (\<lambda>(rs, s). length s)")
     (auto dest!: first_prefix_Some simp: prefix_def)

declare strip.simps [simp del]

definition TrimSpace :: "string \<Rightarrow> string" where
  "TrimSpace s = rev (strip (map rev space_runes) (rev (strip space_runes s)))"

lemma strip_Nil [simp]: "strip rs [] = []"
  by (subst strip.simps) (auto dest!: first_prefix_Some split: option.split)

lemma strip_suffix: "\<exists>u. s = u @ strip rs s"
proof (induction rs s rule: strip.induct)
  case (1 rs s)
  show ?case
  proof (cases "first_prefix rs s")
    case None
    then show ?thesis by (subst strip.simps) simp
  next
    case (Some r)
    with 1 obtain u where "drop (length r) s = u @ strip rs (drop (length r) s)" by blast
    moreover have "s = r @ drop (length r) s" using first_prefix_Some [OF Some] by (auto simp: prefix_def)
    moreover have "strip rs s = strip rs (drop (length r) s)" using Some by (subst strip.simps) simp
    ultimately show ?thesis by (metis append.assoc)
  qed
qed

text \<open>Trimming keeps a contiguous part of the string.\<close>

lemma TrimSpace_sublist: "\<exists>u v. s = u @ TrimSpace s @ v"
proof -
  obtain u where u: "s = u @ strip space_runes s" using strip_suffix by blast
  obtain v where v: "rev (strip space_runes s) = v @ rev (TrimSpace s)"
    using strip_suffix [of "rev (strip space_runes s)"] by (auto simp: TrimSpace_def)
  then have "strip space_runes s = TrimSpace s @ rev v" by (metis rev_append rev_rev_ident)
  with u show ?thesis by metis
qed

lemma TrimSpace_length: "length (TrimSpace s) \<le> length s"
proof -
  obtain u v where "s = u @ TrimSpace s @ v" using TrimSpace_sublist by blast
  then have "length s = length u + length (TrimSpace s) + length v"
    by (metis length_append add.assoc)
  then show ?thesis by simp
qed

text \<open>A string that starts and ends with a graphic ASCII character is already trimmed.\<close>

definition graphic :: "char \<Rightarrow> bool" where
  "graphic c = (0x20 < (of_char c :: nat) \<and> (of_char c :: nat) < 0x80)"

lemma space_runes_ends: "r \<in> set space_runes \<Longrightarrow> r \<noteq> [] \<and> \<not> graphic (hd r) \<and> \<not> graphic (last r)"
  by (auto simp: space_runes_def utf8_bytes_def graphic_def)

lemma strip_graphic:
  assumes "\<And>r. r \<in> set rs \<Longrightarrow> r \<noteq> [] \<and> \<not> graphic (hd r)" and "s \<noteq> [] \<Longrightarrow> graphic (hd s)"
  shows "strip rs s = s"
proof -
  have "\<not> (r \<noteq> [] \<and> prefix r s)" if "r \<in> set rs" for r
    using assms(1) [OF that] assms(2) by (auto simp: prefix_def)
  then have "first_prefix rs s = None" by (auto simp: first_prefix_def find_None_iff)
  then show ?thesis by (subst strip.simps) simp
qed

lemma TrimSpace_graphic: "graphic (hd s) \<Longrightarrow> graphic (last s) \<Longrightarrow> TrimSpace s = s"
proof (cases "s = []")
  case False
  assume "graphic (hd s)" "graphic (last s)"
  with False have "strip space_runes s = s" "strip (map rev space_runes) (rev s) = rev s"
    by (auto intro!: strip_graphic simp: hd_rev dest!: space_runes_ends)
  then show ?thesis by (simp add: TrimSpace_def)
qed (simp add: TrimSpace_def)

section \<open>ASCII case folding\<close>

definition ascii_lower :: "char \<Rightarrow> char" where
  "ascii_lower c = (if 0x41 \<le> (of_char c :: nat) \<and> (of_char c :: nat) \<le> 0x5A then char_of ((of_char c :: nat) + 32) else c)"

definition ToLower :: "string \<Rightarrow> string" where
  "ToLower s = map ascii_lower s"

definition EqualFold :: "string \<Rightarrow> string \<Rightarrow> bool" where
  "EqualFold s t = (ToLower s = ToLower t)"

section \<open>Splitting and joining\<close>

text \<open>\<open>strings.Split\<close> at a one-byte separator.\<close>

fun split_on :: "char \<Rightarrow> string \<Rightarrow> string list" where
  "split_on c [] = [[]]"
| "split_on c (x # xs) =
     (if x = c then [] # split_on c xs
      else (case split_on c xs of [] \<Rightarrow> [[x]] | p # ps \<Rightarrow> (x # p) # ps))"

fun join_with :: "string \<Rightarrow> string list \<Rightarrow> string" where
  "join_with sep [] = []"
| "join_with sep [x] = x"
| "join_with sep (x # y # ys) = x @ sep @ join_with sep (y # ys)"

lemma split_on_nonempty [simp]: "split_on c s \<noteq> []"
  by (induction c s rule: split_on.induct) (auto split: list.splits)

lemma join_split: "join_with [c] (split_on c s) = s"
proof (induction c s rule: split_on.induct)
  case (2 c x xs)
  show ?case
  proof (cases "split_on c xs")
    case Nil
    then show ?thesis by simp
  next
    case (Cons p ps)
    with 2 show ?thesis by (cases ps) auto
  qed
qed simp

lemma split_on_pieces: "p \<in> set (split_on c s) \<Longrightarrow> c \<notin> set p"
  by (induction c s arbitrary: p rule: split_on.induct) (auto split: list.splits if_splits)

section \<open>Quoted strings\<close>

text \<open>\<open>%q\<close> as \<open>strconv.Quote\<close> does it for ASCII; bytes of longer runes are copied, as Go
  does for printable ones. It only ever occurs in error texts.\<close>

definition hex_char :: "nat \<Rightarrow> char" where
  "hex_char n = (if n < 10 then char_of (48 + n) else char_of (87 + n))"

definition quote_char :: "char \<Rightarrow> string" where
  "quote_char c =
     (let n = (of_char c :: nat); esc = (\<lambda>m. [CHR 0x5C, char_of (m :: nat)])
      in if n = 0x22 then esc 0x22 else if n = 0x5C then esc 0x5C
         else if n = 0x07 then esc 0x61 else if n = 0x08 then esc 0x62 else if n = 0x0C then esc 0x66
         else if n = 0x0A then esc 0x6E else if n = 0x0D then esc 0x72 else if n = 0x09 then esc 0x74
         else if n = 0x0B then esc 0x76
         else if n < 0x20 \<or> n = 0x7F then [CHR 0x5C, CHR ''x'', hex_char (n div 16), hex_char (n mod 16)]
         else [c])"

definition go_quote :: "string \<Rightarrow> string" where
  "go_quote s = [CHR 0x22] @ concat (map quote_char s) @ [CHR 0x22]"

section \<open>Floating-point values\<close>

text \<open>A finite \<open>float64\<close> is the rational number it denotes (the sign of zero is dropped); the code
  compares such values and prints them, and computes nothing with them.\<close>

datatype float64 = Fin rat | PosInf | NegInf | NaN

fun f64_le :: "float64 \<Rightarrow> float64 \<Rightarrow> bool" where
  "f64_le (Fin x) (Fin y) = (x \<le> y)"
| "f64_le NaN _ = False"
| "f64_le _ NaN = False"
| "f64_le NegInf _ = True"
| "f64_le _ PosInf = True"
| "f64_le _ _ = False"

text \<open>Rounding to the nearest integer, ties to even, and \<open>%.4f\<close> with it.\<close>

definition round_half_even :: "rat \<Rightarrow> int" where
  "round_half_even q =
     (let d = \<lfloor>q\<rfloor>; r = q - of_int d
      in if r < 1/2 then d else if r > 1/2 then d + 1 else if even d then d else d + 1)"

definition pad4 :: "nat \<Rightarrow> string" where
  "pad4 n = (let s = dec_nat n in replicate (4 - length s) (CHR ''0'') @ s)"

fun fmt_4f :: "float64 \<Rightarrow> string" where
  "fmt_4f PosInf = ''+Inf''"
| "fmt_4f NegInf = ''-Inf''"
| "fmt_4f NaN = ''NaN''"
| "fmt_4f (Fin q) =
     (let m = nat (round_half_even (\<bar>q\<bar> * 10000))
      in (if q < 0 then ''-'' else '''') @ dec_nat (m div 10000) @ ''.'' @ pad4 (m mod 10000))"

end
