(* ===== verification/Policy_Registry.thy ===== *)
theory Policy_Registry
  imports Go_Std
begin

text \<open>
  \<open>internal/execution/policy/policy.go\<close> and \<open>internal/tool/registry/registry.go\<close>: which
  risk levels may run, and the registry of tools in the order of their registration. A tool is a
  value of the caller's type; its \<open>Info\<close> call is an argument.
\<close>

section \<open>Risk policy\<close>

text \<open>\<open>RiskLevel\<close> is a Go string; \<open>RiskOther\<close> stands for every string that is none of the four.\<close>

datatype risk_level = RiskLow | RiskMedium | RiskHigh | RiskCritical | RiskOther string

fun risk_string :: "risk_level \<Rightarrow> string" where
  "risk_string RiskLow = ''LOW''"
| "risk_string RiskMedium = ''MEDIUM''"
| "risk_string RiskHigh = ''HIGH''"
| "risk_string RiskCritical = ''CRITICAL''"
| "risk_string (RiskOther s) = s"

datatype decision = DecisionAllow | DecisionRequireApproval | DecisionDeny

record policy_engine =
  pe_approvalEnabled :: bool

definition policy_New :: "bool \<Rightarrow> policy_engine" where
  "policy_New approvalEnabled = \<lparr>pe_approvalEnabled = approvalEnabled\<rparr>"

fun Evaluate :: "policy_engine \<Rightarrow> risk_level \<Rightarrow> decision" where
  "Evaluate e RiskLow = DecisionAllow"
| "Evaluate e RiskMedium = (if pe_approvalEnabled e then DecisionRequireApproval else DecisionDeny)"
| "Evaluate e RiskHigh = (if pe_approvalEnabled e then DecisionRequireApproval else DecisionDeny)"
| "Evaluate e RiskCritical = DecisionDeny"
| "Evaluate e (RiskOther s) = DecisionDeny"

definition RequireApproval :: "policy_engine \<Rightarrow> risk_level \<Rightarrow> bool" where
  "RequireApproval e r = (Evaluate e r = DecisionRequireApproval)"

section \<open>Tool registry\<close>

record 't registered_tool =
  rt_Name :: string
  rt_Tool :: 't
  rt_RiskLevel :: risk_level

record 't registry =
  rg_tools :: "(string \<times> 't registered_tool) list"
  rg_order :: "string list"

definition registry_New :: "'t registry" where
  "registry_New = \<lparr>rg_tools = [], rg_order = []\<rparr>"

definition Register ::
  "('t \<Rightarrow> gerror + string) \<Rightarrow> 't \<Rightarrow> risk_level \<Rightarrow> 't registry \<Rightarrow> gerror option \<times> 't registry" where
  "Register info t risk r =
     (case info t of
        Inl err \<Rightarrow> (Some (wrap_err ''get tool info: '' err), r)
      | Inr name \<Rightarrow>
          if name = '''' then (Some (plain_err ''tool name must not be empty''), r)
          else
            (case map_of (rg_tools r) name of
               Some _ \<Rightarrow> (Some (plain_err (''tool '' @ go_quote name @ '' already registered'')), r)
             | None \<Rightarrow> (None, r\<lparr>rg_tools := AList.update name \<lparr>rt_Name = name, rt_Tool = t, rt_RiskLevel = risk\<rparr> (rg_tools r),
                                rg_order := rg_order r @ [name]\<rparr>)))"

definition registry_Get :: "string \<Rightarrow> 't registry \<Rightarrow> 't registered_tool option" where
  "registry_Get name r = map_of (rg_tools r) name"

text \<open>\<open>All\<close> reads the map at every name of the order; a missing name would give the zero value, which
  the invariant excludes (\<open>concat\<close> drops it here).\<close>

definition registry_All :: "'t registry \<Rightarrow> 't registered_tool list" where
  "registry_All r = concat (map (\<lambda>n. case map_of (rg_tools r) n of None \<Rightarrow> [] | Some t \<Rightarrow> [t]) (rg_order r))"

definition registry_Names :: "'t registry \<Rightarrow> string list" where
  "registry_Names r = rg_order r"

definition EinoTools :: "'t registry \<Rightarrow> 't list" where
  "EinoTools r = map rt_Tool (registry_All r)"

section \<open>Invariant\<close>

definition registry_ok :: "'t registry \<Rightarrow> bool" where
  "registry_ok r = (distinct (rg_order r) \<and> set (rg_order r) = dom (map_of (rg_tools r))
     \<and> (\<forall>n t. map_of (rg_tools r) n = Some t \<longrightarrow> rt_Name t = n))"

lemma registry_New_ok: "registry_ok registry_New"
  by (simp add: registry_ok_def registry_New_def)

lemma Register_ok: "registry_ok r \<Longrightarrow> Register info t risk r = (e, r') \<Longrightarrow> registry_ok r'"
  unfolding registry_ok_def Register_def
  by (auto simp: domIff split: sum.splits if_splits option.splits)

lemma All_names: "registry_ok r \<Longrightarrow> map rt_Name (registry_All r) = rg_order r"
proof -
  assume ok: "registry_ok r"
  have "map rt_Name (concat (map (\<lambda>n. case map_of (rg_tools r) n of None \<Rightarrow> [] | Some t \<Rightarrow> [t]) ns)) = ns"
    if "set ns \<subseteq> dom (map_of (rg_tools r))" for ns
    using that ok by (induction ns) (auto simp: registry_ok_def)
  then show ?thesis using ok by (simp add: registry_All_def registry_ok_def)
qed

text \<open>A successful registration appends one tool; a failed one changes nothing.\<close>

lemma Register_All:
  assumes "registry_ok r" and "Register info t risk r = (e, r')"
  shows "(e = None \<longrightarrow> (\<exists>name. info t = Inr name \<and> name \<notin> set (registry_Names r)
      \<and> registry_All r' = registry_All r @ [\<lparr>rt_Name = name, rt_Tool = t, rt_RiskLevel = risk\<rparr>]))
    \<and> (e \<noteq> None \<longrightarrow> r' = r)"
proof (cases e)
  case (Some x)
  with assms show ?thesis by (auto simp: Register_def split: sum.splits if_splits option.splits)
next
  case None
  with assms(2) obtain name where n: "info t = Inr name" "map_of (rg_tools r) name = None"
      "r' = r\<lparr>rg_tools := AList.update name \<lparr>rt_Name = name, rt_Tool = t, rt_RiskLevel = risk\<rparr> (rg_tools r),
              rg_order := rg_order r @ [name]\<rparr>"
    by (auto simp: Register_def split: sum.splits if_splits option.splits)
  have fresh: "name \<notin> set (rg_order r)" using assms(1) n(2) by (auto simp: registry_ok_def)
  then show ?thesis
    using None n by (auto simp: registry_All_def registry_Names_def intro!: arg_cong [where f = concat] map_cong)
qed

section \<open>Properties\<close>

text \<open>A sequence of registrations.\<close>

fun register_all :: "('t \<Rightarrow> gerror + string) \<Rightarrow> ('t \<times> risk_level) list \<Rightarrow> 't registry \<Rightarrow> 't registry" where
  "register_all info [] r = r"
| "register_all info ((t, risk) # ts) r = register_all info ts (snd (Register info t risk r))"

text \<open>The registry keeps what was registered: after any sequence of registrations the tools it lists have
  distinct names, in the order of their registration, each name is found by \<open>Get\<close> and gives the tool
  listed under it, and a name that is not listed is not found; a tool registered before is still there.\<close>

theorem registry_keeps_tools:
  shows "distinct (registry_Names (register_all info ts registry_New))
    \<and> map rt_Name (registry_All (register_all info ts registry_New)) = registry_Names (register_all info ts registry_New)
    \<and> (\<forall>n. registry_Get n (register_all info ts registry_New) \<noteq> None
          \<longleftrightarrow> n \<in> set (registry_Names (register_all info ts registry_New)))
    \<and> (\<exists>later. registry_All (register_all info (ts @ us) registry_New) = registry_All (register_all info ts registry_New) @ later)"
proof -
  have ok: "registry_ok (register_all info xs r)" if "registry_ok r" for xs r
    using that
  proof (induction info xs r rule: register_all.induct)
    case (2 info t risk ts r)
    then show ?case using Register_ok [OF 2(2), of info t risk] by (metis register_all.simps(2) prod.collapse)
  qed simp
  have keep: "\<exists>later. registry_All (register_all info xs r) = registry_All r @ later" if "registry_ok r" for xs r
    using that
  proof (induction info xs r rule: register_all.induct)
    case (2 info t risk ts r)
    obtain e r' where reg: "Register info t risk r = (e, r')" by force
    from Register_ok [OF 2(2) reg] 2(1) reg obtain later where "registry_All (register_all info ts r') = registry_All r' @ later"
      by auto
    with Register_All [OF 2(2) reg] reg show ?case by (cases e) auto
  qed simp
  have app: "register_all info (ts @ us) r = register_all info us (register_all info ts r)" for r
    by (induction info ts r rule: register_all.induct) simp_all
  note this_ok = ok [OF registry_New_ok, of ts]
  from this_ok have "distinct (registry_Names (register_all info ts registry_New))"
    "\<forall>n. registry_Get n (register_all info ts registry_New) \<noteq> None
          \<longleftrightarrow> n \<in> set (registry_Names (register_all info ts registry_New))"
    by (auto simp: registry_ok_def registry_Names_def registry_Get_def)
  with All_names [OF this_ok] keep [OF this_ok, of us] show ?thesis by (simp add: app registry_Names_def)
qed

end
