(* ===== verification/Json.thy ===== *)
theory Json
  imports Go_Std
begin

text \<open>
  The part of \<open>encoding/json\<close> the program uses: encoding of strings and objects as
  \<open>json.Marshal\<close> does it (HTML escaping on, map keys sorted by the caller), and decoding into the
  string fields of small structs. Strings are UTF-8; a byte that starts no rune is replaced by
  U+FFFD in both directions, as Go does. The encoding of a valid string decodes to the string.
\<close>

section \<open>Runes\<close>

definition byte :: "char \<Rightarrow> nat" where "byte c = of_char c"

definition cont_byte :: "char \<Rightarrow> bool" where
  "cont_byte c = (0x80 \<le> byte c \<and> byte c \<le> 0xBF)"

text \<open>The length of the rune at the head of a string, 0 when there is none (\<open>utf8.DecodeRune\<close>).\<close>

fun rune_len :: "string \<Rightarrow> nat" where
  "rune_len [] = 0"
| "rune_len (b # s) =
     (let n = byte b in
      if n < 0x80 then 1
      else if 0xC2 \<le> n \<and> n \<le> 0xDF then (case s of c # _ \<Rightarrow> if cont_byte c then 2 else 0 | _ \<Rightarrow> 0)
      else if 0xE0 \<le> n \<and> n \<le> 0xEF then
        (case s of c # d # _ \<Rightarrow>
           if cont_byte c \<and> cont_byte d \<and> (n = 0xE0 \<longrightarrow> 0xA0 \<le> byte c) \<and> (n = 0xED \<longrightarrow> byte c \<le> 0x9F) then 3 else 0
         | _ \<Rightarrow> 0)
      else if 0xF0 \<le> n \<and> n \<le> 0xF4 then
        (case s of c # d # e # _ \<Rightarrow>
           if cont_byte c \<and> cont_byte d \<and> cont_byte e \<and> (n = 0xF0 \<longrightarrow> 0x90 \<le> byte c) \<and> (n = 0xF4 \<longrightarrow> byte c \<le> 0x8F)
           then 4 else 0
         | _ \<Rightarrow> 0)
      else 0)"

function runes :: "string \<Rightarrow> string list" where
  "runes s = (if s = [] then [] else take (max 1 (rune_len s)) s # runes (drop (max 1 (rune_len s)) s))"
  by pat_completeness auto
termination by (relation "measure length") auto

declare runes.simps [simp del]

lemma runes_Nil [simp]: "runes [] = []"
  by (simp add: runes.simps)

lemma concat_runes: "concat (runes s) = s"
proof (induction s rule: runes.induct)
  case (1 s)
  then show ?case by (cases "s = []") (simp_all add: runes.simps [of s])
qed

lemma runes_nonempty: "r \<in> set (runes s) \<Longrightarrow> r \<noteq> []"
proof (induction s rule: runes.induct)
  case (1 s)
  then show ?case by (cases "s = []") (auto simp: runes.simps [of s])
qed

text \<open>A string is valid when no rune is a replacement; \<open>to_valid\<close> replaces the others by U+FFFD.\<close>

definition valid_rune :: "string \<Rightarrow> bool" where
  "valid_rune r = (r \<noteq> [] \<and> rune_len r = length r)"

definition valid_utf8 :: "string \<Rightarrow> bool" where
  "valid_utf8 s = list_all valid_rune (runes s)"

definition to_valid :: "string \<Rightarrow> string" where
  "to_valid s = concat (map (\<lambda>r. if valid_rune r then r else utf8_bytes [0xEF, 0xBF, 0xBD]) (runes s))"

lemma to_valid_id: "valid_utf8 s \<Longrightarrow> to_valid s = s"
proof -
  assume "valid_utf8 s"
  then have "map (\<lambda>r. if valid_rune r then r else utf8_bytes [0xEF, 0xBF, 0xBD]) (runes s) = runes s"
    by (intro map_idI) (auto simp: valid_utf8_def list_all_iff)
  then show ?thesis by (simp add: to_valid_def concat_runes)
qed

section \<open>Values and encoding\<close>

datatype json = JNull | JBool bool | JNum string | JStr string | JArr "json list" | JObj "(string \<times> json) list"

definition q_char :: char where "q_char = CHR 0x22"
definition bs_char :: char where "bs_char = CHR 0x5C"

definition u_escape :: "nat \<Rightarrow> string" where
  "u_escape n = [bs_char, CHR ''u'', hex_char (n div 4096 mod 16), hex_char (n div 256 mod 16),
                 hex_char (n div 16 mod 16), hex_char (n mod 16)]"

definition json_rune :: "string \<Rightarrow> string" where
  "json_rune r =
     (if \<not> valid_rune r then u_escape 0xFFFD
      else if r = utf8_bytes [0xE2, 0x80, 0xA8] then u_escape 0x2028
      else if r = utf8_bytes [0xE2, 0x80, 0xA9] then u_escape 0x2029
      else (let c = hd r; n = byte c in
        if n = 0x22 \<or> n = 0x5C then [bs_char, c]
        else if n = 0x08 then [bs_char, CHR ''b''] else if n = 0x0C then [bs_char, CHR ''f'']
        else if n = 0x0A then [bs_char, CHR ''n''] else if n = 0x0D then [bs_char, CHR ''r'']
        else if n = 0x09 then [bs_char, CHR ''t'']
        else if n < 0x20 \<or> n = 0x3C \<or> n = 0x3E \<or> n = 0x26 then u_escape n
        else r))"

definition json_body :: "string \<Rightarrow> string" where
  "json_body s = concat (map json_rune (runes s))"

definition json_string :: "string \<Rightarrow> string" where
  "json_string s = [q_char] @ json_body s @ [q_char]"

fun json_encode :: "json \<Rightarrow> string" where
  "json_encode JNull = ''null''"
| "json_encode (JBool b) = (if b then ''true'' else ''false'')"
| "json_encode (JNum n) = n"
| "json_encode (JStr s) = json_string s"
| "json_encode (JArr xs) = ''['' @ join_with '','' (map json_encode xs) @ '']''"
| "json_encode (JObj kvs) =
     ''{'' @ join_with '','' (map (\<lambda>(k, v). json_string k @ '':'' @ json_encode v) kvs) @ ''}''"

text \<open>A struct field with \<open>omitempty\<close> is left out when it is empty.\<close>

definition field_if :: "bool \<Rightarrow> string \<Rightarrow> json \<Rightarrow> (string \<times> json) list" where
  "field_if b k v = (if b then [(k, v)] else [])"

section \<open>Decoding\<close>

definition json_space :: "char \<Rightarrow> bool" where
  "json_space c = (byte c = 0x20 \<or> byte c = 0x09 \<or> byte c = 0x0A \<or> byte c = 0x0D)"

definition skip_ws :: "string \<Rightarrow> string" where
  "skip_ws s = dropWhile json_space s"

definition hex_val :: "char \<Rightarrow> nat option" where
  "hex_val c = (let n = byte c in
     if 0x30 \<le> n \<and> n \<le> 0x39 then Some (n - 0x30)
     else if 0x41 \<le> n \<and> n \<le> 0x46 then Some (n - 0x37)
     else if 0x61 \<le> n \<and> n \<le> 0x66 then Some (n - 0x57) else None)"

definition hex4 :: "string \<Rightarrow> nat option" where
  "hex4 s = (case map hex_val s of
     [Some a, Some b, Some c, Some d] \<Rightarrow> Some (((a * 16 + b) * 16 + c) * 16 + d) | _ \<Rightarrow> None)"

definition encode_rune :: "nat \<Rightarrow> string" where
  "encode_rune n =
     (if n < 0x80 then utf8_bytes [n]
      else if n < 0x800 then utf8_bytes [0xC0 + n div 64, 0x80 + n mod 64]
      else if 0xD800 \<le> n \<and> n < 0xE000 then utf8_bytes [0xEF, 0xBF, 0xBD]
      else if n < 0x10000 then utf8_bytes [0xE0 + n div 4096, 0x80 + n div 64 mod 64, 0x80 + n mod 64]
      else utf8_bytes [0xF0 + n div 262144, 0x80 + n div 4096 mod 64, 0x80 + n div 64 mod 64, 0x80 + n mod 64])"

text \<open>The body of a string literal, after the opening quote: the value and the text after the closing
  quote. A pair of surrogate escapes is one rune, a lone surrogate becomes U+FFFD.\<close>

definition simple_escape :: "char \<Rightarrow> char option" where
  "simple_escape e =
     (if e = q_char then Some q_char else if e = bs_char then Some bs_char else if e = CHR ''/'' then Some (CHR ''/'')
      else if e = CHR ''b'' then Some (CHR 0x08) else if e = CHR ''f'' then Some (CHR 0x0C)
      else if e = CHR ''n'' then Some (CHR 0x0A) else if e = CHR ''r'' then Some (CHR 0x0D)
      else if e = CHR ''t'' then Some (CHR 0x09) else None)"

definition u_value :: "string \<Rightarrow> (nat \<times> string) option" where
  "u_value s = (case hex4 (take 4 s) of
     None \<Rightarrow> None
   | Some hi \<Rightarrow>
       (let rest = drop 4 s in
        case (if 0xD800 \<le> hi \<and> hi < 0xDC00 \<and> take 2 rest = [bs_char, CHR ''u''] then hex4 (take 4 (drop 2 rest)) else None) of
          Some lo \<Rightarrow> if 0xDC00 \<le> lo \<and> lo < 0xE000
                    then Some (0x10000 + (hi - 0xD800) * 1024 + (lo - 0xDC00), drop 6 rest) else Some (hi, rest)
        | None \<Rightarrow> Some (hi, rest)))"

fun literal :: "nat \<Rightarrow> string \<Rightarrow> (string \<times> string) option" where
  "literal 0 s = None"
| "literal (Suc n) s =
     (case s of
        [] \<Rightarrow> None
      | c # cs \<Rightarrow>
          if c = q_char then Some ([], cs)
          else if c = bs_char then
            (case cs of
               [] \<Rightarrow> None
             | e # cs' \<Rightarrow>
                 if e = CHR ''u'' then
                   (case u_value cs' of None \<Rightarrow> None
                    | Some (v, rest) \<Rightarrow> map_option (\<lambda>(t, r). (encode_rune v @ t, r)) (literal n rest))
                 else
                   (case simple_escape e of None \<Rightarrow> None
                    | Some d \<Rightarrow> map_option (\<lambda>(t, r). (d # t, r)) (literal n cs')))
          else if byte c < 0x20 then None
          else map_option (\<lambda>(t, r). (c # t, r)) (literal n cs))"

definition json_literal :: "string \<Rightarrow> (string \<times> string) option" where
  "json_literal s = map_option (\<lambda>(t, r). (to_valid t, r)) (literal (Suc (length s)) s)"

definition digits :: "string \<Rightarrow> string" where
  "digits s = takeWhile (\<lambda>c. 0x30 \<le> byte c \<and> byte c \<le> 0x39) s"

text \<open>A number: sign, integer part without leading zeros, fraction, exponent.\<close>

definition json_number :: "string \<Rightarrow> (string \<times> string) option" where
  "json_number s =
     (let sign = (case s of c # _ \<Rightarrow> if c = CHR ''-'' then [c] else [] | [] \<Rightarrow> []);
          s1 = drop (length sign) s;
          ip = (case s1 of c # _ \<Rightarrow> if c = CHR ''0'' then [c] else digits s1 | [] \<Rightarrow> []);
          s2 = drop (length ip) s1;
          fp = (case s2 of c # r \<Rightarrow> if c = CHR ''.'' then c # digits r else [] | [] \<Rightarrow> []);
          s3 = drop (length fp) s2;
          ep = (case s3 of
                  c # r \<Rightarrow> if c = CHR ''e'' \<or> c = CHR ''E''
                     then (case r of d # r' \<Rightarrow> if d = CHR ''+'' \<or> d = CHR ''-'' then c # d # digits r' else c # digits r | [] \<Rightarrow> [c])
                     else []
                | [] \<Rightarrow> [])
      in if ip = [] \<or> length fp = 1 \<or> (ep \<noteq> [] \<and> digits [last ep] = []) then None
         else Some (sign @ ip @ fp @ ep, drop (length ep) s3))"

fun json_value :: "nat \<Rightarrow> string \<Rightarrow> (json \<times> string) option"
  and json_elems :: "nat \<Rightarrow> string \<Rightarrow> (json list \<times> string) option"
  and json_members :: "nat \<Rightarrow> string \<Rightarrow> ((string \<times> json) list \<times> string) option" where
  "json_value 0 s = None"
| "json_value (Suc n) s =
     (let t = skip_ws s in
      if prefix ''null'' t then Some (JNull, drop 4 t)
      else if prefix ''true'' t then Some (JBool True, drop 4 t)
      else if prefix ''false'' t then Some (JBool False, drop 5 t)
      else (case t of
          [] \<Rightarrow> None
        | c # cs \<Rightarrow>
            if c = q_char then map_option (\<lambda>(v, r). (JStr v, r)) (json_literal cs)
            else if c = CHR ''['' then
              (if prefix '']'' (skip_ws cs) then Some (JArr [], tl (skip_ws cs))
               else map_option (\<lambda>(v, r). (JArr v, r)) (json_elems n cs))
            else if c = CHR ''{'' then
              (if prefix ''}'' (skip_ws cs) then Some (JObj [], tl (skip_ws cs))
               else map_option (\<lambda>(v, r). (JObj v, r)) (json_members n cs))
            else map_option (\<lambda>(v, r). (JNum v, r)) (json_number t)))"
| "json_elems 0 s = None"
| "json_elems (Suc n) s =
     (case json_value n s of
        None \<Rightarrow> None
      | Some (v, r) \<Rightarrow>
          (case skip_ws r of
             c # r' \<Rightarrow> if c = CHR '','' then map_option (\<lambda>(vs, q). (v # vs, q)) (json_elems n r')
                       else if c = CHR '']'' then Some ([v], r') else None
           | [] \<Rightarrow> None))"
| "json_members 0 s = None"
| "json_members (Suc n) s =
     (case skip_ws s of
        [] \<Rightarrow> None
      | c # cs \<Rightarrow>
          if c \<noteq> q_char then None
          else (case json_literal cs of
              None \<Rightarrow> None
            | Some (k, r0) \<Rightarrow>
                (case skip_ws r0 of
                   [] \<Rightarrow> None
                 | d # r1 \<Rightarrow>
                     if d \<noteq> CHR '':'' then None
                     else (case json_value n r1 of
                         None \<Rightarrow> None
                       | Some (v, r2) \<Rightarrow>
                           (case skip_ws r2 of
                              e # r3 \<Rightarrow> if e = CHR '','' then map_option (\<lambda>(ms, q). ((k, v) # ms, q)) (json_members n r3)
                                        else if e = CHR ''}'' then Some ([(k, v)], r3) else None
                            | [] \<Rightarrow> None)))))"

definition json_parse :: "string \<Rightarrow> json option" where
  "json_parse s = (case json_value (2 * length s + 2) s of
     Some (v, r) \<Rightarrow> if skip_ws r = [] then Some v else None | None \<Rightarrow> None)"

definition json_Valid :: "string \<Rightarrow> bool" where
  "json_Valid s = (json_parse s \<noteq> None)"

text \<open>Decoding into a struct: the string value a key sets (the last one that is not null wins), and
  whether a value of another type was met, which makes \<open>Unmarshal\<close> return an error.\<close>

fun string_field :: "string \<Rightarrow> (string \<times> json) list \<Rightarrow> string \<Rightarrow> string" where
  "string_field name [] acc = acc"
| "string_field name ((k, v) # kvs) acc =
     string_field name kvs (case v of JStr x \<Rightarrow> if EqualFold k name then x else acc | _ \<Rightarrow> acc)"

definition field_mismatch :: "string \<Rightarrow> (string \<times> json) list \<Rightarrow> bool" where
  "field_mismatch name kvs =
     list_ex (\<lambda>(k, v). EqualFold k name \<and> (case v of JStr _ \<Rightarrow> False | JNull \<Rightarrow> False | _ \<Rightarrow> True)) kvs"

definition unmarshal_fields :: "string list \<Rightarrow> string \<Rightarrow> gerror + string list" where
  "unmarshal_fields names s =
     (case json_parse s of
        None \<Rightarrow> Inl (plain_err ''invalid JSON'')
      | Some JNull \<Rightarrow> Inr (map (\<lambda>_. '''') names)
      | Some (JObj kvs) \<Rightarrow>
          if list_ex (\<lambda>n. field_mismatch n kvs) names then Inl (plain_err ''json: cannot unmarshal value of another type'')
          else Inr (map (\<lambda>n. string_field n kvs '''') names)
      | Some _ \<Rightarrow> Inl (plain_err ''json: cannot unmarshal value of another type''))"

section \<open>The encoding of a string decodes to the string\<close>

lemma literal_mono: "literal n s = Some x \<Longrightarrow> n \<le> m \<Longrightarrow> literal m s = Some x"
proof (induction n arbitrary: s m x)
  case (Suc n)
  then obtain k where m: "m = Suc k" "n \<le> k" by (cases m) auto
  have IH: "literal n t = Some y \<Longrightarrow> literal k t = Some y" for t y using Suc.IH m(2) by blast
  obtain c cs where s: "s = c # cs" using Suc.prems by (cases s) auto
  show ?case
  proof (cases "c = q_char \<or> c \<noteq> bs_char")
    case True
    with Suc.prems(1) show ?thesis unfolding s m(1) by (auto simp: IH split: if_splits)
  next
    case False
    then obtain e es where "cs = e # es" using Suc.prems(1) by (cases cs) (auto simp: s)
    with False Suc.prems(1) show ?thesis
      unfolding s m(1) by (auto simp: IH split: if_splits option.splits)
  qed
qed simp

lemma byte_char_of [simp]: "byte (char_of n) = n mod 256"
  by (simp add: byte_def)

lemma byte_less [simp]: "byte c < 256"
  using of_char_mod_256 [of c, where 'a = nat] by (metis byte_def mod_less_divisor zero_less_numeral)

lemma byte_inj: "byte c = byte d \<Longrightarrow> c = d"
  by (simp add: byte_def)

lemma byte_q_bs [simp]: "byte q_char = 0x22" "byte bs_char = 0x5C"
  by (simp_all add: byte_def q_char_def bs_char_def)

lemma hex_val_hex_char: "d < 16 \<Longrightarrow> hex_val (hex_char d) = Some d"
  by (auto simp: hex_val_def hex_char_def Let_def)

lemma hex4_u: "hex4 [hex_char a, hex_char b, hex_char c, hex_char d] = Some (((a * 16 + b) * 16 + c) * 16 + d)"
  if "a < 16" "b < 16" "c < 16" "d < 16"
  using that by (simp add: hex4_def hex_val_hex_char)

lemma u_value_escape:
  assumes "n < 0xD800"
  shows "u_value (drop 2 (u_escape n) @ t) = Some (n, t)"
proof -
  have "((n div 4096 mod 16 * 16 + n div 256 mod 16) * 16 + n div 16 mod 16) * 16 + n mod 16 = n"
  proof -
    have "n div 256 = n div 4096 * 16 + n div 256 mod 16" "n div 16 = n div 256 * 16 + n div 16 mod 16"
      using div_mult_mod_eq [of "n div 256" 16] div_mult_mod_eq [of "n div 16" 16]
      by (simp_all flip: div_mult2_eq)
    moreover have "n div 4096 mod 16 = n div 4096" using assms by (simp add: div_less_iff_less_mult)
    ultimately show ?thesis using div_mult_mod_eq [of n 16] by simp
  qed
  with assms show ?thesis
    by (simp add: u_value_def u_escape_def hex4_u)
qed

lemma valid_rune_one: "valid_rune [c] \<longleftrightarrow> byte c < 0x80"
  by (simp add: valid_rune_def Let_def)

lemma valid_rune_long:
  assumes "valid_rune r" and "length r \<noteq> 1"
  shows "\<forall>c \<in> set r. 0x80 \<le> byte c"
proof -
  obtain c cs where r: "r = c # cs" using assms(1) by (cases r) (auto simp: valid_rune_def)
  have big: "0x80 \<le> byte c"
  proof (rule ccontr)
    assume "\<not> 0x80 \<le> byte c"
    then have "rune_len r = 1" by (simp add: r Let_def)
    with assms show False by (simp add: valid_rune_def)
  qed
  with assms show ?thesis
    unfolding r valid_rune_def
    by (auto simp: Let_def cont_byte_def split: if_splits list.splits)
qed

lemma literal_bytes:
  assumes "\<forall>c \<in> set r. 0x80 \<le> byte c" and "literal n t = Some (u, v)"
  shows "literal (length r + n) (r @ t) = Some (r @ u, v)"
  using assms
proof (induction r)
  case (Cons c r)
  then have "c \<noteq> q_char" "c \<noteq> bs_char" "\<not> byte c < 0x20" by auto
  with Cons show ?case by simp
qed simp

lemma literal_simple:
  assumes "simple_escape e = Some d" and "e \<noteq> CHR ''u''" and "literal n t = Some (u, v)"
  shows "literal (Suc n) (bs_char # e # t) = Some (d # u, v)"
proof -
  have "bs_char \<noteq> q_char" by (simp add: bs_char_def q_char_def)
  with assms show ?thesis by simp
qed

lemma literal_u_step:
  assumes "bs_char \<noteq> q_char" and "u_value s = Some (w, t)" and "literal m t = Some (u, v)"
  shows "literal (Suc m) (bs_char # CHR ''u'' # s) = Some (encode_rune w @ u, v)"
  using assms by simp

lemma literal_u:
  assumes "n < 0xD800" and "literal m t = Some (u, v)"
  shows "literal (Suc m) (u_escape n @ t) = Some (encode_rune n @ u, v)"
proof -
  have "bs_char \<noteq> q_char" by (simp add: bs_char_def q_char_def)
  moreover have "u_escape n @ t = bs_char # CHR ''u'' # (drop 2 (u_escape n) @ t)"
    by (simp add: u_escape_def)
  ultimately show ?thesis using u_value_escape [OF assms(1), of t] assms(2) by (metis literal_u_step)
qed

lemma char_byte: "byte c = n \<Longrightarrow> c = char_of n"
  by (auto simp: byte_def)

lemma literal_rune:
  assumes "valid_rune r" and "literal n t = Some (u, v)"
  shows "\<exists>m. literal m (json_rune r @ t) = Some (r @ u, v)"
proof (cases "length r = 1")
  case True
  then obtain c where r: "r = [c]" by (cases r) auto
  with assms(1) have small: "byte c < 0x80" by (simp add: valid_rune_one)
  have ls: "r \<noteq> utf8_bytes [0xE2, 0x80, 0xA8]" "r \<noteq> utf8_bytes [0xE2, 0x80, 0xA9]"
    by (simp_all add: r utf8_bytes_def)
  consider (esc) "json_rune r = [bs_char, c]" "byte c = 0x22 \<or> byte c = 0x5C"
    | (named) e where "json_rune r = [bs_char, e]" "simple_escape e = Some c" "e \<noteq> CHR ''u''"
    | (num) "json_rune r = u_escape (byte c)"
    | (plain) "json_rune r = [c]" "byte c \<noteq> 0x22" "byte c \<noteq> 0x5C" "\<not> byte c < 0x20"
  proof -
    note jr = json_rune_def [of r]
    show thesis
    proof (cases "byte c \<in> {0x08, 0x0C, 0x0A, 0x0D, 0x09}")
      case True
      then have "c \<in> {CHR 0x08, CHR 0x0C, CHR 0x0A, CHR 0x0D, CHR 0x09}"
        by (auto intro!: byte_inj simp: byte_def)
      then show thesis
        using named ls assms(1) jr unfolding r
        by (auto simp: simple_escape_def q_char_def bs_char_def byte_def)
    next
      case False
      then show thesis
        using esc num plain ls assms(1) jr unfolding r by (auto simp: Let_def split: if_splits)
    qed
  qed
  then show ?thesis
  proof cases
    case esc
    have "c = q_char \<or> c = bs_char" using esc(2) by (auto intro: byte_inj)
    then have "simple_escape c = Some c" "c \<noteq> CHR ''u''"
      by (auto simp: simple_escape_def q_char_def bs_char_def)
    from literal_simple [OF this assms(2)] esc(1) r show ?thesis by (auto intro: exI [of _ "Suc n"])
  next
    case (named e)
    from literal_simple [OF this(2,3) assms(2)] this(1) r show ?thesis by (auto intro: exI [of _ "Suc n"])
  next
    case num
    have "encode_rune (byte c) = [c]" using small by (simp add: encode_rune_def utf8_bytes_def byte_def)
    with literal_u [of "byte c" n t u v] small assms(2) num r show ?thesis by (auto intro: exI [of _ "Suc n"])
  next
    case plain
    then have "c \<noteq> q_char" "c \<noteq> bs_char" by auto
    with plain assms(2) r have "literal (Suc n) (json_rune r @ t) = Some (r @ u, v)" by simp
    then show ?thesis by blast
  qed
next
  case False
  note bytes = valid_rune_long [OF assms(1) False]
  show ?thesis
  proof (cases "r = utf8_bytes [0xE2, 0x80, 0xA8] \<or> r = utf8_bytes [0xE2, 0x80, 0xA9]")
    case True
    moreover have "encode_rune 0x2028 = utf8_bytes [0xE2, 0x80, 0xA8]" "encode_rune 0x2029 = utf8_bytes [0xE2, 0x80, 0xA9]"
      by (simp_all add: encode_rune_def)
    moreover have "utf8_bytes [0xE2, 0x80, 0xA8] \<noteq> utf8_bytes [0xE2, 0x80, 0xA9]"
      by (simp add: utf8_bytes_def)
    ultimately obtain k where k: "k = 0x2028 \<or> k = 0x2029" "json_rune r = u_escape k" "encode_rune k = r"
      using assms(1) by (metis json_rune_def)
    with literal_u [of k n t u v] assms(2) have "literal (Suc n) (json_rune r @ t) = Some (r @ u, v)" by auto
    then show ?thesis by blast
  next
    case other: False
    have "r \<noteq> []" using assms(1) by (simp add: valid_rune_def)
    then have "0x80 \<le> byte (hd r)" using bytes by simp
    then have "json_rune r = r" using assms(1) other by (simp add: json_rune_def Let_def)
    with literal_bytes [OF bytes assms(2)] show ?thesis by metis
  qed
qed

lemma literal_body:
  assumes "list_all valid_rune rs"
  shows "\<exists>m. literal m (concat (map json_rune rs) @ q_char # t) = Some (concat rs, t)"
  using assms
proof (induction rs)
  case Nil
  have "literal 1 (q_char # t) = Some ([], t)" by simp
  then show ?case by (auto simp del: literal.simps)
next
  case (Cons r rs)
  then obtain m where "literal m (concat (map json_rune rs) @ q_char # t) = Some (concat rs, t)" by auto
  with literal_rune [of r m] Cons.prems show ?case by simp
qed

text \<open>Fuel: one more than the length is always enough.\<close>

lemma u_value_length: "u_value s = Some (v, r) \<Longrightarrow> length r < length s"
  unfolding u_value_def hex4_def
  by (auto simp: Let_def split: option.splits if_splits list.splits dest!: arg_cong [of _ _ length])

lemma literal_fuel: "length s < n \<Longrightarrow> length s < m \<Longrightarrow> literal n s = literal m s"
proof (induction "length s" arbitrary: s n m rule: less_induct)
  case less
  obtain n' m' where nm: "n = Suc n'" "m = Suc m'" using less.prems by (cases n; cases m) auto
  show ?case
  proof (cases s)
    case (Cons c cs)
    have a: "literal n' cs = literal m' cs" using less.hyps [of cs n' m'] less.prems nm Cons by simp
    have b: "literal n' cs' = literal m' cs'" if "cs = e # cs'" for e cs'
      using less.hyps [of cs' n' m'] less.prems nm Cons that by simp
    have d: "literal n' r = literal m' r" if "cs = e # cs'" "u_value cs' = Some (v, r)" for e cs' v r
      using less.hyps [of r n' m'] less.prems nm Cons that u_value_length [OF that(2)] by simp
    show ?thesis unfolding nm Cons using a b d by (auto split: list.splits option.splits)
  qed (simp add: nm)
qed

lemma json_literal_body:
  assumes "valid_utf8 s"
  shows "json_literal (json_body s @ q_char # t) = Some (s, t)"
proof -
  let ?x = "json_body s @ q_char # t"
  obtain m where "literal m ?x = Some (s, t)"
    using literal_body [of "runes s" t] assms by (auto simp: valid_utf8_def json_body_def concat_runes)
  then have "literal (m + Suc (length ?x)) ?x = Some (s, t)" by (rule literal_mono) simp
  then have "literal (Suc (length ?x)) ?x = Some (s, t)"
    using literal_fuel [of ?x "m + Suc (length ?x)" "Suc (length ?x)"] by simp
  with to_valid_id [OF assms] show ?thesis by (simp add: json_literal_def)
qed

section \<open>The encoding of a value decodes to it\<close>

lemma skip_ws_bytes [simp]: "\<not> json_space c \<Longrightarrow> skip_ws (c # cs) = c # cs"
  by (simp add: skip_ws_def)

lemma json_spaces [simp]: "\<not> json_space q_char" "\<not> json_space (CHR '':'')" "\<not> json_space (CHR '','')" "\<not> json_space (CHR ''}'')"
  "\<not> json_space (CHR ''{'')"
  by (simp_all add: json_space_def byte_def q_char_def)

lemma json_value_string:
  "valid_utf8 v \<Longrightarrow> json_value (Suc n) (json_string v @ rest) = Some (JStr v, rest)"
  using json_literal_body [of v rest]
  by (simp add: json_string_def) (simp add: q_char_def)

text \<open>Values without numbers, whose strings are UTF-8.\<close>

fun plain_json :: "json \<Rightarrow> bool" where
  "plain_json JNull = True"
| "plain_json (JBool b) = True"
| "plain_json (JNum n) = False"
| "plain_json (JStr s) = valid_utf8 s"
| "plain_json (JArr xs) = list_all plain_json xs"
| "plain_json (JObj kvs) = list_all (\<lambda>(k, v). valid_utf8 k \<and> plain_json v) kvs"

lemma encode_starts:
  "plain_json v \<Longrightarrow> \<exists>c cs. json_encode v = c # cs \<and> \<not> json_space c \<and> c \<noteq> CHR '']'' \<and> c \<noteq> CHR ''}''"
  by (cases v) (auto simp: json_string_def json_space_def byte_def q_char_def)

abbreviation elems_text :: "json list \<Rightarrow> string" where
  "elems_text xs \<equiv> join_with '','' (map json_encode xs)"

abbreviation members_text :: "(string \<times> json) list \<Rightarrow> string" where
  "members_text kvs \<equiv> join_with '','' (map (\<lambda>(k, v). json_string k @ '':'' @ json_encode v) kvs)"

lemma join_cons: "join_with sep (x # xs) = (if xs = [] then x else x @ sep @ join_with sep xs)"
  by (cases xs) auto

lemma json_key: "valid_utf8 k \<Longrightarrow> json_literal (json_body k @ q_char # r) = Some (k, r)"
  by (rule json_literal_body)

lemma elems_text_starts:
  assumes "xs \<noteq> []" and "list_all plain_json xs"
  shows "\<exists>c cs. elems_text xs @ r = c # cs \<and> \<not> json_space c \<and> c \<noteq> CHR '']''"
proof -
  obtain x ys where "xs = x # ys" using assms(1) by (cases xs) auto
  with assms(2) encode_starts [of x] show ?thesis by (auto simp: join_cons)
qed

lemma members_text_starts: "kvs \<noteq> [] \<Longrightarrow> \<exists>cs. members_text kvs @ r = q_char # cs"
  by (cases kvs) (auto simp: join_cons json_string_def)

lemma json_punct [simp]: "\<not> json_space (CHR ''['')" "\<not> json_space (CHR '']'')"
  by (simp_all add: json_space_def byte_def)

lemma json_value_object:
  "json_members n (q_char # ms) = Some (v, r) \<Longrightarrow> json_value (Suc n) (CHR ''{'' # q_char # ms) = Some (JObj v, r)"
  by (simp add: q_char_def skip_ws_def json_space_def byte_def)

lemma json_value_array:
  assumes "xs \<noteq> []" and "list_all plain_json xs" and "json_elems n (elems_text xs @ CHR '']'' # rest) = Some (xs, rest)"
  shows "json_value (Suc n) (json_encode (JArr xs) @ rest) = Some (JArr xs, rest)"
proof -
  obtain c cs where "elems_text xs @ CHR '']'' # rest = c # cs" "\<not> json_space c" "c \<noteq> CHR '']''"
    using elems_text_starts [OF assms(1,2)] by blast
  then show ?thesis using assms(3) by (simp add: q_char_def)
qed

lemma json_value_members:
  assumes "kvs \<noteq> []" and "json_members n (members_text kvs @ CHR ''}'' # rest) = Some (kvs, rest)"
  shows "json_value (Suc n) (json_encode (JObj kvs) @ rest) = Some (JObj kvs, rest)"
proof -
  obtain cs where "members_text kvs @ CHR ''}'' # rest = q_char # cs" using members_text_starts [OF assms(1)] by blast
  then show ?thesis using assms(2) by (simp add: json_value_object) (simp add: q_char_def)
qed

lemma json_round:
  "plain_json v \<Longrightarrow> 2 * length (json_encode v) \<le> n \<Longrightarrow> json_value n (json_encode v @ rest) = Some (v, rest)"
  "xs \<noteq> [] \<Longrightarrow> list_all plain_json xs \<Longrightarrow> 2 * length (elems_text xs) < n
     \<Longrightarrow> json_elems n (elems_text xs @ CHR '']'' # rest) = Some (xs, rest)"
  "kvs \<noteq> [] \<Longrightarrow> list_all (\<lambda>(k, v). valid_utf8 k \<and> plain_json v) kvs \<Longrightarrow> 2 * length (members_text kvs) < n
     \<Longrightarrow> json_members n (members_text kvs @ CHR ''}'' # rest) = Some (kvs, rest)"
proof (induction n arbitrary: v xs kvs rest)
  case 0
  { case 1 then show ?case using encode_starts [of v] by auto }
  { case 2 then show ?case by simp }
  { case 3 then show ?case by simp }
next
  case (Suc n)
  { case 1
    show ?case
    proof (cases v)
      case (JArr xs)
      with 1 Suc.IH(2) [of xs rest] show ?thesis
        by (cases "xs = []") (simp add: q_char_def skip_ws_def, intro json_value_array [of xs, folded JArr], auto)
    next
      case (JObj kvs)
      with 1 Suc.IH(3) [of kvs rest] show ?thesis
        by (cases "kvs = []") (simp add: q_char_def skip_ws_def, intro json_value_members [of kvs, folded JObj], auto)
    qed (use 1 json_value_string in \<open>auto simp: skip_ws_def json_space_def byte_def\<close>)
  }
  { case 2
    then obtain x ys where xs: "xs = x # ys" by (cases xs) auto
    show ?case
    proof (cases "ys = []")
      case True
      with 2 xs Suc.IH(1) [of x "CHR '']'' # rest"] show ?thesis by (simp add: join_cons)
    next
      case False
      with 2 xs Suc.IH(1) [of x "'','' @ elems_text ys @ CHR '']'' # rest"] Suc.IH(2) [of ys rest]
      show ?thesis by (simp add: join_cons)
    qed
  }
  { case 3
    then obtain k v tl where kvs: "kvs = (k, v) # tl" by (cases kvs) auto
    show ?case
    proof (cases "tl = []")
      case True
      with 3 kvs Suc.IH(1) [of v "CHR ''}'' # rest"] json_key [of k] show ?thesis by (simp add: join_cons json_string_def)
    next
      case False
      with 3 kvs Suc.IH(1) [of v "'','' @ members_text tl @ CHR ''}'' # rest"] Suc.IH(3) [of tl rest] json_key [of k]
      show ?thesis by (simp add: join_cons json_string_def)
    qed
  }
qed

lemma json_parse_encode: "plain_json v \<Longrightarrow> json_parse (json_encode v) = Some v"
  using json_round(1) [of v "2 * length (json_encode v) + 2" "[]"] by (simp add: json_parse_def skip_ws_def)

lemma json_parse_strings:
  "list_all (\<lambda>(k, v). valid_utf8 k \<and> valid_utf8 v) kvs
     \<Longrightarrow> json_parse (json_encode (JObj (map (\<lambda>(k, v). (k, JStr v)) kvs))) = Some (JObj (map (\<lambda>(k, v). (k, JStr v)) kvs))"
  by (rule json_parse_encode) (auto simp: list_all_iff)

lemma valid_ascii: "list_all (\<lambda>c. byte c < 0x80) s \<Longrightarrow> valid_utf8 s"
proof (induction s rule: runes.induct)
  case (1 s)
  then show ?case
    by (cases s) (auto simp: valid_utf8_def runes.simps [of "_ # _"] valid_rune_def)
qed

end
