(* ===== verification/Deployment.thy ===== *)
theory Deployment
  imports Approval_Service Policy_Registry Json
begin

text \<open>
  \<open>internal/tool/deployment\<close>: the restart tool, its white list of targets, and the adapter that
  calls the fixed deployment endpoint. The HTTP client is an argument: for a request it returns a
  transport error (saying whether it was a timeout) or a status and a body. The adapter's own work
  (the idempotency key, the request it builds, the classification of the answer) is modelled.
\<close>

section \<open>The HTTP adapter\<close>

record http_request =
  hr_url :: string
  hr_headers :: "(string \<times> string) list"
  hr_body :: string

datatype http_outcome = TransportError bool gerror | Response nat string

record 'w http_executor =
  hx_client :: "ctx \<Rightarrow> http_request \<Rightarrow> 'w \<Rightarrow> http_outcome \<times> 'w"
  hx_url :: string
  hx_url_err :: "gerror option"
  hx_token :: string

record http_executor_config =
  hc_URL :: string
  hc_Token :: string
  hc_Timeout :: int

text \<open>\<open>client timeout\<close> is an HTTP client with that timeout (in nanoseconds), \<open>url_err\<close> what parsing the
  configured URL reports.\<close>

definition NewHTTPExecutor ::
  "(int \<Rightarrow> ctx \<Rightarrow> http_request \<Rightarrow> 'w \<Rightarrow> http_outcome \<times> 'w) \<Rightarrow> gerror option \<Rightarrow> http_executor_config
     \<Rightarrow> gerror + 'w http_executor" where
  "NewHTTPExecutor client url_err cfg =
     (if hc_URL cfg = '''' then Inl (plain_err ''execution.restart_url is required for the HTTP executor'')
      else Inr \<lparr>hx_client = client (if hc_Timeout cfg \<le> 0 then 30000000000 else hc_Timeout cfg),
                hx_url = hc_URL cfg, hx_url_err = url_err, hx_token = hc_Token cfg\<rparr>)"

definition maxResponseBytes :: nat where "maxResponseBytes = 4096"

text \<open>How \<open>json.Marshal\<close> writes a \<open>RawMessage\<close>: white space between tokens removed, HTML characters
  escaped.\<close>

fun json_compact :: "bool \<Rightarrow> string \<Rightarrow> string" where
  "json_compact in_str [] = []"
| "json_compact in_str (c # cs) =
     (if byte c = 0x3C \<or> byte c = 0x3E \<or> byte c = 0x26 then u_escape (byte c) @ json_compact in_str cs
      else if c = q_char then c # json_compact (\<not> in_str) cs
      else if in_str \<and> c = bs_char then (case cs of d # ds \<Rightarrow> c # d # json_compact in_str ds | [] \<Rightarrow> [c])
      else if \<not> in_str \<and> json_space c then json_compact in_str cs
      else c # json_compact in_str cs)"

definition deployment_payload :: "string \<Rightarrow> string \<Rightarrow> string \<Rightarrow> string" where
  "deployment_payload action approvalID arguments =
     ''{'' @ json_string ''action'' @ '':'' @ json_string action @ '',''
       @ json_string ''approval_id'' @ '':'' @ json_string approvalID @ '',''
       @ json_string ''arguments'' @ '':'' @ json_compact False (if json_Valid arguments then arguments else ''{}'') @ ''}''"

definition deployment_request :: "'w http_executor \<Rightarrow> string \<Rightarrow> string \<Rightarrow> string \<Rightarrow> http_request" where
  "deployment_request e action approvalID arguments =
     \<lparr>hr_url = hx_url e,
      hr_headers = [(''Content-Type'', ''application/json''), (''Idempotency-Key'', approvalID)]
        @ (if hx_token e \<noteq> '''' then [(''Authorization'', ''Bearer '' @ hx_token e)] else []),
      hr_body = deployment_payload action approvalID arguments\<rparr>"

definition operation_id_of :: "string \<Rightarrow> string" where
  "operation_id_of body =
     (case json_parse (take maxResponseBytes body) of
        Some (JObj kvs) \<Rightarrow> string_field ''operation_id'' kvs '''' | _ \<Rightarrow> '''')"

definition no_result :: "string \<Rightarrow> string \<Rightarrow> execution_result" where
  "no_result out op = \<lparr>xr_Output = out, xr_OperationID = op, xr_IncidentID = '''', xr_Verified = False\<rparr>"

definition http_classify :: "http_outcome \<Rightarrow> gerror + execution_result" where
  "http_classify out =
     (case out of
        TransportError timeout err \<Rightarrow>
          if timeout \<or> errIs err CtxDeadlineExceeded \<or> errIs err CtxCanceled
          then Inl (wrap_sentinel ErrResultUnknown (''deployment endpoint call: '' @ err_text err))
          else Inl (wrap_err ''call deployment endpoint: '' err)
      | Response code body \<Rightarrow>
          if code < 200 \<or> code > 299 then Inl (plain_err (''deployment endpoint returned status '' @ dec_nat code))
          else Inr (no_result (json_encode (JObj [(''operation_id'', JStr (operation_id_of body)),
                                                  (''status'', JStr ''completed'')]))
                              (operation_id_of body)))"

definition http_Execute :: "'w http_executor \<Rightarrow> ctx \<Rightarrow> string \<Rightarrow> string \<Rightarrow> 'w \<Rightarrow> (gerror + execution_result) \<times> 'w" where
  "http_Execute e c action arguments w =
     (let approvalID = ApprovalIDFrom c
      in if approvalID = ''''
         then (Inl (plain_err ''missing approval_id: refusing to call the deployment endpoint without an idempotency key''), w)
         else
           (case hx_url_err e of
              Some err \<Rightarrow> (Inl (wrap_err ''build deployment request: '' err), w)
            | None \<Rightarrow>
                (case hx_client e c (deployment_request e action approvalID arguments) w of
                   (out, w1) \<Rightarrow> (http_classify out, w1))))"

section \<open>The restart tool\<close>

record restart_input =
  ri_Target :: string
  ri_Reason :: string

record restart_result =
  rs_Status :: string
  rs_ApprovalID :: string
  rs_Target :: string
  rs_Message :: string

text \<open>\<open>None\<close> for the allowed targets is Go's nil slice: no white list was configured.\<close>

record 'w deployment_tool =
  dt_approval :: "'w approval_service option"
  dt_policy :: "policy_engine option"
  dt_allowedTargets :: "string list option"
  dt_http :: "'w http_executor option"

definition deployment_New :: "'w approval_service option \<Rightarrow> policy_engine option \<Rightarrow> 'w deployment_tool" where
  "deployment_New a p = \<lparr>dt_approval = a, dt_policy = p, dt_allowedTargets = None, dt_http = None\<rparr>"

definition SetApproval :: "'w approval_service \<Rightarrow> 'w deployment_tool \<Rightarrow> 'w deployment_tool" where
  "SetApproval s t = t\<lparr>dt_approval := Some s\<rparr>"

definition WithAllowedTargets :: "string list option \<Rightarrow> 'w deployment_tool \<Rightarrow> 'w deployment_tool" where
  "WithAllowedTargets targets t = t\<lparr>dt_allowedTargets := targets\<rparr>"

definition WithHTTPExecutor :: "'w http_executor \<Rightarrow> 'w deployment_tool \<Rightarrow> 'w deployment_tool" where
  "WithHTTPExecutor e t = t\<lparr>dt_http := Some e\<rparr>"

fun target_allowed :: "string list \<Rightarrow> string \<Rightarrow> bool" where
  "target_allowed [] target = False"
| "target_allowed (allowed # rest) target = (if allowed = target then True else target_allowed rest target)"

definition checkTarget :: "'w deployment_tool \<Rightarrow> string \<Rightarrow> gerror option" where
  "checkTarget t target =
     (if TrimSpace target = '''' then Some (plain_err ''worker.restart target is required'')
      else
        (case dt_allowedTargets t of
           None \<Rightarrow>
             (case dt_http t of
                Some _ \<Rightarrow> Some (plain_err
                  ''worker.restart target whitelist is not configured, refusing to call the deployment endpoint'')
              | None \<Rightarrow> None)
         | Some allowed \<Rightarrow>
             if allowed = [] then Some (plain_err ''worker.restart target whitelist is empty, no target is allowed'')
             else if target_allowed allowed target then None
             else Some (plain_err (''worker.restart target '' @ go_quote target @ '' is not in the allowed targets''))))"

definition restart_args :: "restart_input \<Rightarrow> string" where
  "restart_args inp =
     json_encode (JObj ([(''target'', JStr (ri_Target inp))]
       @ field_if (ri_Reason inp \<noteq> '''') ''reason'' (JStr (ri_Reason inp))))"

definition parse_restart :: "string \<Rightarrow> gerror + restart_input" where
  "parse_restart s =
     (case unmarshal_fields [''target'', ''reason''] s of
        Inl err \<Rightarrow> Inl err
      | Inr vs \<Rightarrow> Inr \<lparr>ri_Target = vs ! 0, ri_Reason = vs ! 1\<rparr>)"

definition restart_request ::
  "'w deployment_tool \<Rightarrow> ctx \<Rightarrow> restart_input \<Rightarrow> fresh \<Rightarrow> 'w \<Rightarrow> (gerror + restart_result) \<times> 'w" where
  "restart_request t c inp f w =
     (if (case dt_policy t of None \<Rightarrow> False | Some p \<Rightarrow> Evaluate p RiskMedium = DecisionDeny)
      then (Inl (plain_err ''worker.restart denied by policy (approval required)''), w)
      else
        (case dt_approval t of
           None \<Rightarrow> (Inl (plain_err ''worker.restart requires approval but approval service unavailable''), w)
         | Some asvc \<Rightarrow>
             (case checkTarget t (ri_Target inp) of
                Some err \<Rightarrow> (Inl err, w)
              | None \<Rightarrow>
                  (case Request asvc c (cx_run_id c) (cx_tool_call_id c) ''restart_worker'' (restart_args inp)
                          (ri_Reason inp) f w of
                     (Inl err, w1) \<Rightarrow> (Inl err, w1)
                   | (Inr a, w1) \<Rightarrow> (Inr \<lparr>rs_Status = ''pending_approval'', rs_ApprovalID = ap_ID a,
                                         rs_Target = ri_Target inp, rs_Message = ''''\<rparr>, w1)))))"

definition restart_output :: "restart_result \<Rightarrow> string" where
  "restart_output r =
     json_encode (JObj ([(''status'', JStr (rs_Status r))]
       @ field_if (rs_ApprovalID r \<noteq> '''') ''approval_id'' (JStr (rs_ApprovalID r))
       @ field_if (rs_Target r \<noteq> '''') ''target'' (JStr (rs_Target r))
       @ field_if (rs_Message r \<noteq> '''') ''message'' (JStr (rs_Message r))))"

definition tool_Execute ::
  "'w deployment_tool \<Rightarrow> ctx \<Rightarrow> string \<Rightarrow> string \<Rightarrow> 'w \<Rightarrow> (gerror + execution_result) \<times> 'w" where
  "tool_Execute t c action arguments w =
     (if action \<noteq> ''restart_worker'' then (Inl (plain_err (''unknown action '' @ go_quote action)), w)
      else
        (case parse_restart arguments of
           Inl err \<Rightarrow> (Inl (wrap_err ''parse restart arguments: '' err), w)
         | Inr inp \<Rightarrow>
             (case checkTarget t (ri_Target inp) of
                Some err \<Rightarrow> (Inl err, w)
              | None \<Rightarrow>
                  (case dt_http t of
                     Some e \<Rightarrow> http_Execute e c action arguments w
                   | None \<Rightarrow>
                       (Inr (no_result (restart_output \<lparr>rs_Status = ''completed'', rs_ApprovalID = '''', rs_Target = ri_Target inp,
                               rs_Message = ''worker '' @ ri_Target inp @ '' restarted''\<rparr>) ''''), w)))))"

section \<open>Facts\<close>

lemma target_allowed_iff [simp]: "target_allowed ts t \<longleftrightarrow> t \<in> set ts"
  by (induction ts) auto

text \<open>With the HTTP adapter a target passes only when a white list names it.\<close>

lemma checkTarget_http:
  "checkTarget t target = None \<Longrightarrow> dt_http t \<noteq> None \<Longrightarrow> \<exists>ts. dt_allowedTargets t = Some ts \<and> target \<in> set ts"
  by (auto simp: checkTarget_def split: if_splits option.splits)

lemma checkTarget_nonempty: "checkTarget t target = None \<Longrightarrow> TrimSpace target \<noteq> ''''"
  by (auto simp: checkTarget_def split: if_splits)

text \<open>The endpoint is called at most once, and then with the approval id as idempotency key, for an
  allowed target.\<close>

lemma tool_Execute_calls:
  assumes "tool_Execute t c action args w = (r, w')"
  shows "w' = w \<or> (\<exists>e inp out ts. dt_http t = Some e \<and> action = ''restart_worker'' \<and> parse_restart args = Inr inp
    \<and> dt_allowedTargets t = Some ts \<and> ri_Target inp \<in> set ts \<and> ApprovalIDFrom c \<noteq> ''''
    \<and> hx_client e c (deployment_request e action (ApprovalIDFrom c) args) w = (out, w') \<and> r = http_classify out)"
proof (cases "w' = w")
  case False
  then obtain inp e where e: "action = ''restart_worker''" "parse_restart args = Inr inp"
      "checkTarget t (ri_Target inp) = None" "dt_http t = Some e" "http_Execute e c action args w = (r, w')"
    using assms by (auto simp: tool_Execute_def split: if_splits sum.splits option.splits)
  from checkTarget_http [OF e(3)] e(4) obtain ts where "dt_allowedTargets t = Some ts" "ri_Target inp \<in> set ts" by auto
  moreover from e(5) False obtain out where "hx_client e c (deployment_request e action (ApprovalIDFrom c) args) w = (out, w')"
      "r = http_classify out" "ApprovalIDFrom c \<noteq> ''''"
    by (auto simp: http_Execute_def Let_def split: if_splits option.splits prod.splits)
  ultimately show ?thesis using e by blast
qed simp

lemma idempotency_key:
  "(''Idempotency-Key'', i) \<in> set (hr_headers (deployment_request e action i args))"
  by (simp add: deployment_request_def)

lemma http_classify_unknown:
  "(\<exists>err. http_classify out = Inl err \<and> errIs err ErrResultUnknown) \<longleftrightarrow>
    (\<exists>timeout err. out = TransportError timeout err
       \<and> (timeout \<or> errIs err CtxDeadlineExceeded \<or> errIs err CtxCanceled \<or> errIs err ErrResultUnknown))"
  by (cases out) (auto simp: http_classify_def)

text \<open>What was stored with the approval is what the tool later reads.\<close>

lemma restart_args_parse:
  assumes "valid_utf8 (ri_Target inp)" and "valid_utf8 (ri_Reason inp)"
  shows "parse_restart (restart_args inp) = Inr inp"
proof -
  let ?kvs = "(''target'', ri_Target inp) # (if ri_Reason inp \<noteq> '''' then [(''reason'', ri_Reason inp)] else [])"
  have names: "valid_utf8 ''target''" "valid_utf8 ''reason''" by (rule valid_ascii, simp add: byte_def)+
  have "restart_args inp = json_encode (JObj (map (\<lambda>(k, v). (k, JStr v)) ?kvs))"
    by (simp add: restart_args_def field_if_def)
  moreover have "json_parse (json_encode (JObj (map (\<lambda>(k, v). (k, JStr v)) ?kvs))) = Some (JObj (map (\<lambda>(k, v). (k, JStr v)) ?kvs))"
    by (rule json_parse_strings) (use assms names in auto)
  moreover have "EqualFold ''target'' ''target''" "EqualFold ''reason'' ''reason''" "\<not> EqualFold ''target'' ''reason''" "\<not> EqualFold ''reason'' ''target''"
    by (simp_all add: EqualFold_def ToLower_def ascii_lower_def)
  ultimately show ?thesis
    by (simp add: parse_restart_def unmarshal_fields_def field_mismatch_def)
qed

text \<open>What is approved is what runs: the arguments stored with an approval parse back to exactly the
  target and the reason of the request, for every text that is valid UTF-8, whatever characters it
  contains.\<close>

theorem restart_arguments_survive:
  assumes "valid_utf8 (ri_Target inp)" and "valid_utf8 (ri_Reason inp)"
  shows "parse_restart (restart_args inp) = Inr inp"
  using assms by (rule restart_args_parse)

lemma restart_arguments_survive_witness:
  "parse_restart (restart_args \<lparr>ri_Target = ''work<er'', ri_Reason = [CHR 0x22, CHR 0x0A]\<rparr>)
     = Inr \<lparr>ri_Target = ''work<er'', ri_Reason = [CHR 0x22, CHR 0x0A]\<rparr>"
  by (rule restart_arguments_survive) (simp_all add: valid_ascii byte_def)

end
