(* ===== verification/Verifier.thy ===== *)
theory Verifier
  imports Go_Std
begin

text \<open>
  \<open>internal/execution/verifier\<close>: the check of one metrics snapshot, and the sequence of attempts
  that a remediation must pass consecutively. What the metrics source, the context and the timer
  answer at each attempt are arguments (\<open>probe\<close>), so the theorems hold for every behaviour of them.
\<close>

section \<open>One check\<close>

record metrics =
  me_ConsumerCount :: int
  me_QueueDepth :: int
  me_ErrorRate :: float64

record verify_config =
  vc_MinConsumers :: int
  vc_MaxQueueDepth :: int
  vc_MaxErrorRate :: float64

text \<open>The \<open>float64\<close> nearest to 0.01.\<close>

definition f64_0_01 :: float64 where
  "f64_0_01 = Fin (5764607523034235 / 576460752303423488)"

definition DefaultConfig :: verify_config where
  "DefaultConfig = \<lparr>vc_MinConsumers = 1, vc_MaxQueueDepth = 1000, vc_MaxErrorRate = f64_0_01\<rparr>"

definition verifier_New :: "verify_config \<Rightarrow> verify_config" where
  "verifier_New cfg =
     (let c1 = (if vc_MinConsumers cfg \<le> 0 then cfg\<lparr>vc_MinConsumers := 1\<rparr> else cfg)
      in if f64_le (vc_MaxErrorRate c1) (Fin 0) then c1\<lparr>vc_MaxErrorRate := f64_0_01\<rparr> else c1)"

record check =
  ck_Name :: string
  ck_Passed :: bool
  ck_Detail :: string

record verify_result =
  vr_Passed :: bool
  vr_Checks :: "check list"

fun all_passed :: "check list \<Rightarrow> bool \<Rightarrow> bool" where
  "all_passed [] passed = passed"
| "all_passed (c # cs) passed = all_passed cs (if \<not> ck_Passed c then False else passed)"

definition Verify :: "verify_config \<Rightarrow> metrics \<Rightarrow> verify_result" where
  "Verify cfg m =
     (let checks =
        [\<lparr>ck_Name = ''consumer_count'', ck_Passed = me_ConsumerCount m \<ge> vc_MinConsumers cfg,
          ck_Detail = ''consumers='' @ dec_int (me_ConsumerCount m) @ '' (min='' @ dec_int (vc_MinConsumers cfg) @ '')''\<rparr>,
         \<lparr>ck_Name = ''queue_depth'', ck_Passed = me_QueueDepth m \<le> vc_MaxQueueDepth cfg,
          ck_Detail = ''queue_depth='' @ dec_int (me_QueueDepth m) @ '' (max='' @ dec_int (vc_MaxQueueDepth cfg) @ '')''\<rparr>,
         \<lparr>ck_Name = ''error_rate'', ck_Passed = f64_le (me_ErrorRate m) (vc_MaxErrorRate cfg),
          ck_Detail = ''error_rate='' @ fmt_4f (me_ErrorRate m) @ '' (max='' @ fmt_4f (vc_MaxErrorRate cfg) @ '')''\<rparr>]
      in \<lparr>vr_Passed = all_passed checks True, vr_Checks = checks\<rparr>)"

lemma all_passed_iff: "all_passed cs b \<longleftrightarrow> b \<and> (\<forall>c \<in> set cs. ck_Passed c)"
  by (induction cs b rule: all_passed.induct) auto

lemma Verify_Passed:
  "vr_Passed (Verify cfg m) \<longleftrightarrow> vc_MinConsumers cfg \<le> me_ConsumerCount m \<and> me_QueueDepth m \<le> vc_MaxQueueDepth cfg
    \<and> f64_le (me_ErrorRate m) (vc_MaxErrorRate cfg)"
  by (simp add: Verify_def Let_def all_passed_iff)

section \<open>The sequence of attempts\<close>

record run_config =
  rc_Attempts :: int
  rc_Interval :: int
  rc_RequiredSuccesses :: int

definition DefaultRunConfig :: run_config where
  "DefaultRunConfig = \<lparr>rc_Attempts = 1, rc_Interval = 0, rc_RequiredSuccesses = 1\<rparr>"

definition normalized :: "run_config \<Rightarrow> run_config" where
  "normalized c =
     (let c1 = (if rc_Attempts c \<le> 0 then c\<lparr>rc_Attempts := 1\<rparr> else c)
      in if rc_RequiredSuccesses c1 \<le> 0 then c1\<lparr>rc_RequiredSuccesses := 1\<rparr> else c1)"

definition zero_metrics :: metrics where
  "zero_metrics = \<lparr>me_ConsumerCount = 0, me_QueueDepth = 0, me_ErrorRate = Fin 0\<rparr>"

record attempt =
  at_Attempt :: int
  at_Passed :: bool
  at_Metrics :: metrics
  at_Checks :: "check list"
  at_Error :: string

record sequence_result =
  sq_Passed :: bool
  sq_Successes :: int
  sq_Attempts :: "attempt list"
  sq_Reason :: string

text \<open>What the environment answers at attempt i: whether the context is done before it, what the
  metrics source returns, and whether the context is done before the interval has passed.\<close>

record probe =
  pb_ctx :: "int \<Rightarrow> gerror option"
  pb_gather :: "int \<Rightarrow> gerror + metrics"
  pb_wait :: "int \<Rightarrow> gerror option"

definition make_attempt :: "verify_config \<Rightarrow> int \<Rightarrow> gerror + metrics \<Rightarrow> attempt" where
  "make_attempt v i g =
     (case g of
        Inl err \<Rightarrow> \<lparr>at_Attempt = i, at_Passed = False, at_Metrics = zero_metrics, at_Checks = [], at_Error = err_text err\<rparr>
      | Inr m \<Rightarrow> \<lparr>at_Attempt = i, at_Passed = vr_Passed (Verify v m), at_Metrics = m,
                  at_Checks = vr_Checks (Verify v m), at_Error = ''''\<rparr>)"

text \<open>The loop, with \<open>n\<close> attempts to go before \<open>i\<close> exceeds the configured number.\<close>

fun verify_loop ::
  "verify_config \<Rightarrow> probe \<Rightarrow> run_config \<Rightarrow> nat \<Rightarrow> int \<Rightarrow> int \<Rightarrow> sequence_result \<Rightarrow> sequence_result \<times> gerror option" where
  "verify_loop v p cfg 0 i streak res =
     ((if sq_Reason res = ''''
       then res\<lparr>sq_Reason := ''only '' @ dec_int (sq_Successes res) @ '' consecutive successes, need ''
                               @ dec_int (rc_RequiredSuccesses cfg)\<rparr>
       else res), None)"
| "verify_loop v p cfg (Suc n) i streak res =
     (case pb_ctx p i of
        Some err \<Rightarrow> (res\<lparr>sq_Reason := ''verification canceled: '' @ err_text err\<rparr>, Some err)
      | None \<Rightarrow>
          (let att = make_attempt v i (pb_gather p i);
               res1 = res\<lparr>sq_Attempts := sq_Attempts res @ [att]\<rparr>
           in if at_Passed att \<and> streak + 1 \<ge> rc_RequiredSuccesses cfg
              then (res1\<lparr>sq_Successes := streak + 1, sq_Passed := True, sq_Reason := ''''\<rparr>, None)
              else
                (let streak1 = (if at_Passed att then streak + 1 else 0);
                     res2 = (if at_Passed att then res1\<lparr>sq_Successes := streak + 1\<rparr>
                             else res1\<lparr>sq_Successes := 0,
                                       sq_Reason := (if at_Error att \<noteq> '''' then at_Error att
                                                     else ''verification checks failed'')\<rparr>)
                 in case (if i < rc_Attempts cfg \<and> rc_Interval cfg > 0 then pb_wait p i else None) of
                      Some err \<Rightarrow> (res2\<lparr>sq_Reason := ''verification canceled: '' @ err_text err\<rparr>, Some err)
                    | None \<Rightarrow> verify_loop v p cfg n (i + 1) streak1 res2)))"

definition VerifySequence ::
  "verify_config \<Rightarrow> probe option \<Rightarrow> run_config \<Rightarrow> sequence_result \<times> gerror option" where
  "VerifySequence v g cfg0 =
     (case g of
        None \<Rightarrow> (\<lparr>sq_Passed = False, sq_Successes = 0, sq_Attempts = [], sq_Reason = ''no metric gatherer configured''\<rparr>,
                 Some (plain_err ''no metric gatherer configured''))
      | Some p \<Rightarrow>
          (let cfg = normalized cfg0
           in verify_loop v p cfg (nat (rc_Attempts cfg)) 1 0
                \<lparr>sq_Passed = False, sq_Successes = 0, sq_Attempts = [], sq_Reason = ''''\<rparr>))"

section \<open>What it decides\<close>

lemma normalized_pos [simp]: "0 < rc_Attempts (normalized c)" "0 < rc_RequiredSuccesses (normalized c)"
  by (simp_all add: normalized_def Let_def)

lemma normalized_id: "0 < rc_Attempts c \<Longrightarrow> 0 < rc_RequiredSuccesses c \<Longrightarrow> normalized c = c"
  by (simp add: normalized_def)

text \<open>The flags of the attempts, and the longest suffix of passed ones.\<close>

definition flags :: "sequence_result \<Rightarrow> bool list" where
  "flags res = map at_Passed (sq_Attempts res)"

definition tail_run :: "bool list \<Rightarrow> nat" where
  "tail_run bs = length (takeWhile id (rev bs))"

lemma tail_run_snoc [simp]: "tail_run (bs @ [b]) = (if b then Suc (tail_run bs) else 0)"
  by (simp add: tail_run_def)

lemma tail_run_Nil [simp]: "tail_run [] = 0"
  by (simp add: tail_run_def)

text \<open>The reference: some prefix ends in the required number of passed attempts.\<close>

definition has_run :: "nat \<Rightarrow> bool list \<Rightarrow> bool" where
  "has_run k bs = (\<exists>m \<le> length bs. k \<le> tail_run (take m bs))"

lemma has_run_snoc:
  "0 < k \<Longrightarrow> has_run k (bs @ [b]) \<longleftrightarrow> has_run k bs \<or> (b \<and> k \<le> Suc (tail_run bs))"
  unfolding has_run_def
  by (auto simp: le_Suc_eq split: if_splits)

text \<open>Through the loop: the recorded successes are the current run of passed attempts, and the result is
  Passed exactly when some run reached the required length.\<close>

lemma verify_loop_spec:
  assumes "verify_loop v p cfg n i streak res = (res', e)"
    and "0 < rc_RequiredSuccesses cfg" and "\<not> sq_Passed res"
    and "streak = int (tail_run (flags res))" and "sq_Successes res = streak"
    and "\<not> has_run (nat (rc_RequiredSuccesses cfg)) (flags res)"
  shows "(sq_Passed res' \<longleftrightarrow> has_run (nat (rc_RequiredSuccesses cfg)) (flags res'))
    \<and> (sq_Passed res' \<longrightarrow> e = None) \<and> sq_Successes res' = int (tail_run (flags res'))
    \<and> length (sq_Attempts res') \<le> length (sq_Attempts res) + n
    \<and> (e = None \<longrightarrow> \<not> sq_Passed res' \<longrightarrow> length (sq_Attempts res') = length (sq_Attempts res) + n \<and> sq_Reason res' \<noteq> '''')"
  using assms
proof (induction v p cfg n i streak res rule: verify_loop.induct)
  case (1 v p cfg i streak res)
  then show ?case by (auto simp: flags_def split: if_splits)
next
  case (2 v p cfg n i streak res)
  show ?case
  proof (cases "pb_ctx p i")
    case (Some err)
    with 2 show ?thesis by (auto simp: flags_def)
  next
    case None
    let ?att = "make_attempt v i (pb_gather p i)"
    let ?k = "nat (rc_RequiredSuccesses cfg)"
    define res1 where "res1 = res\<lparr>sq_Attempts := sq_Attempts res @ [?att]\<rparr>"
    have f1: "flags res1 = flags res @ [at_Passed ?att]" by (simp add: flags_def res1_def)
    have k: "0 < ?k" using "2.prems"(2) by simp
    show ?thesis
    proof (cases "at_Passed ?att \<and> streak + 1 \<ge> rc_RequiredSuccesses cfg")
      case True
      with 2 None have "res' = res1\<lparr>sq_Successes := streak + 1, sq_Passed := True, sq_Reason := ''''\<rparr>" "e = None"
        by (auto simp: Let_def res1_def)
      moreover from this(1) have "flags res' = flags res @ [at_Passed ?att]" using f1 by (simp add: flags_def)
      ultimately show ?thesis
        using True "2.prems" k by (auto simp: has_run_snoc res1_def)
    next
      case False
      define streak1 where "streak1 = (if at_Passed ?att then streak + 1 else 0)"
      define res2 where "res2 = (if at_Passed ?att then res1\<lparr>sq_Successes := streak + 1\<rparr>
             else res1\<lparr>sq_Successes := 0,
                       sq_Reason := (if at_Error ?att \<noteq> '''' then at_Error ?att else ''verification checks failed'')\<rparr>)"
      have f2: "flags res2 = flags res @ [at_Passed ?att]" using f1 by (simp add: res2_def flags_def)
      have s2: "sq_Successes res2 = streak1" "\<not> sq_Passed res2" "streak1 = int (tail_run (flags res2))"
          "length (sq_Attempts res2) = Suc (length (sq_Attempts res))"
        using "2.prems" f2 by (auto simp: res2_def streak1_def res1_def)
      have n2: "\<not> has_run ?k (flags res2)"
        using False "2.prems" k unfolding f2 has_run_snoc [OF k] by auto
      define wt where "wt = (if i < rc_Attempts cfg \<and> rc_Interval cfg > 0 then pb_wait p i else None)"
      have step: "(res', e) = (case wt of
             Some err \<Rightarrow> (res2\<lparr>sq_Reason := ''verification canceled: '' @ err_text err\<rparr>, Some err)
           | None \<Rightarrow> verify_loop v p cfg n (i + 1) streak1 res2)"
        using "2.prems"(1) None False
        by (auto simp: Let_def res1_def res2_def streak1_def wt_def split: if_splits option.splits)
      show ?thesis
      proof (cases wt)
        case (Some err)
        with step have "res' = res2\<lparr>sq_Reason := ''verification canceled: '' @ err_text err\<rparr>" "e = Some err" by auto
        with s2 n2 show ?thesis by (auto simp: flags_def)
      next
        case None
        with step have "verify_loop v p cfg n (i + 1) streak1 res2 = (res', e)" by simp
        from "2.IH" [OF \<open>pb_ctx p i = None\<close> refl refl False streak1_def res2_def [unfolded res1_def] None [unfolded wt_def] this "2.prems"(2) s2(2,3,1) n2]
        show ?thesis using s2(4) by auto
      qed
    qed
  qed
qed

section \<open>Properties\<close>

lemma tail_run_le: "tail_run bs \<le> length bs"
  using length_takeWhile_le [of id "rev bs"] by (simp add: tail_run_def)

lemma has_run_append: "has_run k bs \<Longrightarrow> has_run k (bs @ cs)"
  unfolding has_run_def by (metis take_append append_Nil2 diff_is_0_eq le_add1 length_append order_trans take_eq_Nil)

lemma has_run_length: "has_run k bs \<Longrightarrow> k \<le> length bs"
  unfolding has_run_def using tail_run_le by (metis length_take min.absorb2 order_trans)

text \<open>Without cancellation the attempts made are a prefix of those that could be made.\<close>

lemma verify_loop_prefix:
  assumes "verify_loop v p cfg n i streak res = (res', e)" and "\<And>j. pb_ctx p j = None" and "\<And>j. pb_wait p j = None"
  shows "e = None \<and> (\<exists>rest. flags res @ map (\<lambda>j. at_Passed (make_attempt v j (pb_gather p j))) [i..i + int n - 1]
    = flags res' @ rest)"
  using assms
proof (induction n arbitrary: i streak res)
  case 0
  then show ?case by (auto simp: flags_def split: if_splits)
next
  case (Suc n)
  let ?att = "make_attempt v i (pb_gather p i)"
  have ivl: "[i..i + int (Suc n) - 1] = i # [i + 1..(i + 1) + int n - 1]"
    by (subst upto_rec1) simp_all
  have first: "map (\<lambda>j. at_Passed (make_attempt v j (pb_gather p j))) [i..i + int (Suc n) - 1]
      = at_Passed ?att # map (\<lambda>j. at_Passed (make_attempt v j (pb_gather p j))) [i + 1..(i + 1) + int n - 1]"
    unfolding ivl by simp
  show ?case
  proof (cases "at_Passed ?att \<and> streak + 1 \<ge> rc_RequiredSuccesses cfg")
    case True
    with Suc.prems have "e = None" "flags res' = flags res @ [at_Passed ?att]" by (auto simp: Let_def flags_def)
    then show ?thesis unfolding first by simp
  next
    case False
    define res2 where "res2 = (let res1 = res\<lparr>sq_Attempts := sq_Attempts res @ [?att]\<rparr>
      in if at_Passed ?att then res1\<lparr>sq_Successes := streak + 1\<rparr>
         else res1\<lparr>sq_Successes := 0,
                   sq_Reason := (if at_Error ?att \<noteq> '''' then at_Error ?att else ''verification checks failed'')\<rparr>)"
    have "(if i < rc_Attempts cfg \<and> rc_Interval cfg > 0 then pb_wait p i else None) = None"
      using Suc.prems(3) by simp
    then have "verify_loop v p cfg n (i + 1) (if at_Passed ?att then streak + 1 else 0) res2 = (res', e)"
      using Suc.prems(1) False unfolding res2_def verify_loop.simps Suc.prems(2) by (simp add: Let_def)
    from Suc.IH [OF this Suc.prems(2,3)] have "e = None" and
      "\<exists>rest. flags res2 @ map (\<lambda>j. at_Passed (make_attempt v j (pb_gather p j))) [i + 1..(i + 1) + int n - 1] = flags res' @ rest"
      by simp_all
    moreover have "flags res2 = flags res @ [at_Passed ?att]" by (simp add: res2_def flags_def Let_def)
    ultimately show ?thesis unfolding first by simp
  qed
qed

lemma sequence_spec:
  assumes "VerifySequence v (Some p) cfg = (res, e)"
  shows "(sq_Passed res \<longleftrightarrow> has_run (nat (rc_RequiredSuccesses (normalized cfg))) (flags res))
    \<and> (sq_Passed res \<longrightarrow> e = None)
    \<and> length (sq_Attempts res) \<le> nat (rc_Attempts (normalized cfg))
    \<and> (e = None \<longrightarrow> \<not> sq_Passed res \<longrightarrow> length (sq_Attempts res) = nat (rc_Attempts (normalized cfg)) \<and> sq_Reason res \<noteq> '''')"
proof -
  have "\<not> has_run (nat (rc_RequiredSuccesses (normalized cfg))) []"
    using has_run_length [of "nat (rc_RequiredSuccesses (normalized cfg))" "[]"] normalized_pos(2) [of cfg] by auto
  with verify_loop_spec [of v p "normalized cfg" "nat (rc_Attempts (normalized cfg))" 1 0
      "\<lparr>sq_Passed = False, sq_Successes = 0, sq_Attempts = [], sq_Reason = ''''\<rparr>" res e] assms
  show ?thesis by (simp add: VerifySequence_def Let_def flags_def)
qed

text \<open>C20. The verification loop agrees with its specification: if nothing cancels it, it passes exactly when
  among the configured number of attempts there is a block of the required number of consecutive
  ones that passed. The streak counter, the early return and the reset are correct.\<close>

theorem verification_equivalence:
  assumes "\<And>i. pb_ctx p i = None" and "\<And>i. pb_wait p i = None"
  shows "sq_Passed (fst (VerifySequence v (Some p) cfg)) \<longleftrightarrow>
    has_run (nat (rc_RequiredSuccesses (normalized cfg)))
      (map (\<lambda>i. at_Passed (make_attempt v i (pb_gather p i))) [1..rc_Attempts (normalized cfg)])"
proof -
  let ?n = "nat (rc_Attempts (normalized cfg))"
  let ?all = "map (\<lambda>i. at_Passed (make_attempt v i (pb_gather p i))) [1..rc_Attempts (normalized cfg)]"
  obtain res e where res: "VerifySequence v (Some p) cfg = (res, e)" by force
  have ivl: "1 + int ?n - 1 = rc_Attempts (normalized cfg)" by (simp add: less_imp_le)
  have "verify_loop v p (normalized cfg) ?n 1 0 \<lparr>sq_Passed = False, sq_Successes = 0, sq_Attempts = [], sq_Reason = ''''\<rparr> = (res, e)"
    using res by (simp add: VerifySequence_def Let_def)
  from verify_loop_prefix [OF this assms, unfolded ivl] obtain rest where pre: "e = None" "?all = flags res @ rest"
    by (auto simp: flags_def)
  note spec = sequence_spec [OF res]
  show ?thesis
  proof (cases "sq_Passed res")
    case True
    with spec pre(2) res has_run_append show ?thesis by simp
  next
    case False
    with spec pre(1) have "length (flags res) = ?n" by (simp add: flags_def)
    moreover have "length ?all = ?n" by simp
    ultimately have "rest = []" using pre(2) by (metis append_eq_conv_conj take_all order_refl append_Nil2 same_append_eq)
    with False spec pre(2) res show ?thesis by simp
  qed
qed

lemma verification_equivalence_witness:
  "sq_Passed (fst (VerifySequence DefaultConfig
     (Some \<lparr>pb_ctx = \<lambda>_. None, pb_gather = \<lambda>i. if i = 1 then Inl (plain_err ''down'') else Inr \<lparr>me_ConsumerCount = 1, me_QueueDepth = 0, me_ErrorRate = Fin 0\<rparr>,
       pb_wait = \<lambda>_. None\<rparr>) \<lparr>rc_Attempts = 3, rc_Interval = 0, rc_RequiredSuccesses = 2\<rparr>))"
proof -
  let ?p = "\<lparr>pb_ctx = \<lambda>_. None, pb_gather = \<lambda>i. if i = 1 then Inl (plain_err ''down'') else Inr \<lparr>me_ConsumerCount = 1, me_QueueDepth = 0, me_ErrorRate = Fin 0\<rparr>,
       pb_wait = \<lambda>_. None\<rparr>"
  have "[1..3] = [1, 2, 3::int]" by (simp add: upto_rec1)
  then have "has_run 2 (map (\<lambda>i. at_Passed (make_attempt DefaultConfig i (pb_gather ?p i))) [1..3])"
    by (auto simp: has_run_def tail_run_def make_attempt_def Verify_Passed DefaultConfig_def f64_0_01_def intro!: exI [of _ 3])
  with verification_equivalence [of ?p DefaultConfig "\<lparr>rc_Attempts = 3, rc_Interval = 0, rc_RequiredSuccesses = 2\<rparr>"]
  show ?thesis by (simp add: normalized_id)
qed

text \<open>A passed verification rests on evidence, whatever cancels or fails in between: it took at most the
  configured attempts, at least the required number of successes, reported no error, and each attempt
  counted as passed had measured enough consumers, a queue below the limit and an error rate within
  it. When more successes are required than attempts allowed it never passes.\<close>

theorem verification_evidence:
  assumes "VerifySequence v (Some p) cfg = (res, e)"
  shows "int (length (sq_Attempts res)) \<le> rc_Attempts (normalized cfg)
    \<and> (sq_Passed res \<longrightarrow> e = None \<and> rc_RequiredSuccesses (normalized cfg) \<le> int (length (sq_Attempts res)))
    \<and> (rc_Attempts (normalized cfg) < rc_RequiredSuccesses (normalized cfg) \<longrightarrow> \<not> sq_Passed res)
    \<and> (\<forall>att \<in> set (sq_Attempts res). at_Passed att \<longrightarrow> vc_MinConsumers v \<le> me_ConsumerCount (at_Metrics att)
         \<and> me_QueueDepth (at_Metrics att) \<le> vc_MaxQueueDepth v \<and> f64_le (me_ErrorRate (at_Metrics att)) (vc_MaxErrorRate v))"
proof -
  have made: "\<forall>att \<in> set (sq_Attempts r'). att \<in> set (sq_Attempts r) \<or> (\<exists>i g. att = make_attempt v i g)"
    if "verify_loop v p c n i s r = (r', e')" for c n i s r r' e'
    using that
    by (induction v p c n i s r rule: verify_loop.induct)
      (fastforce simp: Let_def split: if_splits option.splits)+
  have "verify_loop v p (normalized cfg) (nat (rc_Attempts (normalized cfg))) 1 0
      \<lparr>sq_Passed = False, sq_Successes = 0, sq_Attempts = [], sq_Reason = ''''\<rparr> = (res, e)"
    using assms by (simp add: VerifySequence_def Let_def)
  note all = made [OF this]
  have "at_Passed (make_attempt v i g) \<longrightarrow> vr_Passed (Verify v (at_Metrics (make_attempt v i g)))" for i g
    by (cases g) (simp_all add: make_attempt_def)
  with all have "\<forall>att \<in> set (sq_Attempts res). at_Passed att \<longrightarrow> vr_Passed (Verify v (at_Metrics att))"
    by fastforce
  moreover have "nat (rc_RequiredSuccesses (normalized cfg)) \<le> length (sq_Attempts res)" if "sq_Passed res"
    using sequence_spec [OF assms] that has_run_length [of _ "flags res"] by (simp add: flags_def)
  moreover have "int (length (sq_Attempts res)) \<le> rc_Attempts (normalized cfg)"
    using sequence_spec [OF assms] by (simp add: le_nat_iff less_imp_le)
  moreover have "sq_Passed res \<longrightarrow> e = None" using sequence_spec [OF assms] by blast
  ultimately show ?thesis by (fastforce simp: Verify_Passed nat_le_iff)
qed

lemma verification_evidence_witness:
  "\<not> sq_Passed (fst (VerifySequence DefaultConfig (Some \<lparr>pb_ctx = \<lambda>_. None, pb_gather = \<lambda>_. Inr zero_metrics, pb_wait = \<lambda>_. None\<rparr>)
     \<lparr>rc_Attempts = 1, rc_Interval = 0, rc_RequiredSuccesses = 3\<rparr>))"
  using verification_evidence [OF surjective_pairing, of DefaultConfig
      "\<lparr>pb_ctx = \<lambda>_. None, pb_gather = \<lambda>_. Inr zero_metrics, pb_wait = \<lambda>_. None\<rparr>"
      "\<lparr>rc_Attempts = 1, rc_Interval = 0, rc_RequiredSuccesses = 3\<rparr>"] by (simp add: normalized_id)

end
