(* ===== verification/Remediation.thy ===== *)
theory Remediation
  imports Deployment Verifier
begin

text \<open>
  \<open>internal/execution/executor/remediation.go\<close>, \<open>internal/execution/postmortem\<close> and the observed
  executor of \<open>internal/bootstrap/execution.go\<close>: the closed loop that runs an approved action, verifies
  it and closes the incident. What the metrics source, the context and the timer answer during the
  verification is the \<open>probe\<close> of the gatherer.
\<close>

section \<open>Fixed texts\<close>

text \<open>The Chinese texts of the code, as UTF-8 bytes.\<close>

definition txt_passed_times :: string where
  "txt_passed_times =
      utf8_bytes [0xEF, 0xBC, 0x9B, 0xE8, 0xBF, 0x9E, 0xE7, 0xBB, 0xAD, 0xE9, 0xAA, 0x8C, 0xE8, 0xAF, 0x81,
      0xE9, 0x80, 0x9A, 0xE8, 0xBF, 0x87, 0x20]"

definition txt_of_total :: string where
  "txt_of_total =
      utf8_bytes [0x20, 0xE6, 0xAC, 0xA1, 0xEF, 0xBC, 0x88, 0xE5, 0x85, 0xB1, 0x20]"

definition txt_attempts_end :: string where
  "txt_attempts_end =
      utf8_bytes [0x20, 0xE6, 0xAC, 0xA1, 0xE9, 0x87, 0x87, 0xE9, 0x9B, 0x86, 0xEF, 0xBC, 0x89]"

definition txt_root_cause_unread :: string where
  "txt_root_cause_unread =
      utf8_bytes [0xE6, 0x9C, 0xAA, 0xE8, 0xAE, 0xB0, 0xE5, 0xBD, 0x95, 0xE8, 0xAF, 0x8A, 0xE6, 0x96, 0xAD,
      0xE7, 0xBB, 0x93, 0xE8, 0xAE, 0xBA, 0xEF, 0xBC, 0x88, 0xE8, 0xAF, 0xBB, 0xE5, 0x8F, 0x96, 0x20, 0x52,
      0x75, 0x6E, 0x20, 0xE6, 0xAD, 0xA5, 0xE9, 0xAA, 0xA4, 0xE5, 0xA4, 0xB1, 0xE8, 0xB4, 0xA5, 0xEF, 0xBC,
      0x89]"

definition txt_root_cause_none :: string where
  "txt_root_cause_none =
      utf8_bytes [0xE6, 0x9C, 0xAA, 0xE8, 0xAE, 0xB0, 0xE5, 0xBD, 0x95, 0xE8, 0xAF, 0x8A, 0xE6, 0x96, 0xAD,
      0xE7, 0xBB, 0x93, 0xE8, 0xAE, 0xBA]"

definition txt_no_evidence :: string where
  "txt_no_evidence =
      utf8_bytes [0x2D, 0x20, 0xE6, 0x97, 0xA0, 0x0A]"

definition txt_prevention :: string where
  "txt_prevention =
      utf8_bytes [0x23, 0x23, 0x20, 0x50, 0x72, 0x65, 0x76, 0x65, 0x6E, 0x74, 0x69, 0x6F, 0x6E, 0x0A, 0x2D,
      0x20, 0xE5, 0xA2, 0x9E, 0xE5, 0x8A, 0xA0, 0xE7, 0x9B, 0xB8, 0xE5, 0x85, 0xB3, 0xE6, 0x8C, 0x87, 0xE6,
      0xA0, 0x87, 0xE5, 0x91, 0x8A, 0xE8, 0xAD, 0xA6, 0x0A, 0x2D, 0x20, 0xE5, 0xA2, 0x9E, 0xE5, 0x8A, 0xA0,
      0x20, 0x72, 0x65, 0x61, 0x64, 0x69, 0x6E, 0x65, 0x73, 0x73, 0x20, 0xE6, 0xA3, 0x80, 0xE6, 0x9F, 0xA5,
      0x0A, 0x2D, 0x20, 0xE5, 0xA4, 0x84, 0xE7, 0xBD, 0xAE, 0xE5, 0x90, 0x8E, 0xE5, 0xA2, 0x9E, 0xE5, 0x8A,
      0xA0, 0xE8, 0x87, 0xAA, 0xE5, 0x8A, 0xA8, 0xE9, 0xAA, 0x8C, 0xE8, 0xAF, 0x81, 0x0A]"

section \<open>Postmortem\<close>

definition nl :: string where "nl = [CHR 0x0A]"

definition Generate :: "incident \<Rightarrow> string \<Rightarrow> string list \<Rightarrow> string \<Rightarrow> string" where
  "Generate inc rootCause evid resolution =
     ''# Incident '' @ inc_ID inc @ nl @ nl
     @ ''## Summary'' @ nl @ inc_Title inc @ nl @ nl
     @ (if inc_Description inc \<noteq> '''' then ''## Impact'' @ nl @ inc_Description inc @ nl @ nl else '''')
     @ ''## Root Cause'' @ nl @ rootCause @ nl @ nl
     @ ''## Evidence'' @ nl
     @ (if evid = [] then txt_no_evidence else concat (map (\<lambda>e. ''- '' @ e @ nl) evid))
     @ nl @ ''## Resolution'' @ nl @ resolution @ nl @ nl
     @ txt_prevention"

section \<open>The remediation\<close>

record 'w remediation =
  rm_restart :: "'w deployment_tool"
  rm_verifier :: verify_config
  rm_gatherer :: "probe option"
  rm_incidents :: "'w incident_service option"
  rm_runs :: "'w run_repo option"
  rm_postmortem :: bool
  rm_broker :: "(string \<Rightarrow> stream_event \<Rightarrow> 'w \<Rightarrow> 'w) option"
  rm_verifyCfg :: run_config

definition rm_publish :: "'w remediation \<Rightarrow> string \<Rightarrow> string \<Rightarrow> payload \<Rightarrow> 'w \<Rightarrow> 'w" where
  "rm_publish r runID typ d w =
     (case rm_broker r of None \<Rightarrow> w | Some publish \<Rightarrow> publish runID \<lparr>se_Type = typ, se_Data = d\<rparr> w)"

text \<open>The last finalize step with a nonempty output, searched from the end.\<close>

fun last_finalize :: "agent_step list \<Rightarrow> string" where
  "last_finalize [] = txt_root_cause_none"
| "last_finalize (s # ss) =
     (if step_Action s = ''finalize'' \<and> TrimSpace (step_Output s) \<noteq> '''' then step_Output s else last_finalize ss)"

definition rootCause :: "'w run_repo \<Rightarrow> ctx \<Rightarrow> string \<Rightarrow> 'w \<Rightarrow> string" where
  "rootCause runs c runID w =
     (case rr_ListSteps runs c runID w of
        Inl _ \<Rightarrow> txt_root_cause_unread
      | Inr steps \<Rightarrow> last_finalize (rev steps))"

fun first_checks :: "attempt list \<Rightarrow> check list" where
  "first_checks [] = []"
| "first_checks (a # as) = (if at_Checks a \<noteq> [] then at_Checks a else first_checks as)"

definition lastChecks :: "sequence_result \<Rightarrow> check list" where
  "lastChecks sq = first_checks (rev (sq_Attempts sq))"

definition bool_text :: "bool \<Rightarrow> string" where
  "bool_text b = (if b then ''true'' else ''false'')"

definition attempt_details :: "attempt \<Rightarrow> string list" where
  "attempt_details a =
     (let pre = ''attempt '' @ dec_int (at_Attempt a)
      in if at_Error a \<noteq> '''' then [pre @ '': gather error: '' @ at_Error a]
         else map (\<lambda>k. pre @ '': '' @ ck_Detail k @ '' (passed='' @ bool_text (ck_Passed k) @ '')'') (at_Checks a))"

definition checkDetails :: "sequence_result \<Rightarrow> string list" where
  "checkDetails sq = concat (map attempt_details (sq_Attempts sq))"

record remediation_result =
  re_Status :: string
  re_Verified :: bool
  re_IncidentID :: string
  re_Postmortem :: string
  re_Checks :: "check list"
  re_OperationID :: string
  re_Reason :: string
  re_Attempts :: int

definition check_json :: "check \<Rightarrow> json" where
  "check_json k = JObj [(''name'', JStr (ck_Name k)), (''passed'', JBool (ck_Passed k)), (''detail'', JStr (ck_Detail k))]"

definition result_json :: "remediation_result \<Rightarrow> string" where
  "result_json r = json_encode (JObj (
     [(''status'', JStr (re_Status r)), (''verified'', JBool (re_Verified r))]
     @ field_if (re_IncidentID r \<noteq> '''') ''incident_id'' (JStr (re_IncidentID r))
     @ field_if (re_Postmortem r \<noteq> '''') ''postmortem'' (JStr (re_Postmortem r))
     @ field_if (re_Checks r \<noteq> []) ''checks'' (JArr (map check_json (re_Checks r)))
     @ field_if (re_OperationID r \<noteq> '''') ''operation_id'' (JStr (re_OperationID r))
     @ field_if (re_Reason r \<noteq> '''') ''reason'' (JStr (re_Reason r))
     @ field_if (re_Attempts r \<noteq> 0) ''attempts'' (JNum (dec_int (re_Attempts r)))))"

text \<open>After the action: verify, then fail or resolve the incident. \<open>inc\<close> is the incident read before
  the action.\<close>

definition verify_and_close ::
  "'w remediation \<Rightarrow> 'w incident_service \<Rightarrow> 'w run_repo \<Rightarrow> ctx \<Rightarrow> string \<Rightarrow> string \<Rightarrow> incident \<Rightarrow> string \<Rightarrow> string
     \<Rightarrow> fresh \<Rightarrow> 'w \<Rightarrow> (gerror + execution_result) \<times> 'w" where
  "verify_and_close r isvc runs c action runID inc incidentID operationID f w =
     (let (sq, verifyErr) = VerifySequence (rm_verifier r) (rm_gatherer r) (rm_verifyCfg r);
          approvalID = ApprovalIDFrom c;
          res = \<lparr>re_Status = '''', re_Verified = False, re_IncidentID = incidentID, re_Postmortem = '''',
                 re_Checks = lastChecks sq, re_OperationID = operationID,
                 re_Reason = (case verifyErr of None \<Rightarrow> sq_Reason sq
                                | Some e \<Rightarrow> ''verification interrupted: '' @ err_text e),
                 re_Attempts = int (length (sq_Attempts sq))\<rparr>
      in if verifyErr \<noteq> None \<or> \<not> sq_Passed sq
         then
           (let data = result_json (res\<lparr>re_Status := ''verify_failed''\<rparr>);
                c1 = (if verifyErr \<noteq> None then without_cancel c else c)
            in case MoveToWithAudit isvc c1 incidentID StatusFailed EventVerificationFailed
                   [''approval_id'' \<mapsto> VStr approvalID, ''result'' \<mapsto> VStr data,
                    ''operation_id'' \<mapsto> VStr operationID, ''reason'' \<mapsto> VStr (re_Reason res)] f w of
                 (Inl err, w1) \<Rightarrow> (Inl (wrap_err (''move incident '' @ incidentID @ '' to FAILED: '') err), w1)
               | (Inr _, w1) \<Rightarrow>
                   (Inr \<lparr>xr_Output = data, xr_OperationID = operationID, xr_IncidentID = incidentID, xr_Verified = False\<rparr>,
                    rm_publish r runID ''incident.verify_failed''
                      [''incident_id'' \<mapsto> VStr incidentID, ''reason'' \<mapsto> VStr (re_Reason res)] w1))
         else
           (let pm = (if rm_postmortem r
                      then Generate inc (rootCause runs c runID w) (checkDetails sq)
                             (action @ '' operation_id='' @ operationID @ txt_passed_times @ dec_int (sq_Successes sq)
                                @ txt_of_total @ dec_int (int (length (sq_Attempts sq))) @ txt_attempts_end)
                      else '''');
                data = result_json (res\<lparr>re_Status := ''completed'', re_Verified := True, re_Postmortem := pm\<rparr>)
            in case MoveToWithAudit isvc c incidentID StatusResolved EventPostmortemGenerated
                   [''approval_id'' \<mapsto> VStr approvalID, ''result'' \<mapsto> VStr data,
                    ''postmortem'' \<mapsto> VStr pm, ''operation_id'' \<mapsto> VStr operationID] f w of
                 (Inl err, w1) \<Rightarrow> (Inl (wrap_err (''move incident '' @ incidentID @ '' to RESOLVED: '') err), w1)
               | (Inr _, w1) \<Rightarrow>
                   (Inr \<lparr>xr_Output = data, xr_OperationID = operationID, xr_IncidentID = incidentID, xr_Verified = True\<rparr>,
                    rm_publish r runID ''incident.resolved'' [''incident_id'' \<mapsto> VStr incidentID] w1)))"

text \<open>\<open>Execute\<close>: nothing is done for an incident that is not MITIGATING; an unknown result leaves the
  incident where it is; a definite failure moves it to FAILED; a success to VERIFYING.\<close>

definition remediation_Execute :: "'w remediation \<Rightarrow> 'w action_executor" where
  "remediation_Execute r c action arguments runID f w =
     (case rm_incidents r of
        None \<Rightarrow> (Inl (plain_err ''no incident service configured, cannot verify or close any incident''), w)
      | Some isvc \<Rightarrow>
     (case rm_runs r of
        None \<Rightarrow> (Inl (plain_err (''no run repository configured, cannot resolve incident of run '' @ go_quote runID)), w)
      | Some runs \<Rightarrow>
     (case rr_GetRun runs c runID w of
        Inl err \<Rightarrow> (Inl (wrap_err (''resolve incident of run '' @ go_quote runID @ '': '') err), w)
      | Inr run \<Rightarrow>
     (let incidentID = run_IncidentID run
      in if incidentID = '''' then (Inl (plain_err (''run '' @ go_quote runID @ '' is not bound to an incident'')), w)
         else
     (case svc_Get isvc c incidentID w of
        Inl err \<Rightarrow> (Inl err, w)
      | Inr inc \<Rightarrow>
          if IsTerminal (inc_Status inc)
          then (Inl (plain_err (''incident '' @ incidentID @ '' is already '' @ status_string (inc_Status inc))), w)
          else if inc_Status inc \<noteq> StatusMitigating
          then (Inl (plain_err (''incident '' @ incidentID @ '' is '' @ status_string (inc_Status inc)
                       @ '', remediation requires MITIGATING'')), w)
          else
     (case tool_Execute (rm_restart r) c action arguments w of
        (Inl execErr, w1) \<Rightarrow>
          if errIs execErr ErrResultUnknown then (Inl execErr, w1)
          else
            (case MoveToWithAudit isvc c incidentID StatusFailed EventActionFailed
                    [''approval_id'' \<mapsto> VStr (ApprovalIDFrom c), ''error'' \<mapsto> VStr (err_text execErr)] f w1 of
               (Inl failErr, w2) \<Rightarrow>
                 (Inl (errors_join execErr (wrap_err (''move incident '' @ incidentID @ '' to FAILED: '') failErr)), w2)
             | (Inr _, w2) \<Rightarrow> (Inl execErr, w2))
      | (Inr xr, w1) \<Rightarrow>
          (case MoveToWithAudit isvc c incidentID StatusVerifying EventActionCompleted
                  [''approval_id'' \<mapsto> VStr (ApprovalIDFrom c), ''operation_id'' \<mapsto> VStr (xr_OperationID xr)] f w1 of
             (Inl err, w2) \<Rightarrow> (Inl (wrap_err (''move incident '' @ incidentID @ '' to VERIFYING: '') err), w2)
           | (Inr _, w2) \<Rightarrow>
               verify_and_close r isvc runs c action runID inc incidentID (xr_OperationID xr) (later 4 2 f) w2)))))))"

section \<open>The observed executor\<close>

definition observeClosure ::
  "(metric \<Rightarrow> 'w \<Rightarrow> 'w) \<Rightarrow> 'w incident_service option \<Rightarrow> ctx \<Rightarrow> string \<Rightarrow> string \<Rightarrow> 'w \<Rightarrow> 'w" where
  "observeClosure count isvc c action incidentID w =
     (case isvc of
        None \<Rightarrow> w
      | Some s \<Rightarrow>
          if incidentID = '''' then w
          else
            (case svc_Get s c incidentID w of
               Inl _ \<Rightarrow> w
             | Inr inc \<Rightarrow>
                 (case inc_ResolvedAt inc of
                    None \<Rightarrow> w
                  | Some t \<Rightarrow> count (ClosureDurationSeconds action (t - inc_StartedAt inc)) w)))"

definition observed_Execute ::
  "(metric \<Rightarrow> 'w \<Rightarrow> 'w) \<Rightarrow> 'w incident_service option \<Rightarrow> 'w action_executor \<Rightarrow> 'w action_executor" where
  "observed_Execute count isvc inner c action arguments runID f w =
     (case inner c action arguments runID f w of
        (Inl err, w1) \<Rightarrow>
          (Inl err, count (ExecutionsTotal action (if errIs err ErrResultUnknown then ''unknown'' else ''failed'')) w1)
      | (Inr xr, w1) \<Rightarrow>
          (let w2 = count (ExecutionsTotal action ''completed'') w1
           in (Inr xr,
               if xr_Verified xr
               then observeClosure count isvc c action (xr_IncidentID xr) (count (VerificationsTotal action ''verified'') w2)
               else count (VerificationsTotal action ''verify_failed'') w2)))"

end
