(* ===== verification/Approval_System.thy ===== *)
theory Approval_System
  imports Approval_Service
begin

text \<open>
  The approval service on top of the incident service: what the two repositories' contracts and
  the executor's contract give together. \<open>approval_system\<close> states the composition: the incident
  store and the approval store lie apart, telemetry touches neither, and the executor may move
  incidents and call the deployment endpoint, but leaves approvals alone and calls at most once,
  under the idempotency key it was given.
\<close>

locale approval_system =
  incident_client irepo istored ijournal iinv iframe isvc +
  approval_repository arepo astored ainv aframe
  for irepo :: "'w incident_repo" and istored ijournal iinv and iframe :: "'w \<Rightarrow> 'f" and isvc
    and arepo :: "'w approval_repo" and astored ainv and aframe :: "'w \<Rightarrow> 'g" +
  fixes asvc :: "'w approval_service"
    and execute :: "'w action_executor"
    and calls :: "'w \<Rightarrow> string list"
  assumes wiring: "as_repo asvc = arepo" "as_incidents asvc = Some isvc" "as_executor asvc = Some execute"
    and apart_incidents: "iframe w' = iframe w
      \<Longrightarrow> astored w' = astored w \<and> (ainv w' \<longleftrightarrow> ainv w) \<and> calls w' = calls w"
    and apart_approvals: "aframe w' = aframe w
      \<Longrightarrow> istored w' = istored w \<and> ijournal w' = ijournal w \<and> (iinv w' \<longleftrightarrow> iinv w) \<and> calls w' = calls w"
    and quiet_count: "istored (as_count asvc m w) = istored w" "ijournal (as_count asvc m w) = ijournal w"
      "iinv (as_count asvc m w) = iinv w" "astored (as_count asvc m w) = astored w"
      "ainv (as_count asvc m w) = ainv w" "calls (as_count asvc m w) = calls w"
    and quiet_publish: "istored (as_publish asvc r t d w) = istored w" "ijournal (as_publish asvc r t d w) = ijournal w"
      "iinv (as_publish asvc r t d w) = iinv w" "astored (as_publish asvc r t d w) = astored w"
      "ainv (as_publish asvc r t d w) = ainv w" "calls (as_publish asvc r t d w) = calls w"
    and executor: "iinv w \<Longrightarrow> ainv w \<Longrightarrow> execute c act args run f w = (res, w')
      \<Longrightarrow> iinv w' \<and> ainv w' \<and> astored w' = astored w
        \<and> (calls w' = calls w \<or> calls w' = calls w @ [ApprovalIDFrom c])"
begin

lemmas quiet = quiet_count quiet_publish

lemma cas_frames:
  assumes "ainv w" and "ar_TransitionStatus arepo c i frm to m now w = (x, w')" and "\<And>y. ap_ID (m y) = ap_ID y"
  shows "istored w' = istored w \<and> ijournal w' = ijournal w \<and> (iinv w' \<longleftrightarrow> iinv w) \<and> ainv w' \<and> calls w' = calls w"
proof (cases x)
  case (Inl e)
  with assms cas_err have "aframe w' = aframe w" "ainv w'" by metis+
  with apart_approvals [of w' w] show ?thesis by simp
next
  case (Inr a)
  with assms cas_ok [of w c i frm to m now a w'] have "aframe w' = aframe w" "ainv w'" by auto
  with apart_approvals [of w' w] show ?thesis by simp
qed

text \<open>The compare-and-set, with the life cycle: it fails and changes nothing, or it was in the expected
  status and evolves.\<close>

lemma cas_cases:
  assumes "ainv w" and "ar_TransitionStatus arepo c i frm to m now w = (x, w')"
    and "\<And>y. same_binding y (m y) \<and> ap_Status (m y) = ap_Status y" and "approval_moves frm to"
  obtains (refused) e where "x = Inl e" "astored w' = astored w"
  | (won) cur where "astored w i = Some cur" "ap_Status cur = frm"
      "x = Inr (m (cur\<lparr>ap_Status := to, ap_UpdatedAt := now\<rparr>))"
      "astored w' = (astored w)(i \<mapsto> m (cur\<lparr>ap_Status := to, ap_UpdatedAt := now\<rparr>))"
      "advanced (astored w) i (astored w')"
proof (cases x)
  case (Inl e)
  with assms cas_err have "astored w' = astored w" by metis
  with Inl refused show ?thesis by blast
next
  case (Inr a)
  have ids: "ap_ID (m y) = ap_ID y" for y using assms(3) by (simp add: same_binding_def)
  obtain cur where c: "astored w i = Some cur" "ap_Status cur = frm"
      "a = m (cur\<lparr>ap_Status := to, ap_UpdatedAt := now\<rparr>)" "astored w' = (astored w)(i \<mapsto> a)"
    using cas_ok [OF assms(1) _ ids] assms(2) Inr by blast
  have "same_binding cur a" "ap_Status a = to"
    using assms(3) [of "cur\<lparr>ap_Status := to, ap_UpdatedAt := now\<rparr>"] c(3) by (auto simp: same_binding_def)
  with c assms(4) have "advanced (astored w) i (astored w')" by (auto intro: advanced_put)
  with c Inr won show ?thesis by blast
qed

text \<open>Moving the incident leaves the approvals and the endpoint alone; when it reports success the
  incident made a move of the state machine, unless the approval is bound to none.\<close>

lemma move_frames:
  assumes "iinv w" "ainv w" and "moveIncident asvc c a next f w = (x, w')"
  shows "iinv w' \<and> ainv w' \<and> astored w' = astored w \<and> calls w' = calls w"
proof (cases "\<exists>r. svc_MoveTo isvc c (projr (approvalIncidentID asvc c a w)) next f w = (r, w')")
  case True
  with transition_keeps [OF assms(1)] have "iinv w'" "iframe w' = iframe w" by (auto simp: svc_ops)
  with apart_incidents [of w' w] assms(2) show ?thesis by simp
next
  case False
  with assms(3) have "w' = w"
    by (auto simp: moveIncident_def wiring split: sum.splits if_splits prod.splits)
  with assms show ?thesis by simp
qed

lemma move_claims:
  assumes "iinv w" and "moveIncident asvc c a next f w = (None, w')"
    and "ap_IncidentID a \<noteq> ''''"
  shows "\<exists>cur. istored w (ap_IncidentID a) = Some cur \<and> CanTransition (inc_Status cur) next
    \<and> istored w' = (istored w)(ap_IncidentID a \<mapsto> bump_version (moved_incident cur next f))"
proof -
  from assms(2,3) obtain inc where "svc_MoveTo isvc c (ap_IncidentID a) next f w = (Inr inc, w')"
    by (auto simp: moveIncident_def approvalIncidentID_def wiring split: sum.splits prod.splits)
  then have "transitionWithAudit isvc c (ap_IncidentID a) next ''state machine transition'' '''' '''' Map.empty f w
      = (Inr inc, w')"
    by (simp add: svc_ops)
  with assms(1) show ?thesis by (rule transition_cases) auto
qed

lemma move_target:
  assumes "iinv w" and "moveIncident asvc c a next f w = (None, w')" and "ap_IncidentID a \<noteq> []"
  shows "\<exists>x. istored w' (ap_IncidentID a) = Some x \<and> inc_Status x = next"
  using move_claims [OF assms] by auto

lemma expire_frames:
  assumes "iinv w" "ainv w" and "expire_approval asvc c a frm cause f w = (e, w')"
    and "approval_moves frm ApprovalExpired"
  shows "iinv w' \<and> ainv w' \<and> istored w' = istored w \<and> calls w' = calls w
    \<and> advanced (astored w) (ap_ID a) (astored w')"
proof -
  obtain x w1 where cas: "ar_TransitionStatus arepo (persistContext c) (ap_ID a) frm ApprovalExpired (set_error cause)
      (clk f 0) w = (x, w1)" by force
  note fr = cas_frames [OF assms(2) cas]
  have "advanced (astored w) (ap_ID a) (astored w1)"
    using assms(2) cas by (rule cas_cases) (use assms(4) in auto)
  moreover have "istored w' = istored w1" "calls w' = calls w1" "astored w' = astored w1"
      "iinv w' = iinv w1" "ainv w' = ainv w1"
    using assms(3) cas by (auto simp: expire_approval_def wiring quiet split: sum.splits if_splits)
  ultimately show ?thesis using fr assms(1) by simp
qed

lemma expire_exact:
  assumes "ainv w" and "expire_approval asvc c a frm cause f w = (e, w')" and "approval_moves frm ApprovalExpired"
  shows "astored w' = astored w \<or> (\<exists>b. astored w' = (astored w)(ap_ID a \<mapsto> b) \<and> ap_Status b = ApprovalExpired)"
proof -
  obtain x w1 where cas: "ar_TransitionStatus arepo (persistContext c) (ap_ID a) frm ApprovalExpired (set_error cause)
      (clk f 0) w = (x, w1)" by force
  have same: "astored w' = astored w1"
    using assms(2) cas by (auto simp: expire_approval_def wiring quiet split: sum.splits if_splits)
  from assms(1) cas show ?thesis
    by (rule cas_cases) (use assms(3) same in auto)
qed

text \<open>The execution of a claimed approval: the executor runs at most once, and only when the approval
  went from APPROVED to EXECUTING in this call.\<close>

lemma execute_cases:
  assumes inv: "iinv w" "ainv w" and step: "executeClaimed asvc execute c a0 f w = (r, w')"
  obtains (refused) e where "r = Inl e" "astored w' = astored w" "calls w' = calls w" "iinv w'" "ainv w'"
  | (ran) a res b where "astored w (ap_ID a0) = Some a" "ap_Status a = ApprovalApproved"
      "advanced (astored w) (ap_ID a0) (astored w')" "iinv w'" "ainv w'"
      "astored w' (ap_ID a0) = Some b" "ap_ApprovedBy b = ap_ApprovedBy a"
      "ap_Status b = ApprovalExecuting \<and> (\<exists>e. r = Inl e) \<or> ap_Status b = outcome_status res \<and> r = Inr b"
      "calls w' = calls w \<or> calls w' = calls w @ [ap_ID a0]"
proof -
  obtain x w1 where cas1: "ar_TransitionStatus arepo (persistContext c) (ap_ID a0) ApprovalApproved ApprovalExecuting
      (\<lambda>x. x) (clk f 0) w = (x, w1)" by force
  note fr1 = cas_frames [OF inv(2) cas1, simplified]
  from inv(2) cas1 show ?thesis
  proof (rule cas_cases)
    fix e assume "x = Inl e" "astored w1 = astored w"
    with step cas1 fr1 inv show ?thesis by (intro refused) (auto simp: executeClaimed_def wiring)
  next
    fix cur :: approval
    let ?a = "cur\<lparr>ap_Status := ApprovalExecuting, ap_UpdatedAt := clk f 0\<rparr>"
    assume cur: "astored w (ap_ID a0) = Some cur" "ap_Status cur = ApprovalApproved" "x = Inr ?a"
      "astored w1 = (astored w)(ap_ID a0 \<mapsto> ?a)" "advanced (astored w) (ap_ID a0) (astored w1)"
    have id: "ap_ID ?a = ap_ID a0" using akey [OF inv(2) cur(1)] by simp
    define w2 where "w2 = as_publish asvc (ap_RunID ?a) ''action.executing'' (approval_event ?a)
        (as_count asvc (ApprovalsTotal (ap_Action ?a) ApprovalExecuting) w1)"
    obtain res w3 where ex: "execute (WithApprovalID c (ap_ID ?a)) (ap_Action ?a) (ap_Arguments ?a) (ap_RunID ?a)
        (evens (later 1 0 f)) w2 = (res, w3)" by force
    have i2: "iinv w2" "ainv w2" "astored w2 = astored w1" "calls w2 = calls w"
      using fr1 inv by (simp_all add: w2_def quiet)
    have i3: "iinv w3" "ainv w3" "astored w3 = astored w1"
        "calls w3 = calls w \<or> calls w3 = calls w @ [ap_ID a0]"
      using executor [OF i2(1,2) ex] i2(3,4) id by (auto simp: ApprovalIDFrom_def WithApprovalID_def)
    obtain y w4 where cas2: "ar_TransitionStatus arepo (persistContext c) (ap_ID ?a) ApprovalExecuting
        (outcome_status res) (set_outcome res) (clk (odds (later 1 0 f)) 0) w3 = (y, w4)" by force
    note fr2 = cas_frames [OF i3(2) cas2, simplified]
    from i3(2) cas2 show ?thesis
    proof (rule cas_cases)
      fix e assume y: "y = Inl e" "astored w4 = astored w3"
      have "w' = w4" "\<exists>e. r = Inl e"
        using step cas1 cur(3) ex cas2 y by (auto simp: executeClaimed_def wiring Let_def w2_def)
      with y fr2 i3 cur id show ?thesis by (intro ran [of cur ?a res]) auto
    next
      fix cur2 :: approval
      let ?b = "set_outcome res (cur2\<lparr>ap_Status := outcome_status res, ap_UpdatedAt := clk (odds (later 1 0 f)) 0\<rparr>)"
      assume y: "astored w3 (ap_ID ?a) = Some cur2" "ap_Status cur2 = ApprovalExecuting" "y = Inr ?b"
        "astored w4 = (astored w3)(ap_ID ?a \<mapsto> ?b)" "advanced (astored w3) (ap_ID ?a) (astored w4)"
      have "cur2 = ?a" using y(1) i3(3) cur(4) id by simp
      moreover have "r = Inr ?b" "iinv w' = iinv w4" "ainv w' = ainv w4" "astored w' = astored w4" "calls w' = calls w4"
        using step cas1 cur(3) ex cas2 y(3) by (auto simp: executeClaimed_def wiring Let_def w2_def quiet)
      moreover have "advanced (astored w) (ap_ID a0) (astored w4)"
        using advanced_trans [OF cur(5)] y(5) i3(3) id by simp
      ultimately show ?thesis
        using y(4) fr2 i3 cur id by (intro ran [of cur ?b res]) auto
    qed (auto simp: outcome_moves)
  qed (auto intro: approval_moves.intros)
qed

text \<open>\<open>Approve\<close>: refused without effect on approvals, given up before the executor (the approval then
  is EXPIRED, or APPROVED when even that could not be written), or executed.\<close>

lemma approve_cases:
  assumes inv: "iinv w" "ainv w" and step: "Approve asvc c i actor f w = (r, w')"
  obtains (refused) e where "r = Inl e" "astored w' = astored w" "istored w' = istored w" "calls w' = calls w"
      "iinv w'" "ainv w'"
  | (given_up) a e where "astored w i = Some a" "ap_Status a = ApprovalPending" "r = Inl e"
      "advanced (astored w) i (astored w')" "calls w' = calls w" "iinv w'" "ainv w'"
      "\<And>b. astored w' i = Some b \<Longrightarrow> ap_Status b \<in> {ApprovalApproved, ApprovalExpired}"
  | (executed) a b where "astored w i = Some a" "ap_Status a = ApprovalPending"
      "ap_IncidentID a = '''' \<or> (\<exists>inc. istored w (ap_IncidentID a) = Some inc \<and> inc_Status inc = StatusWaitingApproval)"
      "advanced (astored w) i (astored w')" "iinv w'" "ainv w'"
      "astored w' i = Some b" "claimed b" "ap_ApprovedBy b = actor"
      "ap_Status b = ApprovalExecuting \<and> (\<exists>e. r = Inl e) \<or> ap_Status b \<noteq> ApprovalExecuting \<and> r = Inr b"
      "calls w' = calls w \<or> calls w' = calls w @ [i]"
proof -
  obtain x w1 where cas: "ar_TransitionStatus arepo c i ApprovalPending ApprovalApproved
      (set_decider actor (clk f 1)) (clk f 0) w = (x, w1)" by force
  note fr1 = cas_frames [OF inv(2) cas, simplified]
  from inv(2) cas show ?thesis
  proof (rule cas_cases)
    fix e assume "x = Inl e" "astored w1 = astored w"
    with step cas fr1 inv show ?thesis by (intro refused) (auto simp: Approve_def wiring)
  next
    fix cur :: approval
    let ?a = "set_decider actor (clk f 1) (cur\<lparr>ap_Status := ApprovalApproved, ap_UpdatedAt := clk f 0\<rparr>)"
    assume cur: "astored w i = Some cur" "ap_Status cur = ApprovalPending" "x = Inr ?a"
      "astored w1 = (astored w)(i \<mapsto> ?a)" "advanced (astored w) i (astored w1)"
    have id: "ap_ID ?a = i" using akey [OF inv(2) cur(1)] by simp
    define w2 where "w2 = as_publish asvc (ap_RunID ?a) ''action.approved'' (approval_event ?a)
        (as_count asvc (ApprovalsTotal (ap_Action ?a) ApprovalApproved) w1)"
    have i2: "iinv w2" "ainv w2" "astored w2 = astored w1" "calls w2 = calls w" "istored w2 = istored w"
      using fr1 inv by (simp_all add: w2_def quiet)
    obtain y w3 where mv: "moveIncident asvc c ?a StatusMitigating (later 2 0 f) w2 = (y, w3)" by force
    note fr3 = move_frames [OF i2(1,2) mv]
    show ?thesis
    proof (cases y)
      case (Some err)
      obtain e w4 where ex: "expire_approval asvc c ?a ApprovalApproved err (later 6 2 f) w3 = (e, w4)" by force
      have "r = Inl e" "w' = w4"
        using step cas cur(3) mv Some ex by (auto simp: Approve_def wiring Let_def w2_def)
      moreover have "ap_Status b \<in> {ApprovalApproved, ApprovalExpired}" if "astored w4 i = Some b" for b
        using expire_exact [OF _ ex expire_approved] that fr3 i2 id cur by auto
      moreover note expire_frames [OF _ _ ex expire_approved] fr3 i2 id
      ultimately show ?thesis
        using cur advanced_trans [OF cur(5)] by (intro given_up [of cur e]) auto
    next
      case None
      have run: "executeClaimed asvc execute c ?a (later 6 2 f) w3 = (r, w')"
        using step cas cur(3) mv None by (auto simp: Approve_def wiring Let_def w2_def)
      have wait: "ap_IncidentID cur = '''' \<or> (\<exists>inc. istored w (ap_IncidentID cur) = Some inc
          \<and> inc_Status inc = StatusWaitingApproval)"
        using move_claims [OF i2(1), of c ?a StatusMitigating] mv None i2(5)
        by (auto simp: CanTransition_moves elim: moves_to_mitigating)
      from fr3 have i3: "iinv w3" "ainv w3" by simp_all
      from i3 run show ?thesis
      proof (rule execute_cases)
        fix e assume "r = Inl e" "astored w' = astored w3" "calls w' = calls w3" "iinv w'" "ainv w'"
        with fr3 i2 cur show ?thesis by (intro given_up [of cur e]) auto
      next
        fix a res b
        assume h: "astored w3 (ap_ID ?a) = Some a" "ap_Status a = ApprovalApproved"
          "advanced (astored w3) (ap_ID ?a) (astored w')" "iinv w'" "ainv w'"
          "astored w' (ap_ID ?a) = Some b" "ap_ApprovedBy b = ap_ApprovedBy a"
          "ap_Status b = ApprovalExecuting \<and> (\<exists>e. r = Inl e) \<or> ap_Status b = outcome_status res \<and> r = Inr b"
          "calls w' = calls w3 \<or> calls w' = calls w3 @ [ap_ID ?a]"
        have "a = ?a" using h(1) fr3 i2 cur id by simp
        then have act: "ap_ApprovedBy b = actor" using h(7) by simp
        have adv: "advanced (astored w) i (astored w')"
          using advanced_trans [OF cur(5)] h(3) fr3 i2 id by simp
        have "claimed b" "ap_Status b = ApprovalExecuting \<and> (\<exists>e. r = Inl e) \<or> ap_Status b \<noteq> ApprovalExecuting \<and> r = Inr b"
          using h(8) outcome_claimed [of res] by (auto simp: claimed_def)
        with cur(1,2) wait adv h act id fr3 i2 show ?thesis
          by (intro executed [of cur b]) auto
      qed
    qed
  qed (auto intro: approval_moves.intros)
qed

lemma reject_cases:
  assumes inv: "iinv w" "ainv w" and step: "Reject asvc c i actor f w = (r, w')"
  obtains (refused) e where "r = Inl e" "astored w' = astored w" "istored w' = istored w" "calls w' = calls w"
      "iinv w'" "ainv w'"
  | (rejected) a b where "astored w i = Some a" "ap_Status a = ApprovalPending" "astored w' = (astored w)(i \<mapsto> b)"
      "advanced (astored w) i (astored w')" "ap_Status b = ApprovalRejected" "ap_ApprovedBy b = actor"
      "r = Inr b \<or> (\<exists>e. r = Inl e)" "calls w' = calls w" "iinv w'" "ainv w'"
      "r = Inr b \<longrightarrow> ap_IncidentID a \<noteq> '''' \<longrightarrow>
        (\<exists>inc. istored w' (ap_IncidentID a) = Some inc \<and> inc_Status inc = StatusFailed)"
proof -
  obtain x w1 where cas: "ar_TransitionStatus arepo c i ApprovalPending ApprovalRejected
      (set_decider actor (clk f 1)) (clk f 0) w = (x, w1)" by force
  note fr1 = cas_frames [OF inv(2) cas, simplified]
  from inv(2) cas show ?thesis
  proof (rule cas_cases)
    fix e assume "x = Inl e" "astored w1 = astored w"
    with step cas fr1 inv show ?thesis by (intro refused) (auto simp: Reject_def wiring)
  next
    fix cur :: approval
    let ?a = "set_decider actor (clk f 1) (cur\<lparr>ap_Status := ApprovalRejected, ap_UpdatedAt := clk f 0\<rparr>)"
    assume cur: "astored w i = Some cur" "ap_Status cur = ApprovalPending" "x = Inr ?a"
      "astored w1 = (astored w)(i \<mapsto> ?a)" "advanced (astored w) i (astored w1)"
    define w2 where "w2 = as_count asvc (ApprovalsTotal (ap_Action ?a) ApprovalRejected) w1"
    have i2: "iinv w2" "ainv w2" "astored w2 = astored w1" "calls w2 = calls w"
      using fr1 inv by (simp_all add: w2_def quiet)
    obtain y w3 where mv: "moveIncident asvc c ?a StatusFailed (later 2 0 f) w2 = (y, w3)" by force
    note fr3 = move_frames [OF i2(1,2) mv]
    have res: "r = (case y of None \<Rightarrow> Inr ?a | Some err \<Rightarrow> Inl err)" "astored w' = astored w3"
        "calls w' = calls w3" "iinv w' = iinv w3" "ainv w' = ainv w3" "istored w' = istored w3"
      using step cas cur(3) mv by (auto simp: Reject_def wiring w2_def quiet split: option.splits)
    have "\<exists>inc. istored w3 (ap_IncidentID cur) = Some inc \<and> inc_Status inc = StatusFailed"
      if "y = None" "ap_IncidentID cur \<noteq> ''''"
      using move_target [OF i2(1), of c ?a StatusFailed] mv that by simp
    with res fr3 i2 cur show ?thesis
      by (intro rejected [of cur ?a]) (auto split: option.splits)
  qed (auto intro: approval_moves.intros)
qed

text \<open>\<open>Request\<close>: the new approval is PENDING, or was expired at once because the incident could not
  wait for it; nothing else changes among the approvals.\<close>

lemma request_cases:
  assumes inv: "iinv w" "ainv w" and step: "Request asvc c runID callID action args reason f w = (r, w')"
  obtains (refused) e where "r = Inl e" "astored w' = astored w" "istored w' = istored w" "calls w' = calls w"
      "iinv w'" "ainv w'"
  | (requested) inc a where "resolveIncidentID asvc c runID w = Inr inc"
      "a = new_approval inc runID callID action args reason f"
      "astored w (ap_ID a) = None" "astored w' = (astored w)(ap_ID a \<mapsto> a)" "r = Inr a"
      "inc \<noteq> '''' \<longrightarrow> (\<exists>x. istored w' inc = Some x \<and> inc_Status x = StatusWaitingApproval)"
      "calls w' = calls w" "iinv w'" "ainv w'"
  | (withdrawn) inc a e where "a = new_approval inc runID callID action args reason f"
      "astored w (ap_ID a) = None" "advanced ((astored w)(ap_ID a \<mapsto> a)) (ap_ID a) (astored w')" "r = Inl e"
      "calls w' = calls w" "iinv w'" "ainv w'" "resolveIncidentID asvc c runID w = Inr inc"
      "\<And>b. astored w' (ap_ID a) = Some b \<Longrightarrow> \<not> claimed b"
proof (cases "resolveIncidentID asvc c runID w")
  case (Inl e)
  with step inv show ?thesis by (intro refused [of e]) (auto simp: Request_def)
next
  case res: (Inr inc)
  let ?a = "new_approval inc runID callID action args reason f"
  obtain x w1 where ins: "ar_Create arepo c ?a w = (x, w1)" by force
  show ?thesis
  proof (cases x)
    case (Some e)
    with acreate_err [OF inv(2)] ins have fr: "astored w1 = astored w" "aframe w1 = aframe w" "ainv w1" by auto
    with apart_approvals [of w1 w] step res ins Some inv show ?thesis
      by (intro refused [of e]) (auto simp: Request_def wiring)
  next
    case made: None
    with acreate_ok [OF inv(2)] ins have cr: "astored w (ap_ID ?a) = None" "astored w1 = (astored w)(ap_ID ?a \<mapsto> ?a)"
        "aframe w1 = aframe w" "ainv w1" by auto
    define w2 where "w2 = as_count asvc (ApprovalsTotal (ap_Action ?a) ApprovalPending) w1"
    have i2: "iinv w2" "ainv w2" "astored w2 = astored w1" "calls w2 = calls w"
      using cr apart_approvals [of w1 w] inv by (simp_all add: w2_def quiet)
    obtain y w3 where mv: "moveIncident asvc c ?a StatusWaitingApproval (later 2 1 f) w2 = (y, w3)" by force
    note fr3 = move_frames [OF i2(1,2) mv]
    show ?thesis
    proof (cases y)
      case None
      have "\<exists>x. istored w3 inc = Some x \<and> inc_Status x = StatusWaitingApproval" if "inc \<noteq> ''''"
        using move_target [OF i2(1), of c ?a StatusWaitingApproval] mv None that by (simp add: new_approval_def)
      moreover have "r = Inr ?a" "astored w' = astored w3" "calls w' = calls w3" "iinv w' = iinv w3"
          "ainv w' = ainv w3" "istored w' = istored w3"
        using step res ins made mv None by (auto simp: Request_def wiring Let_def w2_def quiet)
      ultimately show ?thesis using res cr fr3 i2 by (intro requested [of inc ?a]) auto
    next
      case (Some err)
      obtain e w4 where ex: "expire_approval asvc c ?a ApprovalPending err (later 6 3 f) w3 = (e, w4)" by force
      have out: "\<exists>e. r = Inl e" "w' = w4"
        using step res ins made mv Some ex by (auto simp: Request_def wiring Let_def w2_def split: if_splits)
      from expire_frames [OF _ _ ex expire_pending] fr3 i2 cr
      have "iinv w4" "ainv w4" "calls w4 = calls w" "advanced ((astored w)(ap_ID ?a \<mapsto> ?a)) (ap_ID ?a) (astored w4)"
        by auto
      moreover have "\<not> claimed b" if "astored w4 (ap_ID ?a) = Some b" for b
        using expire_exact [OF _ ex expire_pending] that fr3 i2 cr by (auto simp: claimed_def new_approval_def)
      ultimately show ?thesis using out cr res withdrawn by blast
    qed
  qed
qed

lemma expire_pending_frames:
  assumes inv: "iinv w" "ainv w" and step: "ExpirePending asvc c i f w = (r, w')"
  shows "iinv w' \<and> ainv w' \<and> istored w' = istored w \<and> ijournal w' = ijournal w \<and> calls w' = calls w"
proof -
  have "aframe w' = aframe w" "ainv w'"
    using step inv expire_frame by (auto simp: ExpirePending_def wiring split: if_splits)
  with apart_approvals [of w' w] inv show ?thesis by simp
qed

lemma expire_pending_table:
  assumes inv: "ainv w" and step: "ExpirePending asvc c i f w = (r, w')"
  shows "evolves (astored w j) (astored w' j)
    \<and> (\<forall>n a. r = Inr n \<longrightarrow> astored w' j = Some a \<longrightarrow> ap_IncidentID a = i \<longrightarrow> ap_Status a \<noteq> ApprovalPending)"
proof (cases "i = ''''")
  case True
  with step show ?thesis by (auto simp: ExpirePending_def)
next
  case False
  with step have rep: "ar_ExpirePendingByIncident arepo c i f w = (r, w')" by (simp add: ExpirePending_def wiring)
  show ?thesis
  proof (cases "astored w j")
    case None
    with expire_new [OF inv rep] show ?thesis by simp
  next
    case (Some a)
    show ?thesis
    proof (cases r)
      case (Inl e)
      with expire_err [OF inv] rep Some show ?thesis by simp
    next
      case (Inr n)
      with rep have "ar_ExpirePendingByIncident arepo c i f w = (Inr n, w')" by simp
      from expire_ok [OF inv this False Some] obtain a' where a': "astored w' j = Some a'"
          "if ap_IncidentID a = i \<and> ap_Status a = ApprovalPending
           then \<exists>why t. a' = a\<lparr>ap_Status := ApprovalExpired, ap_Error := why, ap_UpdatedAt := t\<rparr>
           else a' = a" by blast
      show ?thesis
      proof (cases "ap_IncidentID a = i \<and> ap_Status a = ApprovalPending")
        case True
        with a' have "same_binding a a'" "ap_Status a' = ApprovalExpired"
          by (auto simp: same_binding_def)
        with True a' Some show ?thesis by (auto intro: approval_moves.intros)
      next
        case False
        with a' have "a' = a" by simp
        with a'(1) Some False show ?thesis by auto
      qed
    qed
  qed
qed

end

end
