(* ===== verification/Remediation_System.thy ===== *)
theory Remediation_System
  imports Remediation Approval_System
begin

text \<open>
  What a remediation does to the incident it works on, from the incident repository's contract and
  what the HTTP client may touch. \<open>others\<close> stands for the rest of the state that must not change
  (the approvals); \<open>calls\<close> is the list of idempotency keys the deployment endpoint received.
\<close>

definition idem_key :: "http_request \<Rightarrow> string" where
  "idem_key req = (case map_of (hr_headers req) ''Idempotency-Key'' of None \<Rightarrow> '''' | Some k \<Rightarrow> k)"

lemma idem_key_request [simp]: "idem_key (deployment_request e action i args) = i"
  by (simp add: idem_key_def deployment_request_def)

lemma verify_passed_no_error: "VerifySequence v g cfg = (sq, Some e) \<Longrightarrow> \<not> sq_Passed sq"
proof (cases g)
  case (Some p)
  assume "VerifySequence v g cfg = (sq, Some e)"
  with Some have "verify_loop v p (normalized cfg) (nat (rc_Attempts (normalized cfg))) 1 0
      \<lparr>sq_Passed = False, sq_Successes = 0, sq_Attempts = [], sq_Reason = ''''\<rparr> = (sq, Some e)"
    by (simp add: VerifySequence_def Let_def)
  moreover have "\<not> rc_RequiredSuccesses (normalized cfg) \<le> 0" using normalized_pos(2) [of cfg] unfolding not_le .
  ultimately show ?thesis
    using verify_loop_spec [OF _ normalized_pos(2)] by (fastforce simp: flags_def has_run_def)
qed (auto simp: VerifySequence_def)

locale remediation_system =
  incident_client irepo istored ijournal iinv iframe isvc
  for irepo :: "'w incident_repo" and istored ijournal iinv and iframe :: "'w \<Rightarrow> 'f" and isvc +
  fixes rem :: "'w remediation" and runs :: "'w run_repo"
    and others :: "'w \<Rightarrow> 'o" and calls :: "'w \<Rightarrow> string list"
  assumes rem_wiring: "rm_incidents rem = Some isvc" "rm_runs rem = Some runs"
    and rem_apart: "iframe w' = iframe w \<Longrightarrow> others w' = others w \<and> calls w' = calls w"
    and rem_count: "others (is_count isvc m w) = others w" "calls (is_count isvc m w) = calls w"
    and rem_client: "dt_http (rm_restart rem) = Some e \<Longrightarrow> hx_client e c req w = (out, w')
      \<Longrightarrow> istored w' = istored w \<and> ijournal w' = ijournal w \<and> (iinv w' \<longleftrightarrow> iinv w) \<and> others w' = others w
        \<and> calls w' = calls w @ [idem_key req]"
    and rem_quiet: "istored (rm_publish rem i t d w) = istored w" "ijournal (rm_publish rem i t d w) = ijournal w"
      "iinv (rm_publish rem i t d w) = iinv w" "others (rm_publish rem i t d w) = others w"
      "calls (rm_publish rem i t d w) = calls w"
begin

lemma audit_cases:
  assumes "iinv w" and "MoveToWithAudit isvc c i to ty pl f w = (r, w')"
  obtains (failed) e where "r = Inl e" "istored w' = istored w" "iinv w'" "others w' = others w" "calls w' = calls w"
  | (moved) cur inc where "istored w i = Some cur" "CanTransition (inc_Status cur) to" "r = Inr inc"
      "istored w' = (istored w)(i \<mapsto> inc)" "inc_Status inc = to" "iinv w'" "others w' = others w" "calls w' = calls w"
      "ijournal w' = (ijournal w)(i := ijournal w i @ transition_events cur to ''state machine transition'' '''' ty pl f)"
proof -
  from assms(2) have "transitionWithAudit isvc c i to ''state machine transition'' '''' ty pl f w = (r, w')"
    by (simp add: MoveToWithAudit_def)
  with assms(1) show ?thesis
  proof (rule transition_cases)
    fix e assume "r = Inl e" "istored w' = istored w" "iframe w' = iframe w" "iinv w'"
    with rem_apart [of w' w] failed show ?thesis by blast
  next
    fix cur inc
    assume "istored w i = Some cur" "CanTransition (inc_Status cur) to" "inc = bump_version (moved_incident cur to f)"
      "r = Inr inc" "istored w' = (istored w)(i \<mapsto> inc)" "iframe w' = iframe w" "iinv w'"
      "ijournal w' = (ijournal w)(i := ijournal w i @ transition_events cur to ''state machine transition'' '''' ty pl f)"
    with rem_apart [of w' w] moved [of cur inc] show ?thesis by simp
  qed
qed

text \<open>Verification and close: the incident ends RESOLVED exactly when the sequence passed and was not
  interrupted, FAILED when it did not, and where it was when its move could not be written.\<close>

lemma close_cases:
  assumes inv: "iinv w" and step: "verify_and_close rem isvc runs c action runID inc0 i op f w = (r, w')"
  obtains (failed) e where "r = Inl e" "istored w' = istored w" "iinv w'" "others w' = others w" "calls w' = calls w"
  | (closed) cur inc x sq err where "istored w i = Some cur"
      "VerifySequence (rm_verifier rem) (rm_gatherer rem) (rm_verifyCfg rem) = (sq, err)"
      "r = Inr x" "xr_Verified x \<longleftrightarrow> sq_Passed sq" "xr_IncidentID x = i" "xr_OperationID x = op"
      "istored w' = (istored w)(i \<mapsto> inc)" "inc_Status inc = (if sq_Passed sq then StatusResolved else StatusFailed)"
      "iinv w'" "others w' = others w" "calls w' = calls w"
proof -
  obtain sq err where seq: "VerifySequence (rm_verifier rem) (rm_gatherer rem) (rm_verifyCfg rem) = (sq, err)" by force
  show ?thesis
  proof (cases "err \<noteq> None \<or> \<not> sq_Passed sq")
    case True
    then have np: "\<not> sq_Passed sq" using verify_passed_no_error seq by (cases err) auto
    from step seq True obtain c1 pl m w1 where mv: "MoveToWithAudit isvc c1 i StatusFailed EventVerificationFailed pl f w = (m, w1)"
        and out: "(\<exists>e. m = Inl e \<and> (\<exists>e'. r = Inl e') \<and> w' = w1) \<or>
          (\<exists>y x ty d. m = Inr y \<and> r = Inr x \<and> \<not> xr_Verified x \<and> xr_IncidentID x = i \<and> xr_OperationID x = op
             \<and> w' = rm_publish rem runID ty d w1)"
      by (fastforce simp: verify_and_close_def Let_def split: sum.splits prod.splits if_splits)
    from inv mv show ?thesis
    proof (rule audit_cases)
      fix e assume "m = Inl e" "istored w1 = istored w" "iinv w1" "others w1 = others w" "calls w1 = calls w"
      with out failed show ?thesis by auto
    next
      fix cur inc
      assume h: "istored w i = Some cur" "m = Inr inc" "istored w1 = (istored w)(i \<mapsto> inc)" "inc_Status inc = StatusFailed"
        "iinv w1" "others w1 = others w" "calls w1 = calls w"
      from out h(2) obtain x ty d where "r = Inr x" "\<not> xr_Verified x" "xr_IncidentID x = i" "xr_OperationID x = op"
          "w' = rm_publish rem runID ty d w1" by auto
      with h np seq show ?thesis by (intro closed [of cur sq err x inc]) (simp_all add: rem_quiet)
    qed
  next
    case False
    from step seq False obtain pl m w1 where mv: "MoveToWithAudit isvc c i StatusResolved EventPostmortemGenerated pl f w = (m, w1)"
        and out: "(\<exists>e. m = Inl e \<and> (\<exists>e'. r = Inl e') \<and> w' = w1) \<or>
          (\<exists>y x ty d. m = Inr y \<and> r = Inr x \<and> xr_Verified x \<and> xr_IncidentID x = i \<and> xr_OperationID x = op
             \<and> w' = rm_publish rem runID ty d w1)"
      by (fastforce simp: verify_and_close_def Let_def split: sum.splits prod.splits if_splits)
    from inv mv show ?thesis
    proof (rule audit_cases)
      fix e assume "m = Inl e" "istored w1 = istored w" "iinv w1" "others w1 = others w" "calls w1 = calls w"
      with out failed show ?thesis by auto
    next
      fix cur inc
      assume h: "istored w i = Some cur" "m = Inr inc" "istored w1 = (istored w)(i \<mapsto> inc)" "inc_Status inc = StatusResolved"
        "iinv w1" "others w1 = others w" "calls w1 = calls w"
      from out h(2) obtain x ty d where "r = Inr x" "xr_Verified x" "xr_IncidentID x = i" "xr_OperationID x = op"
          "w' = rm_publish rem runID ty d w1" by auto
      with h False seq show ?thesis by (intro closed [of cur sq err x inc]) (simp_all add: rem_quiet)
    qed
  qed
qed

text \<open>The action itself touches only the log of calls, and adds at most the one key.\<close>

lemma tool_frames:
  assumes "tool_Execute (rm_restart rem) c action args w = (x, w')"
  shows "istored w' = istored w \<and> (iinv w' \<longleftrightarrow> iinv w) \<and> others w' = others w
    \<and> (calls w' = calls w \<or> calls w' = calls w @ [ApprovalIDFrom c])"
  using tool_Execute_calls [OF assms] rem_client by fastforce

lemma remediation_cases:
  assumes inv: "iinv w" and step: "remediation_Execute rem c action args runID f w = (r, w')"
  obtains (blocked) e where "r = Inl e" "w' = w"
  | (stuck) run cur e where "rr_GetRun runs c runID w = Inr run" "istored w (run_IncidentID run) = Some cur"
      "inc_Status cur = StatusMitigating" "r = Inl e" "istored w' = istored w" "iinv w'" "others w' = others w"
      "calls w' = calls w \<or> calls w' = calls w @ [ApprovalIDFrom c]"
  | (failed) run cur inc e where "rr_GetRun runs c runID w = Inr run" "istored w (run_IncidentID run) = Some cur"
      "inc_Status cur = StatusMitigating" "r = Inl e" "\<not> errIs e ErrResultUnknown"
      "istored w' = (istored w)(run_IncidentID run \<mapsto> inc)" "inc_Status inc = StatusFailed"
      "iinv w'" "others w' = others w" "calls w' = calls w \<or> calls w' = calls w @ [ApprovalIDFrom c]"
  | (unclosed) run cur inc e where "rr_GetRun runs c runID w = Inr run" "istored w (run_IncidentID run) = Some cur"
      "inc_Status cur = StatusMitigating" "r = Inl e"
      "istored w' = (istored w)(run_IncidentID run \<mapsto> inc)" "inc_Status inc = StatusVerifying"
      "iinv w'" "others w' = others w" "calls w' = calls w \<or> calls w' = calls w @ [ApprovalIDFrom c]"
  | (finished) run cur inc x sq err where "rr_GetRun runs c runID w = Inr run"
      "istored w (run_IncidentID run) = Some cur" "inc_Status cur = StatusMitigating" "r = Inr x"
      "VerifySequence (rm_verifier rem) (rm_gatherer rem) (rm_verifyCfg rem) = (sq, err)"
      "xr_Verified x \<longleftrightarrow> sq_Passed sq" "xr_IncidentID x = run_IncidentID run"
      "istored w' = (istored w)(run_IncidentID run \<mapsto> inc)"
      "inc_Status inc = (if sq_Passed sq then StatusResolved else StatusFailed)"
      "iinv w'" "others w' = others w" "calls w' = calls w \<or> calls w' = calls w @ [ApprovalIDFrom c]"
proof (cases "rr_GetRun runs c runID w")
  case (Inl e)
  with step show ?thesis
    by (intro blocked [of "wrap_err (''resolve incident of run '' @ go_quote runID @ '': '') e"])
       (auto simp: remediation_Execute_def rem_wiring)
next
  case run: (Inr run)
  let ?i = "run_IncidentID run"
  show ?thesis
  proof (cases "\<exists>cur. ?i \<noteq> '''' \<and> svc_Get isvc c ?i w = Inr cur \<and> inc_Status cur = StatusMitigating")
    case False
    with step run have "\<exists>e. r = Inl e" "w' = w"
      by (auto simp: remediation_Execute_def rem_wiring Let_def split: if_splits sum.splits)
    then show ?thesis using blocked by blast
  next
    case True
    then obtain cur where cur: "?i \<noteq> ''''" "svc_Get isvc c ?i w = Inr cur" "inc_Status cur = StatusMitigating" by blast
    have st: "istored w ?i = Some cur" using get_ok [OF inv] cur(2) by (simp add: svc_Get_def svc_repo)
    obtain x w1 where tool: "tool_Execute (rm_restart rem) c action args w = (x, w1)" by force
    note fr = tool_frames [OF tool]
    with inv have inv1: "iinv w1" by simp
    show ?thesis
    proof (cases x)
      case (Inl execErr)
      show ?thesis
      proof (cases "errIs execErr ErrResultUnknown")
        case True
        with step run cur tool Inl have "r = Inl execErr" "w' = w1"
          by (auto simp: remediation_Execute_def rem_wiring Let_def)
        with fr inv1 run st cur show ?thesis by (intro stuck [of run cur execErr]) auto
      next
        case False
        obtain pl m w2 where mv: "MoveToWithAudit isvc c ?i StatusFailed EventActionFailed pl f w1 = (m, w2)"
            and out: "w' = w2" "r = (case m of Inl failErr \<Rightarrow>
               Inl (errors_join execErr (wrap_err (''move incident '' @ ?i @ '' to FAILED: '') failErr)) | Inr _ \<Rightarrow> Inl execErr)"
          using step run cur tool Inl False
          by (auto simp: remediation_Execute_def rem_wiring Let_def split: sum.splits prod.splits)
        from inv1 mv show ?thesis
        proof (rule audit_cases)
          fix e assume "m = Inl e" "istored w2 = istored w1" "iinv w2" "others w2 = others w1" "calls w2 = calls w1"
          with out fr run st cur show ?thesis
            by (intro stuck [of run cur "errors_join execErr (wrap_err (''move incident '' @ ?i @ '' to FAILED: '') e)"]) auto
        next
          fix cur2 inc
          assume "m = Inr inc" "istored w2 = (istored w1)(?i \<mapsto> inc)" "inc_Status inc = StatusFailed"
            "iinv w2" "others w2 = others w1" "calls w2 = calls w1"
          with out fr run st cur False show ?thesis by (intro failed [of run cur execErr inc]) auto
        qed
      qed
    next
      case (Inr xr)
      obtain pl m w2 where mv: "MoveToWithAudit isvc c ?i StatusVerifying EventActionCompleted pl f w1 = (m, w2)"
          and out: "(r, w') = (case m of Inl err \<Rightarrow> (Inl (wrap_err (''move incident '' @ ?i @ '' to VERIFYING: '') err), w2)
             | Inr _ \<Rightarrow> verify_and_close rem isvc runs c action runID cur ?i (xr_OperationID xr) (later 4 2 f) w2)"
        using step run cur tool Inr
        by (auto simp: remediation_Execute_def rem_wiring Let_def split: sum.splits prod.splits)
      from inv1 mv show ?thesis
      proof (rule audit_cases)
        fix e assume "m = Inl e" "istored w2 = istored w1" "iinv w2" "others w2 = others w1" "calls w2 = calls w1"
        with out fr run st cur show ?thesis
          by (intro stuck [of run cur "wrap_err (''move incident '' @ ?i @ '' to VERIFYING: '') e"]) auto
      next
        fix cur2 inc
        assume h: "m = Inr inc" "istored w2 = (istored w1)(?i \<mapsto> inc)" "inc_Status inc = StatusVerifying"
          "iinv w2" "others w2 = others w1" "calls w2 = calls w1"
        with out have "verify_and_close rem isvc runs c action runID cur ?i (xr_OperationID xr) (later 4 2 f) w2 = (r, w')"
          by simp
        with h(4) show ?thesis
        proof (rule close_cases)
          fix e assume "r = Inl e" "istored w' = istored w2" "iinv w'" "others w' = others w2" "calls w' = calls w2"
          with h fr run st cur show ?thesis by (intro unclosed [of run cur e inc]) auto
        next
          fix cur3 inc3 y sq err
          assume "VerifySequence (rm_verifier rem) (rm_gatherer rem) (rm_verifyCfg rem) = (sq, err)"
            "r = Inr y" "xr_Verified y \<longleftrightarrow> sq_Passed sq" "xr_IncidentID y = ?i"
            "istored w' = (istored w2)(?i \<mapsto> inc3)"
            "inc_Status inc3 = (if sq_Passed sq then StatusResolved else StatusFailed)"
            "iinv w'" "others w' = others w2" "calls w' = calls w2"
          with h fr run st cur show ?thesis by (intro finished [of run cur y sq err inc3]) auto
        qed
      qed
    qed
  qed
qed

text \<open>The contract that the approval service asks of its executor, for the observed remediation.\<close>

lemma observed_contract:
  assumes inv: "iinv w"
    and step: "observed_Execute (is_count isvc) (Some isvc) (remediation_Execute rem) c action args runID f w = (r, w')"
  shows "iinv w' \<and> others w' = others w \<and> (calls w' = calls w \<or> calls w' = calls w @ [ApprovalIDFrom c])"
proof -
  obtain x w1 where rm: "remediation_Execute rem c action args runID f w = (x, w1)" by force
  have "iinv w1 \<and> others w1 = others w \<and> (calls w1 = calls w \<or> calls w1 = calls w @ [ApprovalIDFrom c])"
    using inv rm by (rule remediation_cases) (use inv in auto)
  moreover have "iinv w' = iinv w1 \<and> others w' = others w1 \<and> calls w' = calls w1"
    using step rm
    by (auto simp: observed_Execute_def observeClosure_def count_frame rem_count Let_def
        split: sum.splits if_splits option.splits)
  ultimately show ?thesis by simp
qed

end

end
