(* ===== verification/Incident_History.thy ===== *)
theory Incident_History
  imports Incident_Service
begin

text \<open>
  What the incident table and its audit journal look like over time. \<open>incident_change\<close> is one change
  that the service can make (an incident is opened, moved, or closed from outside); every operation
  is a sequence of them, so invariants of the whole history are inductions over one relation:
  the journal replays to the current status, the version counts the transitions, and there are
  never more than five.
\<close>

section \<open>Replaying a journal\<close>

definition status_event :: "incident_event \<Rightarrow> bool" where
  "status_event e = (ev_EventType e = EventIncidentCreated \<or> ev_EventType e = EventStatusTransition)"

fun trail :: "string \<Rightarrow> incident_event list \<Rightarrow> string option" where
  "trail cur [] = Some cur"
| "trail cur (e # es) =
     (if status_event e
      then (if fst (StatusChange e) = cur then trail (snd (StatusChange e)) es else None)
      else trail cur es)"

definition transitions :: "incident_event list \<Rightarrow> nat" where
  "transitions es = length (filter (\<lambda>e. ev_EventType e = EventStatusTransition) es)"

lemma trail_append: "trail cur (xs @ ys) = (case trail cur xs of None \<Rightarrow> None | Some s \<Rightarrow> trail s ys)"
  by (induction xs arbitrary: cur) auto

lemma transitions_append [simp]: "transitions (xs @ ys) = transitions xs + transitions ys"
  by (simp add: transitions_def)

lemma transitions_Nil [simp]: "transitions [] = 0"
  by (simp add: transitions_def)

text \<open>The event types with which the service is asked to record a business event.\<close>

definition business_type :: "string \<Rightarrow> bool" where
  "business_type ty = (ty \<noteq> EventIncidentCreated \<and> ty \<noteq> EventStatusTransition)"

lemma business_types [simp]:
  "business_type ''''" "business_type EventActionCompleted" "business_type EventActionFailed"
  "business_type EventVerificationFailed" "business_type EventPostmortemGenerated"
  by (simp_all add: business_type_def event_type_defs)

lemma transition_events_trail:
  "business_type ty \<Longrightarrow> trail (status_string (inc_Status cur)) (transition_events cur to reason err ty pl f) = Some (status_string to)
    \<and> transitions (transition_events cur to reason err ty pl f) = 1"
  by (auto simp: transition_events_def Let_def status_event_def opt_status_string_def transitions_def business_type_def)

section \<open>Changes\<close>

type_synonym incident_view = "(string \<Rightarrow> incident option) \<times> (string \<Rightarrow> incident_event list)"

inductive incident_change :: "incident_view \<Rightarrow> incident_view \<Rightarrow> bool" where
  opened: "s (inc_ID inc) = None \<Longrightarrow> inc = new_incident inp f \<Longrightarrow> ev_EventType ev = EventIncidentCreated
    \<Longrightarrow> StatusChange ev = ('''', status_string StatusOpen)
    \<Longrightarrow> incident_change (s, j) (s(inc_ID inc \<mapsto> inc), j(inc_ID inc := j (inc_ID inc) @ [ev]))"
| moved: "s i = Some cur \<Longrightarrow> CanTransition (inc_Status cur) to \<Longrightarrow> business_type ty
    \<Longrightarrow> incident_change (s, j) (s(i \<mapsto> bump_version (moved_incident cur to f)),
          j(i := j i @ transition_events cur to reason err ty pl f))"
| closed: "s i = Some cur \<Longrightarrow> inc_Status cur \<notin> {StatusMitigating, StatusVerifying, StatusResolved, StatusFailed, StatusCancelled}
    \<Longrightarrow> ev_EventType ev = EventStatusTransition
    \<Longrightarrow> StatusChange ev = (status_string (inc_Status cur), status_string StatusResolved)
    \<Longrightarrow> incident_change (s, j) (s(i \<mapsto> bump_version (externally_resolved cur f)), j(i := j i @ [ev]))"

inductive_cases incident_change_cases: "incident_change (s, j) (s', j')"

abbreviation incident_changes :: "incident_view \<Rightarrow> incident_view \<Rightarrow> bool" where
  "incident_changes \<equiv> incident_change\<^sup>*\<^sup>*"

definition entry_ok :: "incident option \<Rightarrow> incident_event list \<Rightarrow> bool" where
  "entry_ok x es =
     (case x of
        None \<Rightarrow> es = []
      | Some inc \<Rightarrow> trail '''' es = Some (status_string (inc_Status inc))
          \<and> inc_Version inc = of_nat (transitions es) \<and> transitions es \<le> stage (inc_Status inc)
          \<and> inc_Status inc \<noteq> StatusNeedApproval \<and> inc_Status inc \<noteq> StatusCancelled
          \<and> (inc_ResolvedAt inc = None \<longleftrightarrow> inc_Status inc \<noteq> StatusResolved)
          \<and> inc_Fingerprint inc = Fingerprint (inc_Service inc) (inc_AlertName inc) (inc_Title inc))"

definition history_ok :: "incident_view \<Rightarrow> bool" where
  "history_ok v = (\<forall>i. entry_ok (fst v i) (snd v i))"

lemma new_incident_simps [simp]:
  "inc_Status (new_incident inp f) = StatusOpen" "inc_Version (new_incident inp f) = 0"
  "inc_ResolvedAt (new_incident inp f) = None"
  "inc_Fingerprint (new_incident inp f) = Fingerprint (ci_Service inp) (ci_AlertName inp) (ci_Title inp)"
  "inc_Service (new_incident inp f) = ci_Service inp" "inc_AlertName (new_incident inp f) = ci_AlertName inp"
  "inc_Title (new_incident inp f) = ci_Title inp"
  by (simp_all add: new_incident_def)

lemma identity_kept:
  "same_identity cur inc \<Longrightarrow> inc_Fingerprint inc = inc_Fingerprint cur \<and> inc_Service inc = inc_Service cur
    \<and> inc_AlertName inc = inc_AlertName cur \<and> inc_Title inc = inc_Title cur"
  by (auto dest: same_identityD)

lemma moved_entry:
  assumes "entry_ok (Some cur) es" and "CanTransition (inc_Status cur) to" and "business_type ty"
  shows "entry_ok (Some (bump_version (moved_incident cur to f))) (es @ transition_events cur to reason err ty pl f)"
proof -
  have mv: "moves (inc_Status cur) to" using assms(2) by (simp add: CanTransition_moves)
  have "inc_Status cur \<noteq> StatusResolved" using moves_not_terminal [OF mv] by auto
  moreover have "to \<noteq> StatusNeedApproval" "to \<noteq> StatusCancelled" using mv moves_need moves_cancelled by auto
  moreover note moves_stage [OF mv] transition_events_trail [OF assms(3), of cur to reason err pl f]
    identity_kept [of cur "moved_incident cur to f"]
  ultimately show ?thesis
    using assms(1) by (auto simp: entry_ok_def trail_append moved_incident_resolved bump_version_def)
qed

lemma closed_entry:
  assumes "entry_ok (Some cur) es"
    and "inc_Status cur \<notin> {StatusMitigating, StatusVerifying, StatusResolved, StatusFailed, StatusCancelled}"
    and "ev_EventType ev = EventStatusTransition"
    and "StatusChange ev = (status_string (inc_Status cur), status_string StatusResolved)"
  shows "entry_ok (Some (bump_version (externally_resolved cur f))) (es @ [ev])"
proof -
  have "stage (inc_Status cur) \<le> 4" using assms(2) by (cases "inc_Status cur") auto
  moreover note identity_kept [of cur "externally_resolved cur f"]
  ultimately show ?thesis
    using assms by (auto simp: entry_ok_def trail_append status_event_def transitions_def bump_version_def)
qed

lemma change_ok: "incident_change v v' \<Longrightarrow> history_ok v \<Longrightarrow> history_ok v'"
proof (induction rule: incident_change.induct)
  case (opened s inc inp f ev j)
  from opened.prems have "entry_ok (s (inc_ID inc)) (j (inc_ID inc))"
    unfolding history_ok_def fst_conv snd_conv by blast
  with opened have "j (inc_ID inc) = []" by (simp add: entry_ok_def)
  with opened show ?case
    by (auto simp: history_ok_def entry_ok_def status_event_def transitions_def event_type_defs split: option.splits)
next
  case (moved s i cur to ty j f reason err pl)
  then have "entry_ok (Some cur) (j i)" by (auto simp: history_ok_def dest: spec [of _ i])
  with moved moved_entry show ?case by (simp add: history_ok_def)
next
  case (closed s i cur ev j f)
  then have "entry_ok (Some cur) (j i)" by (auto simp: history_ok_def dest: spec [of _ i])
  with closed closed_entry show ?case by (simp add: history_ok_def)
qed

lemma changes_ok: "incident_changes v v' \<Longrightarrow> history_ok v \<Longrightarrow> history_ok v'"
  by (induction rule: rtranclp_induct) (auto intro: change_ok)

lemma history_ok_empty: "history_ok (\<lambda>_. None, \<lambda>_. [])"
  by (simp add: history_ok_def entry_ok_def)

text \<open>The journal only grows, a terminal incident stays as it is, and identity is fixed.\<close>

lemma change_keeps:
  "incident_change v v' \<Longrightarrow> (\<exists>es. snd v' i = snd v i @ es)
    \<and> (\<forall>inc. fst v i = Some inc \<longrightarrow> (\<exists>inc'. fst v' i = Some inc'
          \<and> inc_Fingerprint inc' = inc_Fingerprint inc \<and> stage (inc_Status inc) \<le> stage (inc_Status inc')
          \<and> (IsTerminal (inc_Status inc) \<longrightarrow> inc' = inc)))"
proof (induction rule: incident_change.induct)
  case (opened s inc inp f ev j)
  then show ?case by auto
next
  case (moved s k cur to ty j f reason err pl)
  then have "moves (inc_Status cur) to" by (simp add: CanTransition_moves)
  with moves_stage moves_not_terminal have "stage (inc_Status cur) < stage to" "\<not> IsTerminal (inc_Status cur)" by auto
  with moved identity_kept [of cur "moved_incident cur to f"] show ?case by auto
next
  case (closed s k cur ev j f)
  then have "stage (inc_Status cur) \<le> 5" "\<not> IsTerminal (inc_Status cur)" by (cases "inc_Status cur"; auto)+
  with closed identity_kept [of cur "externally_resolved cur f"] show ?case by auto
qed

lemma changes_keep:
  "incident_changes v v' \<Longrightarrow> fst v i = Some inc \<Longrightarrow> \<exists>inc'. fst v' i = Some inc'
    \<and> inc_Fingerprint inc' = inc_Fingerprint inc \<and> stage (inc_Status inc) \<le> stage (inc_Status inc')
    \<and> (IsTerminal (inc_Status inc) \<longrightarrow> inc' = inc)"
proof (induction rule: rtranclp_induct)
  case (step v1 v2)
  then obtain x where "fst v1 i = Some x" "inc_Fingerprint x = inc_Fingerprint inc"
      "stage (inc_Status inc) \<le> stage (inc_Status x)" "IsTerminal (inc_Status inc) \<longrightarrow> x = inc" by blast
  with change_keeps [OF step.hyps(2), of i] show ?case by force
qed auto

lemma changes_journal: "incident_changes v v' \<Longrightarrow> \<exists>es. snd v' i = snd v i @ es"
proof (induction rule: rtranclp_induct)
  case (step v1 v2)
  with change_keeps [OF step.hyps(2), of i] show ?case by (metis append.assoc)
qed simp

section \<open>The operations are changes\<close>

context incident_client
begin

lemma transition_changes:
  assumes "iinv w" and "transitionWithAudit svc c i to reason err ty pl f w = (r, w')" and "business_type ty"
  shows "incident_changes (istored w, ijournal w) (istored w', ijournal w')"
  using assms(1,2)
proof (rule transition_cases)
  fix cur inc
  assume "istored w i = Some cur" "CanTransition (inc_Status cur) to" "inc = bump_version (moved_incident cur to f)"
    "istored w' = (istored w)(i \<mapsto> inc)"
    "ijournal w' = (ijournal w)(i := ijournal w i @ transition_events cur to reason err ty pl f)"
  with assms(3) have "incident_change (istored w, ijournal w) (istored w', ijournal w')"
    by (simp add: incident_change.moved)
  then show ?thesis ..
qed simp

lemma create_changes:
  assumes "iinv w" and "svc_Create svc c inp f w = (r, w')"
  shows "incident_changes (istored w, ijournal w) (istored w', ijournal w')"
  using assms
proof (rule create_cases)
  fix inc ev
  assume "inc = new_incident inp f" "istored w (inc_ID inc) = None" "istored w' = (istored w)(inc_ID inc \<mapsto> inc)"
    "ijournal w' = (ijournal w)(inc_ID inc := ijournal w (inc_ID inc) @ [ev])"
    "ev_EventType ev = EventIncidentCreated" "StatusChange ev = ('''', status_string StatusOpen)"
  then have "incident_change (istored w, ijournal w) (istored w', ijournal w')"
    by (metis incident_change.opened)
  then show ?thesis ..
qed simp_all

end

context incident_closing
begin

lemma resolve_changes:
  assumes "iinv w" and "ResolveExternally svc c fp f w = (r, w')"
  shows "incident_changes (istored w, ijournal w) (istored w', ijournal w')"
  using assms
proof (rule resolve_cases)
  fix cur inc n w1 ev
  assume "istored w (inc_ID cur) = Some cur"
    "inc_Status cur \<notin> {StatusMitigating, StatusVerifying, StatusResolved, StatusFailed, StatusCancelled}"
    "inc = bump_version (externally_resolved cur (odds f))" "istored w' = (istored w)(inc_ID cur \<mapsto> inc)"
    "ijournal w' = (ijournal w)(inc_ID cur := ijournal w (inc_ID cur) @ [ev])"
    "StatusChange ev = (status_string (inc_Status cur), status_string StatusResolved)"
    "ev_EventType ev = EventStatusTransition"
  then have "incident_change (istored w, ijournal w) (istored w', ijournal w')"
    by (simp add: incident_change.closed)
  then show ?thesis ..
qed simp_all

end

end
