(* ===== verification/System_History.thy ===== *)
theory System_History
  imports Remediation_System Incident_History
begin

text \<open>
  The remediation and the approval service change incidents only by changes of the incident service:
  every write they make to the incident table is a sequence of \<open>incident_change\<close>s. With it the
  invariants of the incident history hold across the whole execution chain.
\<close>

context remediation_system
begin

lemma audit_change:
  assumes "iinv w" and "MoveToWithAudit isvc c i to ty pl f w = (r, w')" and "business_type ty"
  shows "incident_changes (istored w, ijournal w) (istored w', ijournal w')" and "iinv w'"
proof -
  from assms(2) have "transitionWithAudit isvc c i to ''state machine transition'' '''' ty pl f w = (r, w')"
    by (simp add: MoveToWithAudit_def)
  from transition_changes [OF assms(1) this assms(3)] transition_keeps(1) [OF assms(1) this]
  show "incident_changes (istored w, ijournal w) (istored w', ijournal w')" and "iinv w'" by simp_all
qed

lemma close_changes:
  assumes inv: "iinv w" and step: "verify_and_close rem isvc runs c action runID inc i op f w = (r, w')"
  shows "incident_changes (istored w, ijournal w) (istored w', ijournal w')"
proof -
  from step obtain c1 to ty pl m w1 where "MoveToWithAudit isvc c1 i to ty pl f w = (m, w1)" "business_type ty"
      "istored w' = istored w1" "ijournal w' = ijournal w1"
    by (fastforce simp: verify_and_close_def Let_def rem_quiet split: sum.splits prod.splits if_splits)
  with audit_change [OF inv] show ?thesis by simp
qed

lemma tool_journal:
  assumes "tool_Execute (rm_restart rem) c action args w = (x, w')"
  shows "istored w' = istored w \<and> ijournal w' = ijournal w \<and> (iinv w' \<longleftrightarrow> iinv w)"
  using tool_Execute_calls [OF assms] rem_client by fastforce

lemma remediation_changes:
  assumes inv: "iinv w" and step: "remediation_Execute rem c action args runID f w = (r, w')"
  shows "incident_changes (istored w, ijournal w) (istored w', ijournal w')"
proof (cases "w' = w")
  case False
  from step False obtain i x w1 where tool: "tool_Execute (rm_restart rem) c action args w = (x, w1)"
      and rest: "(\<exists>to ty pl m. MoveToWithAudit isvc c i to ty pl f w1 = (m, w') \<and> business_type ty) \<or> w' = w1
        \<or> (\<exists>ty pl m w2 inc op. MoveToWithAudit isvc c i StatusVerifying ty pl f w1 = (m, w2) \<and> business_type ty
             \<and> verify_and_close rem isvc runs c action runID inc i op (later 4 2 f) w2 = (r, w'))"
    by (fastforce simp: remediation_Execute_def rem_wiring Let_def split: sum.splits prod.splits if_splits)
  note fr = tool_journal [OF tool]
  with inv have "iinv w1" by simp
  from rest show ?thesis
  proof (elim disjE exE conjE)
    fix to ty pl m
    assume "MoveToWithAudit isvc c i to ty pl f w1 = (m, w')" "business_type ty"
    with audit_change [OF \<open>iinv w1\<close>] fr show ?thesis by simp
  next
    fix ty pl m w2 inc op
    assume h: "MoveToWithAudit isvc c i StatusVerifying ty pl f w1 = (m, w2)" "business_type ty"
      "verify_and_close rem isvc runs c action runID inc i op (later 4 2 f) w2 = (r, w')"
    from audit_change [OF \<open>iinv w1\<close> h(1,2)] close_changes [OF _ h(3)] fr
    show ?thesis by (auto intro: rtranclp_trans)
  qed (use fr in simp)
qed simp

lemma observed_changes:
  assumes inv: "iinv w"
    and step: "observed_Execute (is_count isvc) (Some isvc) (remediation_Execute rem) c action args runID f w = (r, w')"
  shows "incident_changes (istored w, ijournal w) (istored w', ijournal w')"
proof -
  obtain x w1 where rm: "remediation_Execute rem c action args runID f w = (x, w1)" by force
  have "istored w' = istored w1 \<and> ijournal w' = ijournal w1"
    using step rm
    by (auto simp: observed_Execute_def observeClosure_def count_frame Let_def split: sum.splits if_splits option.splits)
  with remediation_changes [OF inv rm] show ?thesis by simp
qed

end

locale approval_history = approval_system irepo istored ijournal iinv iframe isvc arepo astored ainv aframe asvc execute calls
  for irepo :: "'w incident_repo" and istored ijournal iinv and iframe :: "'w \<Rightarrow> 'f" and isvc
    and arepo :: "'w approval_repo" and astored ainv and aframe :: "'w \<Rightarrow> 'g" and asvc execute calls +
  assumes executor_changes: "iinv w \<Longrightarrow> execute c act args run f w = (res, w')
    \<Longrightarrow> incident_changes (istored w, ijournal w) (istored w', ijournal w')"
begin

lemma move_changes:
  assumes "iinv w" and "moveIncident asvc c a next f w = (x, w')"
  shows "incident_changes (istored w, ijournal w) (istored w', ijournal w')"
proof (cases "w' = w")
  case False
  with assms(2) obtain i r where "svc_MoveTo isvc c i next f w = (r, w')"
    by (auto simp: moveIncident_def wiring split: sum.splits if_splits prod.splits)
  with transition_changes [OF assms(1)] show ?thesis by (simp add: svc_ops)
qed simp

lemma expire_view:
  assumes "ainv w" and "expire_approval asvc c a frm cause f w = (e, w')"
  shows "istored w' = istored w \<and> ijournal w' = ijournal w"
proof -
  obtain x w1 where cas: "ar_TransitionStatus arepo (persistContext c) (ap_ID a) frm ApprovalExpired (set_error cause)
      (clk f 0) w = (x, w1)" by force
  from cas_frames [OF assms(1) cas] assms(2) cas show ?thesis
    by (auto simp: expire_approval_def wiring quiet split: sum.splits if_splits)
qed

lemma execute_changes:
  assumes inv: "iinv w" "ainv w" and step: "executeClaimed asvc execute c a0 f w = (r, w')"
  shows "incident_changes (istored w, ijournal w) (istored w', ijournal w')"
proof -
  obtain x w1 where cas1: "ar_TransitionStatus arepo (persistContext c) (ap_ID a0) ApprovalApproved ApprovalExecuting
      (\<lambda>x. x) (clk f 0) w = (x, w1)" by force
  note fr1 = cas_frames [OF inv(2) cas1, simplified]
  show ?thesis
  proof (cases x)
    case (Inl e)
    with step cas1 fr1 show ?thesis by (auto simp: executeClaimed_def wiring)
  next
    case (Inr a)
    define w2 where "w2 = as_publish asvc (ap_RunID a) ''action.executing'' (approval_event a)
        (as_count asvc (ApprovalsTotal (ap_Action a) ApprovalExecuting) w1)"
    obtain res w3 where ex: "execute (WithApprovalID c (ap_ID a)) (ap_Action a) (ap_Arguments a) (ap_RunID a)
        (evens (later 1 0 f)) w2 = (res, w3)" by force
    have i2: "iinv w2" "ainv w2" "istored w2 = istored w" "ijournal w2 = ijournal w"
      using fr1 inv by (simp_all add: w2_def quiet)
    have i3: "ainv w3" using executor [OF i2(1,2) ex] by simp
    obtain y w4 where cas2: "ar_TransitionStatus arepo (persistContext c) (ap_ID a) ApprovalExecuting
        (outcome_status res) (set_outcome res) (clk (odds (later 1 0 f)) 0) w3 = (y, w4)" by force
    have "istored w4 = istored w3" "ijournal w4 = ijournal w3" using cas_frames [OF i3 cas2, simplified] by simp_all
    moreover have "istored w' = istored w4" "ijournal w' = ijournal w4"
      using step cas1 Inr ex cas2 by (auto simp: executeClaimed_def wiring Let_def w2_def quiet split: sum.splits)
    ultimately show ?thesis using executor_changes [OF i2(1) ex] i2 by simp
  qed
qed

lemma approve_changes:
  assumes inv: "iinv w" "ainv w" and step: "Approve asvc c i actor f w = (r, w')"
  shows "incident_changes (istored w, ijournal w) (istored w', ijournal w')"
proof -
  obtain x w1 where cas: "ar_TransitionStatus arepo c i ApprovalPending ApprovalApproved
      (set_decider actor (clk f 1)) (clk f 0) w = (x, w1)" by force
  note fr1 = cas_frames [OF inv(2) cas, simplified]
  show ?thesis
  proof (cases x)
    case (Inl e)
    with step cas fr1 show ?thesis by (auto simp: Approve_def wiring)
  next
    case (Inr a)
    define w2 where "w2 = as_publish asvc (ap_RunID a) ''action.approved'' (approval_event a)
        (as_count asvc (ApprovalsTotal (ap_Action a) ApprovalApproved) w1)"
    have i2: "iinv w2" "ainv w2" "istored w2 = istored w" "ijournal w2 = ijournal w"
      using fr1 inv by (simp_all add: w2_def quiet)
    obtain y w3 where mv: "moveIncident asvc c a StatusMitigating (later 2 0 f) w2 = (y, w3)" by force
    note fr3 = move_frames [OF i2(1,2) mv] and ch = move_changes [OF i2(1) mv]
    show ?thesis
    proof (cases y)
      case (Some err)
      obtain e where "expire_approval asvc c a ApprovalApproved err (later 6 2 f) w3 = (e, w')"
        using step cas Inr mv Some by (auto simp: Approve_def wiring Let_def w2_def split: prod.splits)
      with expire_view fr3 ch i2 show ?thesis by metis
    next
      case None
      have "executeClaimed asvc execute c a (later 6 2 f) w3 = (r, w')"
        using step cas Inr mv None by (auto simp: Approve_def wiring Let_def w2_def)
      with execute_changes fr3 ch i2 show ?thesis by (metis rtranclp_trans)
    qed
  qed
qed

lemma reject_changes:
  assumes inv: "iinv w" "ainv w" and step: "Reject asvc c i actor f w = (r, w')"
  shows "incident_changes (istored w, ijournal w) (istored w', ijournal w')"
proof -
  obtain x w1 where cas: "ar_TransitionStatus arepo c i ApprovalPending ApprovalRejected
      (set_decider actor (clk f 1)) (clk f 0) w = (x, w1)" by force
  note fr1 = cas_frames [OF inv(2) cas, simplified]
  show ?thesis
  proof (cases x)
    case (Inl e)
    with step cas fr1 show ?thesis by (auto simp: Reject_def wiring)
  next
    case (Inr a)
    obtain y w3 where mv: "moveIncident asvc c a StatusFailed (later 2 0 f)
        (as_count asvc (ApprovalsTotal (ap_Action a) ApprovalRejected) w1) = (y, w3)" by force
    have "istored w' = istored w3 \<and> ijournal w' = ijournal w3"
      using step cas Inr mv by (auto simp: Reject_def wiring quiet split: option.splits)
    with move_changes [OF _ mv] fr1 inv show ?thesis by (simp add: quiet)
  qed
qed

lemma request_changes:
  assumes inv: "iinv w" "ainv w" and step: "Request asvc c runID callID action args reason f w = (r, w')"
  shows "incident_changes (istored w, ijournal w) (istored w', ijournal w')"
proof (cases "resolveIncidentID asvc c runID w")
  case (Inl e)
  with step show ?thesis by (auto simp: Request_def)
next
  case res: (Inr inc)
  let ?a = "new_approval inc runID callID action args reason f"
  obtain x w1 where ins: "ar_Create arepo c ?a w = (x, w1)" by force
  have "aframe w1 = aframe w" "ainv w1"
    using acreate_ok [OF inv(2)] acreate_err [OF inv(2)] ins by (cases x; auto)+
  with apart_approvals [of w1 w] inv have fr1: "istored w1 = istored w" "ijournal w1 = ijournal w" "iinv w1" "ainv w1"
    by simp_all
  show ?thesis
  proof (cases x)
    case (Some e)
    with step res ins fr1 show ?thesis by (auto simp: Request_def wiring)
  next
    case made: None
    define w2 where "w2 = as_count asvc (ApprovalsTotal (ap_Action ?a) ApprovalPending) w1"
    have i2: "iinv w2" "ainv w2" "istored w2 = istored w" "ijournal w2 = ijournal w"
      using fr1 by (simp_all add: w2_def quiet)
    obtain y w3 where mv: "moveIncident asvc c ?a StatusWaitingApproval (later 2 1 f) w2 = (y, w3)" by force
    note fr3 = move_frames [OF i2(1,2) mv] and ch = move_changes [OF i2(1) mv]
    show ?thesis
    proof (cases y)
      case None
      with step res ins made mv have "istored w' = istored w3" "ijournal w' = ijournal w3"
        by (auto simp: Request_def wiring Let_def w2_def quiet)
      with ch i2 show ?thesis by simp
    next
      case (Some err)
      obtain e where "expire_approval asvc c ?a ApprovalPending err (later 6 3 f) w3 = (e, w')"
        using step res ins made mv Some
        by (auto simp: Request_def wiring Let_def w2_def split: if_splits prod.splits)
      with expire_view fr3 ch i2 show ?thesis by metis
    qed
  qed
qed

text \<open>A claim is tied to the incident: when \<open>Approve\<close> starts the executor, the incident was waiting for
  approval, and from then on it is past that stage.\<close>

lemma approve_claims:
  assumes inv: "iinv w" "ainv w" and step: "Approve asvc c i actor f w = (r, w')"
    and before: "astored w i = Some a" "ap_Status a = ApprovalPending" "ap_IncidentID a \<noteq> []"
    and after: "astored w' i = Some b" "claimed b"
  shows "\<exists>x y. istored w (ap_IncidentID a) = Some x \<and> inc_Status x = StatusWaitingApproval
    \<and> istored w' (ap_IncidentID a) = Some y \<and> 3 \<le> stage (inc_Status y)"
proof -
  obtain x w1 where cas: "ar_TransitionStatus arepo c i ApprovalPending ApprovalApproved
      (set_decider actor (clk f 1)) (clk f 0) w = (x, w1)" by force
  note fr1 = cas_frames [OF inv(2) cas, simplified]
  from inv(2) cas show ?thesis
  proof (rule cas_cases)
    fix e assume "x = Inl e" "astored w1 = astored w"
    with step cas have "astored w' = astored w" by (auto simp: Approve_def wiring)
    with before after show ?thesis by (auto simp: claimed_def)
  next
    fix cur :: approval
    let ?a = "set_decider actor (clk f 1) (cur\<lparr>ap_Status := ApprovalApproved, ap_UpdatedAt := clk f 0\<rparr>)"
    assume cur: "astored w i = Some cur" "ap_Status cur = ApprovalPending" "x = Inr ?a"
      "astored w1 = (astored w)(i \<mapsto> ?a)" "advanced (astored w) i (astored w1)"
    have id: "ap_ID ?a = i" and same: "cur = a" using akey [OF inv(2) cur(1)] cur(1) before(1) by simp_all
    define w2 where "w2 = as_publish asvc (ap_RunID ?a) ''action.approved'' (approval_event ?a)
        (as_count asvc (ApprovalsTotal (ap_Action ?a) ApprovalApproved) w1)"
    have i2: "iinv w2" "ainv w2" "astored w2 = astored w1" "istored w2 = istored w"
      using fr1 inv by (simp_all add: w2_def quiet)
    obtain y w3 where mv: "moveIncident asvc c ?a StatusMitigating (later 2 0 f) w2 = (y, w3)" by force
    note fr3 = move_frames [OF i2(1,2) mv]
    show ?thesis
    proof (cases y)
      case (Some err)
      obtain e where ex: "expire_approval asvc c ?a ApprovalApproved err (later 6 2 f) w3 = (e, w')"
        using step cas cur(3) mv Some by (auto simp: Approve_def wiring Let_def w2_def split: prod.splits)
      from expire_exact [OF _ ex expire_approved] fr3 i2 cur id after show ?thesis
        by (auto simp: claimed_def)
    next
      case None
      with mv have mv': "moveIncident asvc c ?a StatusMitigating (later 2 0 f) w2 = (None, w3)" by simp
      have nonempty: "ap_IncidentID ?a \<noteq> []" using before(3) same by simp
      have run: "executeClaimed asvc execute c ?a (later 6 2 f) w3 = (r, w')"
        using step cas cur(3) mv None by (auto simp: Approve_def wiring Let_def w2_def)
      from move_claims [OF i2(1) mv' nonempty] same i2(4) obtain z where
        z: "istored w (ap_IncidentID a) = Some z" "inc_Status z = StatusWaitingApproval"
        by (auto simp: CanTransition_moves elim: moves_to_mitigating)
      from move_target [OF i2(1) mv' nonempty] same obtain m where
        m: "istored w3 (ap_IncidentID a) = Some m" "inc_Status m = StatusMitigating" by auto
      from changes_keep [OF execute_changes [OF _ _ run], of "ap_IncidentID a" m] fr3 m z show ?thesis by auto
    qed
  qed (auto intro: approval_moves.intros)
qed

end

end
