(* ===== verification/Approval_Repo.thy ===== *)
theory Approval_Repo
  imports Repo_Interface "HOL-Library.Char_ord" "HOL-Library.List_Lexorder" "HOL-Library.Product_Lexorder"
begin

text \<open>
  \<open>internal/incident/repository/approval_memory.go\<close>: the in-memory approval repository. The
  compare-and-set \<open>TransitionStatus\<close> is the only way to change a status, the bulk expiry of an
  incident's pending approvals apart.
\<close>

record mem_approvals =
  ma_items :: "(string \<times> approval) list"

definition NewMemoryApproval :: mem_approvals where
  "NewMemoryApproval = \<lparr>ma_items = []\<rparr>"

section \<open>Operations\<close>

definition mema_Create :: "ctx \<Rightarrow> approval \<Rightarrow> mem_approvals \<Rightarrow> gerror option \<times> mem_approvals" where
  "mema_Create c a m =
     (case map_of (ma_items m) (ap_ID a) of
        Some _ \<Rightarrow> (Some (sentinel_err ErrConflict), m)
      | None \<Rightarrow> (None, m\<lparr>ma_items := AList.update (ap_ID a) a (ma_items m)\<rparr>))"

definition mema_Get :: "ctx \<Rightarrow> string \<Rightarrow> mem_approvals \<Rightarrow> gerror + approval" where
  "mema_Get c i m =
     (case map_of (ma_items m) i of None \<Rightarrow> Inl (sentinel_err ErrNotFound) | Some a \<Rightarrow> Inr a)"

text \<open>\<open>lessByCreatedAtThenID\<close> compares the keys lexicographically; ids are compared bytewise.\<close>

definition created_then_id :: "approval \<Rightarrow> time \<times> string" where
  "created_then_id a = (ap_CreatedAt a, ap_ID a)"

definition lessByCreatedAtThenID :: "approval \<Rightarrow> approval \<Rightarrow> bool" where
  "lessByCreatedAtThenID a b =
     (if ap_CreatedAt a \<noteq> ap_CreatedAt b then ap_CreatedAt a < ap_CreatedAt b else ap_ID a < ap_ID b)"

definition mema_ListByRun :: "ctx \<Rightarrow> string \<Rightarrow> mem_approvals \<Rightarrow> gerror + approval list" where
  "mema_ListByRun c runID m =
     Inr (sort_key created_then_id (filter (\<lambda>a. ap_RunID a = runID) (map snd (ma_items m))))"

definition mema_ListPending :: "ctx \<Rightarrow> mem_approvals \<Rightarrow> gerror + approval list" where
  "mema_ListPending c m =
     Inr (sort_key created_then_id (filter (\<lambda>a. ap_Status a = ApprovalPending) (map snd (ma_items m))))"

definition mema_TransitionStatus ::
  "ctx \<Rightarrow> string \<Rightarrow> approval_status \<Rightarrow> approval_status \<Rightarrow> (approval \<Rightarrow> approval) \<Rightarrow> time
    \<Rightarrow> mem_approvals \<Rightarrow> (gerror + approval) \<times> mem_approvals" where
  "mema_TransitionStatus c i frm to mutate now m =
     (case map_of (ma_items m) i of
        None \<Rightarrow> (Inl (sentinel_err ErrNotFound), m)
      | Some cur \<Rightarrow>
          if ap_Status cur \<noteq> frm then (Inl (sentinel_err ErrConflict), m)
          else (let next = mutate (cur\<lparr>ap_Status := to, ap_UpdatedAt := now\<rparr>)
                in (Inr next, m\<lparr>ma_items := AList.update i next (ma_items m)\<rparr>)))"

text \<open>The loop of \<open>ExpirePendingByIncident\<close>; the clock is read once for each record that expires.\<close>

definition expire_one :: "time \<Rightarrow> approval \<Rightarrow> approval" where
  "expire_one now a =
     a\<lparr>ap_Status := ApprovalExpired, ap_Error := ''incident resolved externally'', ap_UpdatedAt := now\<rparr>"

fun expire_loop :: "string \<Rightarrow> fresh \<Rightarrow> nat \<Rightarrow> (string \<times> approval) list \<Rightarrow> nat \<times> (string \<times> approval) list" where
  "expire_loop incidentID f expired [] = (expired, [])"
| "expire_loop incidentID f expired ((k, a) # rest) =
     (if incidentID = '''' \<or> ap_IncidentID a \<noteq> incidentID \<or> ap_Status a \<noteq> ApprovalPending
      then (case expire_loop incidentID f expired rest of (n, al) \<Rightarrow> (n, (k, a) # al))
      else (case expire_loop incidentID f (Suc expired) rest of
              (n, al) \<Rightarrow> (n, (k, expire_one (clk f expired) a) # al)))"

definition mema_ExpirePendingByIncident ::
  "ctx \<Rightarrow> string \<Rightarrow> fresh \<Rightarrow> mem_approvals \<Rightarrow> (gerror + int) \<times> mem_approvals" where
  "mema_ExpirePendingByIncident c incidentID f m =
     (case expire_loop incidentID f 0 (ma_items m) of (n, al) \<Rightarrow> (Inr (int n), m\<lparr>ma_items := al\<rparr>))"

definition memory_approval_repo :: "mem_approvals approval_repo" where
  "memory_approval_repo = \<lparr>ar_Create = mema_Create, ar_Get = mema_Get, ar_ListByRun = mema_ListByRun,
     ar_ListPending = mema_ListPending, ar_TransitionStatus = mema_TransitionStatus,
     ar_ExpirePendingByIncident = mema_ExpirePendingByIncident\<rparr>"

section \<open>The contract\<close>

definition mema_stored :: "mem_approvals \<Rightarrow> string \<Rightarrow> approval option" where
  "mema_stored m = map_of (ma_items m)"

definition mema_inv :: "mem_approvals \<Rightarrow> bool" where
  "mema_inv m = (distinct (map fst (ma_items m)) \<and> (\<forall>i a. mema_stored m i = Some a \<longrightarrow> ap_ID a = i))"

lemma NewMemoryApproval_inv: "mema_inv NewMemoryApproval"
  by (simp add: mema_inv_def NewMemoryApproval_def mema_stored_def)

lemma created_then_id_less: "created_then_id a < created_then_id b \<longleftrightarrow> lessByCreatedAtThenID a b"
  by (auto simp: created_then_id_def lessByCreatedAtThenID_def less_prod_def)

lemma expire_one_simps [simp]:
  "ap_ID (expire_one t a) = ap_ID a" "ap_Status (expire_one t a) = ApprovalExpired"
  "ap_IncidentID (expire_one t a) = ap_IncidentID a" "ap_RunID (expire_one t a) = ap_RunID a"
  by (simp_all add: expire_one_def)

lemma expire_loop_keys: "map fst (snd (expire_loop inc f n al)) = map fst al"
  by (induction inc f n al rule: expire_loop.induct) (auto split: prod.splits)

lemma expire_loop_lookup:
  "map_of (snd (expire_loop inc f n al)) i = None \<longleftrightarrow> map_of al i = None"
  by (metis expire_loop_keys map_of_eq_None_iff set_map)

lemma expire_loop_entry:
  "map_of al i = Some a \<Longrightarrow> \<exists>t. map_of (snd (expire_loop inc f n al)) i =
     Some (if inc \<noteq> '''' \<and> ap_IncidentID a = inc \<and> ap_Status a = ApprovalPending
           then expire_one t a else a)"
  by (induction inc f n al rule: expire_loop.induct) (auto split: prod.splits if_splits)

lemma expire_loop_count:
  "fst (expire_loop inc f n al) = n + length (filter (\<lambda>(k, a). inc \<noteq> '''' \<and> ap_IncidentID a = inc
      \<and> ap_Status a = ApprovalPending) al)"
  by (induction inc f n al rule: expire_loop.induct) (auto split: prod.splits)

lemma expire_keeps_inv:
  assumes "mema_inv m"
  shows "mema_inv (m\<lparr>ma_items := snd (expire_loop inc f n (ma_items m))\<rparr>)"
  unfolding mema_inv_def
proof (intro conjI allI impI)
  show "distinct (map fst (ma_items (m\<lparr>ma_items := snd (expire_loop inc f n (ma_items m))\<rparr>)))"
    using assms by (simp add: mema_inv_def expire_loop_keys)
  fix i a
  assume "mema_stored (m\<lparr>ma_items := snd (expire_loop inc f n (ma_items m))\<rparr>) i = Some a"
  then have new: "map_of (snd (expire_loop inc f n (ma_items m))) i = Some a"
    by (simp add: mema_stored_def)
  then obtain b where b: "map_of (ma_items m) i = Some b"
    using expire_loop_lookup by (metis not_None_eq)
  with assms have "ap_ID b = i" by (simp add: mema_inv_def mema_stored_def)
  with expire_loop_entry [OF b, of inc f n] new show "ap_ID a = i"
    by (auto split: if_splits)
qed

lemma mema_put_inv:
  assumes "mema_inv m" and "ap_ID a = i"
  shows "mema_inv (m\<lparr>ma_items := AList.update i a (ma_items m)\<rparr>)"
proof -
  have "distinct (map fst (AList.update i a (ma_items m)))"
    using assms(1) by (simp add: mema_inv_def)
  moreover have "\<forall>k x. ((mema_stored m)(i \<mapsto> a)) k = Some x \<longrightarrow> ap_ID x = k"
    using assms by (simp add: mema_inv_def)
  ultimately show ?thesis
    unfolding mema_inv_def mema_stored_def by (simp del: map_of_eq_Some_iff)
qed

interpretation mema: approval_repository memory_approval_repo mema_stored mema_inv "\<lambda>_. ()"
proof (unfold_locales, goal_cases)
  case (1 w i a) then show ?case by (simp add: mema_inv_def)
next
  case (2 w c i a) then show ?case
    by (simp add: memory_approval_repo_def mema_Get_def mema_stored_def split: option.splits)
next
  case (3 w c a w') then show ?case
    by (auto simp: memory_approval_repo_def mema_Create_def mema_stored_def mema_put_inv split: option.splits)
next
  case (4 w c a e w') then show ?case
    by (auto simp: memory_approval_repo_def mema_Create_def split: option.splits)
next
  case (5 w c i frm to m now a w')
  from 5(1) have keys: "\<And>cur. map_of (ma_items w) i = Some cur \<Longrightarrow> ap_ID cur = i"
    by (simp add: mema_inv_def mema_stored_def)
  with 5 show ?case
    by (auto simp: memory_approval_repo_def mema_TransitionStatus_def mema_stored_def mema_put_inv Let_def
        split: option.splits if_splits)
next
  case (6 w c i frm to m now e w') then show ?case
    by (auto simp: memory_approval_repo_def mema_TransitionStatus_def Let_def split: option.splits if_splits)
next
  case (7 w c i frm to m now e w' cur) then show ?case
    by (auto simp: memory_approval_repo_def mema_TransitionStatus_def mema_stored_def Let_def
        split: option.splits if_splits)
next
  case (8 w c inc f n w' i a)
  then have "w' = w\<lparr>ma_items := snd (expire_loop inc f 0 (ma_items w))\<rparr>"
    by (auto simp: memory_approval_repo_def mema_ExpirePendingByIncident_def split: prod.splits)
  with expire_loop_entry [of "ma_items w" i a inc f 0] 8 show ?case
    by (auto simp: mema_stored_def expire_one_def) blast
next
  case (9 w c inc f r w' i)
  then have "w' = w\<lparr>ma_items := snd (expire_loop inc f 0 (ma_items w))\<rparr>"
    by (auto simp: memory_approval_repo_def mema_ExpirePendingByIncident_def split: prod.splits)
  with 9 show ?case by (simp add: mema_stored_def expire_loop_lookup)
next
  case (10 w c inc f r w')
  then have "w' = w\<lparr>ma_items := snd (expire_loop inc f 0 (ma_items w))\<rparr>"
    by (auto simp: memory_approval_repo_def mema_ExpirePendingByIncident_def split: prod.splits)
  with 10 show ?case by (simp add: expire_keeps_inv)
next
  case (11 w c inc f e w') then show ?case
    by (simp add: memory_approval_repo_def mema_ExpirePendingByIncident_def split: prod.splits)
qed

end
