(* ===== verification/Memory_Repo.thy ===== *)
theory Memory_Repo
  imports Repo_Interface
begin

text \<open>
  \<open>internal/incident/repository/memory.go\<close> and \<open>event_memory.go\<close>: the in-memory
  incident repository with its audit events, every exported operation and the helpers it is
  built from. The mutex makes each operation one atomic step, so an operation is one function
  from the store to the store.

  A Go map is an association list with distinct keys; the order of the list stands for the order
  in which a \<open>range\<close> visits the map, which Go leaves open. That the answers do not depend on
  it is part of what is proved.
\<close>

record mem_incidents =
  mi_items :: "(string \<times> incident) list"
  mi_events :: "(string \<times> incident_event list) list"

definition NewMemory :: mem_incidents where
  "NewMemory = \<lparr>mi_items = [], mi_events = []\<rparr>"

section \<open>Operations\<close>

text \<open>The loop over the stored incidents that looks for an open one with the same fingerprint.\<close>

fun active_clash :: "incident \<Rightarrow> (string \<times> incident) list \<Rightarrow> bool" where
  "active_clash inc [] = False"
| "active_clash inc ((k, existing) # rest) =
     (if inc_Fingerprint existing \<noteq> '''' \<and> inc_Fingerprint existing = inc_Fingerprint inc
         \<and> \<not> IsTerminal (inc_Status existing) then True
      else active_clash inc rest)"

definition checkCreateConflicts :: "mem_incidents \<Rightarrow> incident \<Rightarrow> gerror option" where
  "checkCreateConflicts m inc =
     (case map_of (mi_items m) (inc_ID inc) of
        Some _ \<Rightarrow> Some (sentinel_err ErrConflict)
      | None \<Rightarrow> if active_clash inc (mi_items m) then Some (sentinel_err ErrConflict) else None)"

definition createLocked :: "incident \<Rightarrow> mem_incidents \<Rightarrow> gerror option \<times> mem_incidents" where
  "createLocked inc m =
     (case map_of (mi_items m) (inc_ID inc) of
        Some _ \<Rightarrow> (Some (sentinel_err ErrConflict), m)
      | None \<Rightarrow>
          if active_clash inc (mi_items m) then (Some (sentinel_err ErrConflict), m)
          else (None, m\<lparr>mi_items := AList.update (inc_ID inc) inc (mi_items m)\<rparr>))"

definition checkUpdateConflicts :: "mem_incidents \<Rightarrow> incident \<Rightarrow> gerror option" where
  "checkUpdateConflicts m inc =
     (case map_of (mi_items m) (inc_ID inc) of
        None \<Rightarrow> Some (sentinel_err ErrNotFound)
      | Some cur \<Rightarrow> if inc_Version cur \<noteq> inc_Version inc
                    then Some (sentinel_err ErrConcurrentModification) else None)"

definition updateLocked :: "incident \<Rightarrow> mem_incidents \<Rightarrow> gerror option \<times> mem_incidents" where
  "updateLocked inc m =
     (case map_of (mi_items m) (inc_ID inc) of
        None \<Rightarrow> (Some (sentinel_err ErrNotFound), m)
      | Some cur \<Rightarrow>
          if inc_Version cur \<noteq> inc_Version inc then (Some (sentinel_err ErrConcurrentModification), m)
          else (None, m\<lparr>mi_items :=
                 AList.update (inc_ID inc) (inc\<lparr>inc_Version := inc_Version inc + 1\<rparr>) (mi_items m)\<rparr>))"

text \<open>Event ids are unique over all incidents, like the primary key in PostgreSQL.\<close>

definition checkEventConflict :: "mem_incidents \<Rightarrow> incident_event option \<Rightarrow> gerror option" where
  "checkEventConflict m ev =
     (case ev of None \<Rightarrow> None
      | Some e \<Rightarrow> if list_ex (\<lambda>(_, evs). list_ex (\<lambda>x. ev_ID x = ev_ID e) evs) (mi_events m)
                  then Some (sentinel_err ErrConflict) else None)"

definition stored_events :: "mem_incidents \<Rightarrow> string \<Rightarrow> incident_event list" where
  "stored_events m i = (case map_of (mi_events m) i of None \<Rightarrow> [] | Some evs \<Rightarrow> evs)"

definition addEventLocked :: "incident_event option \<Rightarrow> mem_incidents \<Rightarrow> mem_incidents" where
  "addEventLocked ev m =
     (case ev of None \<Rightarrow> m
      | Some e \<Rightarrow> m\<lparr>mi_events :=
          AList.update (ev_IncidentID e) (stored_events m (ev_IncidentID e) @ [e]) (mi_events m)\<rparr>)"

definition mem_CreateWithEvent ::
  "ctx \<Rightarrow> incident \<Rightarrow> incident_event option \<Rightarrow> mem_incidents \<Rightarrow> gerror option \<times> mem_incidents" where
  "mem_CreateWithEvent c inc ev m =
     (case checkCreateConflicts m inc of Some e \<Rightarrow> (Some e, m)
      | None \<Rightarrow>
        (case checkEventConflict m ev of Some e \<Rightarrow> (Some e, m)
         | None \<Rightarrow>
           (case createLocked inc m of
              (Some e, m') \<Rightarrow> (Some e, m')
            | (None, m') \<Rightarrow> (None, addEventLocked ev m'))))"

definition mem_Create :: "ctx \<Rightarrow> incident \<Rightarrow> mem_incidents \<Rightarrow> gerror option \<times> mem_incidents" where
  "mem_Create c inc m = mem_CreateWithEvent c inc None m"

definition mem_UpdateWithEvent ::
  "ctx \<Rightarrow> incident \<Rightarrow> incident_event option \<Rightarrow> mem_incidents \<Rightarrow> (gerror + incident) \<times> mem_incidents" where
  "mem_UpdateWithEvent c inc ev m =
     (case checkUpdateConflicts m inc of Some e \<Rightarrow> (Inl e, m)
      | None \<Rightarrow>
        (case checkEventConflict m ev of Some e \<Rightarrow> (Inl e, m)
         | None \<Rightarrow>
           (case updateLocked inc m of
              (Some e, m') \<Rightarrow> (Inl e, m')
            | (None, m') \<Rightarrow> (Inr (bump_version inc), addEventLocked ev m'))))"

definition mem_Update :: "ctx \<Rightarrow> incident \<Rightarrow> mem_incidents \<Rightarrow> (gerror + incident) \<times> mem_incidents" where
  "mem_Update c inc m = mem_UpdateWithEvent c inc None m"

text \<open>The loop over the new events: each against the stored ones and against those before it.\<close>

fun check_new_events :: "mem_incidents \<Rightarrow> string list \<Rightarrow> incident_event option list \<Rightarrow> gerror option" where
  "check_new_events m seen [] = None"
| "check_new_events m seen (ev # evs) =
     (case checkEventConflict m ev of Some e \<Rightarrow> Some e
      | None \<Rightarrow>
        (case ev of
           None \<Rightarrow> check_new_events m seen evs
         | Some x \<Rightarrow> if ev_ID x \<in> set seen then Some (sentinel_err ErrConflict)
                      else check_new_events m (ev_ID x # seen) evs))"

definition mem_UpdateWithEvents ::
  "ctx \<Rightarrow> incident \<Rightarrow> incident_event option list \<Rightarrow> mem_incidents \<Rightarrow> (gerror + incident) \<times> mem_incidents" where
  "mem_UpdateWithEvents c inc evs m =
     (case checkUpdateConflicts m inc of Some e \<Rightarrow> (Inl e, m)
      | None \<Rightarrow>
        (case check_new_events m [] evs of Some e \<Rightarrow> (Inl e, m)
         | None \<Rightarrow>
           (case updateLocked inc m of
              (Some e, m') \<Rightarrow> (Inl e, m')
            | (None, m') \<Rightarrow> (Inr (bump_version inc), fold addEventLocked evs m'))))"

definition mem_GetByID :: "ctx \<Rightarrow> string \<Rightarrow> mem_incidents \<Rightarrow> gerror + incident" where
  "mem_GetByID c i m =
     (case map_of (mi_items m) i of None \<Rightarrow> Inl (sentinel_err ErrNotFound) | Some inc \<Rightarrow> Inr inc)"

text \<open>The search loops: keep the first incident seen with the greatest creation time among those
  that qualify.\<close>

fun latest_loop :: "(incident \<Rightarrow> bool) \<Rightarrow> incident option \<Rightarrow> (string \<times> incident) list \<Rightarrow> incident option" where
  "latest_loop p found [] = found"
| "latest_loop p found ((k, inc) # rest) =
     (if \<not> p inc then latest_loop p found rest
      else (case found of
              None \<Rightarrow> latest_loop p (Some inc) rest
            | Some f \<Rightarrow> if inc_CreatedAt inc > inc_CreatedAt f then latest_loop p (Some inc) rest
                        else latest_loop p found rest))"

definition found_or_err :: "incident option \<Rightarrow> gerror + incident" where
  "found_or_err r = (case r of None \<Rightarrow> Inl (sentinel_err ErrNotFound) | Some inc \<Rightarrow> Inr inc)"

definition mem_GetByFingerprint :: "ctx \<Rightarrow> string \<Rightarrow> mem_incidents \<Rightarrow> gerror + incident" where
  "mem_GetByFingerprint c fp m =
     found_or_err (latest_loop (\<lambda>inc. inc_Fingerprint inc = fp) None (mi_items m))"

definition mem_GetActiveByFingerprint :: "ctx \<Rightarrow> string \<Rightarrow> mem_incidents \<Rightarrow> gerror + incident" where
  "mem_GetActiveByFingerprint c fp m =
     found_or_err (latest_loop (\<lambda>inc. inc_Fingerprint inc = fp \<and> \<not> IsTerminal (inc_Status inc)) None (mi_items m))"

text \<open>\<open>List\<close>: filter, newest first, then offset and limit. \<open>sort.Slice\<close> leaves the order of
  equal creation times open; here it is the order of the map.\<close>

definition filter_matches :: "list_filter \<Rightarrow> incident \<Rightarrow> bool" where
  "filter_matches f inc =
     (\<not> (lf_Service f \<noteq> '''' \<and> inc_Service inc \<noteq> lf_Service f)
      \<and> \<not> (lf_Status f \<noteq> '''' \<and> status_string (inc_Status inc) \<noteq> lf_Status f))"

definition page :: "int \<Rightarrow> int \<Rightarrow> 'a list \<Rightarrow> 'a list" where
  "page offset limit xs =
     (if offset > 0 \<and> offset \<ge> int (length xs) then []
      else (let ys = (if offset > 0 then drop (nat offset) xs else xs)
            in if limit > 0 \<and> limit < int (length ys) then take (nat limit) ys else ys))"

definition mem_List :: "ctx \<Rightarrow> list_filter \<Rightarrow> mem_incidents \<Rightarrow> gerror + incident list" where
  "mem_List c f m =
     (let out = filter (filter_matches f) (map snd (mi_items m));
          sorted = sort_key (\<lambda>inc. - inc_CreatedAt inc) out
      in Inr (page (lf_Offset f) (lf_Limit f) sorted))"

definition mem_ListEvents :: "ctx \<Rightarrow> string \<Rightarrow> mem_incidents \<Rightarrow> gerror + incident_event list" where
  "mem_ListEvents c i m = Inr (stored_events m i)"

definition memory_repo :: "mem_incidents incident_repo" where
  "memory_repo = \<lparr>ir_CreateWithEvent = mem_CreateWithEvent, ir_GetByID = mem_GetByID,
     ir_GetByFingerprint = mem_GetByFingerprint, ir_GetActiveByFingerprint = mem_GetActiveByFingerprint,
     ir_List = mem_List, ir_UpdateWithEvent = mem_UpdateWithEvent,
     ir_UpdateWithEvents = mem_UpdateWithEvents, ir_ListEvents = mem_ListEvents\<rparr>"

section \<open>The invariant and the facts on single operations\<close>

definition mem_stored :: "mem_incidents \<Rightarrow> string \<Rightarrow> incident option" where
  "mem_stored m = map_of (mi_items m)"

definition open_with :: "string \<Rightarrow> incident \<Rightarrow> bool" where
  "open_with fp inc = (inc_Fingerprint inc = fp \<and> \<not> IsTerminal (inc_Status inc))"

definition unique_open :: "(string \<Rightarrow> incident option) \<Rightarrow> bool" where
  "unique_open t = (\<forall>fp i j inc inc'. fp \<noteq> '''' \<longrightarrow> t i = Some inc \<longrightarrow> t j = Some inc'
     \<longrightarrow> open_with fp inc \<longrightarrow> open_with fp inc' \<longrightarrow> i = j)"

definition mem_inv :: "mem_incidents \<Rightarrow> bool" where
  "mem_inv m = (distinct (map fst (mi_items m)) \<and> distinct (map fst (mi_events m))
     \<and> (\<forall>i inc. mem_stored m i = Some inc \<longrightarrow> inc_ID inc = i) \<and> unique_open (mem_stored m))"

lemma NewMemory_inv: "mem_inv NewMemory"
  by (simp add: mem_inv_def NewMemory_def mem_stored_def unique_open_def)

lemma active_clash_iff:
  "active_clash inc al \<longleftrightarrow>
    (\<exists>existing \<in> snd ` set al. inc_Fingerprint inc \<noteq> '''' \<and> open_with (inc_Fingerprint inc) existing)"
  by (induction inc al rule: active_clash.induct) (auto simp: open_with_def)

lemma stored_events_add:
  "stored_events (addEventLocked ev m) i = stored_events m i @ events_of i (some_events [ev])"
  by (cases ev) (auto simp: addEventLocked_def stored_events_def events_of_def split: option.splits)

lemma addEventLocked_items [simp]: "mi_items (addEventLocked ev m) = mi_items m"
  by (cases ev) (simp_all add: addEventLocked_def)

lemma addEventLocked_distinct:
  "distinct (map fst (mi_events m)) \<Longrightarrow> distinct (map fst (mi_events (addEventLocked ev m)))"
  by (cases ev) (simp_all add: addEventLocked_def distinct_update)

lemma fold_addEvent:
  "mi_items (fold addEventLocked evs m) = mi_items m
   \<and> (distinct (map fst (mi_events m)) \<longrightarrow> distinct (map fst (mi_events (fold addEventLocked evs m))))
   \<and> stored_events (fold addEventLocked evs m) i = stored_events m i @ events_of i (some_events evs)"
proof (induction evs arbitrary: m)
  case Nil
  then show ?case by (simp add: events_of_def)
next
  case (Cons ev evs)
  show ?case
    using Cons.IH [of "addEventLocked ev m"]
    by (cases ev) (auto simp: addEventLocked_distinct stored_events_add events_of_def)
qed

text \<open>The search loop returns a qualifying incident with the greatest creation time, or nothing
  when none qualifies.\<close>

lemma latest_loop_sound:
  "latest_loop p found al = Some r \<Longrightarrow> found = Some r \<or> (r \<in> snd ` set al \<and> p r)"
  by (induction p found al rule: latest_loop.induct) (auto split: if_splits option.splits)

lemma latest_loop_max:
  "latest_loop p found al = Some r \<Longrightarrow>
    (\<forall>f. found = Some f \<longrightarrow> inc_CreatedAt f \<le> inc_CreatedAt r)
    \<and> (\<forall>x \<in> snd ` set al. p x \<longrightarrow> inc_CreatedAt x \<le> inc_CreatedAt r)"
  by (induction p found al rule: latest_loop.induct) (fastforce split: if_splits option.splits)+

lemma latest_loop_none:
  "latest_loop p found al = None \<longleftrightarrow> found = None \<and> (\<forall>x \<in> snd ` set al. \<not> p x)"
  by (induction p found al rule: latest_loop.induct) (auto split: option.splits)

section \<open>The contract\<close>

lemmas mem_ops = mem_CreateWithEvent_def mem_UpdateWithEvent_def mem_UpdateWithEvents_def
  checkCreateConflicts_def checkUpdateConflicts_def createLocked_def updateLocked_def

lemma mem_stored_items [simp]: "mem_stored (m\<lparr>mi_items := al\<rparr>) = map_of al"
  by (simp add: mem_stored_def)

lemma stored_events_items [simp]: "stored_events (m\<lparr>mi_items := al\<rparr>) = stored_events m"
  by (simp add: stored_events_def fun_eq_iff)

lemma mem_inv_add:
  assumes "mem_inv m" and "map_of (mi_items m) (inc_ID inc) = None" and "\<not> active_clash inc (mi_items m)"
  shows "mem_inv (m\<lparr>mi_items := AList.update (inc_ID inc) inc (mi_items m)\<rparr>)"
proof -
  have dist: "distinct (map fst (mi_items m))" using assms(1) by (simp add: mem_inv_def)
  have noclash: "\<not> open_with (inc_Fingerprint inc) x"
    if "map_of (mi_items m) k = Some x" "inc_Fingerprint inc \<noteq> ''''" for k x
    using assms(3) that dist by (force simp: active_clash_iff snd_set_map_of)
  then have "unique_open (map_of (AList.update (inc_ID inc) inc (mi_items m)))"
    using assms(1) by (fastforce simp: unique_open_def mem_inv_def mem_stored_def open_with_def)
  then show ?thesis using assms(1) by (auto simp: mem_inv_def mem_stored_def distinct_update)
qed

lemma mem_inv_put:
  assumes "mem_inv m" and cur: "map_of (mi_items m) (inc_ID inc) = Some cur"
    and "inc_Fingerprint inc = inc_Fingerprint cur"
    and "IsTerminal (inc_Status cur) \<longrightarrow> IsTerminal (inc_Status inc)"
  shows "mem_inv (m\<lparr>mi_items := AList.update (inc_ID inc) inc (mi_items m)\<rparr>)"
proof -
  have "unique_open ((map_of (mi_items m))(inc_ID inc \<mapsto> inc))"
    unfolding unique_open_def
  proof (intro allI impI)
    fix fp i j x y
    let ?t = "(map_of (mi_items m))(inc_ID inc \<mapsto> inc)"
    assume h: "fp \<noteq> ''''" "?t i = Some x" "?t j = Some y" "open_with fp x" "open_with fp y"
    have old: "\<exists>x'. map_of (mi_items m) k = Some x' \<and> open_with fp x'"
      if "?t k = Some z" "open_with fp z" for k z
      using that cur assms(3,4) by (cases "k = inc_ID inc") (auto simp: open_with_def)
    show "i = j"
      using old [OF h(2,4)] old [OF h(3,5)] assms(1) h(1)
      by (auto simp: mem_inv_def unique_open_def mem_stored_def)
  qed
  then show ?thesis using assms(1) by (auto simp: mem_inv_def mem_stored_def distinct_update)
qed

lemma mem_inv_events: "mem_inv m \<Longrightarrow> mem_inv (addEventLocked ev m)"
  by (simp add: mem_inv_def mem_stored_def addEventLocked_distinct)

lemma mem_inv_fold_events: "mem_inv m \<Longrightarrow> mem_inv (fold addEventLocked evs m)"
  by (induction evs arbitrary: m) (simp_all add: mem_inv_events)

lemma mem_update_cases:
  assumes "mem_UpdateWithEvents c inc evs m = (r, m')"
  obtains (failed) e where "r = Inl e" "m' = m"
  | (written) cur where "map_of (mi_items m) (inc_ID inc) = Some cur" "inc_Version cur = inc_Version inc"
      "r = Inr (bump_version inc)"
      "m' = fold addEventLocked evs
         (m\<lparr>mi_items := AList.update (inc_ID inc) (bump_version inc) (mi_items m)\<rparr>)"
proof (cases "map_of (mi_items m) (inc_ID inc)")
  case None
  with assms have "r = Inl (sentinel_err ErrNotFound)" "m' = m" by (simp_all add: mem_ops)
  with failed show ?thesis by blast
next
  case (Some cur)
  show ?thesis
  proof (cases "inc_Version cur = inc_Version inc")
    case True
    show ?thesis
    proof (cases "check_new_events m [] evs")
      case None
      with assms Some True written show ?thesis by (simp add: mem_ops bump_version_def)
    next
      case (Some e)
      with assms \<open>map_of _ _ = _\<close> True have "r = Inl e" "m' = m" by (simp_all add: mem_ops)
      with failed show ?thesis by blast
    qed
  next
    case False
    with assms Some have "r = Inl (sentinel_err ErrConcurrentModification)" "m' = m"
      by (simp_all add: mem_ops)
    with failed show ?thesis by blast
  qed
qed

lemma fold_addEvent_items [simp]: "mi_items (fold addEventLocked evs m) = mi_items m"
  by (simp add: fold_addEvent)

lemma fold_addEvent_stored [simp]:
  "mem_stored (fold addEventLocked evs m) = mem_stored m"
  "stored_events (fold addEventLocked evs m) = (\<lambda>i. stored_events m i @ events_of i (some_events evs))"
  by (simp_all add: mem_stored_def fold_addEvent fun_eq_iff)

lemma mem_update_one: "mem_UpdateWithEvent c inc ev m = mem_UpdateWithEvents c inc [ev] m"
  by (cases "checkEventConflict m ev"; cases ev)
     (simp_all add: mem_ops checkEventConflict_def split: option.splits)

lemma found_or_err_cases:
  "found_or_err r = Inr inc \<longleftrightarrow> r = Some inc"
  "(found_or_err r = Inl e \<and> errIs e ErrNotFound) \<longleftrightarrow> r = None \<and> e = sentinel_err ErrNotFound"
  by (auto simp: found_or_err_def split: option.splits)

lemma mem_latest_stored:
  assumes "mem_inv m" and "latest_loop p None (mi_items m) = Some inc"
  shows "mem_stored m (inc_ID inc) = Some inc \<and> p inc
    \<and> (\<forall>j x. mem_stored m j = Some x \<longrightarrow> p x \<longrightarrow> inc_CreatedAt x \<le> inc_CreatedAt inc)"
proof -
  from latest_loop_sound [OF assms(2)] have inc: "inc \<in> snd ` set (mi_items m)" "p inc"
    by simp_all
  with assms(1) have "mem_stored m (inc_ID inc) = Some inc"
    by (auto simp: mem_inv_def mem_stored_def snd_set_map_of)
  moreover have "inc_CreatedAt x \<le> inc_CreatedAt inc" if "mem_stored m j = Some x" "p x" for j x
  proof -
    from that(1) have "x \<in> snd ` set (mi_items m)"
      by (force simp: mem_stored_def dest: map_of_SomeD)
    with latest_loop_max [OF assms(2)] that(2) show ?thesis by blast
  qed
  ultimately show ?thesis using inc(2) by blast
qed

lemma mem_latest_none:
  assumes "mem_inv m" and "latest_loop p None (mi_items m) = None" and "mem_stored m i = Some inc"
  shows "\<not> p inc"
  using assms by (force simp: latest_loop_none mem_stored_def dest: map_of_SomeD)

interpretation mem: incident_repository memory_repo mem_stored stored_events mem_inv "\<lambda>_. ()"
proof (unfold_locales, goal_cases)
  case (1 w i inc) then show ?case by (simp add: mem_inv_def)
next
  case (2 w i inc j inc')
  then show ?case unfolding mem_inv_def unique_open_def open_with_def by metis
next
  case (3 w c i inc) then show ?case
    by (simp add: memory_repo_def mem_GetByID_def mem_stored_def split: option.splits)
next
  case (4 w c i e) then show ?case
    by (simp add: memory_repo_def mem_GetByID_def mem_stored_def split: option.splits)
next
  case (5 w c fp inc)
  then show ?case
    using mem_latest_stored [of w "\<lambda>inc. inc_Fingerprint inc = fp \<and> \<not> IsTerminal (inc_Status inc)" inc]
    by (simp add: memory_repo_def mem_GetActiveByFingerprint_def found_or_err_cases)
next
  case (6 w c fp e i inc)
  have "found_or_err (latest_loop (\<lambda>inc. inc_Fingerprint inc = fp \<and> \<not> IsTerminal (inc_Status inc)) None (mi_items w))
      = Inl e \<and> errIs e ErrNotFound"
    using 6 by (simp add: memory_repo_def mem_GetActiveByFingerprint_def)
  then have "\<not> (inc_Fingerprint inc = fp \<and> \<not> IsTerminal (inc_Status inc))"
    unfolding found_or_err_cases by (intro mem_latest_none [OF 6(1) _ 6(4)]) simp
  with 6 show ?case by simp
next
  case (7 w c fp inc)
  then show ?case
    using mem_latest_stored [of w "\<lambda>inc. inc_Fingerprint inc = fp" inc]
    by (simp add: memory_repo_def mem_GetByFingerprint_def found_or_err_cases)
next
  case (8 w c fp e i inc)
  have "found_or_err (latest_loop (\<lambda>inc. inc_Fingerprint inc = fp) None (mi_items w)) = Inl e \<and> errIs e ErrNotFound"
    using 8 by (simp add: memory_repo_def mem_GetByFingerprint_def)
  then show ?case
    unfolding found_or_err_cases
    using mem_latest_none [of w "\<lambda>inc. inc_Fingerprint inc = fp" i inc] 8 by simp
next
  case (9 w c inc ev w')
  then show ?case
    by (auto simp: memory_repo_def mem_ops mem_inv_events mem_inv_add mem_stored_def
        stored_events_add fun_eq_iff split: option.splits if_splits)
next
  case (10 w c inc ev e w')
  then show ?case
    by (auto simp: memory_repo_def mem_ops split: option.splits if_splits)
next
  case (11 w c inc evs inc' w')
  then have "mem_UpdateWithEvents c inc evs w = (Inr inc', w')" by (simp add: memory_repo_def)
  then show ?case
  proof (cases rule: mem_update_cases)
    case (written cur)
    have "mem_inv (w\<lparr>mi_items := AList.update (inc_ID inc) (bump_version inc) (mi_items w)\<rparr>)"
      if "same_identity cur inc" "IsTerminal (inc_Status cur) \<longrightarrow> IsTerminal (inc_Status inc)"
      using mem_inv_put [of w "bump_version inc" cur] 11(1) written(1) that
      by (simp add: same_identityD)
    with written show ?thesis
      by (auto simp: mem_stored_def mem_inv_fold_events)
  qed simp
next
  case (12 w c inc evs e w')
  then have "mem_UpdateWithEvents c inc evs w = (Inl e, w')" by (simp add: memory_repo_def)
  then show ?case using 12(1) by (cases rule: mem_update_cases) simp_all
next
  case (13 w inc cur c evs)
  then show ?case by (simp add: memory_repo_def mem_ops mem_stored_def)
next
  case (14 c inc ev w) then show ?case by (simp add: memory_repo_def mem_update_one)
qed

section \<open>Properties\<close>

text \<open>C25. Of two writers that read the same version of an incident one wins: after an update succeeded, any
  other update from the same version is refused with \<open>ErrConcurrentModification\<close> and changes neither
  the incidents nor the journal, whatever events it carries. The version went up by one.\<close>

theorem one_writer_wins:
  assumes "mem_UpdateWithEvents c inc evs m = (Inr x, m')"
    and "inc_ID other = inc_ID inc" and "inc_Version other = inc_Version inc"
  shows "mem_stored m' = (mem_stored m)(inc_ID inc \<mapsto> x) \<and> inc_Version x = inc_Version inc + 1
    \<and> (\<exists>e. mem_UpdateWithEvents c' other evs' m' = (Inl e, m') \<and> errIs e ErrConcurrentModification)"
  using assms(1)
proof (cases rule: mem_update_cases)
  case (written cur)
  have x: "x = bump_version inc" using written(3) by simp
  have stored: "mem_stored m' = (mem_stored m)(inc_ID inc \<mapsto> x)"
    using written(4) by (simp add: x mem_stored_def update_conv)
  then have "map_of (mi_items m') (inc_ID other) = Some x" using assms(2) by (simp add: mem_stored_def)
  moreover have "inc_Version x \<noteq> inc_Version other" using assms(3) by (simp add: x bump_version_def)
  ultimately have "mem_UpdateWithEvents c' other evs' m' = (Inl (sentinel_err ErrConcurrentModification), m')"
    by (simp add: mem_ops)
  with stored show ?thesis by (simp add: x bump_version_def)
qed simp

definition sample_incident :: "string \<Rightarrow> time \<Rightarrow> incident" where
  "sample_incident i t = \<lparr>inc_ID = i, inc_Service = ''svc'', inc_Severity = ''HIGH'', inc_Title = ''t'', inc_Description = '''',
     inc_AlertName = ''a'', inc_Fingerprint = i, inc_Status = StatusOpen, inc_StartedAt = t, inc_ResolvedAt = None,
     inc_CreatedAt = t, inc_UpdatedAt = t, inc_Version = 0\<rparr>"

definition sample_store :: mem_incidents where
  "sample_store = \<lparr>mi_items = [(''a'', sample_incident ''a'' 1), (''b'', sample_incident ''b'' 2)], mi_events = []\<rparr>"

lemma one_writer_wins_witness:
  "\<exists>x m' e. mem_UpdateWithEvents background (sample_incident ''a'' 1) [] sample_store = (Inr x, m')
    \<and> mem_UpdateWithEvents background ((sample_incident ''a'' 1)\<lparr>inc_Status := StatusFailed\<rparr>) [] m' = (Inl e, m')
    \<and> errIs e ErrConcurrentModification"
proof -
  have "\<exists>x m'. mem_UpdateWithEvents background (sample_incident ''a'' 1) [] sample_store = (Inr x, m')"
    by (simp add: mem_ops sample_store_def sample_incident_def)
  then obtain x m' where first: "mem_UpdateWithEvents background (sample_incident ''a'' 1) [] sample_store = (Inr x, m')" by blast
  from one_writer_wins [OF first, of "(sample_incident ''a'' 1)\<lparr>inc_Status := StatusFailed\<rparr>" background "[]"] first
  show ?thesis by auto
qed

lemma page_positive: "0 \<le> offset \<Longrightarrow> 0 < limit \<Longrightarrow> page offset limit xs = take (nat limit) (drop (nat offset) xs)"
  by (auto simp: page_def Let_def nat_le_iff le_nat_iff zless_nat_eq_int_zless not_less)

lemma page_all: "page 0 0 xs = xs"
  by (simp add: page_def)

text \<open>Listing is complete and paging is consistent: without limits \<open>List\<close> returns every stored incident
  that matches the filter exactly once, newest first, and when no two of them were created at the same
  time a page is exactly the part of that list that its offset and limit select.\<close>

theorem listing_is_complete:
  assumes "mem_inv m" and "mem_List c (f\<lparr>lf_Limit := 0, lf_Offset := 0\<rparr>) m = Inr all"
    and "mem_List c (f\<lparr>lf_Limit := limit, lf_Offset := offset\<rparr>) m = Inr xs" and "0 \<le> offset" and "0 < limit"
  shows "set all = {inc. \<exists>i. mem_stored m i = Some inc \<and> filter_matches f inc} \<and> distinct all
    \<and> sorted_wrt (\<lambda>x y. inc_CreatedAt y \<le> inc_CreatedAt x) all
    \<and> (inj_on inc_CreatedAt (set all) \<longrightarrow> xs = take (nat limit) (drop (nat offset) all))"
proof -
  let ?out = "filter (filter_matches f) (map snd (mi_items m))"
  have same: "filter_matches (f\<lparr>lf_Limit := l, lf_Offset := k\<rparr>) = filter_matches f" for l k
    by (simp add: fun_eq_iff filter_matches_def)
  have all: "all = sort_key (\<lambda>inc. - inc_CreatedAt inc) ?out"
    using assms(2) by (simp add: mem_List_def page_all same)
  have keys: "distinct (map fst (mi_items m))" "\<And>k inc. (k, inc) \<in> set (mi_items m) \<Longrightarrow> inc_ID inc = k"
    using assms(1) by (auto simp: mem_inv_def mem_stored_def)
  have "map inc_ID (map snd (mi_items m)) = map fst (mi_items m)"
    using keys(2) by (auto intro!: map_cong)
  then have "distinct (map snd (mi_items m))" using keys(1) by (metis distinct_map)
  then have "distinct all" unfolding all by simp
  moreover have "set all = {inc. \<exists>i. mem_stored m i = Some inc \<and> filter_matches f inc}"
    using keys(1) by (force simp: all mem_stored_def image_iff map_of_eq_Some_iff)
  moreover have "sorted_wrt (\<lambda>x y. inc_CreatedAt y \<le> inc_CreatedAt x) all"
    using sorted_sort_key [of "\<lambda>inc. - inc_CreatedAt inc" ?out] unfolding all [symmetric] by (simp add: sorted_map)
  moreover have "xs = take (nat limit) (drop (nat offset) all)"
    using assms(3-5) by (simp add: mem_List_def same page_positive all)
  ultimately show ?thesis by blast
qed

lemma listing_is_complete_witness:
  "mem_List background \<lparr>lf_Service = '''', lf_Status = '''', lf_Limit = 1, lf_Offset = 1\<rparr> sample_store = Inr [sample_incident ''a'' 1]"
proof -
  let ?f = "\<lparr>lf_Service = '''', lf_Status = '''', lf_Limit = 0, lf_Offset = 0\<rparr>"
  have inv: "mem_inv sample_store"
    by (auto simp: mem_inv_def sample_store_def mem_stored_def unique_open_def open_with_def sample_incident_def split: if_splits)
  have all: "mem_List background (?f\<lparr>lf_Limit := 0, lf_Offset := 0\<rparr>) sample_store = Inr [sample_incident ''b'' 2, sample_incident ''a'' 1]"
    by (simp add: mem_List_def filter_matches_def page_all sample_store_def sample_incident_def)
  obtain xs where xs: "mem_List background (?f\<lparr>lf_Limit := 1, lf_Offset := 1\<rparr>) sample_store = Inr xs"
    by (simp add: mem_List_def)
  from listing_is_complete [OF inv all xs] xs show ?thesis by (simp add: sample_incident_def)
qed

end
