(* ===== verification/Gatherer.thy ===== *)
theory Gatherer
  imports Verifier
begin

text \<open>
  \<open>internal/execution/verifier/gatherer.go\<close>: the sources of the verification metrics, fixed ones for
  the demo and instant queries of Prometheus. The reply to a URL (transport, JSON decoding, and the
  parse of the sample text) is an argument; which replies count as a measurement is modelled.
\<close>

section \<open>Mock source\<close>

text \<open>The \<open>float64\<close> nearest to 0.001.\<close>

definition mock_metrics :: metrics where
  "mock_metrics = \<lparr>me_ConsumerCount = 5, me_QueueDepth = 100,
     me_ErrorRate = Fin (1152921504606847 / 1152921504606846976)\<rparr>"

section \<open>Prometheus source\<close>

datatype prom_value = SampleText string "gerror + float64" | SampleNumber float64 | SampleOther string

record prom_body =
  po_Status :: string
  po_Result :: "prom_value list list"

datatype prom_reply = PromUnreachable gerror | PromReply nat string "gerror + prom_body"

record queries =
  qu_Consumers :: string
  qu_QueueDepth :: string
  qu_ErrorRate :: string

record prometheus_gatherer =
  pg_baseURL :: string
  pg_queries :: queries

definition DefaultQueries :: queries where
  "DefaultQueries = \<lparr>qu_Consumers = ''sum(rabbitmq_queue_consumers)'',
     qu_QueueDepth = ''sum(rabbitmq_queue_messages_ready)'',
     qu_ErrorRate = ''sum(rate(http_requests_total{status=~'' @ [CHR 0x22] @ ''5..'' @ [CHR 0x22]
       @ ''}[1m])) / clamp_min(sum(rate(http_requests_total[1m])), 0.001)''\<rparr>"

definition NewPrometheusGatherer :: "string \<Rightarrow> queries \<Rightarrow> prometheus_gatherer" where
  "NewPrometheusGatherer baseURL q =
     \<lparr>pg_baseURL = rev (dropWhile (\<lambda>c. c = CHR ''/'') (rev baseURL)),
      pg_queries = \<lparr>qu_Consumers = (if qu_Consumers q = '''' then qu_Consumers DefaultQueries else qu_Consumers q),
        qu_QueueDepth = (if qu_QueueDepth q = '''' then qu_QueueDepth DefaultQueries else qu_QueueDepth q),
        qu_ErrorRate = (if qu_ErrorRate q = '''' then qu_ErrorRate DefaultQueries else qu_ErrorRate q)\<rparr>\<rparr>"

text \<open>\<open>url.QueryEscape\<close>.\<close>

definition upper_hex :: "nat \<Rightarrow> char" where
  "upper_hex n = (if n < 10 then char_of (48 + n) else char_of (55 + n))"

definition escape_char :: "char \<Rightarrow> string" where
  "escape_char c =
     (let n = (of_char c :: nat)
      in if (0x30 \<le> n \<and> n \<le> 0x39) \<or> (0x41 \<le> n \<and> n \<le> 0x5A) \<or> (0x61 \<le> n \<and> n \<le> 0x7A) \<or> c \<in> set ''-_.~'' then [c]
         else if c = CHR '' '' then ''+'' else [CHR ''%'', upper_hex (n div 16), upper_hex (n mod 16)])"

definition QueryEscape :: "string \<Rightarrow> string" where
  "QueryEscape s = concat (map escape_char s)"

definition f64_text :: "float64 \<Rightarrow> string" where
  "f64_text x = (case x of PosInf \<Rightarrow> ''+Inf'' | NegInf \<Rightarrow> ''-Inf'' | _ \<Rightarrow> ''NaN'')"

definition queryScalar :: "prometheus_gatherer \<Rightarrow> (string \<Rightarrow> prom_reply) \<Rightarrow> string \<Rightarrow> gerror + rat" where
  "queryScalar g fetch query =
     (case fetch (pg_baseURL g @ ''/api/v1/query?query='' @ QueryEscape query) of
        PromUnreachable err \<Rightarrow> Inl err
      | PromReply code raw decoded \<Rightarrow>
          if code \<noteq> 200 then Inl (plain_err (''prometheus status '' @ dec_nat code @ '': '' @ raw))
          else
            (case decoded of
               Inl err \<Rightarrow> Inl err
             | Inr pr \<Rightarrow>
                 if po_Status pr \<noteq> ''success''
                 then Inl (plain_err (''prometheus query '' @ go_quote query @ '' failed: status '' @ go_quote (po_Status pr)))
                 else if (case po_Result pr of [] \<Rightarrow> True | r # _ \<Rightarrow> length r < 2)
                 then Inl (plain_err (''prometheus query '' @ go_quote query @ '' returned no data''))
                 else
                   (let finite = (\<lambda>v. case v of Fin q \<Rightarrow> Inr q | _ \<Rightarrow>
                          Inl (plain_err (''prometheus query '' @ go_quote query @ '' returned non-finite value '' @ f64_text v)))
                    in case hd (po_Result pr) ! 1 of
                         SampleText s parsed \<Rightarrow>
                           (case parsed of
                              Inl err \<Rightarrow> Inl (wrap_err (''parse prometheus value '' @ go_quote s @ '' of query ''
                                                @ go_quote query @ '': '') err)
                            | Inr v \<Rightarrow> finite v)
                       | SampleNumber v \<Rightarrow> finite v
                       | SampleOther t \<Rightarrow>
                           Inl (plain_err (''unexpected prometheus value type '' @ t @ '' for query '' @ go_quote query)))))"

text \<open>Go's conversion of a \<open>float64\<close> to \<open>int\<close> truncates; outside the range it is left to the
  implementation, here the argument \<open>ovf\<close>.\<close>

definition f64_to_int :: "(rat \<Rightarrow> int) \<Rightarrow> rat \<Rightarrow> int" where
  "f64_to_int ovf q =
     (let t = (if q \<ge> 0 then \<lfloor>q\<rfloor> else \<lceil>q\<rceil>) in if - (2 ^ 63) \<le> t \<and> t < 2 ^ 63 then t else ovf q)"

definition Gather :: "(rat \<Rightarrow> int) \<Rightarrow> prometheus_gatherer \<Rightarrow> (string \<Rightarrow> prom_reply) \<Rightarrow> gerror + metrics" where
  "Gather ovf g fetch =
     (case queryScalar g fetch (qu_Consumers (pg_queries g)) of
        Inl err \<Rightarrow> Inl err
      | Inr consumers \<Rightarrow>
     (case queryScalar g fetch (qu_QueueDepth (pg_queries g)) of
        Inl err \<Rightarrow> Inl err
      | Inr depth \<Rightarrow>
     (case queryScalar g fetch (qu_ErrorRate (pg_queries g)) of
        Inl err \<Rightarrow> Inl err
      | Inr errorRate \<Rightarrow>
          Inr \<lparr>me_ConsumerCount = f64_to_int ovf consumers, me_QueueDepth = f64_to_int ovf depth,
               me_ErrorRate = Fin errorRate\<rparr>)))"

section \<open>Facts\<close>

text \<open>A value comes only from a successful reply with a finite sample.\<close>

lemma queryScalar_Inr:
  assumes "queryScalar g fetch query = Inr q"
  shows "\<exists>raw pr row rest. fetch (pg_baseURL g @ ''/api/v1/query?query='' @ QueryEscape query) = PromReply 200 raw (Inr pr)
    \<and> po_Status pr = ''success'' \<and> po_Result pr = row # rest \<and> 2 \<le> length row
    \<and> (row ! 1 = SampleNumber (Fin q) \<or> (\<exists>s. row ! 1 = SampleText s (Inr (Fin q))))"
  using assms
  by (auto simp: queryScalar_def Let_def split: prom_reply.splits sum.splits if_splits list.splits prom_value.splits float64.splits)

lemma Gather_finite: "Gather ovf g fetch = Inr m \<Longrightarrow> \<exists>q. me_ErrorRate m = Fin q
    \<and> queryScalar g fetch (qu_ErrorRate (pg_queries g)) = Inr q"
  by (auto simp: Gather_def split: sum.splits)

text \<open>Metrics come from evidence only: \<open>Gather\<close> returns a snapshot only when each of its three queries was
  answered with status 200, the result was a success with a finite sample, and the error rate it
  returns is that finite number; NaN, infinities, empty results and errors never become a measurement.\<close>

theorem gather_is_grounded:
  assumes "Gather ovf g fetch = Inr m"
  shows "(\<exists>q. me_ErrorRate m = Fin q)
    \<and> (\<forall>query \<in> {qu_Consumers (pg_queries g), qu_QueueDepth (pg_queries g), qu_ErrorRate (pg_queries g)}.
        \<exists>raw pr row rest q. fetch (pg_baseURL g @ ''/api/v1/query?query='' @ QueryEscape query) = PromReply 200 raw (Inr pr)
          \<and> po_Status pr = ''success'' \<and> po_Result pr = row # rest
          \<and> (row ! 1 = SampleNumber (Fin q) \<or> (\<exists>s. row ! 1 = SampleText s (Inr (Fin q)))))"
proof -
  from assms obtain a b where q: "queryScalar g fetch (qu_Consumers (pg_queries g)) = Inr a"
      "queryScalar g fetch (qu_QueueDepth (pg_queries g)) = Inr b"
    by (auto simp: Gather_def split: sum.splits)
  from Gather_finite [OF assms] obtain c where c: "me_ErrorRate m = Fin c"
      "queryScalar g fetch (qu_ErrorRate (pg_queries g)) = Inr c" by blast
  show ?thesis
    using queryScalar_Inr [OF q(1)] queryScalar_Inr [OF q(2)] queryScalar_Inr [OF c(2)] c(1) by auto
qed

lemma gather_is_grounded_witness:
  "\<exists>m q. Gather (\<lambda>_. 0) (NewPrometheusGatherer ''http://p'' DefaultQueries)
      (\<lambda>_. PromReply 200 ''200 OK'' (Inr \<lparr>po_Status = ''success'', po_Result = [[SampleNumber (Fin 0), SampleNumber (Fin 1)]]\<rparr>)) = Inr m
    \<and> me_ErrorRate m = Fin q"
proof -
  let ?f = "\<lambda>_ :: string. PromReply 200 ''200 OK'' (Inr \<lparr>po_Status = ''success'', po_Result = [[SampleNumber (Fin 0), SampleNumber (Fin 1)]]\<rparr>)"
  have "\<exists>m. Gather (\<lambda>_. 0) (NewPrometheusGatherer ''http://p'' DefaultQueries) ?f = Inr m"
    by (simp add: Gather_def queryScalar_def Let_def)
  with gather_is_grounded [of "\<lambda>_. 0" "NewPrometheusGatherer ''http://p'' DefaultQueries" ?f] show ?thesis by blast
qed

end
