(* ===== verification/Config.thy ===== *)
theory Config
  imports Go_Std
begin

text \<open>
  \<open>internal/config/config.go\<close>: the configuration, its defaults, loading, and the validation that
  refuses dangerous combinations at start-up. Reading the file and the YAML library are arguments of
  \<open>Load\<close>; \<open>os.ExpandEnv\<close> and \<open>strconv.Atoi\<close> are modelled.
\<close>

section \<open>The configuration\<close>

record server_config =
  sc_Host :: string
  sc_Port :: int

record llm_config =
  lc_Provider :: string
  lc_BaseURL :: string
  lc_APIKey :: string
  lc_Model :: string

record redis_config =
  rd_Addr :: string
  rd_Password :: string
  rd_DB :: int

record rabbitmq_config =
  mq_URL :: string
  mq_ManagementURL :: string
  mq_Username :: string
  mq_Password :: string

record qdrant_config =
  qd_URL :: string
  qd_Collection :: string
  qd_Dim :: int

record reranker_config =
  rk_Enabled :: bool
  rk_Provider :: string
  rk_BaseURL :: string
  rk_APIKey :: string
  rk_Model :: string

record rag_config =
  rg_TopK :: int
  rg_CandidateK :: int
  rg_Reranker :: reranker_config

record agent_config =
  ag_MaxSteps :: int
  ag_MaxToolCalls :: int
  ag_TimeoutSeconds :: int

record auth_config =
  au_WebhookToken :: string
  au_ReadToken :: string
  au_AdminToken :: string
  au_AdminActor :: string

record execution_config =
  ex_Mode :: string
  ex_RestartURL :: string
  ex_Token :: string
  ex_AllowedTargets :: "string list"
  ex_TimeoutSeconds :: int

record verification_queries =
  vq_Consumers :: string
  vq_QueueDepth :: string
  vq_ErrorRate :: string

record verification_config =
  ve_Mode :: string
  ve_Attempts :: int
  ve_IntervalSeconds :: int
  ve_RequiredSuccesses :: int
  ve_Queries :: verification_queries

record config =
  cf_Server :: server_config
  cf_LLM :: llm_config
  cf_Embedding :: llm_config
  cf_PostgresDSN :: string
  cf_Redis :: redis_config
  cf_RabbitMQ :: rabbitmq_config
  cf_PrometheusURL :: string
  cf_Qdrant :: qdrant_config
  cf_RAG :: rag_config
  cf_Agent :: agent_config
  cf_ApprovalEnabled :: bool
  cf_Auth :: auth_config
  cf_Execution :: execution_config
  cf_Verification :: verification_config
  cf_VectorStoreProvider :: string
  cf_ToolTimeoutSeconds :: int

definition ExecutionModeMock :: string where "ExecutionModeMock = ''mock''"
definition ExecutionModeHTTP :: string where "ExecutionModeHTTP = ''http''"

lemmas execution_modes = ExecutionModeMock_def ExecutionModeHTTP_def

definition default_error_rate_query :: string where
  "default_error_rate_query =
     ''sum(rate(http_requests_total{status=~'' @ [CHR 0x22] @ ''5..'' @ [CHR 0x22]
       @ ''}[1m])) / clamp_min(sum(rate(http_requests_total[1m])), 0.001)''"

definition config_Default :: config where
  "config_Default =
     \<lparr>cf_Server = \<lparr>sc_Host = ''0.0.0.0'', sc_Port = 8080\<rparr>,
      cf_LLM = \<lparr>lc_Provider = ''openai'', lc_BaseURL = '''', lc_APIKey = '''', lc_Model = ''''\<rparr>,
      cf_Embedding = \<lparr>lc_Provider = ''openai'', lc_BaseURL = '''', lc_APIKey = '''', lc_Model = ''nomic-embed-text:latest''\<rparr>,
      cf_PostgresDSN = '''',
      cf_Redis = \<lparr>rd_Addr = '''', rd_Password = '''', rd_DB = 0\<rparr>,
      cf_RabbitMQ = \<lparr>mq_URL = '''', mq_ManagementURL = '''', mq_Username = '''', mq_Password = ''''\<rparr>,
      cf_PrometheusURL = '''',
      cf_Qdrant = \<lparr>qd_URL = '''', qd_Collection = ''gooncall_knowledge'', qd_Dim = 768\<rparr>,
      cf_RAG = \<lparr>rg_TopK = 8, rg_CandidateK = 20,
        rg_Reranker = \<lparr>rk_Enabled = False, rk_Provider = ''tei'', rk_BaseURL = '''', rk_APIKey = '''', rk_Model = ''''\<rparr>\<rparr>,
      cf_Agent = \<lparr>ag_MaxSteps = 15, ag_MaxToolCalls = 20, ag_TimeoutSeconds = 180\<rparr>,
      cf_ApprovalEnabled = True,
      cf_Auth = \<lparr>au_WebhookToken = '''', au_ReadToken = '''', au_AdminToken = '''', au_AdminActor = ''gooncall-admin''\<rparr>,
      cf_Execution = \<lparr>ex_Mode = ExecutionModeMock, ex_RestartURL = '''', ex_Token = '''', ex_AllowedTargets = [],
        ex_TimeoutSeconds = 30\<rparr>,
      cf_Verification = \<lparr>ve_Mode = ''mock'', ve_Attempts = 3, ve_IntervalSeconds = 10, ve_RequiredSuccesses = 3,
        ve_Queries = \<lparr>vq_Consumers = ''sum(rabbitmq_queue_consumers)'',
          vq_QueueDepth = ''sum(rabbitmq_queue_messages_ready)'', vq_ErrorRate = default_error_rate_query\<rparr>\<rparr>,
      cf_VectorStoreProvider = ''qdrant'',
      cf_ToolTimeoutSeconds = 30\<rparr>"

text \<open>\<open>CSVList\<close> from a YAML scalar: split at commas, trim, drop the empty items.\<close>

definition csv_items :: "string \<Rightarrow> string list" where
  "csv_items raw = filter (\<lambda>x. x \<noteq> '''') (map TrimSpace (split_on (CHR '','') raw))"

section \<open>Validation\<close>

definition validate_reranker :: "reranker_config \<Rightarrow> gerror option" where
  "validate_reranker r =
     (if \<not> rk_Enabled r then None
      else if TrimSpace (rk_BaseURL r) = ''''
      then Some (plain_err ''rag.reranker.base_url is required when reranker is enabled'')
      else
        (let p = ToLower (TrimSpace (rk_Provider r))
         in if p = '''' \<or> p = ''tei'' then None
            else if p = ''qwen'' then
              (if TrimSpace (rk_APIKey r) = ''''
               then Some (plain_err ''rag.reranker.api_key is required when reranker.provider=qwen'')
               else if TrimSpace (rk_Model r) = ''''
               then Some (plain_err ''rag.reranker.model is required when reranker.provider=qwen'')
               else None)
            else Some (plain_err ''rag.reranker.provider must be tei or qwen'')))"

definition validate_http :: "config \<Rightarrow> gerror option" where
  "validate_http c =
     (if ex_RestartURL (cf_Execution c) = ''''
      then Some (plain_err ''execution.restart_url is required when execution.mode=http'')
      else if ex_AllowedTargets (cf_Execution c) = []
      then Some (plain_err ''execution.allowed_targets is required when execution.mode=http'')
      else if ve_Mode (cf_Verification c) \<noteq> ''prometheus''
      then Some (plain_err ''execution.mode=http requires verification.mode=prometheus (mock verification must not close a real incident)'')
      else if au_WebhookToken (cf_Auth c) = '''' \<or> au_ReadToken (cf_Auth c) = '''' \<or> au_AdminToken (cf_Auth c) = ''''
      then Some (plain_err ''auth.webhook_token, auth.read_token and auth.admin_token are required when execution.mode=http'')
      else if cf_PostgresDSN c = '''' then Some (plain_err ''postgres.dsn is required when execution.mode=http'')
      else if mq_URL (cf_RabbitMQ c) = '''' then Some (plain_err ''rabbitmq.url is required when execution.mode=http'')
      else if lc_BaseURL (cf_LLM c) = '''' \<or> lc_Model (cf_LLM c) = ''''
      then Some (plain_err ''llm.base_url and llm.model are required when execution.mode=http'')
      else None)"

definition Validate :: "config \<Rightarrow> gerror option" where
  "Validate c =
     (let mode = ex_Mode (cf_Execution c); ve = cf_Verification c
      in if mode \<noteq> ExecutionModeMock \<and> mode \<noteq> ExecutionModeHTTP
         then Some (plain_err (''execution.mode '' @ go_quote mode @ '' is invalid, want '' @ go_quote ''mock''
                       @ '' or '' @ go_quote ''http''))
         else if ve_Mode ve = ''prometheus'' \<and> cf_PrometheusURL c = ''''
         then Some (plain_err ''verification.mode=prometheus requires prometheus.url'')
         else if ve_Mode ve \<noteq> ''mock'' \<and> ve_Mode ve \<noteq> ''prometheus''
         then Some (plain_err (''verification.mode '' @ go_quote (ve_Mode ve) @ '' is invalid, want '' @ go_quote ''mock''
                       @ '' or '' @ go_quote ''prometheus''))
         else if ve_Attempts ve < 1 then Some (plain_err ''verification.attempts must be >= 1'')
         else if ve_RequiredSuccesses ve < 1 then Some (plain_err ''verification.required_successes must be >= 1'')
         else if ve_RequiredSuccesses ve > ve_Attempts ve
         then Some (plain_err (''verification.required_successes ('' @ dec_int (ve_RequiredSuccesses ve)
                       @ '') must not exceed verification.attempts ('' @ dec_int (ve_Attempts ve) @ '')''))
         else if ve_IntervalSeconds ve < 0 then Some (plain_err ''verification.interval_seconds must be >= 0'')
         else if rg_TopK (cf_RAG c) < 1 then Some (plain_err ''rag.top_k must be >= 1'')
         else if rg_CandidateK (cf_RAG c) < 1 then Some (plain_err ''rag.candidate_k must be >= 1'')
         else
           (case validate_reranker (rg_Reranker (cf_RAG c)) of
              Some err \<Rightarrow> Some err
            | None \<Rightarrow> if mode \<noteq> ExecutionModeHTTP then None else validate_http c))"

section \<open>Loading\<close>

text \<open>\<open>os.Expand\<close>: the name after a dollar sign and the number of bytes it takes.\<close>

definition shell_special :: "char \<Rightarrow> bool" where
  "shell_special c = (c \<in> set ''*#$@!?-0123456789'')"

definition alnum :: "char \<Rightarrow> bool" where
  "alnum c = (let n = (of_char c :: nat) in
     c = CHR ''_'' \<or> (0x30 \<le> n \<and> n \<le> 0x39) \<or> (0x41 \<le> n \<and> n \<le> 0x5A) \<or> (0x61 \<le> n \<and> n \<le> 0x7A))"

definition getShellName :: "string \<Rightarrow> string \<times> nat" where
  "getShellName s =
     (case s of
        [] \<Rightarrow> ([], 0)
      | c # r \<Rightarrow>
          if c = CHR ''{'' then
            (if 2 \<le> length r \<and> shell_special (r ! 0) \<and> r ! 1 = CHR ''}'' then ([r ! 0], 3)
             else
               (let name = takeWhile (\<lambda>x. x \<noteq> CHR ''}'') r
                in if length name = length r then ([], 1)
                   else if name = [] then ([], 2) else (name, length name + 2)))
          else if shell_special c then ([c], 1)
          else (let name = takeWhile alnum s in (name, length name)))"

function ExpandEnv :: "(string \<Rightarrow> string) \<Rightarrow> string \<Rightarrow> string" where
  "ExpandEnv env s =
     (case s of
        [] \<Rightarrow> []
      | [c] \<Rightarrow> [c]
      | c # r \<Rightarrow>
          if c \<noteq> CHR ''$'' then c # ExpandEnv env r
          else
            (case getShellName r of
               (name, w) \<Rightarrow>
                 (if name = '''' \<and> w > 0 then [] else if name = '''' then [c] else env name) @ ExpandEnv env (drop w r)))"
  by pat_completeness auto
termination by (relation "measure (\<lambda>(env, s). length s)") auto

declare ExpandEnv.simps [simp del]

text \<open>\<open>strconv.Atoi\<close> on a 64-bit platform.\<close>

definition all_digits :: "string \<Rightarrow> bool" where
  "all_digits s = (s \<noteq> [] \<and> list_all (\<lambda>c. 48 \<le> (of_char c :: nat) \<and> (of_char c :: nat) \<le> 57) s)"

definition digits_value :: "string \<Rightarrow> int" where
  "digits_value s = foldl (\<lambda>n c. n * 10 + int (of_char c - 48)) 0 s"

definition Atoi :: "string \<Rightarrow> gerror + int" where
  "Atoi s =
     (let (neg, ds) = (case s of c # r \<Rightarrow> if c = CHR ''-'' then (True, r) else if c = CHR ''+'' then (False, r) else (False, s)
                              | [] \<Rightarrow> (False, []))
      in if \<not> all_digits ds then Inl (plain_err (''strconv.Atoi: parsing '' @ go_quote s @ '': invalid syntax''))
         else (let v = (if neg then - digits_value ds else digits_value ds)
               in if v < - (2 ^ 63) \<or> v \<ge> 2 ^ 63
                  then Inl (plain_err (''strconv.Atoi: parsing '' @ go_quote s @ '': value out of range''))
                  else Inr v))"

text \<open>\<open>decode\<close> unmarshals into the given defaults, \<open>explicit_mode\<close> reads \<open>execution.mode\<close> when the file
  has it. A range error of the port has no inner error: \<open>%w\<close> of nil prints as Go prints it.\<close>

definition config_Load ::
  "gerror + string \<Rightarrow> (string \<Rightarrow> string) \<Rightarrow> (string \<Rightarrow> config \<Rightarrow> gerror + config) \<Rightarrow> (string \<Rightarrow> gerror + string option)
     \<Rightarrow> gerror + config" where
  "config_Load file env decode explicit_mode =
     (case file of
        Inl err \<Rightarrow> Inl (wrap_err ''read config: '' err)
      | Inr raw \<Rightarrow>
     (let expanded = ExpandEnv env raw
      in case decode expanded config_Default of
        Inl err \<Rightarrow> Inl (wrap_err ''parse config: '' err)
      | Inr cfg \<Rightarrow>
     (case explicit_mode expanded of
        Inl err \<Rightarrow> Inl (wrap_err ''parse execution mode: '' err)
      | Inr mode \<Rightarrow>
          if (case mode of None \<Rightarrow> True | Some m \<Rightarrow> TrimSpace m = '''')
          then Inl (plain_err ''execution.mode must be explicitly set to mock or http'')
          else
     (let v = env ''SERVER_PORT'';
          port = (if v = '''' then Inr (sc_Port (cf_Server cfg))
                  else (case Atoi v of
                          Inl err \<Rightarrow> Inl (wrap_err (''parse SERVER_PORT '' @ go_quote v @ '': '') err)
                        | Inr p \<Rightarrow> if p \<le> 0 \<or> p \<ge> 65536
                                   then Inl (plain_err (''parse SERVER_PORT '' @ go_quote v @ '': %!w(<nil>)''))
                                   else Inr p))
      in case port of
        Inl err \<Rightarrow> Inl err
      | Inr p \<Rightarrow>
          (let cfg1 = cfg\<lparr>cf_Server := (cf_Server cfg)\<lparr>sc_Port := p\<rparr>\<rparr>;
               cfg2 = (if ve_Mode (cf_Verification cfg1) = ''''
                       then cfg1\<lparr>cf_Verification := (cf_Verification cfg1)\<lparr>ve_Mode := ''mock''\<rparr>\<rparr> else cfg1)
           in case Validate cfg2 of Some err \<Rightarrow> Inl err | None \<Rightarrow> Inr cfg2)))))"

section \<open>What a valid configuration guarantees\<close>

lemma Validate_verification:
  "Validate c = None \<Longrightarrow> 1 \<le> ve_RequiredSuccesses (cf_Verification c)
    \<and> ve_RequiredSuccesses (cf_Verification c) \<le> ve_Attempts (cf_Verification c) \<and> 0 \<le> ve_IntervalSeconds (cf_Verification c)"
  by (auto simp: Validate_def Let_def split: if_splits option.splits)

lemma Validate_http:
  "Validate c = None \<Longrightarrow> ex_Mode (cf_Execution c) = ExecutionModeHTTP \<Longrightarrow> validate_http c = None"
  by (auto simp: Validate_def Let_def split: if_splits option.splits)

lemma validate_http_None:
  "validate_http c = None \<longleftrightarrow>
    ex_RestartURL (cf_Execution c) \<noteq> '''' \<and> ex_AllowedTargets (cf_Execution c) \<noteq> []
    \<and> ve_Mode (cf_Verification c) = ''prometheus''
    \<and> au_WebhookToken (cf_Auth c) \<noteq> '''' \<and> au_ReadToken (cf_Auth c) \<noteq> '''' \<and> au_AdminToken (cf_Auth c) \<noteq> ''''
    \<and> cf_PostgresDSN c \<noteq> '''' \<and> mq_URL (cf_RabbitMQ c) \<noteq> '''' \<and> lc_BaseURL (cf_LLM c) \<noteq> '''' \<and> lc_Model (cf_LLM c) \<noteq> ''''"
  by (auto simp: validate_http_def)

lemma Validate_mode:
  "Validate c = None \<Longrightarrow> ex_Mode (cf_Execution c) = ExecutionModeMock \<or> ex_Mode (cf_Execution c) = ExecutionModeHTTP"
  by (auto simp: Validate_def Let_def split: if_splits)

lemma csv_items_trimmed: "x \<in> set (csv_items raw) \<Longrightarrow> x \<noteq> '''' \<and> (\<exists>y. x = TrimSpace y)"
  by (auto simp: csv_items_def)

lemma Load_valid: "config_Load file env decode explicit = Inr c \<Longrightarrow> Validate c = None"
  by (auto simp: config_Load_def Let_def split: sum.splits if_splits option.splits)

section \<open>Properties\<close>

lemma Load_facts:
  assumes "config_Load file env decode explicit = Inr c"
  shows "\<exists>raw cfg m. file = Inr raw \<and> decode (ExpandEnv env raw) config_Default = Inr cfg
    \<and> explicit (ExpandEnv env raw) = Inr (Some m) \<and> TrimSpace m \<noteq> ''''
    \<and> sc_Port (cf_Server c) = (if env ''SERVER_PORT'' = '''' then sc_Port (cf_Server cfg) else sc_Port (cf_Server c))
    \<and> (env ''SERVER_PORT'' \<noteq> '''' \<longrightarrow> Atoi (env ''SERVER_PORT'') = Inr (sc_Port (cf_Server c))
         \<and> 0 < sc_Port (cf_Server c) \<and> sc_Port (cf_Server c) < 65536)
    \<and> cf_Execution c = cf_Execution cfg \<and> cf_Auth c = cf_Auth cfg"
  using assms by (auto simp: config_Load_def Let_def split: sum.splits if_splits option.splits)

text \<open>A configuration that loads is safe to run: the execution mode was set in the file, the verification
  can pass (at least one success is required and no more than there are attempts), the retrieval
  sizes are positive, a port from the environment is a port, and the http mode comes only with a
  restart URL, a list of targets, verification by Prometheus with its URL, all three tokens, a
  database, a message queue and a language model.\<close>

theorem loaded_config_is_safe:
  assumes "config_Load file env decode explicit = Inr c"
  shows "(ex_Mode (cf_Execution c) = ExecutionModeMock \<or> ex_Mode (cf_Execution c) = ExecutionModeHTTP)
    \<and> (\<exists>raw m. file = Inr raw \<and> explicit (ExpandEnv env raw) = Inr (Some m) \<and> TrimSpace m \<noteq> '''')
    \<and> 1 \<le> ve_RequiredSuccesses (cf_Verification c)
    \<and> ve_RequiredSuccesses (cf_Verification c) \<le> ve_Attempts (cf_Verification c)
    \<and> 0 \<le> ve_IntervalSeconds (cf_Verification c) \<and> 1 \<le> rg_TopK (cf_RAG c) \<and> 1 \<le> rg_CandidateK (cf_RAG c)
    \<and> (env ''SERVER_PORT'' \<noteq> '''' \<longrightarrow> 0 < sc_Port (cf_Server c) \<and> sc_Port (cf_Server c) < 65536)
    \<and> (ve_Mode (cf_Verification c) = ''prometheus'' \<longrightarrow> cf_PrometheusURL c \<noteq> '''')
    \<and> (ex_Mode (cf_Execution c) = ExecutionModeHTTP \<longrightarrow>
         ex_RestartURL (cf_Execution c) \<noteq> '''' \<and> ex_AllowedTargets (cf_Execution c) \<noteq> []
         \<and> ve_Mode (cf_Verification c) = ''prometheus''
         \<and> au_WebhookToken (cf_Auth c) \<noteq> '''' \<and> au_ReadToken (cf_Auth c) \<noteq> '''' \<and> au_AdminToken (cf_Auth c) \<noteq> ''''
         \<and> cf_PostgresDSN c \<noteq> '''' \<and> mq_URL (cf_RabbitMQ c) \<noteq> '''' \<and> lc_BaseURL (cf_LLM c) \<noteq> '''' \<and> lc_Model (cf_LLM c) \<noteq> '''')"
proof -
  have v: "Validate c = None" by (rule Load_valid [OF assms])
  have sizes: "1 \<le> rg_TopK (cf_RAG c)" "1 \<le> rg_CandidateK (cf_RAG c)"
      "ve_Mode (cf_Verification c) = ''prometheus'' \<longrightarrow> cf_PrometheusURL c \<noteq> ''''"
    using v by (auto simp: Validate_def Let_def split: if_splits option.splits)
  from Load_facts [OF assms] obtain raw m where "file = Inr raw" "explicit (ExpandEnv env raw) = Inr (Some m)" "TrimSpace m \<noteq> ''''"
      "env ''SERVER_PORT'' \<noteq> '''' \<longrightarrow> 0 < sc_Port (cf_Server c) \<and> sc_Port (cf_Server c) < 65536" by blast
  moreover have "ex_Mode (cf_Execution c) = ExecutionModeHTTP \<longrightarrow> validate_http c = None" using Validate_http [OF v] by blast
  ultimately show ?thesis
    using sizes Validate_mode [OF v] Validate_verification [OF v] by (simp add: validate_http_None)
qed

definition http_config :: config where
  "http_config = config_Default
     \<lparr>cf_Execution := \<lparr>ex_Mode = ''http'', ex_RestartURL = ''http://ops/restart'', ex_Token = '''', ex_AllowedTargets = [''worker''],
        ex_TimeoutSeconds = 30\<rparr>,
      cf_Verification := (cf_Verification config_Default)\<lparr>ve_Mode := ''prometheus''\<rparr>, cf_PrometheusURL := ''http://prom'',
      cf_Auth := \<lparr>au_WebhookToken = ''w'', au_ReadToken = ''r'', au_AdminToken = ''a'', au_AdminActor = ''ops''\<rparr>,
      cf_PostgresDSN := ''dsn'', cf_RabbitMQ := (cf_RabbitMQ config_Default)\<lparr>mq_URL := ''amqp://mq''\<rparr>,
      cf_LLM := (cf_LLM config_Default)\<lparr>lc_BaseURL := ''http://llm'', lc_Model := ''m''\<rparr>\<rparr>"

lemma loaded_config_is_safe_witness:
  "config_Load (Inr ''execution:'') (\<lambda>v. if v = ''SERVER_PORT'' then ''9090'' else '''') (\<lambda>_ _. Inr http_config) (\<lambda>_. Inr (Some ''http''))
     = Inr (http_config\<lparr>cf_Server := (cf_Server http_config)\<lparr>sc_Port := 9090\<rparr>\<rparr>)
   \<and> ex_AllowedTargets (cf_Execution http_config) \<noteq> []"
proof -
  have "TrimSpace ''http'' = ''http''" by (rule TrimSpace_graphic) (simp_all add: graphic_def)
  moreover have "Atoi ''9090'' = Inr 9090" by code_simp
  ultimately have load: "config_Load (Inr ''execution:'') (\<lambda>v. if v = ''SERVER_PORT'' then ''9090'' else '''') (\<lambda>_ _. Inr http_config)
      (\<lambda>_. Inr (Some ''http'')) = Inr (http_config\<lparr>cf_Server := (cf_Server http_config)\<lparr>sc_Port := 9090\<rparr>\<rparr>)"
    by (simp add: config_Load_def Let_def http_config_def config_Default_def Validate_def validate_reranker_def validate_http_def
        execution_modes)
  moreover have "ex_Mode (cf_Execution http_config) = ExecutionModeHTTP" by (simp add: http_config_def execution_modes)
  ultimately show ?thesis using loaded_config_is_safe [OF load] by simp
qed

end
