(* ===== verification/World.thy ===== *)
theory World
  imports System_History Approval_Repo Memory_Repo Gatherer Config
begin

text \<open>
  The application put together as \<open>internal/bootstrap\<close> does it: the three stores, the broker and the
  counters in one state, the services on the lifted repositories, and the execution chain
  (policy, restart tool, remediation, observed executor, approval service). Everything outside the
  process is the \<open>environment\<close>: what the deployment endpoint and Prometheus answer, and when a
  context is done. The interpretations at the end discharge the contracts of the service locales for
  this composition.
\<close>

section \<open>State and environment\<close>

record world =
  w_incidents :: mem_incidents
  w_approvals :: mem_approvals
  w_runs :: mem_runs
  w_broker :: stream_broker
  w_metrics :: "metric list"
  w_calls :: "http_request list"

definition empty_world :: world where
  "empty_world = \<lparr>w_incidents = NewMemory, w_approvals = NewMemoryApproval, w_runs = NewMemoryRun,
     w_broker = NewStreamBroker, w_metrics = [], w_calls = []\<rparr>"

record environment =
  en_endpoint :: "http_request list \<Rightarrow> http_request \<Rightarrow> http_outcome"
  en_url_err :: "gerror option"
  en_prometheus :: "int \<Rightarrow> string \<Rightarrow> prom_reply"
  en_overflow :: "rat \<Rightarrow> int"
  en_ctx :: "int \<Rightarrow> gerror option"
  en_wait :: "int \<Rightarrow> gerror option"

definition put_incidents :: "mem_incidents \<Rightarrow> world \<Rightarrow> world" where "put_incidents s w = w\<lparr>w_incidents := s\<rparr>"
definition put_approvals :: "mem_approvals \<Rightarrow> world \<Rightarrow> world" where "put_approvals s w = w\<lparr>w_approvals := s\<rparr>"
definition put_runs :: "mem_runs \<Rightarrow> world \<Rightarrow> world" where "put_runs s w = w\<lparr>w_runs := s\<rparr>"

definition beside_incidents :: "world \<Rightarrow> mem_approvals \<times> mem_runs \<times> stream_broker \<times> http_request list" where
  "beside_incidents w = (w_approvals w, w_runs w, w_broker w, w_calls w)"

definition beside_approvals :: "world \<Rightarrow> mem_incidents \<times> mem_runs \<times> stream_broker \<times> http_request list" where
  "beside_approvals w = (w_incidents w, w_runs w, w_broker w, w_calls w)"

definition beside_runs :: "world \<Rightarrow> mem_incidents \<times> mem_approvals \<times> stream_broker \<times> http_request list" where
  "beside_runs w = (w_incidents w, w_approvals w, w_broker w, w_calls w)"

definition world_incident_repo :: "world incident_repo" where
  "world_incident_repo = lift_incident_repo w_incidents put_incidents memory_repo"

definition world_approval_repo :: "world approval_repo" where
  "world_approval_repo = lift_approval_repo w_approvals put_approvals memory_approval_repo"

definition world_run_repo :: "world run_repo" where
  "world_run_repo = lift_run_repo w_runs put_runs memory_run_repo"

definition count_metric :: "metric \<Rightarrow> world \<Rightarrow> world" where
  "count_metric m w = w\<lparr>w_metrics := w_metrics w @ [m]\<rparr>"

definition publish_event :: "string \<Rightarrow> stream_event \<Rightarrow> world \<Rightarrow> world" where
  "publish_event runID ev w = w\<lparr>w_broker := Publish runID ev (w_broker w)\<rparr>"

definition call_endpoint :: "environment \<Rightarrow> int \<Rightarrow> ctx \<Rightarrow> http_request \<Rightarrow> world \<Rightarrow> http_outcome \<times> world" where
  "call_endpoint env timeout c req w = (en_endpoint env (w_calls w) req, w\<lparr>w_calls := w_calls w @ [req]\<rparr>)"

section \<open>Wiring\<close>

text \<open>Incident service and approval service point at each other; what each uses of the other is
  independent of that pointer, so the expirer is built on the approval repository alone.\<close>

definition approval_store_only :: "world approval_service" where
  "approval_store_only = \<lparr>as_repo = world_approval_repo, as_broker = Some publish_event, as_executor = None,
     as_incidents = None, as_runs = None, as_count = count_metric\<rparr>"

definition world_incidents :: "world incident_service" where
  "world_incidents = \<lparr>is_repo = world_incident_repo, is_expirer = Some (ExpirePending approval_store_only),
     is_count = count_metric\<rparr>"

definition buildGatherer :: "config \<Rightarrow> environment \<Rightarrow> gerror + probe" where
  "buildGatherer cfg env =
     (if ve_Mode (cf_Verification cfg) = ''prometheus''
      then (let q = ve_Queries (cf_Verification cfg);
                g = NewPrometheusGatherer (cf_PrometheusURL cfg)
                      \<lparr>qu_Consumers = vq_Consumers q, qu_QueueDepth = vq_QueueDepth q, qu_ErrorRate = vq_ErrorRate q\<rparr>
            in Inr \<lparr>pb_ctx = en_ctx env, pb_gather = (\<lambda>i. Gather (en_overflow env) g (en_prometheus env i)),
                    pb_wait = en_wait env\<rparr>)
      else if ex_Mode (cf_Execution cfg) = ExecutionModeHTTP
      then Inl (plain_err (''execution.mode=http must not use the mock verification gatherer: ''
                  @ ''a mock result must never close a real incident''))
      else Inr \<lparr>pb_ctx = en_ctx env, pb_gather = (\<lambda>_. Inr mock_metrics), pb_wait = en_wait env\<rparr>)"

definition world_http :: "config \<Rightarrow> environment \<Rightarrow> gerror + world http_executor" where
  "world_http cfg env =
     NewHTTPExecutor (call_endpoint env) (en_url_err env)
       \<lparr>hc_URL = ex_RestartURL (cf_Execution cfg), hc_Token = ex_Token (cf_Execution cfg),
        hc_Timeout = ex_TimeoutSeconds (cf_Execution cfg) * 1000000000\<rparr>"

definition world_tool :: "config \<Rightarrow> environment \<Rightarrow> world deployment_tool" where
  "world_tool cfg env =
     (let tool = deployment_New None (Some (policy_New (cf_ApprovalEnabled cfg)));
          targets = ex_AllowedTargets (cf_Execution cfg)
      in if ex_Mode (cf_Execution cfg) = ExecutionModeHTTP
         then (case world_http cfg env of
                 Inl _ \<Rightarrow> tool
               | Inr e \<Rightarrow> WithAllowedTargets (if targets = [] then None else Some targets) (WithHTTPExecutor e tool))
         else tool)"

definition world_remediation :: "config \<Rightarrow> environment \<Rightarrow> world remediation" where
  "world_remediation cfg env =
     \<lparr>rm_restart = world_tool cfg env, rm_verifier = verifier_New DefaultConfig,
      rm_gatherer = (case buildGatherer cfg env of Inl _ \<Rightarrow> None | Inr p \<Rightarrow> Some p),
      rm_incidents = Some world_incidents, rm_runs = Some world_run_repo, rm_postmortem = True,
      rm_broker = Some publish_event,
      rm_verifyCfg = \<lparr>rc_Attempts = ve_Attempts (cf_Verification cfg),
        rc_Interval = ve_IntervalSeconds (cf_Verification cfg) * 1000000000,
        rc_RequiredSuccesses = ve_RequiredSuccesses (cf_Verification cfg)\<rparr>\<rparr>"

definition world_executor :: "config \<Rightarrow> environment \<Rightarrow> world action_executor" where
  "world_executor cfg env =
     observed_Execute count_metric (Some world_incidents) (remediation_Execute (world_remediation cfg env))"

definition world_approvals :: "config \<Rightarrow> environment \<Rightarrow> world approval_service" where
  "world_approvals cfg env =
     \<lparr>as_repo = world_approval_repo, as_broker = Some publish_event, as_executor = Some (world_executor cfg env),
      as_incidents = Some world_incidents, as_runs = Some world_run_repo, as_count = count_metric\<rparr>"

definition buildExecution :: "config \<Rightarrow> environment \<Rightarrow> gerror + world deployment_tool" where
  "buildExecution cfg env =
     (case (if ex_Mode (cf_Execution cfg) = ExecutionModeHTTP
            then (case world_http cfg env of Inl err \<Rightarrow> Some err | Inr _ \<Rightarrow> None) else None) of
        Some err \<Rightarrow> Inl (wrap_err ''build http executor: '' err)
      | None \<Rightarrow>
          (case buildGatherer cfg env of
             Inl err \<Rightarrow> Inl err
           | Inr _ \<Rightarrow> Inr (SetApproval (world_approvals cfg env) (world_tool cfg env))))"

section \<open>The contracts hold\<close>

definition w_istored :: "world \<Rightarrow> string \<Rightarrow> incident option" where "w_istored w = mem_stored (w_incidents w)"
definition w_journal :: "world \<Rightarrow> string \<Rightarrow> incident_event list" where "w_journal w = stored_events (w_incidents w)"
definition w_iinv :: "world \<Rightarrow> bool" where "w_iinv w = mem_inv (w_incidents w)"
definition w_astored :: "world \<Rightarrow> string \<Rightarrow> approval option" where "w_astored w = mema_stored (w_approvals w)"
definition w_ainv :: "world \<Rightarrow> bool" where "w_ainv w = mema_inv (w_approvals w)"
definition w_rstored :: "world \<Rightarrow> string \<Rightarrow> agent_run option" where "w_rstored w = memr_stored (w_runs w)"
definition w_rinv :: "world \<Rightarrow> bool" where "w_rinv w = memr_inv (w_runs w)"
definition w_keys :: "world \<Rightarrow> string list" where "w_keys w = map idem_key (w_calls w)"

lemmas world_views = w_istored_def w_journal_def w_iinv_def w_astored_def w_ainv_def w_keys_def
  w_rstored_def w_rinv_def

lemma empty_world_ok: "w_iinv empty_world" "w_ainv empty_world" "w_rinv empty_world"
  by (simp_all add: world_views empty_world_def NewMemory_inv NewMemoryApproval_inv NewMemoryRun_inv)

interpretation lens_i: store_lens w_incidents put_incidents beside_incidents
  by unfold_locales (simp_all add: put_incidents_def beside_incidents_def)

interpretation li: lifted_incident_repository memory_repo mem_stored stored_events mem_inv "\<lambda>_. ()"
  w_incidents put_incidents beside_incidents
  by unfold_locales

interpretation la: lifted_approval_repository memory_approval_repo mema_stored mema_inv "\<lambda>_. ()"
  w_approvals put_approvals beside_approvals
  by unfold_locales (simp_all add: put_approvals_def beside_approvals_def)

interpretation lr: lifted_run_repository memory_run_repo memr_stored memr_calls memr_inv "\<lambda>_. ()"
  w_runs put_runs beside_runs
  by unfold_locales (simp_all add: put_runs_def beside_runs_def)

lemma count_metric_views [simp]:
  "w_incidents (count_metric m w) = w_incidents w" "w_approvals (count_metric m w) = w_approvals w"
  "w_runs (count_metric m w) = w_runs w" "w_broker (count_metric m w) = w_broker w" "w_calls (count_metric m w) = w_calls w"
  by (simp_all add: count_metric_def)

lemma publish_event_views [simp]:
  "w_incidents (publish_event r ev w) = w_incidents w" "w_approvals (publish_event r ev w) = w_approvals w"
  "w_runs (publish_event r ev w) = w_runs w" "w_calls (publish_event r ev w) = w_calls w"
  by (simp_all add: publish_event_def)

interpretation wi: incident_client world_incident_repo w_istored w_journal w_iinv
  "\<lambda>w. ((), beside_incidents w)" world_incidents
proof -
  have views: "w_istored = (\<lambda>w. mem_stored (w_incidents w))" "w_journal = (\<lambda>w. stored_events (w_incidents w))"
      "w_iinv = (\<lambda>w. mem_inv (w_incidents w))"
    by (simp_all add: fun_eq_iff world_views)
  show "incident_client world_incident_repo w_istored w_journal w_iinv (\<lambda>w. ((), beside_incidents w)) world_incidents"
    unfolding views world_incident_repo_def incident_client_def incident_client_axioms_def
    using li.lifted.incident_repository_axioms
    by (simp add: world_incidents_def world_incident_repo_def beside_incidents_def)
qed

interpretation wr: run_repository world_run_repo w_rstored "\<lambda>w. memr_calls (w_runs w)" w_rinv "\<lambda>w. ((), beside_runs w)"
proof -
  have views: "w_rstored = (\<lambda>w. memr_stored (w_runs w))" "w_rinv = (\<lambda>w. memr_inv (w_runs w))"
    by (simp_all add: fun_eq_iff world_views)
  show "run_repository world_run_repo w_rstored (\<lambda>w. memr_calls (w_runs w)) w_rinv (\<lambda>w. ((), beside_runs w))"
    unfolding views world_run_repo_def using lr.lifted.run_repository_axioms .
qed

interpretation wp: approval_repository world_approval_repo w_astored w_ainv "\<lambda>w. ((), beside_approvals w)"
proof -
  have views: "w_astored = (\<lambda>w. mema_stored (w_approvals w))" "w_ainv = (\<lambda>w. mema_inv (w_approvals w))"
    by (simp_all add: fun_eq_iff world_views)
  show "approval_repository world_approval_repo w_astored w_ainv (\<lambda>w. ((), beside_approvals w))"
    unfolding views world_approval_repo_def using la.lifted.approval_repository_axioms .
qed

lemma world_keys_snoc [simp]: "w_keys (w\<lparr>w_calls := cs\<rparr>) = map idem_key cs"
  by (simp add: w_keys_def)

lemma world_client:
  assumes "dt_http (rm_restart (world_remediation cfg env)) = Some e" and "hx_client e c req w = (out, w')"
  shows "w' = w\<lparr>w_calls := w_calls w @ [req]\<rparr> \<and> out = en_endpoint env (w_calls w) req"
  using assms
  by (auto simp: world_remediation_def world_tool_def world_http_def NewHTTPExecutor_def call_endpoint_def Let_def
      deployment_New_def WithHTTPExecutor_def WithAllowedTargets_def split: if_splits sum.splits)

interpretation wm: remediation_system world_incident_repo w_istored w_journal w_iinv "\<lambda>w. ((), beside_incidents w)"
  world_incidents "world_remediation cfg env" world_run_repo "\<lambda>w. (w_approvals w, w_runs w)" w_keys
  for cfg env
proof (unfold_locales, goal_cases)
  case (6 e c req w out w')
  from world_client [OF 6] show ?case by (auto simp: world_views)
qed (simp_all add: world_remediation_def world_incidents_def beside_incidents_def world_views rm_publish_def)

lemma world_executor_contract:
  assumes "w_iinv w" and "w_ainv w" and "world_executor cfg env c act args run f w = (res, w')"
  shows "w_iinv w' \<and> w_ainv w' \<and> w_astored w' = w_astored w
    \<and> (w_keys w' = w_keys w \<or> w_keys w' = w_keys w @ [ApprovalIDFrom c])"
proof -
  have "is_count world_incidents = count_metric" by (simp add: world_incidents_def)
  with wm.observed_contract [OF assms(1), of cfg env c act args run f res w'] assms(2,3)
  show ?thesis by (auto simp: world_executor_def w_astored_def w_ainv_def)
qed

interpretation wa: approval_system world_incident_repo w_istored w_journal w_iinv "\<lambda>w. ((), beside_incidents w)"
  world_incidents world_approval_repo w_astored w_ainv "\<lambda>w. ((), beside_approvals w)"
  "world_approvals cfg env" "world_executor cfg env" w_keys
  for cfg env
proof (unfold_locales, goal_cases)
  case (18 w c act args run f res w')
  then show ?case by (rule world_executor_contract)
qed (simp_all add: world_approvals_def as_publish_def beside_incidents_def beside_approvals_def world_views)

lemma world_expirer: "ExpirePending approval_store_only = ExpirePending (world_approvals cfg env)"
  by (simp add: fun_eq_iff ExpirePending_def approval_store_only_def world_approvals_def)

interpretation wc: incident_closing world_incident_repo w_istored w_journal w_iinv "\<lambda>w. ((), beside_incidents w)"
  world_incidents "ExpirePending approval_store_only"
proof (unfold_locales, goal_cases)
  case 1 then show ?case by (simp add: world_incidents_def)
next
  case (2 w c i f r w')
  have "w_incidents w' = w_incidents w"
    using 2(2) throughD [of w_approvals put_approvals]
    by (auto simp: ExpirePending_def approval_store_only_def world_approval_repo_def lift_approval_repo_def put_approvals_def
        split: if_splits dest!: throughD)
  then show ?case using 2(1) by (simp add: world_views)
qed

end
