(* ===== verification/System.thy ===== *)
theory System
  imports World
begin

text \<open>
  The running system: every request the API, the worker and the agent's restart tool can make, as
  one step relation on the application state, each operation atomic. What the world outside answers
  (the deployment endpoint, Prometheus, cancellation) may differ from step to step. The invariants
  are rule inductions over the reachable states.
\<close>

section \<open>Steps\<close>

definition system_tool :: "config \<Rightarrow> environment \<Rightarrow> world deployment_tool" where
  "system_tool cfg env = SetApproval (world_approvals cfg env) (world_tool cfg env)"

inductive run_step :: "world \<Rightarrow> world \<Rightarrow> bool" where
  create_run: "rr_CreateRun world_run_repo c run w = (e, w') \<Longrightarrow> run_step w w'"
| update_run: "rr_UpdateRun world_run_repo c run w = (e, w') \<Longrightarrow> run_step w w'"
| add_step: "rr_AddStep world_run_repo c stp w = (e, w') \<Longrightarrow> run_step w w'"
| add_call: "rr_AddToolCall world_run_repo c call w = (e, w') \<Longrightarrow> run_step w w'"
| update_call: "rr_UpdateToolCall world_run_repo c call w = (e, w') \<Longrightarrow> run_step w w'"
| add_evidence: "rr_AddEvidence world_run_repo c evd w = (e, w') \<Longrightarrow> run_step w w'"

inductive system_step :: "config \<Rightarrow> world \<Rightarrow> world \<Rightarrow> bool" for cfg where
  create: "svc_Create world_incidents c inp f w = (r, w') \<Longrightarrow> system_step cfg w w'"
| analyze: "svc_Analyze world_incidents c i f w = (r, w') \<Longrightarrow> system_step cfg w w'"
| resolve: "svc_Resolve world_incidents c i f w = (r, w') \<Longrightarrow> system_step cfg w w'"
| resolve_externally: "ResolveExternally world_incidents c fp f w = (r, w') \<Longrightarrow> system_step cfg w w'"
| dead_letter: "svc_Fail world_incidents c i reason err f w = (r, w') \<Longrightarrow> system_step cfg w w'"
| request: "restart_request (system_tool cfg env) c inp f w = (x, w') \<Longrightarrow> system_step cfg w w'"
| approve: "Approve (world_approvals cfg env) c i actor f w = (a, w') \<Longrightarrow> system_step cfg w w'"
| reject: "Reject (world_approvals cfg env) c i actor f w = (a, w') \<Longrightarrow> system_step cfg w w'"
| runs: "run_step w w' \<Longrightarrow> system_step cfg w w'"
| observe: "system_step cfg w (count_metric m w)"
| announce: "system_step cfg w (publish_event runID ev w)"

inductive reachable :: "config \<Rightarrow> world \<Rightarrow> bool" for cfg where
  start: "reachable cfg empty_world"
| step: "reachable cfg w \<Longrightarrow> system_step cfg w w' \<Longrightarrow> reachable cfg w'"

interpretation wh: approval_history world_incident_repo w_istored w_journal w_iinv "\<lambda>w. ((), beside_incidents w)"
  world_incidents world_approval_repo w_astored w_ainv "\<lambda>w. ((), beside_approvals w)"
  "world_approvals cfg env" "world_executor cfg env" w_keys
  for cfg env
proof (unfold_locales, goal_cases)
  case (1 w c act args run f res w')
  have "is_count world_incidents = count_metric" by (simp add: world_incidents_def)
  with wm.observed_changes [OF 1(1), of cfg env c act args run f res w'] 1(2)
  show ?case by (simp add: world_executor_def)
qed

section \<open>Invariant\<close>

abbreviation w_view :: "world \<Rightarrow> incident_view" where
  "w_view w \<equiv> (w_istored w, w_journal w)"

text \<open>Each approval is bound to an incident of the table; a claimed one to an incident past the approval
  stage, and no two claimed ones to the same; the endpoint was called once at most for each claimed
  approval and never for another.\<close>

definition bindings_ok :: "(string \<Rightarrow> approval option) \<Rightarrow> (string \<Rightarrow> incident option) \<Rightarrow> bool" where
  "bindings_ok t s = (\<forall>i a. t i = Some a \<longrightarrow> ap_IncidentID a \<noteq> '''' \<and> (\<exists>inc. s (ap_IncidentID a) = Some inc
     \<and> (claimed a \<longrightarrow> 3 \<le> stage (inc_Status inc))))"

definition one_claim :: "(string \<Rightarrow> approval option) \<Rightarrow> bool" where
  "one_claim t = (\<forall>i j a b. t i = Some a \<longrightarrow> t j = Some b \<longrightarrow> claimed a \<longrightarrow> claimed b
     \<longrightarrow> ap_IncidentID a = ap_IncidentID b \<longrightarrow> i = j)"

definition calls_ok :: "string list \<Rightarrow> (string \<Rightarrow> approval option) \<Rightarrow> bool" where
  "calls_ok ks t = (distinct ks \<and> (\<forall>k \<in> set ks. \<exists>a. t k = Some a \<and> claimed a))"

definition incidents_named :: "(string \<Rightarrow> incident option) \<Rightarrow> bool" where
  "incidents_named s = (s '''' = None)"

definition system_ok :: "world \<Rightarrow> bool" where
  "system_ok w = (w_iinv w \<and> w_ainv w \<and> history_ok (w_view w) \<and> incidents_named (w_istored w)
     \<and> bindings_ok (w_astored w) (w_istored w) \<and> one_claim (w_astored w) \<and> calls_ok (w_keys w) (w_astored w))"

lemma empty_ok: "system_ok empty_world"
  by (simp add: system_ok_def empty_world_ok bindings_ok_def one_claim_def calls_ok_def incidents_named_def)
     (simp add: world_views empty_world_def NewMemory_def mem_stored_def stored_events_def history_ok_def entry_ok_def
        NewMemoryApproval_def mema_stored_def)

text \<open>Changes of the incident table keep bindings.\<close>

lemma changes_bindings:
  assumes "bindings_ok t (fst v)" and "incident_changes v v'"
  shows "bindings_ok t (fst v')"
  unfolding bindings_ok_def
proof (intro allI impI)
  fix i a
  assume "t i = Some a"
  with assms(1) obtain inc where inc: "ap_IncidentID a \<noteq> ''''" "fst v (ap_IncidentID a) = Some inc"
      "claimed a \<longrightarrow> 3 \<le> stage (inc_Status inc)" by (auto simp: bindings_ok_def)
  from changes_keep [OF assms(2) inc(2)] inc show
    "ap_IncidentID a \<noteq> '''' \<and> (\<exists>inc. fst v' (ap_IncidentID a) = Some inc \<and> (claimed a \<longrightarrow> 3 \<le> stage (inc_Status inc)))"
    by auto
qed

lemma change_named: "incident_change v v' \<Longrightarrow> incidents_named (fst v) \<Longrightarrow> incidents_named (fst v')"
  by (induction rule: incident_change.induct) (auto simp: incidents_named_def new_incident_def)

lemma changes_named: "incident_changes v v' \<Longrightarrow> incidents_named (fst v) \<Longrightarrow> incidents_named (fst v')"
  by (induction rule: rtranclp_induct) (auto intro: change_named)

text \<open>A step that only changes incidents.\<close>

lemma ok_incidents:
  assumes "system_ok w" and "w_iinv w'" and "w_ainv w'" and "incident_changes (w_view w) (w_view w')"
    and "w_astored w' = w_astored w" and "w_keys w' = w_keys w"
  shows "system_ok w'"
  using assms changes_ok [OF assms(4)] changes_named [OF assms(4)] changes_bindings [OF _ assms(4)]
  by (simp add: system_ok_def)

text \<open>Approvals evolving without a new claim keep the invariants on claims.\<close>

lemma evolve_bindings:
  assumes "bindings_ok t s" and "\<And>j. evolves (t j) (t' j)"
    and "\<And>j a b. t j = Some a \<Longrightarrow> t' j = Some b \<Longrightarrow> claimed b \<Longrightarrow> claimed a"
  shows "bindings_ok t' s"
  unfolding bindings_ok_def
proof (intro allI impI)
  fix i b
  assume b: "t' i = Some b"
  with assms(2) [of i] obtain a where a: "t i = Some a" "same_binding a b" by (cases "t i") auto
  from assms(1) a(1) assms(3) [OF a(1) b] a(2)
  show "ap_IncidentID b \<noteq> '''' \<and> (\<exists>inc. s (ap_IncidentID b) = Some inc \<and> (claimed b \<longrightarrow> 3 \<le> stage (inc_Status inc)))"
    unfolding bindings_ok_def same_binding_def by metis
qed

lemma evolve_one_claim:
  assumes "one_claim t" and "\<And>j. evolves (t j) (t' j)"
    and "\<And>j a b. t j = Some a \<Longrightarrow> t' j = Some b \<Longrightarrow> claimed b \<Longrightarrow> claimed a"
  shows "one_claim t'"
proof -
  have origin: "\<exists>a. t j = Some a \<and> claimed a \<and> ap_IncidentID a = ap_IncidentID b" if "t' j = Some b" "claimed b" for j b
    using assms(2) [of j] assms(3) [of j _ b] that by (cases "t j") (auto simp: same_binding_def)
  show ?thesis
    using assms(1) origin unfolding one_claim_def by metis
qed

lemma claimed_stays: "evolves (Some a) y \<Longrightarrow> claimed a \<Longrightarrow> \<exists>b. y = Some b \<and> claimed b"
proof (cases y)
  case (Some b)
  assume "evolves (Some a) y" "claimed a"
  with Some have p: "approval_path (ap_Status a) (ap_Status b)" by simp
  then have "ap_Status b = ap_Status a \<or> ap_Status b \<in> {ApprovalExecuted, ApprovalFailed, ApprovalUnknown}"
    if "claimed a" using that
  proof (induction rule: rtranclp_induct)
    case (step y z)
    from step.hyps(2) step.IH [OF step.prems] step.prems show ?case
      by (cases rule: approval_moves.cases) (auto simp: claimed_def)
  qed simp
  with \<open>claimed a\<close> Some show ?thesis by (auto simp: claimed_def)
qed simp

lemma evolve_calls: "calls_ok ks t \<Longrightarrow> (\<And>j. evolves (t j) (t' j)) \<Longrightarrow> calls_ok ks t'"
  unfolding calls_ok_def using claimed_stays by metis

lemma ok_unclaimed:
  assumes "system_ok w" and "w_iinv w'" and "w_ainv w'" and "incident_changes (w_view w) (w_view w')"
    and "\<And>j. evolves (w_astored w j) (w_astored w' j)"
    and "\<And>j a b. w_astored w j = Some a \<Longrightarrow> w_astored w' j = Some b \<Longrightarrow> claimed b \<Longrightarrow> claimed a"
    and "w_keys w' = w_keys w"
  shows "system_ok w'"
  using assms changes_ok [OF assms(4)] changes_named [OF assms(4)] changes_bindings [OF _ assms(4)]
    evolve_bindings [of "w_astored w" _ "w_astored w'"] evolve_one_claim [of "w_astored w" "w_astored w'"]
    evolve_calls [of "w_keys w" "w_astored w" "w_astored w'"]
  unfolding system_ok_def by auto

lemma advanced_evolves: "advanced t i t' \<Longrightarrow> evolves (t j) (t' j)"
  by (cases "j = i") (auto simp: advanced_def)


section \<open>Steps keep the invariant\<close>

lemma beside_same:
  assumes "((), beside_incidents w') = ((), beside_incidents w)"
  shows "w_astored w' = w_astored w" "w_ainv w' = w_ainv w" "w_keys w' = w_keys w"
  using assms by (simp_all add: beside_incidents_def world_views)

lemma ok_beside:
  assumes "system_ok w" and "w_iinv w'" and "incident_changes (w_view w) (w_view w')"
    and "((), beside_incidents w') = ((), beside_incidents w)"
  shows "system_ok w'"
  using assms(1,2) _ assms(3) by (rule ok_incidents) (use assms beside_same [OF assms(4)] in \<open>simp_all add: system_ok_def\<close>)

lemma create_step_ok:
  assumes "system_ok w" and "svc_Create world_incidents c inp f w = (r, w')"
  shows "system_ok w'"
proof -
  have inv: "w_iinv w" using assms(1) by (simp add: system_ok_def)
  from inv assms(2) have "((), beside_incidents w') = ((), beside_incidents w) \<and> w_iinv w'"
    by (rule wi.create_cases) simp_all
  with ok_beside [OF assms(1)] wi.create_changes [OF inv assms(2)] show ?thesis by blast
qed

lemma transition_step_ok:
  assumes "system_ok w" and "transitionWithAudit world_incidents c i to reason err ty pl f w = (r, w')"
    and "business_type ty"
  shows "system_ok w'"
proof -
  have inv: "w_iinv w" using assms(1) by (simp add: system_ok_def)
  show ?thesis
    by (rule ok_beside [OF assms(1) wi.transition_keeps(1) [OF inv assms(2)] wi.transition_changes [OF inv assms(2,3)]
          wi.transition_keeps(2) [OF inv assms(2)]])
qed

lemma expire_table:
  assumes "w_ainv w" and "ExpirePending approval_store_only c i f w = (x, w')"
  shows "evolves (w_astored w j) (w_astored w' j)"
    and "w_astored w j = Some a \<Longrightarrow> w_astored w' j = Some b \<Longrightarrow> claimed b \<Longrightarrow> claimed a"
proof -
  from assms(2) have step: "ExpirePending (world_approvals cfg env) c i f w = (x, w')" for cfg env
    by (simp add: world_expirer [symmetric])
  show "evolves (w_astored w j) (w_astored w' j)" using wa.expire_pending_table [OF assms(1) step] by blast
  show "claimed a" if h: "w_astored w j = Some a" "w_astored w' j = Some b" "claimed b"
  proof (cases "i = ''''")
    case True
    with assms(2) h show ?thesis by (auto simp: ExpirePending_def)
  next
    case False
    with assms(2) have rep: "ar_ExpirePendingByIncident world_approval_repo c i f w = (x, w')"
      by (simp add: ExpirePending_def approval_store_only_def)
    show ?thesis
    proof (cases x)
      case (Inl e)
      with wp.expire_err [OF assms(1)] rep h show ?thesis by auto
    next
      case (Inr n)
      with rep have "ar_ExpirePendingByIncident world_approval_repo c i f w = (Inr n, w')" by simp
      from wp.expire_ok [OF assms(1) this False h(1)] h(2,3) show ?thesis
        by (auto simp: claimed_def split: if_splits)
    qed
  qed
qed


lemma external_step_ok:
  assumes ok: "system_ok w" and step: "ResolveExternally world_incidents c fp f w = (r, w')"
  shows "system_ok w'"
proof -
  have inv: "w_iinv w" "w_ainv w" using ok by (simp_all add: system_ok_def)
  note ch = wc.resolve_changes [OF inv(1) step]
  have expired: "system_ok w'" if ex: "ExpirePending approval_store_only c i g w = (x, w1)"
      and fr: "((), beside_incidents w') = ((), beside_incidents w1)" and i: "w_iinv w'" for c i g x w1
  proof -
    from ex have "ExpirePending (world_approvals cfg env) c i g w = (x, w1)" for cfg env
      by (simp add: world_expirer [symmetric])
    from wa.expire_pending_frames [OF inv this] have "w_ainv w1 \<and> w_keys w1 = w_keys w" by simp
    with beside_same [OF fr] expire_table [OF inv(2) ex] i ch ok show ?thesis
      by (intro ok_unclaimed [of w w']) auto
  qed
  from inv(1) step show ?thesis
  proof (rule wc.resolve_cases)
    assume "w' = w" with ok show ?thesis by simp
  next
    fix e cur x
    assume "ExpirePending approval_store_only c (inc_ID cur) (evens f) w = (x, w')" "w_iinv w'"
    then show ?thesis by (intro expired) auto
  next
    fix e cur n w1
    assume "ExpirePending approval_store_only c (inc_ID cur) (evens f) w = (Inr n, w1)"
      "((), beside_incidents w') = ((), beside_incidents w1)" "w_iinv w'"
    then show ?thesis by (rule expired)
  next
    fix cur inc n w1 ev
    assume "ExpirePending approval_store_only c (inc_ID cur) (evens f) w = (Inr n, w1)"
      "((), beside_incidents w') = ((), beside_incidents w1)" "w_iinv w'"
    then show ?thesis by (rule expired)
  qed
qed

lemma reject_step_ok:
  assumes ok: "system_ok w" and step: "Reject (world_approvals cfg env) c i actor f w = (r, w')"
  shows "system_ok w'"
proof -
  have inv: "w_iinv w" "w_ainv w" using ok by (simp_all add: system_ok_def)
  note ch = wh.reject_changes [OF inv step]
  from inv step show ?thesis
  proof (rule wa.reject_cases)
    fix e assume "w_astored w' = w_astored w" "w_keys w' = w_keys w" "w_iinv w'" "w_ainv w'"
    then show ?thesis by (intro ok_incidents [OF ok _ _ ch])
  next
    fix a b
    assume h: "w_astored w i = Some a" "w_astored w' = (w_astored w)(i \<mapsto> b)" "ap_Status b = ApprovalRejected"
      "advanced (w_astored w) i (w_astored w')" "w_keys w' = w_keys w" "w_iinv w'" "w_ainv w'"
    have keep: "claimed x" if "w_astored w j = Some x" "w_astored w' j = Some y" "claimed y" for j x y
      using h(1-3) that by (cases "j = i") (auto simp: claimed_def)
    show ?thesis by (rule ok_unclaimed [OF ok h(6,7) ch advanced_evolves [OF h(4)] keep h(5)])
  qed
qed

lemma fresh_binding:
  assumes ok: "system_ok w" and res: "resolveIncidentID (world_approvals cfg env) c runID w = Inr inc"
  shows "inc \<noteq> '''' \<and> (\<exists>x. w_istored w inc = Some x)"
proof -
  have inv: "w_iinv w" "incidents_named (w_istored w)" using ok by (simp_all add: system_ok_def)
  from res obtain x where "svc_Get world_incidents c inc w = Inr x"
    by (auto simp: resolveIncidentID_def world_approvals_def split: if_splits sum.splits)
  then have "ir_GetByID world_incident_repo c inc w = Inr x" by (simp add: svc_Get_def world_incidents_def)
  from wi.get_ok [OF inv(1) this] inv(2) show ?thesis by (auto simp: incidents_named_def)
qed

text \<open>Adding an unclaimed approval bound to an incident of the table.\<close>

lemma put_unclaimed:
  assumes "t i = None" and "\<not> claimed a" and "ap_IncidentID a \<noteq> ''''" and "s (ap_IncidentID a) \<noteq> None"
  shows "bindings_ok t s \<Longrightarrow> bindings_ok (t(i \<mapsto> a)) s"
    and "one_claim t \<Longrightarrow> one_claim (t(i \<mapsto> a))"
    and "calls_ok ks t \<Longrightarrow> calls_ok ks (t(i \<mapsto> a))"
proof -
  show "bindings_ok t s \<Longrightarrow> bindings_ok (t(i \<mapsto> a)) s"
    using assms by (auto simp: bindings_ok_def)
  show "one_claim t \<Longrightarrow> one_claim (t(i \<mapsto> a))"
    using assms by (auto simp: one_claim_def)
  show "calls_ok ks t \<Longrightarrow> calls_ok ks (t(i \<mapsto> a))"
    using assms by (fastforce simp: calls_ok_def)
qed

lemma request_step_ok:
  assumes ok: "system_ok w" and step: "Request (world_approvals cfg env) c runID callID act args why f w = (r, w')"
  shows "system_ok w'"
proof -
  have inv: "w_iinv w" "w_ainv w" using ok by (simp_all add: system_ok_def)
  note ch = wh.request_changes [OF inv step]
  have added: "system_ok w'" if a: "a = new_approval inc runID callID act args why f"
      and res: "resolveIncidentID (world_approvals cfg env) c runID w = Inr inc"
      and new: "w_astored w (ap_ID a) = None"
      and adv: "advanced ((w_astored w)(ap_ID a \<mapsto> a)) (ap_ID a) (w_astored w')"
      and unclaimed: "\<And>b. w_astored w' (ap_ID a) = Some b \<Longrightarrow> \<not> claimed b"
      and rest: "w_keys w' = w_keys w" "w_iinv w'" "w_ainv w'" for a inc
  proof -
    let ?t = "(w_astored w)(ap_ID a \<mapsto> a)"
    have una: "\<not> claimed a" "ap_IncidentID a = inc" using a by (simp_all add: new_approval_def claimed_def)
    from fresh_binding [OF ok res] una have b: "ap_IncidentID a \<noteq> ''''" "w_istored w (ap_IncidentID a) \<noteq> None" by auto
    have okt: "bindings_ok ?t (w_istored w)" "one_claim ?t" "calls_ok (w_keys w) ?t"
      using put_unclaimed [of "w_astored w" "ap_ID a" a "w_istored w", OF new una(1) b] ok unfolding system_ok_def by blast+
    have origin: "claimed x" if "?t j = Some x" "w_astored w' j = Some y" "claimed y" for j x y
      using that unclaimed adv by (cases "j = ap_ID a") (auto simp: advanced_def)
    have "bindings_ok (w_astored w') (w_istored w)" "one_claim (w_astored w')" "calls_ok (w_keys w') (w_astored w')"
      using evolve_bindings [OF okt(1) advanced_evolves [OF adv]] evolve_one_claim [OF okt(2) advanced_evolves [OF adv]]
        evolve_calls [OF okt(3) advanced_evolves [OF adv]] origin rest(1) by auto
    with ok rest changes_ok [OF ch] changes_named [OF ch] changes_bindings [OF _ ch] show ?thesis
      by (auto simp: system_ok_def)
  qed
  from inv step show ?thesis
  proof (rule wa.request_cases)
    fix e assume "w_astored w' = w_astored w" "w_keys w' = w_keys w" "w_iinv w'" "w_ainv w'"
    then show ?thesis by (intro ok_incidents [OF ok _ _ ch])
  next
    fix inc a
    assume "resolveIncidentID (world_approvals cfg env) c runID w = Inr inc"
      "a = new_approval inc runID callID act args why f" "w_astored w (ap_ID a) = None"
      "w_astored w' = (w_astored w)(ap_ID a \<mapsto> a)" "w_keys w' = w_keys w" "w_iinv w'" "w_ainv w'"
    then show ?thesis by (intro added [of a inc]) (auto simp: claimed_def new_approval_def)
  qed (blast intro: added)
qed


text \<open>The step that claims: it sets \<open>i\<close> alone, from PENDING, while its incident waited.\<close>

lemma claim_keeps:
  assumes b: "bindings_ok t s" and o: "one_claim t" and k: "calls_ok ks t"
    and t: "t i = Some x" "ap_Status x = ApprovalPending" "t' i = Some y" "claimed y" "same_binding x y"
      "\<And>j. j \<noteq> i \<Longrightarrow> t' j = t j"
    and wait: "s (ap_IncidentID x) = Some inc" "inc_Status inc = StatusWaitingApproval"
    and past: "bindings_ok t s'" "s' (ap_IncidentID x) = Some inc'" "3 \<le> stage (inc_Status inc')"
    and ks: "ks' = ks \<or> ks' = ks @ [i]"
  shows "bindings_ok t' s'" and "one_claim t'" and "calls_ok ks' t'"
proof -
  have same: "ap_IncidentID y = ap_IncidentID x" and un: "\<not> claimed x" using t(2,5) by (auto simp: same_binding_def claimed_def)
  show "bindings_ok t' s'"
    unfolding bindings_ok_def
  proof (intro allI impI)
    fix j a
    assume "t' j = Some a"
    with t past b same show "ap_IncidentID a \<noteq> '''' \<and> (\<exists>inc. s' (ap_IncidentID a) = Some inc \<and> (claimed a \<longrightarrow> 3 \<le> stage (inc_Status inc)))"
      by (cases "j = i") (auto simp: bindings_ok_def)
  qed
  have none: "ap_IncidentID a \<noteq> ap_IncidentID x" if "t j = Some a" "claimed a" for j a
    using b that wait unfolding bindings_ok_def by fastforce
  show "one_claim t'"
    unfolding one_claim_def
  proof (intro allI impI)
    fix j k a b
    assume h: "t' j = Some a" "t' k = Some b" "claimed a" "claimed b" "ap_IncidentID a = ap_IncidentID b"
    have other: "ap_IncidentID d \<noteq> ap_IncidentID x" if "t' l = Some d" "claimed d" "l \<noteq> i" for l d
      using none [of l d] that t(6) [of l] by simp
    have mine: "d = y" if "t' i = Some d" for d using that t(3) by simp
    show "j = k"
    proof (cases "j = i \<or> k = i")
      case True
      with h other mine same show ?thesis by metis
    next
      case False
      with h t(6) [of j] t(6) [of k] have "t j = Some a" "t k = Some b" by simp_all
      with o h(3-5) show ?thesis unfolding one_claim_def by blast
    qed
  qed
  have "i \<notin> set ks" using k t(1) un by (auto simp: calls_ok_def)
  then have "distinct ks'" using k ks by (auto simp: calls_ok_def)
  moreover have "\<exists>a. t' j = Some a \<and> claimed a" if "j \<in> set ks'" for j
    using that ks k t(3,4,6) by (cases "j = i") (auto simp: calls_ok_def)
  ultimately show "calls_ok ks' t'" by (simp add: calls_ok_def)
qed


lemma approve_step_ok:
  assumes ok: "system_ok w" and step: "Approve (world_approvals cfg env) c i actor f w = (r, w')"
  shows "system_ok w'"
proof -
  have inv: "w_iinv w" "w_ainv w" using ok by (simp_all add: system_ok_def)
  note ch = wh.approve_changes [OF inv step]
  from inv step show ?thesis
  proof (rule wa.approve_cases)
    fix e assume "w_astored w' = w_astored w" "w_keys w' = w_keys w" "w_iinv w'" "w_ainv w'"
    then show ?thesis by (intro ok_incidents [OF ok _ _ ch])
  next
    fix a e
    assume h: "w_astored w i = Some a" "advanced (w_astored w) i (w_astored w')" "w_keys w' = w_keys w"
      "w_iinv w'" "w_ainv w'" and un: "\<And>b. w_astored w' i = Some b \<Longrightarrow> ap_Status b \<in> {ApprovalApproved, ApprovalExpired}"
    have keep: "claimed x" if "w_astored w j = Some x" "w_astored w' j = Some y" "claimed y" for j x y
      using h(2) un that by (cases "j = i") (fastforce simp: advanced_def claimed_def)+
    show ?thesis by (rule ok_unclaimed [OF ok h(4,5) ch advanced_evolves [OF h(2)] keep h(3)])
  next
    fix a b
    assume h: "w_astored w i = Some a" "ap_Status a = ApprovalPending"
      "advanced (w_astored w) i (w_astored w')" "w_iinv w'" "w_ainv w'" "w_astored w' i = Some b" "claimed b"
      "w_keys w' = w_keys w \<or> w_keys w' = w_keys w @ [i]"
    from ok h(1) have bound: "ap_IncidentID a \<noteq> []" unfolding system_ok_def bindings_ok_def by blast
    from wh.approve_claims [OF inv step h(1,2) bound h(6,7)] obtain x y where
      xy: "w_istored w (ap_IncidentID a) = Some x" "inc_Status x = StatusWaitingApproval"
        "w_istored w' (ap_IncidentID a) = Some y" "3 \<le> stage (inc_Status y)" by blast
    have same: "same_binding a b" and rest: "\<And>j. j \<noteq> i \<Longrightarrow> w_astored w' j = w_astored w j"
      using h(1,3,6) by (simp_all add: advanced_def)
    have okw: "bindings_ok (w_astored w) (w_istored w)" "one_claim (w_astored w)" "calls_ok (w_keys w) (w_astored w)"
      using ok by (simp_all add: system_ok_def)
    have "bindings_ok (w_astored w) (w_istored w')" using changes_bindings [OF _ ch] okw(1) by simp
    note claim_keeps [OF okw h(1,2,6,7) same rest xy(1,2) this xy(3,4) h(8)]
    moreover have "history_ok (w_view w')" using changes_ok [OF ch] ok by (simp add: system_ok_def)
    moreover have "incidents_named (w_istored w')" using changes_named [OF ch] ok by (simp add: system_ok_def)
    ultimately show ?thesis using h(4,5) by (simp add: system_ok_def)
  qed
qed

lemma run_step_frame: "run_step w w' \<Longrightarrow> w_incidents w' = w_incidents w \<and> w_approvals w' = w_approvals w \<and> w_calls w' = w_calls w"
  by (induction rule: run_step.induct)
     (auto simp: world_run_repo_def lift_run_repo_def through_def put_runs_def split: prod.splits)

lemma system_step_ok: "system_step cfg w w' \<Longrightarrow> system_ok w \<Longrightarrow> system_ok w'"
proof (induction rule: system_step.induct)
  case (create c inp f w r w')
  then show ?case by (rule create_step_ok [rotated])
next
  case (analyze c i f w r w')
  from transition_step_ok [OF this(2) this(1) [unfolded svc_ops]] show ?case by simp
next
  case (resolve c i f w r w')
  from transition_step_ok [OF this(2) this(1) [unfolded svc_ops]] show ?case by simp
next
  case (resolve_externally c fp f w r w')
  then show ?case by (rule external_step_ok [rotated])
next
  case (dead_letter c i reason err f w r w')
  from transition_step_ok [OF this(2) this(1) [unfolded svc_ops]] show ?case by simp
next
  case (request env c inp f w x w')
  then show ?case
    by (auto simp: restart_request_def system_tool_def SetApproval_def split: if_splits sum.splits option.splits prod.splits
        intro: request_step_ok)
next
  case (approve env c i actor f w a w')
  then show ?case by (rule approve_step_ok [rotated])
next
  case (reject env c i actor f w a w')
  then show ?case by (rule reject_step_ok [rotated])
next
  case (runs w w')
  then show ?case using run_step_frame [OF runs.hyps] by (simp add: system_ok_def world_views)
qed (simp_all add: system_ok_def world_views)

lemma reachable_ok: "reachable cfg w \<Longrightarrow> system_ok w"
  by (induction rule: reachable.induct) (auto intro: empty_ok system_step_ok)


section \<open>What a step may change\<close>

text \<open>Existing approvals evolve along the life cycle.\<close>

definition kept :: "(string \<Rightarrow> approval option) \<Rightarrow> (string \<Rightarrow> approval option) \<Rightarrow> bool" where
  "kept t t' = (\<forall>j a. t j = Some a \<longrightarrow> evolves (Some a) (t' j))"

lemma kept_refl [simp]: "kept t t"
  by (simp add: kept_def)

lemma kept_advanced: "advanced t i t' \<Longrightarrow> kept t t'"
  unfolding kept_def using advanced_evolves by metis

lemma kept_put: "t i = None \<Longrightarrow> kept (t(i \<mapsto> a)) t' \<Longrightarrow> kept t t'"
  unfolding kept_def by (metis fun_upd_other option.discI)

lemma beside_change:
  assumes "w_iinv w" and "((), beside_incidents w') = ((), beside_incidents w)"
  shows "kept (w_astored w) (w_astored w')"
  using beside_same [OF assms(2)] by simp

lemma transition_step_change:
  assumes "system_ok w" and "transitionWithAudit world_incidents c i to reason err ty pl f w = (r, w')"
    and "business_type ty"
  shows "incident_changes (w_view w) (w_view w') \<and> kept (w_astored w) (w_astored w')"
proof -
  have inv: "w_iinv w" using assms(1) by (simp add: system_ok_def)
  from wi.transition_changes [OF inv assms(2,3)] beside_change [OF inv wi.transition_keeps(2) [OF inv assms(2)]]
  show ?thesis by simp
qed

lemma create_step_change:
  assumes "system_ok w" and "svc_Create world_incidents c inp f w = (r, w')"
  shows "incident_changes (w_view w) (w_view w') \<and> kept (w_astored w) (w_astored w')"
proof -
  have inv: "w_iinv w" using assms(1) by (simp add: system_ok_def)
  from inv assms(2) have "((), beside_incidents w') = ((), beside_incidents w)"
    by (rule wi.create_cases) simp_all
  with beside_change [OF inv] wi.create_changes [OF inv assms(2)] show ?thesis by blast
qed

lemma external_step_change:
  assumes ok: "system_ok w" and step: "ResolveExternally world_incidents c fp f w = (r, w')"
  shows "incident_changes (w_view w) (w_view w') \<and> kept (w_astored w) (w_astored w')"
proof -
  have inv: "w_iinv w" "w_ainv w" using ok by (simp_all add: system_ok_def)
  have expired: "kept (w_astored w) (w_astored w')" if "ExpirePending approval_store_only c i g w = (x, w1)"
      and fr: "((), beside_incidents w') = ((), beside_incidents w1)" for i g x w1
    using expire_table(1) [OF inv(2) that(1)] beside_same [OF fr] unfolding kept_def by metis
  from inv(1) step have "kept (w_astored w) (w_astored w')"
    by (rule wc.resolve_cases) (simp, (erule expired, simp)+)
  with wc.resolve_changes [OF inv(1) step] show ?thesis by simp
qed

lemma approval_step_change:
  assumes "system_ok w"
  shows "Approve (world_approvals cfg env) c i actor f w = (r, w') \<Longrightarrow> kept (w_astored w) (w_astored w')"
    and "Reject (world_approvals cfg env) c i actor f w = (r, w') \<Longrightarrow> kept (w_astored w) (w_astored w')"
    and "Request (world_approvals cfg env) c runID callID act args why f w = (r, w') \<Longrightarrow> kept (w_astored w) (w_astored w')"
proof -
  have inv: "w_iinv w" "w_ainv w" using assms by (simp_all add: system_ok_def)
  show "kept (w_astored w) (w_astored w')" if "Approve (world_approvals cfg env) c i actor f w = (r, w')"
    using inv that by (rule wa.approve_cases) (simp, (erule kept_advanced)+)
  show "kept (w_astored w) (w_astored w')" if "Reject (world_approvals cfg env) c i actor f w = (r, w')"
    using inv that by (rule wa.reject_cases) (simp, erule kept_advanced)
  show "kept (w_astored w) (w_astored w')" if "Request (world_approvals cfg env) c runID callID act args why f w = (r, w')"
    using inv that by (rule wa.request_cases) (use kept_put kept_advanced kept_refl in metis)+
qed

lemma system_step_change:
  "system_step cfg w w' \<Longrightarrow> system_ok w
    \<Longrightarrow> incident_changes (w_view w) (w_view w') \<and> kept (w_astored w) (w_astored w')"
proof (induction rule: system_step.induct)
  case (create c inp f w r w')
  then show ?case by (rule create_step_change [rotated])
next
  case (analyze c i f w r w')
  from transition_step_change [OF this(2) this(1) [unfolded svc_ops]] show ?case by simp
next
  case (resolve c i f w r w')
  from transition_step_change [OF this(2) this(1) [unfolded svc_ops]] show ?case by simp
next
  case (resolve_externally c fp f w r w')
  then show ?case by (rule external_step_change [rotated])
next
  case (dead_letter c i reason err f w r w')
  from transition_step_change [OF this(2) this(1) [unfolded svc_ops]] show ?case by simp
next
  case (request env c inp f w x w')
  then have inv: "w_iinv w" "w_ainv w" by (simp_all add: system_ok_def)
  from request.hyps have "w' = w \<or> (\<exists>run call args why r. Request (world_approvals cfg env) c run call ''restart_worker'' args why f w = (r, w'))"
    by (auto simp: restart_request_def system_tool_def SetApproval_def split: if_splits sum.splits option.splits prod.splits)
  with approval_step_change(3) [OF request.prems] wh.request_changes [OF inv] show ?case by fastforce
next
  case (approve env c i actor f w a w')
  then have inv: "w_iinv w" "w_ainv w" by (simp_all add: system_ok_def)
  from approval_step_change(1) [OF approve.prems approve.hyps] wh.approve_changes [OF inv approve.hyps] show ?case by simp
next
  case (reject env c i actor f w a w')
  then have inv: "w_iinv w" "w_ainv w" by (simp_all add: system_ok_def)
  from approval_step_change(2) [OF reject.prems reject.hyps] wh.reject_changes [OF inv reject.hyps] show ?case by simp
next
  case (runs w w')
  then show ?case using run_step_frame [OF runs.hyps] by (simp add: world_views)
qed (simp_all add: world_views)

end
