(* ===== verification/Run_Safety.thy ===== *)
theory Run_Safety
  imports System
begin

text \<open>
  Who writes the run tables: of all the steps of the system only those of the run repository do. So
  the one-active-run invariant of that repository holds in every reachable state, and an approval,
  its execution and its verification never touch what an agent run recorded.
\<close>

section \<open>Operations beside the run tables\<close>

lemma runs_incident_repo:
  "ir_CreateWithEvent world_incident_repo c inc ev w = (x, w') \<Longrightarrow> w_runs w' = w_runs w"
  "ir_UpdateWithEvent world_incident_repo c inc ev w = (y, w') \<Longrightarrow> w_runs w' = w_runs w"
  "ir_UpdateWithEvents world_incident_repo c inc evs w = (y, w') \<Longrightarrow> w_runs w' = w_runs w"
  by (auto simp: world_incident_repo_def lift_incident_repo_def put_incidents_def dest!: throughD)

lemma runs_approval_repo:
  "ar_Create world_approval_repo c a w = (x, w') \<Longrightarrow> w_runs w' = w_runs w"
  "ar_TransitionStatus world_approval_repo c i frm to m now w = (y, w') \<Longrightarrow> w_runs w' = w_runs w"
  "ar_ExpirePendingByIncident world_approval_repo c i f w = (z, w') \<Longrightarrow> w_runs w' = w_runs w"
  by (auto simp: world_approval_repo_def lift_approval_repo_def put_approvals_def dest!: throughD)

lemma world_incidents_simps [simp]:
  "is_repo world_incidents = world_incident_repo" "is_count world_incidents = count_metric"
  "is_expirer world_incidents = Some (ExpirePending approval_store_only)"
  by (simp_all add: world_incidents_def)

lemma world_approvals_simps [simp]:
  "as_repo (world_approvals cfg env) = world_approval_repo" "as_count (world_approvals cfg env) = count_metric"
  "as_incidents (world_approvals cfg env) = Some world_incidents"
  "as_executor (world_approvals cfg env) = Some (world_executor cfg env)"
  "as_publish (world_approvals cfg env) r t d w = publish_event r \<lparr>se_Type = t, se_Data = d\<rparr> w"
  by (simp_all add: world_approvals_def as_publish_def)

lemma runs_transition:
  "transitionWithAudit world_incidents c i to reason err ty pl f w = (r, w') \<Longrightarrow> w_runs w' = w_runs w"
  by (auto simp: transitionWithAudit_def Let_def split: sum.splits option.splits if_splits prod.splits dest: runs_incident_repo)

lemma runs_svc:
  "MoveToWithAudit world_incidents c i to ty pl f w = (r, w') \<Longrightarrow> w_runs w' = w_runs w"
  "svc_MoveTo world_incidents c i to f w = (r, w') \<Longrightarrow> w_runs w' = w_runs w"
  "svc_Analyze world_incidents c i f w = (r, w') \<Longrightarrow> w_runs w' = w_runs w"
  "svc_Resolve world_incidents c i f w = (r, w') \<Longrightarrow> w_runs w' = w_runs w"
  "svc_Fail world_incidents c i reason err f w = (r, w') \<Longrightarrow> w_runs w' = w_runs w"
  by (auto simp: svc_ops intro: runs_transition)

lemma runs_create: "svc_Create world_incidents c inp f w = (r, w') \<Longrightarrow> w_runs w' = w_runs w"
  by (auto simp: svc_Create_def Let_def split: sum.splits option.splits if_splits prod.splits dest: runs_incident_repo)

lemma runs_external:
  assumes "ResolveExternally world_incidents c fp f w = (r, w')"
  shows "w_runs w' = w_runs w"
proof -
  have "ExpirePending approval_store_only c i g v = (x, v') \<Longrightarrow> w_runs v' = w_runs v" for i g v x v'
    by (auto simp: ExpirePending_def approval_store_only_def split: if_splits dest: runs_approval_repo)
  with assms show ?thesis
    by (auto simp: ResolveExternally_def Let_def split: sum.splits option.splits if_splits prod.splits
        dest!: runs_incident_repo)
qed

lemma runs_move: "moveIncident (world_approvals cfg env) c a next f w = (x, w') \<Longrightarrow> w_runs w' = w_runs w"
  by (auto simp: moveIncident_def split: sum.splits option.splits if_splits prod.splits dest: runs_svc)

lemma runs_expire: "expire_approval (world_approvals cfg env) c a frm cause f w = (e, w') \<Longrightarrow> w_runs w' = w_runs w"
  by (auto simp: expire_approval_def split: sum.splits if_splits prod.splits dest: runs_approval_repo)

lemma runs_request:
  "Request (world_approvals cfg env) c runID callID act args why f w = (r, w') \<Longrightarrow> w_runs w' = w_runs w"
  by (auto simp: Request_def Let_def split: sum.splits option.splits if_splits prod.splits
      dest!: runs_approval_repo runs_move runs_expire)

lemma runs_reject: "Reject (world_approvals cfg env) c i actor f w = (r, w') \<Longrightarrow> w_runs w' = w_runs w"
  by (auto simp: Reject_def Let_def split: sum.splits option.splits if_splits prod.splits
      dest!: runs_approval_repo runs_move)

section \<open>Executing an approved action\<close>

lemma world_remediation_simps [simp]:
  "rm_incidents (world_remediation cfg env) = Some world_incidents" "rm_runs (world_remediation cfg env) = Some world_run_repo"
  "rm_publish (world_remediation cfg env) r t d w = publish_event r \<lparr>se_Type = t, se_Data = d\<rparr> w"
  by (simp_all add: world_remediation_def rm_publish_def)

lemma runs_tool:
  assumes "tool_Execute (rm_restart (world_remediation cfg env)) c action args w = (x, w')"
  shows "w_runs w' = w_runs w"
  using tool_Execute_calls [OF assms] world_client [of cfg env] by fastforce

lemma runs_close:
  "verify_and_close (world_remediation cfg env) world_incidents runs c action runID inc i op f w = (r, w') \<Longrightarrow> w_runs w' = w_runs w"
  by (auto simp: verify_and_close_def Let_def split: prod.splits sum.splits if_splits dest!: runs_svc)

lemma runs_remediation:
  assumes "remediation_Execute (world_remediation cfg env) c action args runID f w = (r, w')"
  shows "w_runs w' = w_runs w"
proof (cases "\<exists>x w1. tool_Execute (rm_restart (world_remediation cfg env)) c action args w = (x, w1)
    \<and> (w' = w1 \<or> (\<exists>i to ty pl y. MoveToWithAudit world_incidents c i to ty pl f w1 = (y, w'))
       \<or> (\<exists>i to ty pl y w2 inc op res. MoveToWithAudit world_incidents c i to ty pl f w1 = (y, w2)
            \<and> verify_and_close (world_remediation cfg env) world_incidents world_run_repo c action runID inc i op (later 4 2 f) w2 = (res, w')))")
  case True
  then show ?thesis by (metis runs_tool runs_svc(1) runs_close)
next
  case False
  with assms have "w' = w"
    by (fastforce simp: remediation_Execute_def Let_def split: sum.splits if_splits prod.splits)
  then show ?thesis by simp
qed

lemma runs_execute: "world_executor cfg env c action args runID f w = (r, w') \<Longrightarrow> w_runs w' = w_runs w"
  by (auto simp: world_executor_def observed_Execute_def observeClosure_def Let_def
      split: prod.splits sum.splits if_splits option.splits dest!: runs_remediation)

lemma runs_claimed:
  "executeClaimed (world_approvals cfg env) (world_executor cfg env) c a f w = (r, w') \<Longrightarrow> w_runs w' = w_runs w"
  by (auto simp: executeClaimed_def Let_def split: sum.splits prod.splits if_splits
      dest!: runs_approval_repo runs_execute)

lemma runs_approve: "Approve (world_approvals cfg env) c i actor f w = (r, w') \<Longrightarrow> w_runs w' = w_runs w"
  by (auto simp: Approve_def Let_def split: sum.splits option.splits prod.splits if_splits
      dest!: runs_approval_repo runs_move runs_expire runs_claimed)

lemma runs_restart:
  "restart_request (system_tool cfg env) c inp f w = (x, w') \<Longrightarrow> w_runs w' = w_runs w"
  by (auto simp: restart_request_def system_tool_def SetApproval_def split: if_splits sum.splits option.splits prod.splits
      dest!: runs_request)

section \<open>The run tables\<close>

lemma system_step_runs:
  "system_step cfg w w' \<Longrightarrow> run_step w w' \<or> w_runs w' = w_runs w"
  by (induction rule: system_step.induct)
     (auto dest: runs_create runs_svc runs_external runs_restart runs_approve runs_reject)

lemma add_evidence_frame:
  "rr_AddEvidence world_run_repo c e w = (x, w') \<Longrightarrow> w_rstored w' = w_rstored w
    \<and> memr_calls (w_runs w') = memr_calls (w_runs w) \<and> w_rinv w' = w_rinv w"
  by (auto simp: world_run_repo_def lift_run_repo_def memory_run_repo_def memr_AddEvidence_def put_runs_def world_views
      memr_stored_def memr_calls_def memr_inv_def dest!: throughD)

lemma run_step_inv: "run_step w w' \<Longrightarrow> w_rinv w \<Longrightarrow> w_rinv w'"
proof (induction rule: run_step.induct)
  case (create_run c run w e w')
  then show ?case by (cases e) (use wr.rcreate_ok wr.rcreate_err in blast)+
next
  case (update_run c run w e w')
  then show ?case by (cases e) (use wr.rupdate_ok wr.rupdate_err in blast)+
next
  case (add_step c stp w e w')
  then show ?case using wr.rstep_frame by blast
next
  case (add_call c call w e w')
  then show ?case by (cases e) (use wr.rcall_ok wr.rcall_err in blast)+
next
  case (update_call c call w e w')
  then show ?case using wr.rcomplete_frame by blast
next
  case (add_evidence c evd w e w')
  then show ?case using add_evidence_frame by blast
qed

lemma system_step_rinv: "system_step cfg w w' \<Longrightarrow> w_rinv w \<Longrightarrow> w_rinv w'"
  using system_step_runs [of cfg w w'] run_step_inv [of w w'] by (auto simp: w_rinv_def)

lemma reachable_rinv: "reachable cfg w \<Longrightarrow> w_rinv w"
  by (induction rule: reachable.induct) (auto intro: empty_world_ok system_step_rinv)

end
