(* ===== verification/Recorder.thy ===== *)
theory Recorder
  imports Run_Repo Incident_Service Policy_Registry Json
begin

text \<open>
  \<open>internal/agent/runtime\<close>: the recorder of an agent run, the wrapper that records every tool call,
  and \<open>Diagnose\<close>, which runs the agent between the creation of the run and its final status. The
  agent itself is a third-party ReAct loop around a language model: here a strategy, a finite tree
  that decides on each tool result what to do next, and an argument of \<open>Diagnose\<close>.
\<close>

section \<open>Context values\<close>

definition WithRunID :: "ctx \<Rightarrow> string \<Rightarrow> ctx" where "WithRunID c runID = c\<lparr>cx_run_id := runID\<rparr>"
definition RunIDFrom :: "ctx \<Rightarrow> string" where "RunIDFrom c = cx_run_id c"
definition WithToolCallID :: "ctx \<Rightarrow> string \<Rightarrow> ctx" where "WithToolCallID c i = c\<lparr>cx_tool_call_id := i\<rparr>"
definition ToolCallIDFrom :: "ctx \<Rightarrow> string" where "ToolCallIDFrom c = cx_tool_call_id c"

section \<open>The recorder\<close>

record 'w recorder =
  rx_runRepo :: "'w run_repo"
  rx_broker :: "(string \<Rightarrow> stream_event \<Rightarrow> 'w \<Rightarrow> 'w) option"
  rx_count :: "metric \<Rightarrow> 'w \<Rightarrow> 'w"
  rx_run :: agent_run
  rx_stepIdx :: int
  rx_maxToolCalls :: int
  rx_toolCalls :: int

definition NewRecorder ::
  "'w run_repo \<Rightarrow> (string \<Rightarrow> stream_event \<Rightarrow> 'w \<Rightarrow> 'w) option \<Rightarrow> (metric \<Rightarrow> 'w \<Rightarrow> 'w) \<Rightarrow> incident \<Rightarrow> string
     \<Rightarrow> int \<Rightarrow> fresh \<Rightarrow> 'w recorder" where
  "NewRecorder repo broker count inc agentType maxToolCalls f =
     \<lparr>rx_runRepo = repo, rx_broker = broker, rx_count = count,
      rx_run = \<lparr>run_ID = ''run_'' @ uid f 0, run_IncidentID = inc_ID inc, run_AgentType = agentType,
        run_Status = RunRunning, run_Goal = inc_Title inc, run_CurrentStep = 0, run_StartedAt = clk f 0,
        run_FinishedAt = None, run_Error = ''''\<rparr>,
      rx_stepIdx = 0, rx_maxToolCalls = maxToolCalls, rx_toolCalls = 0\<rparr>"

definition checkToolCall :: "'w recorder \<Rightarrow> gerror option \<times> 'w recorder" where
  "checkToolCall r =
     (let r1 = r\<lparr>rx_toolCalls := rx_toolCalls r + 1\<rparr>
      in if rx_maxToolCalls r1 > 0 \<and> rx_toolCalls r1 > rx_maxToolCalls r1
         then (Some (sentinel_err ErrMaxToolCalls), r1) else (None, r1))"

definition rec_RunID :: "'w recorder \<Rightarrow> string" where "rec_RunID r = run_ID (rx_run r)"

definition rec_publish :: "'w recorder \<Rightarrow> string \<Rightarrow> payload \<Rightarrow> 'w \<Rightarrow> 'w" where
  "rec_publish r typ d w =
     (case rx_broker r of None \<Rightarrow> w | Some publish \<Rightarrow> publish (run_ID (rx_run r)) \<lparr>se_Type = typ, se_Data = d\<rparr> w)"

definition rec_Start :: "'w recorder \<Rightarrow> ctx \<Rightarrow> 'w \<Rightarrow> gerror option \<times> 'w" where
  "rec_Start r c w =
     (case rr_CreateRun (rx_runRepo r) c (rx_run r) w of
        (Some err, w1) \<Rightarrow> (Some err, w1)
      | (None, w1) \<Rightarrow>
          (None, rec_publish r ''run.started''
             [''run_id'' \<mapsto> VStr (run_ID (rx_run r)), ''incident_id'' \<mapsto> VStr (run_IncidentID (rx_run r))]
             (rx_count r (AgentRunsTotal (run_AgentType (rx_run r)) RunRunning) w1)))"

definition rec_Step ::
  "'w recorder \<Rightarrow> ctx \<Rightarrow> string \<Rightarrow> string \<Rightarrow> string \<Rightarrow> string \<Rightarrow> int \<Rightarrow> fresh \<Rightarrow> 'w
     \<Rightarrow> gerror option \<times> 'w recorder \<times> 'w" where
  "rec_Step r c agent action inp out durationMs f w =
     (let r1 = r\<lparr>rx_stepIdx := rx_stepIdx r + 1\<rparr>;
          s = \<lparr>step_ID = ''step_'' @ uid f 0, step_RunID = run_ID (rx_run r1), step_StepIndex = rx_stepIdx r1,
               step_Agent = agent, step_Action = action, step_Status = ''COMPLETED'', step_Input = inp,
               step_Output = out, step_Duration = durationMs\<rparr>
      in case rr_AddStep (rx_runRepo r1) c s w of
           (Some err, w1) \<Rightarrow> (Some (wrap_err ''persist run step: '' err), r1, w1)
         | (None, w1) \<Rightarrow>
             (None, r1, rec_publish r1 ''agent.thinking''
                [''agent'' \<mapsto> VStr agent, ''action'' \<mapsto> VStr action, ''step_index'' \<mapsto> VInt (rx_stepIdx r1)] w1))"

definition ToolStarted :: "'w recorder \<Rightarrow> string \<Rightarrow> 'w \<Rightarrow> 'w" where
  "ToolStarted r name w = rec_publish r ''tool.started'' [''tool'' \<mapsto> VStr name] w"

definition StartToolCall ::
  "'w recorder \<Rightarrow> ctx \<Rightarrow> string \<Rightarrow> string \<Rightarrow> string \<Rightarrow> string \<Rightarrow> time \<Rightarrow> 'w \<Rightarrow> gerror option \<times> 'w" where
  "StartToolCall r c callID name risk args now w =
     (case rr_AddToolCall (rx_runRepo r) c
             \<lparr>call_ID = callID, call_RunID = run_ID (rx_run r), call_ToolName = name, call_RiskLevel = risk,
              call_Arguments = args, call_Result = '''', call_Status = ''RUNNING'', call_DurationMs = 0,
              call_CreatedAt = now\<rparr> w of
        (Some err, w1) \<Rightarrow> (Some (wrap_err (''persist tool call '' @ callID @ '': '') err), w1)
      | (None, w1) \<Rightarrow> (None, w1))"

definition CompleteToolCall ::
  "'w recorder \<Rightarrow> ctx \<Rightarrow> string \<Rightarrow> string \<Rightarrow> string \<Rightarrow> gerror option \<Rightarrow> int \<Rightarrow> 'w \<Rightarrow> gerror option \<times> 'w" where
  "CompleteToolCall r c callID name result callErr durationMs w =
     (let status = (if callErr \<noteq> None then ''FAILED'' else ''COMPLETED'')
      in case rr_UpdateToolCall (rx_runRepo r) (without_cancel c)
                \<lparr>call_ID = callID, call_RunID = run_ID (rx_run r), call_ToolName = '''', call_RiskLevel = '''',
                 call_Arguments = '''', call_Result = result, call_Status = status, call_DurationMs = durationMs,
                 call_CreatedAt = 0\<rparr> w of
           (Some err, w1) \<Rightarrow> (Some (wrap_err (''persist tool call '' @ callID @ '' result: '') err), w1)
         | (None, w1) \<Rightarrow>
             (None, rec_publish r ''tool.completed''
                [''tool'' \<mapsto> VStr name, ''status'' \<mapsto> VStr status, ''duration_ms'' \<mapsto> VInt durationMs]
                (rx_count r (ToolCallsTotal name status) w1)))"

text \<open>\<open>Complete\<close> and \<open>Fail\<close> change the run in memory before they write it, so a failed write leaves
  the new status in the recorder.\<close>

definition rec_Complete :: "'w recorder \<Rightarrow> ctx \<Rightarrow> time \<Rightarrow> 'w \<Rightarrow> gerror option \<times> 'w recorder \<times> 'w" where
  "rec_Complete r c now w =
     (let r1 = r\<lparr>rx_run := (rx_run r)\<lparr>run_Status := RunCompleted, run_FinishedAt := Some now\<rparr>\<rparr>
      in case rr_UpdateRun (rx_runRepo r1) (without_cancel c) (rx_run r1) w of
           (Some err, w1) \<Rightarrow> (Some (wrap_err ''persist completed run: '' err), r1, w1)
         | (None, w1) \<Rightarrow>
             (None, r1, rec_publish r1 ''done'' [''run_id'' \<mapsto> VStr (run_ID (rx_run r1))]
                (rx_count r1 (AgentRunsTotal (run_AgentType (rx_run r1)) RunCompleted) w1)))"

definition rec_Fail :: "'w recorder \<Rightarrow> ctx \<Rightarrow> gerror \<Rightarrow> time \<Rightarrow> 'w \<Rightarrow> gerror option \<times> 'w recorder \<times> 'w" where
  "rec_Fail r c cause now w =
     (let r1 = r\<lparr>rx_run := (rx_run r)\<lparr>run_Status := RunFailed, run_FinishedAt := Some now, run_Error := err_text cause\<rparr>\<rparr>
      in case rr_UpdateRun (rx_runRepo r1) (without_cancel c) (rx_run r1) w of
           (Some err, w1) \<Rightarrow> (Some (wrap_err ''persist failed run: '' err), r1, w1)
         | (None, w1) \<Rightarrow>
             (None, r1, rec_publish r1 ''done''
                [''run_id'' \<mapsto> VStr (run_ID (rx_run r1)), ''error'' \<mapsto> VStr (err_text cause)]
                (rx_count r1 (AgentRunsTotal (run_AgentType (rx_run r1)) RunFailed) w1)))"

section \<open>Recorded tools\<close>

text \<open>A tool, given the timeout its context gets (in nanoseconds), returns a text and an error.\<close>

type_synonym 'w tool = "int \<Rightarrow> ctx \<Rightarrow> string \<Rightarrow> fresh \<Rightarrow> 'w \<Rightarrow> (string \<times> gerror option) \<times> 'w"

record 'w recording_tool =
  rtl_inner :: "'w tool"
  rtl_name :: string
  rtl_risk :: string
  rtl_timeout :: int

definition wrapTools :: "'w tool registry \<Rightarrow> int \<Rightarrow> 'w recording_tool list" where
  "wrapTools reg timeout =
     map (\<lambda>rt. \<lparr>rtl_inner = rt_Tool rt, rtl_name = rt_Name rt, rtl_risk = risk_string (rt_RiskLevel rt),
                rtl_timeout = timeout\<rparr>) (registry_All reg)"

definition join_opt :: "gerror option \<Rightarrow> gerror option \<Rightarrow> gerror option" where
  "join_opt a b = (case (a, b) of (None, x) \<Rightarrow> x | (x, None) \<Rightarrow> x | (Some e, Some e') \<Rightarrow> Some (errors_join e e'))"

definition milliseconds :: "int \<Rightarrow> int" where
  "milliseconds d = (if d \<ge> 0 then d div 1000000 else - (- d div 1000000))"

definition InvokableRun ::
  "'w recording_tool \<Rightarrow> ctx \<Rightarrow> string \<Rightarrow> fresh \<Rightarrow> 'w recorder \<times> 'w
     \<Rightarrow> (string \<times> gerror option) \<times> 'w recorder \<times> 'w" where
  "InvokableRun t c args f st =
     (case st of (r, w) \<Rightarrow>
     (case checkToolCall r of
        (Some err, r1) \<Rightarrow> (('''', Some err), r1, w)
      | (None, r1) \<Rightarrow>
          (let callID = ''call_'' @ uid f 0
           in case StartToolCall r1 c callID (rtl_name t) (rtl_risk t) args (clk f 0) w of
                (Some err, w1) \<Rightarrow> (('''', Some err), r1, w1)
              | (None, w1) \<Rightarrow>
                  (let w2 = ToolStarted r1 (rtl_name t) w1;
                       timeout = (if rtl_timeout t \<le> 0 then 30000000000 else rtl_timeout t)
                   in case rtl_inner t timeout (WithToolCallID c callID) args (evens (later 2 1 f)) w2 of
                        ((result, err), w3) \<Rightarrow>
                          (case CompleteToolCall r1 c callID (rtl_name t) result err
                                  (milliseconds (clk (odds (later 2 1 f)) 0 - clk f 1)) w3 of
                             (Some perr, w4) \<Rightarrow> ((result, join_opt err (Some perr)), r1, w4)
                           | (None, w4) \<Rightarrow> ((result, err), r1, w4))))))"

section \<open>The agent\<close>

text \<open>A strategy of the agent: finish, or call the tool at a position of the list it was built with and
  go on with what it returned. A position past the list is a tool the agent does not have.\<close>

datatype agent_plan =
    Finish "gerror + string"
  | CallTool nat string "string \<times> gerror option \<Rightarrow> agent_plan"

primrec run_plan ::
  "agent_plan \<Rightarrow> (ctx \<Rightarrow> string \<Rightarrow> fresh \<Rightarrow> 's \<Rightarrow> (string \<times> gerror option) \<times> 's) list \<Rightarrow> ctx \<Rightarrow> fresh \<Rightarrow> 's
     \<Rightarrow> (gerror + string) \<times> 's" where
  "run_plan (Finish out) tools c f s = (out, s)"
| "run_plan (CallTool n args next) tools c f s =
     (if n < length tools
      then (case (tools ! n) c args (evens f) s of (res, s') \<Rightarrow> run_plan (next res) tools c (odds f) s')
      else run_plan (next ('''', Some (plain_err ''tool not found''))) tools c (odds f) s)"

section \<open>The runtime\<close>

record 'w agent_runtime =
  rt_registry :: "'w tool registry"
  rt_maxSteps :: int
  rt_runRepo :: "'w run_repo option"
  rt_broker :: "(string \<Rightarrow> stream_event \<Rightarrow> 'w \<Rightarrow> 'w) option"
  rt_toolTimeout :: int
  rt_maxToolCalls :: int
  rt_runTimeout :: int
  rt_count :: "metric \<Rightarrow> 'w \<Rightarrow> 'w"

definition runtime_New :: "(metric \<Rightarrow> 'w \<Rightarrow> 'w) \<Rightarrow> 'w tool registry \<Rightarrow> int \<Rightarrow> 'w agent_runtime" where
  "runtime_New count reg maxSteps =
     \<lparr>rt_registry = reg, rt_maxSteps = (if maxSteps \<le> 0 then 15 else maxSteps), rt_runRepo = None, rt_broker = None,
      rt_toolTimeout = 0, rt_maxToolCalls = 0, rt_runTimeout = 0, rt_count = count\<rparr>"

definition WithRunRecording ::
  "'w run_repo \<Rightarrow> (string \<Rightarrow> stream_event \<Rightarrow> 'w \<Rightarrow> 'w) option \<Rightarrow> 'w agent_runtime \<Rightarrow> 'w agent_runtime" where
  "WithRunRecording repo broker rt = rt\<lparr>rt_runRepo := Some repo, rt_broker := broker\<rparr>"

definition WithToolLimits :: "int \<Rightarrow> int \<Rightarrow> 'w agent_runtime \<Rightarrow> 'w agent_runtime" where
  "WithToolLimits timeout maxToolCalls rt =
     (let rt1 = (if timeout > 0 then rt\<lparr>rt_toolTimeout := timeout\<rparr> else rt)
      in if maxToolCalls > 0 then rt1\<lparr>rt_maxToolCalls := maxToolCalls\<rparr> else rt1)"

definition WithRunTimeout :: "int \<Rightarrow> 'w agent_runtime \<Rightarrow> 'w agent_runtime" where
  "WithRunTimeout timeout rt = (if timeout > 0 then rt\<lparr>rt_runTimeout := timeout\<rparr> else rt)"

text \<open>The messages of a diagnosis: the system prompt, and the incident as JSON (a Go map, keys in order)
  behind a fixed Chinese sentence, here as UTF-8 bytes.\<close>

definition txt_diagnose :: string where
  "txt_diagnose = utf8_bytes
     [0xE8, 0xAF, 0xB7, 0xE8, 0xAF, 0x8A, 0xE6, 0x96, 0xAD, 0xE4, 0xBB, 0xA5, 0xE4, 0xB8, 0x8B, 0xE8, 0xBF, 0x90,
      0xE7, 0xBB, 0xB4, 0xE4, 0xBA, 0x8B, 0xE4, 0xBB, 0xB6, 0xEF, 0xBC, 0x8C, 0xE4, 0xBC, 0x98, 0xE5, 0x85, 0x88,
      0xE4, 0xBD, 0xBF, 0xE7, 0x94, 0xA8, 0xE5, 0xB7, 0xA5, 0xE5, 0x85, 0xB7, 0xE6, 0x94, 0xB6, 0xE9, 0x9B, 0x86,
      0xE8, 0xAF, 0x81, 0xE6, 0x8D, 0xAE, 0xEF, 0xBC, 0x8C, 0xE4, 0xB8, 0x8D, 0xE8, 0xA6, 0x81, 0xE5, 0x87, 0xAD,
      0xE7, 0xA9, 0xBA, 0xE7, 0x8C, 0x9C, 0xE6, 0xB5, 0x8B, 0xEF, 0xBC, 0x9A, 0x0A]"

definition BuildMessages :: "string \<Rightarrow> incident \<Rightarrow> (string \<times> string) list" where
  "BuildMessages systemPrompt inc =
     [(''system'', systemPrompt),
      (''user'', txt_diagnose @ json_encode (JObj
         [(''alert_name'', JStr (inc_AlertName inc)), (''description'', JStr (inc_Description inc)),
          (''service'', JStr (inc_Service inc)), (''severity'', JStr (inc_Severity inc)),
          (''status'', JStr (status_string (inc_Status inc))), (''title'', JStr (inc_Title inc))]))]"

text \<open>What the third-party agent does with the run's time limit, its context, the maximal number of steps,
  the names of its tools and the messages: fail to be built, or follow a plan.\<close>

type_synonym react_agent =
  "int \<Rightarrow> ctx \<Rightarrow> int \<Rightarrow> string list \<Rightarrow> (string \<times> string) list \<Rightarrow> gerror + agent_plan"

record diagnosis_result =
  dg_RunID :: string
  dg_Conclusion :: string

definition Diagnose_recorded ::
  "'w agent_runtime \<Rightarrow> react_agent \<Rightarrow> ctx \<Rightarrow> incident \<Rightarrow> string \<Rightarrow> 'w recorder \<Rightarrow> fresh \<Rightarrow> 'w
     \<Rightarrow> (gerror + diagnosis_result) \<times> 'w" where
  "Diagnose_recorded rt agent c0 inc prompt rec f w =
     (let tools = wrapTools (rt_registry rt) (rt_toolTimeout rt);
          c = WithRunID c0 (rec_RunID rec)
      in case agent (rt_runTimeout rt) c (rt_maxSteps rt) (map rtl_name tools) (BuildMessages prompt inc) of
           Inl err \<Rightarrow>
             (case rec_Fail rec c err (clk f 0) w of
                (ferr, rec1, w1) \<Rightarrow> (Inl (wrap_err ''build diagnosis agent: '' (the (join_opt (Some err) ferr))), w1))
         | Inr plan \<Rightarrow>
             (case run_plan plan (map InvokableRun tools) c (evens f) (rec, w) of
                (Inl err, rec1, w1) \<Rightarrow>
                  (case rec_Fail rec1 c err (clk (odds f) 0) w1 of
                     (ferr, rec2, w2) \<Rightarrow> (Inl (wrap_err ''run diagnosis: '' (the (join_opt (Some err) ferr))), w2))
              | (Inr content, rec1, w1) \<Rightarrow>
                  (case rec_Step rec1 c ''diagnosis'' ''finalize'' '''' content 0 (odds f) w1 of
                     (Some err, rec2, w2) \<Rightarrow>
                       (case rec_Fail rec2 c err (clk (odds f) 0) w2 of
                          (ferr, rec3, w3) \<Rightarrow> (Inl (the (join_opt (Some err) ferr)), w3))
                   | (None, rec2, w2) \<Rightarrow>
                       (case rec_Complete rec2 c (clk (odds f) 0) w2 of
                          (Some err, rec3, w3) \<Rightarrow>
                            (case rec_Fail rec3 c err (clk (odds f) 1) w3 of
                               (ferr, rec4, w4) \<Rightarrow> (Inl (the (join_opt (Some err) ferr)), w4))
                        | (None, rec3, w3) \<Rightarrow>
                            (Inr \<lparr>dg_RunID = rec_RunID rec3, dg_Conclusion = content\<rparr>, w3)))))"

definition Diagnose ::
  "'w agent_runtime \<Rightarrow> react_agent \<Rightarrow> ctx \<Rightarrow> incident \<Rightarrow> string \<Rightarrow> fresh \<Rightarrow> 'w
     \<Rightarrow> (gerror + diagnosis_result) \<times> 'w" where
  "Diagnose rt agent c inc prompt f w =
     (case rt_runRepo rt of
        Some repo \<Rightarrow>
          (let rec = NewRecorder repo (rt_broker rt) (rt_count rt) inc ''diagnosis'' (rt_maxToolCalls rt) f
           in case rec_Start rec c w of
                (Some err, w1) \<Rightarrow> (Inl err, w1)
              | (None, w1) \<Rightarrow> Diagnose_recorded rt agent c inc prompt rec (later 1 1 f) w1)
      | None \<Rightarrow>
          (let tools = map rt_Tool (registry_All (rt_registry rt))
           in case agent (rt_runTimeout rt) c (rt_maxSteps rt) (map rt_Name (registry_All (rt_registry rt)))
                   (BuildMessages prompt inc) of
                Inl err \<Rightarrow> (Inl (wrap_err ''build diagnosis agent: '' err), w)
              | Inr plan \<Rightarrow>
                  (case run_plan plan (map (\<lambda>t. t 0) tools) c f w of
                     (Inl err, w1) \<Rightarrow> (Inl (wrap_err ''run diagnosis: '' err), w1)
                   | (Inr content, w1) \<Rightarrow> (Inr \<lparr>dg_RunID = '''', dg_Conclusion = content\<rparr>, w1))))"

section \<open>What is recorded\<close>

text \<open>A recorder of a runtime and a repository.\<close>

definition recorder_of :: "'w agent_runtime \<Rightarrow> 'w run_repo \<Rightarrow> 'w recorder \<Rightarrow> bool" where
  "recorder_of rt repo r = (rx_runRepo r = repo \<and> rx_broker r = rt_broker rt \<and> rx_count r = rt_count rt)"

text \<open>The runtime on a run repository: telemetry and tools leave the tables of runs and tool calls
  alone (the tools may change everything else).\<close>

locale run_recording = run_repository rrepo rstored rcalls rinv rframe
  for rrepo :: "'w run_repo" and rstored rcalls rinv and rframe :: "'w \<Rightarrow> 'h" +
  fixes rt :: "'w agent_runtime"
  assumes rt_wiring: "rt_runRepo rt = Some rrepo"
    and rt_quiet: "rstored (rt_count rt m w) = rstored w" "rcalls (rt_count rt m w) = rcalls w" "rinv (rt_count rt m w) = rinv w"
    and rt_publish: "rt_broker rt = Some publish \<Longrightarrow> rstored (publish i ev w) = rstored w \<and> rcalls (publish i ev w) = rcalls w
      \<and> rinv (publish i ev w) = rinv w"
    and rt_tools: "t \<in> set (registry_All (rt_registry rt)) \<Longrightarrow> rinv w \<Longrightarrow> rt_Tool t tmo c args f w = (x, w')
      \<Longrightarrow> rinv w' \<and> rstored w' = rstored w \<and> rcalls w' = rcalls w"
begin

abbreviation ours :: "'w recorder \<Rightarrow> bool" where "ours \<equiv> recorder_of rt rrepo"

lemma ours_simps [simp]:
  "ours (r\<lparr>rx_run := x\<rparr>) = ours r" "ours (r\<lparr>rx_stepIdx := i\<rparr>) = ours r" "ours (r\<lparr>rx_toolCalls := i\<rparr>) = ours r"
  by (simp_all add: recorder_of_def)

lemma publish_quiet [simp]:
  assumes "ours r"
  shows "rstored (rec_publish r typ d w) = rstored w" "rcalls (rec_publish r typ d w) = rcalls w"
    "rinv (rec_publish r typ d w) = rinv w"
  using assms rt_publish by (auto simp: rec_publish_def recorder_of_def split: option.splits)

lemma count_quiet [simp]:
  assumes "ours r"
  shows "rstored (rx_count r m w) = rstored w" "rcalls (rx_count r m w) = rcalls w" "rinv (rx_count r m w) = rinv w"
  using assms rt_quiet by (simp_all add: recorder_of_def)

lemma complete_frame:
  assumes "rinv w" and "ours r" and "CompleteToolCall r c i name result err d w = (x, w')"
  shows "rcalls w' = rcalls w \<and> rstored w' = rstored w \<and> rinv w'"
proof -
  have repo: "rx_runRepo r = rrepo" using assms(2) by (simp add: recorder_of_def)
  obtain y w1 where upd: "rr_UpdateToolCall rrepo (without_cancel c)
      \<lparr>call_ID = i, call_RunID = run_ID (rx_run r), call_ToolName = '''', call_RiskLevel = '''',
       call_Arguments = '''', call_Result = result, call_Status = (if err \<noteq> None then ''FAILED'' else ''COMPLETED''),
       call_DurationMs = d, call_CreatedAt = 0\<rparr> w = (y, w1)" by force
  have "rcalls w' = rcalls w1 \<and> rstored w' = rstored w1 \<and> rinv w' = rinv w1"
  proof (cases y)
    case None
    with upd assms(3) repo have "w' = rec_publish r ''tool.completed''
        [''tool'' \<mapsto> VStr name, ''status'' \<mapsto> VStr (if err \<noteq> None then ''FAILED'' else ''COMPLETED''), ''duration_ms'' \<mapsto> VInt d]
        (rx_count r (ToolCallsTotal name (if err \<noteq> None then ''FAILED'' else ''COMPLETED'')) w1)"
      by (auto simp: CompleteToolCall_def Let_def)
    with assms(2) show ?thesis by simp
  next
    case (Some e)
    with upd assms(3) repo show ?thesis by (auto simp: CompleteToolCall_def Let_def)
  qed
  with rcomplete_frame [OF assms(1) upd] show ?thesis by simp
qed

text \<open>One recorded tool call: refused before the tool runs, or the tool ran after its record, with the
  record's id in its context. Only the counter of the recorder changes.\<close>

lemma invoke_cases:
  assumes inv: "rinv w" "ours r" and t: "t \<in> set (wrapTools (rt_registry rt) tmo)"
    and step: "InvokableRun t c args f (r, w) = (x, r', w')"
  shows "r' = r\<lparr>rx_toolCalls := rx_toolCalls r + 1\<rparr> \<and> rinv w' \<and> rstored w' = rstored w
    \<and> (rcalls w' = rcalls w
       \<or> rcalls w' = (rcalls w)(run_ID (rx_run r) := rcalls w (run_ID (rx_run r)) @ [''call_'' @ uid f 0])
         \<and> (rx_maxToolCalls r > 0 \<longrightarrow> rx_toolCalls r + 1 \<le> rx_maxToolCalls r))"
proof (cases "rx_maxToolCalls r > 0 \<and> rx_toolCalls r + 1 > rx_maxToolCalls r")
  case True
  with step inv show ?thesis by (auto simp: InvokableRun_def checkToolCall_def Let_def)
next
  case False
  let ?r = "r\<lparr>rx_toolCalls := rx_toolCalls r + 1\<rparr>"
  let ?id = "''call_'' @ uid f 0" and ?run = "run_ID (rx_run r)"
  have our: "ours ?r" using inv(2) by simp
  have cnt: "checkToolCall r = (None, ?r)" using False by (auto simp: checkToolCall_def Let_def)
  obtain e w1 where add: "StartToolCall ?r c ?id (rtl_name t) (rtl_risk t) args (clk f 0) w = (e, w1)" by force
  have st: "if e = None then rcalls w1 = (rcalls w)(?run := rcalls w ?run @ [?id]) \<and> rstored w1 = rstored w \<and> rinv w1
      else rcalls w1 = rcalls w \<and> rstored w1 = rstored w \<and> rinv w1"
    using add rcall_ok [OF inv(1)] rcall_err [OF inv(1)] inv(2)
    by (fastforce simp: StartToolCall_def recorder_of_def split: prod.splits option.splits)
  show ?thesis
  proof (cases e)
    case (Some err)
    with step cnt add st show ?thesis by (auto simp: InvokableRun_def Let_def)
  next
    case None
    define w2 where "w2 = ToolStarted ?r (rtl_name t) w1"
    have i2: "rinv w2" "rstored w2 = rstored w" "rcalls w2 = rcalls w1"
      using st None our unfolding w2_def by (auto simp: ToolStarted_def)
    obtain tl where tl: "tl \<in> set (registry_All (rt_registry rt))" "rtl_inner t = rt_Tool tl"
      using t by (auto simp: wrapTools_def)
    obtain result err w3 where run: "rtl_inner t (if rtl_timeout t \<le> 0 then 30000000000 else rtl_timeout t)
        (WithToolCallID c ?id) args (evens (later 2 1 f)) w2 = ((result, err), w3)"
      by (metis prod.exhaust)
    have i3: "rinv w3" "rstored w3 = rstored w" "rcalls w3 = rcalls w1"
      using rt_tools [OF tl(1) i2(1)] run tl(2) i2 by auto
    obtain pe w4 where fin: "CompleteToolCall ?r c ?id (rtl_name t) result err
        (milliseconds (clk (odds (later 2 1 f)) 0 - clk f 1)) w3 = (pe, w4)" by force
    have i4: "rinv w4 \<and> rstored w4 = rstored w \<and> rcalls w4 = rcalls w1"
      using complete_frame [OF i3(1) our fin] i3 by simp
    have "(x, r', w') = (if pe = None then (result, err) else (result, join_opt err pe), ?r, w4)"
      using step cnt add None run fin by (auto simp: InvokableRun_def Let_def w2_def split: option.splits)
    with i4 st None False show ?thesis by auto
  qed
qed

text \<open>A whole plan: the tool calls recorded for the run are at most what the limit leaves.\<close>

lemma plan_calls:
  assumes "rinv w" "ours r" and "run_plan plan (map InvokableRun (wrapTools (rt_registry rt) tmo)) c f (r, w) = (out, r', w')"
  shows "(\<exists>k new. r' = r\<lparr>rx_toolCalls := k\<rparr> \<and> rx_toolCalls r \<le> k \<and> rinv w' \<and> rstored w' = rstored w
    \<and> rcalls w' = (rcalls w)(run_ID (rx_run r) := rcalls w (run_ID (rx_run r)) @ new)
    \<and> (rx_maxToolCalls r > 0 \<longrightarrow> int (length new) \<le> max 0 (rx_maxToolCalls r - rx_toolCalls r)))"
  using assms
proof (induction plan arbitrary: f r w)
  case (Finish o1)
  then show ?case by (intro exI [of _ "rx_toolCalls r"] exI [of _ "[]"]) simp
next
  case (CallTool n args cont)
  let ?tools = "wrapTools (rt_registry rt) tmo"
  show ?case
  proof (cases "n < length ?tools")
    case False
    with CallTool.prems(3) have "run_plan (cont ('''', Some (plain_err ''tool not found''))) (map InvokableRun ?tools) c (odds f) (r, w) = (out, r', w')"
      by simp
    from CallTool.IH [OF _ CallTool.prems(1,2) this] show ?thesis by blast
  next
    case True
    obtain x r1 w1 where call: "InvokableRun (?tools ! n) c args (evens f) (r, w) = (x, r1, w1)" by (metis prod.exhaust)
    with CallTool.prems(3) True have rest: "run_plan (cont x) (map InvokableRun ?tools) c (odds f) (r1, w1) = (out, r', w')"
      by simp
    from invoke_cases [OF CallTool.prems(1,2) nth_mem [OF True] call]
    have r1: "r1 = r\<lparr>rx_toolCalls := rx_toolCalls r + 1\<rparr>" and i1: "rinv w1" "rstored w1 = rstored w"
      and calls: "rcalls w1 = rcalls w \<or> rcalls w1 = (rcalls w)(run_ID (rx_run r) := rcalls w (run_ID (rx_run r)) @ [''call_'' @ uid (evens f) 0])
         \<and> (rx_maxToolCalls r > 0 \<longrightarrow> rx_toolCalls r + 1 \<le> rx_maxToolCalls r)" by auto
    have "ours r1" using CallTool.prems(2) r1 by simp
    from CallTool.IH [OF _ i1(1) this rest] obtain k new where ih: "r' = r1\<lparr>rx_toolCalls := k\<rparr>" "rx_toolCalls r1 \<le> k" "rinv w'"
        "rstored w' = rstored w1" "rcalls w' = (rcalls w1)(run_ID (rx_run r1) := rcalls w1 (run_ID (rx_run r1)) @ new)"
        "rx_maxToolCalls r1 > 0 \<longrightarrow> int (length new) \<le> max 0 (rx_maxToolCalls r1 - rx_toolCalls r1)"
      by blast
    from calls show ?thesis
    proof
      assume "rcalls w1 = rcalls w"
      with ih r1 i1 show ?thesis by (intro exI [of _ k] exI [of _ new]) auto
    next
      assume "rcalls w1 = (rcalls w)(run_ID (rx_run r) := rcalls w (run_ID (rx_run r)) @ [''call_'' @ uid (evens f) 0])
         \<and> (rx_maxToolCalls r > 0 \<longrightarrow> rx_toolCalls r + 1 \<le> rx_maxToolCalls r)"
      with ih r1 i1 show ?thesis by (intro exI [of _ k] exI [of _ "(''call_'' @ uid (evens f) 0) # new"]) auto
    qed
  qed
qed

text \<open>Writing the final status: the run is stored with it, or the write failed and nothing changed.\<close>

lemma fail_cases:
  assumes "rinv w" and "ours r" and "rec_Fail r c cause now w = (e, r', w')"
  obtains (written) "e = None" "rinv w'" "rcalls w' = rcalls w" "rstored w (run_ID (rx_run r)) \<noteq> None"
      "rstored w' = (rstored w)(run_ID (rx_run r) \<mapsto>
         (rx_run r)\<lparr>run_Status := RunFailed, run_FinishedAt := Some now, run_Error := err_text cause\<rparr>)"
  | (lost) err where "e = Some err" "rinv w'" "rcalls w' = rcalls w" "rstored w' = rstored w"
      "\<exists>w2. rr_UpdateRun rrepo (without_cancel c)
         ((rx_run r)\<lparr>run_Status := RunFailed, run_FinishedAt := Some now, run_Error := err_text cause\<rparr>) w = (Some w2, w')"
proof -
  let ?run = "(rx_run r)\<lparr>run_Status := RunFailed, run_FinishedAt := Some now, run_Error := err_text cause\<rparr>"
  have repo: "rx_runRepo r = rrepo" using assms(2) by (simp add: recorder_of_def)
  obtain x w1 where upd: "rr_UpdateRun rrepo (without_cancel c) ?run w = (x, w1)" by force
  show ?thesis
  proof (cases x)
    case None
    have ours': "ours (r\<lparr>rx_run := ?run\<rparr>)" using assms(2) by simp
    from assms(3) upd None repo have out: "e = None" "rstored w' = rstored w1" "rcalls w' = rcalls w1" "rinv w' = rinv w1"
      using count_quiet [OF ours'] publish_quiet [OF ours'] by (auto simp: rec_Fail_def Let_def)
    from rupdate_ok [OF assms(1) upd [unfolded None]] out written show ?thesis by simp
  next
    case (Some err)
    from assms(3) upd Some repo have "e \<noteq> None" "w' = w1" by (auto simp: rec_Fail_def Let_def)
    with rupdate_err [OF assms(1) upd [unfolded Some]] upd Some lost show ?thesis by auto
  qed
qed

lemma complete_cases:
  assumes "rinv w" and "ours r" and "rec_Complete r c now w = (e, r', w')"
  obtains (written) "e = None" "rinv w'" "rcalls w' = rcalls w" "rec_RunID r' = rec_RunID r"
      "rstored w' = (rstored w)(run_ID (rx_run r) \<mapsto>
         (rx_run r)\<lparr>run_Status := RunCompleted, run_FinishedAt := Some now\<rparr>)"
  | (lost) err where "e = Some err" "rinv w'" "rcalls w' = rcalls w" "rstored w' = rstored w" "ours r'"
      "rx_run r' = (rx_run r)\<lparr>run_Status := RunCompleted, run_FinishedAt := Some now\<rparr>"
proof -
  let ?run = "(rx_run r)\<lparr>run_Status := RunCompleted, run_FinishedAt := Some now\<rparr>"
  have repo: "rx_runRepo r = rrepo" using assms(2) by (simp add: recorder_of_def)
  have ours': "ours (r\<lparr>rx_run := ?run\<rparr>)" using assms(2) by simp
  obtain x w1 where upd: "rr_UpdateRun rrepo (without_cancel c) ?run w = (x, w1)" by force
  show ?thesis
  proof (cases x)
    case None
    from assms(3) upd None repo have out: "e = None" "rstored w' = rstored w1" "rcalls w' = rcalls w1" "rinv w' = rinv w1"
        "rec_RunID r' = rec_RunID r"
      using count_quiet [OF ours'] publish_quiet [OF ours'] by (auto simp: rec_Complete_def Let_def rec_RunID_def)
    from rupdate_ok [OF assms(1) upd [unfolded None]] out written show ?thesis by simp
  next
    case (Some err)
    from assms(3) upd Some repo have "e \<noteq> None" "w' = w1" "r' = r\<lparr>rx_run := ?run\<rparr>"
      by (auto simp: rec_Complete_def Let_def)
    with rupdate_err [OF assms(1) upd [unfolded Some]] ours' lost show ?thesis by auto
  qed
qed

lemma step_frame:
  assumes "rinv w" and "ours r" and "rec_Step r c agent act inp out d f w = (e, r', w')"
  shows "rinv w' \<and> rcalls w' = rcalls w \<and> rstored w' = rstored w \<and> ours r' \<and> rx_run r' = rx_run r"
proof -
  let ?r = "r\<lparr>rx_stepIdx := rx_stepIdx r + 1\<rparr>"
  let ?s = "\<lparr>step_ID = ''step_'' @ uid f 0, step_RunID = run_ID (rx_run ?r), step_StepIndex = rx_stepIdx ?r,
    step_Agent = agent, step_Action = act, step_Status = ''COMPLETED'', step_Input = inp,
    step_Output = out, step_Duration = d\<rparr>"
  have repo: "rx_runRepo r = rrepo" using assms(2) by (simp add: recorder_of_def)
  have ours': "ours ?r" using assms(2) by simp
  obtain x w1 where add: "rr_AddStep rrepo c ?s w = (x, w1)" by force
  from assms(3) add repo have "rstored w' = rstored w1" "rcalls w' = rcalls w1" "rinv w' = rinv w1" "r' = ?r"
    using publish_quiet [OF ours'] by (auto simp: rec_Step_def Let_def split: option.splits)
  with rstep_frame [OF assms(1) add] ours' show ?thesis by simp
qed

lemma start_cases:
  assumes "rinv w" and "ours r" and "rec_Start r c w = (e, w')"
  obtains (refused) err where "e = Some err" "rinv w'" "rcalls w' = rcalls w" "rstored w' = rstored w"
  | (started) "e = None" "rinv w'" "rcalls w' = rcalls w" "rstored w (run_ID (rx_run r)) = None"
      "\<forall>i s. rstored w i = Some s \<longrightarrow> run_IncidentID s = run_IncidentID (rx_run r) \<longrightarrow> \<not> IsActive (run_Status s)"
      "rstored w' = (rstored w)(run_ID (rx_run r) \<mapsto> rx_run r)"
proof -
  have repo: "rx_runRepo r = rrepo" using assms(2) by (simp add: recorder_of_def)
  obtain x w1 where new: "rr_CreateRun rrepo c (rx_run r) w = (x, w1)" by force
  show ?thesis
  proof (cases x)
    case None
    from assms(3) new None repo have out: "e = None" "rstored w' = rstored w1" "rcalls w' = rcalls w1" "rinv w' = rinv w1"
      using count_quiet [OF assms(2)] publish_quiet [OF assms(2)] by (auto simp: rec_Start_def)
    note ok = rcreate_ok [OF assms(1) new [unfolded None]]
    show ?thesis by (rule started) (use ok out in auto)
  next
    case (Some err)
    from assms(3) new Some repo have "e = Some err" "w' = w1" by (auto simp: rec_Start_def)
    with rcreate_err [OF assms(1) new [unfolded Some]] refused show ?thesis by auto
  qed
qed

end

text \<open>A repository that does not lose updates: the active run that is stored can be given any final
  status. The in-memory repository is one.\<close>

locale reliable_recording = run_recording +
  assumes rupdate_total: "rinv w \<Longrightarrow> rstored w (run_ID r) = Some old \<Longrightarrow> run_IncidentID r = run_IncidentID old
      \<Longrightarrow> IsActive (run_Status old) \<Longrightarrow> fst (rr_UpdateRun rrepo c r w) = None"
begin

text \<open>\<open>Diagnose\<close>: no run was created, or the run it created ends COMPLETED and the caller gets its
  conclusion, or FAILED and the caller gets an error; it is never left RUNNING.\<close>

lemma fail_writes:
  assumes "rinv w" and "ours r" and "rec_Fail r c cause now w = (e, r', w')"
    and "rstored w (run_ID (rx_run r)) = Some old" "IsActive (run_Status old)" "run_IncidentID (rx_run r) = run_IncidentID old"
  shows "rinv w' \<and> rcalls w' = rcalls w \<and> (\<exists>x. rstored w' = (rstored w)(run_ID (rx_run r) \<mapsto> x)
    \<and> run_Status x = RunFailed \<and> run_IncidentID x = run_IncidentID (rx_run r))"
  using assms(1-3)
proof (rule fail_cases)
  assume "rinv w'" "rcalls w' = rcalls w" "rstored w' = (rstored w)(run_ID (rx_run r) \<mapsto>
         (rx_run r)\<lparr>run_Status := RunFailed, run_FinishedAt := Some now, run_Error := err_text cause\<rparr>)"
  then show ?thesis
    by (intro conjI exI [of _ "(rx_run r)\<lparr>run_Status := RunFailed, run_FinishedAt := Some now, run_Error := err_text cause\<rparr>"])
       simp_all
next
  assume lost: "\<exists>w2. rr_UpdateRun rrepo (without_cancel c)
         ((rx_run r)\<lparr>run_Status := RunFailed, run_FinishedAt := Some now, run_Error := err_text cause\<rparr>) w = (Some w2, w')"
  have "fst (rr_UpdateRun rrepo (without_cancel c)
         ((rx_run r)\<lparr>run_Status := RunFailed, run_FinishedAt := Some now, run_Error := err_text cause\<rparr>) w) = None"
    using assms(1,4-6) by (intro rupdate_total [of _ _ old]) auto
  with lost show ?thesis by auto
qed

lemma diagnose_cases:
  assumes inv: "rinv w" and step: "Diagnose rt agent c inc prompt f w = (res, w')"
  obtains (refused) e where "res = Inl e" "rinv w'" "rstored w' = rstored w" "rcalls w' = rcalls w"
  | (ran) x new where "rinv w'" "rstored w (''run_'' @ uid f 0) = None"
      "\<forall>i s. rstored w i = Some s \<longrightarrow> run_IncidentID s = inc_ID inc \<longrightarrow> \<not> IsActive (run_Status s)"
      "rstored w' = (rstored w)(''run_'' @ uid f 0 \<mapsto> x)" "run_IncidentID x = inc_ID inc"
      "run_Status x = (case res of Inr _ \<Rightarrow> RunCompleted | Inl _ \<Rightarrow> RunFailed)"
      "\<forall>d. res = Inr d \<longrightarrow> dg_RunID d = ''run_'' @ uid f 0"
      "rcalls w' = (rcalls w)(''run_'' @ uid f 0 := rcalls w (''run_'' @ uid f 0) @ new)"
      "rt_maxToolCalls rt > 0 \<longrightarrow> int (length new) \<le> rt_maxToolCalls rt"
proof -
  define rec where "rec = NewRecorder rrepo (rt_broker rt) (rt_count rt) inc ''diagnosis'' (rt_maxToolCalls rt) f"
  let ?i = "''run_'' @ uid f 0"
  have our: "ours rec" and run: "run_ID (rx_run rec) = ?i" "run_IncidentID (rx_run rec) = inc_ID inc"
      "run_Status (rx_run rec) = RunRunning" "rx_maxToolCalls rec = rt_maxToolCalls rt" "rx_toolCalls rec = 0"
    by (simp_all add: rec_def NewRecorder_def recorder_of_def)
  obtain e w1 where st: "rec_Start rec c w = (e, w1)" by force
  from inv our st show ?thesis
  proof (rule start_cases)
    fix err assume "e = Some err" "rinv w1" "rcalls w1 = rcalls w" "rstored w1 = rstored w"
    with step st rt_wiring refused show ?thesis by (auto simp: Diagnose_def rec_def Let_def)
  next
    assume s: "e = None" "rinv w1" "rcalls w1 = rcalls w" "rstored w (run_ID (rx_run rec)) = None"
      "\<forall>i s. rstored w i = Some s \<longrightarrow> run_IncidentID s = run_IncidentID (rx_run rec) \<longrightarrow> \<not> IsActive (run_Status s)"
      "rstored w1 = (rstored w)(run_ID (rx_run rec) \<mapsto> rx_run rec)"
    let ?tools = "wrapTools (rt_registry rt) (rt_toolTimeout rt)" and ?c = "WithRunID c (rec_RunID rec)"
      and ?f = "later 1 1 f"
    have body: "Diagnose_recorded rt agent c inc prompt rec ?f w1 = (res, w')"
      using step st s(1) rt_wiring by (auto simp: Diagnose_def rec_def Let_def)
    have stored1: "rstored w1 (run_ID (rx_run rec)) = Some (rx_run rec)" using s(6) by simp
    have done_failed: thesis if "rec_Fail r c' cause now v = (fe, r', w')" and "\<exists>e. res = Inl e" and "ours r" "rinv v"
        and "run_ID (rx_run r) = ?i" "run_IncidentID (rx_run r) = inc_ID inc" and "rstored v = rstored w1"
        and "rcalls v = (rcalls w)(?i := rcalls w ?i @ new)"
        and "rt_maxToolCalls rt > 0 \<longrightarrow> int (length new) \<le> rt_maxToolCalls rt" for r c' cause now v fe r' new
    proof -
      from fail_writes [OF that(4,3,1), of "rx_run rec"] stored1 that run obtain x where
        "rinv w'" "rcalls w' = rcalls v" "rstored w' = (rstored v)(?i \<mapsto> x)" "run_Status x = RunFailed"
        "run_IncidentID x = inc_ID inc" by auto
      with s run that show thesis by (intro ran [of x new]) auto
    qed
    show ?thesis
    proof (cases "agent (rt_runTimeout rt) ?c (rt_maxSteps rt) (map rtl_name ?tools) (BuildMessages prompt inc)")
      case (Inl err)
      obtain fe r1 where "rec_Fail rec ?c err (clk ?f 0) w1 = (fe, r1, w')" "\<exists>e. res = Inl e"
        using body Inl by (auto simp: Diagnose_recorded_def Let_def split: prod.splits)
      then show ?thesis by (rule done_failed [where new = "[]"]) (use our s(2,3) run in auto)
    next
      case (Inr plan)
      obtain out r1 w2 where pl: "run_plan plan (map InvokableRun ?tools) ?c (evens ?f) (rec, w1) = (out, r1, w2)"
        by (metis prod.exhaust)
      from plan_calls [OF s(2) our pl] obtain k new where p: "r1 = rec\<lparr>rx_toolCalls := k\<rparr>" "rinv w2" "rstored w2 = rstored w1"
          "rcalls w2 = (rcalls w1)(?i := rcalls w1 ?i @ new)" "rt_maxToolCalls rt > 0 \<longrightarrow> int (length new) \<le> rt_maxToolCalls rt"
        using run by auto
      have our1: "ours r1" and run1: "rx_run r1 = rx_run rec" using p(1) our by simp_all
      show ?thesis
      proof (cases out)
        case (Inl err)
        obtain fe r2 where "rec_Fail r1 ?c err (clk (odds ?f) 0) w2 = (fe, r2, w')" "\<exists>e. res = Inl e"
          using body \<open>agent _ _ _ _ _ = Inr plan\<close> pl Inl by (auto simp: Diagnose_recorded_def Let_def split: prod.splits)
        then show ?thesis by (rule done_failed [where new = new]) (use our1 p run run1 s(3) in auto)
      next
        case (Inr content)
        obtain se r2 w3 where sp: "rec_Step r1 ?c ''diagnosis'' ''finalize'' '''' content 0 (odds ?f) w2 = (se, r2, w3)"
          by (metis prod.exhaust)
        from step_frame [OF p(2) our1 sp] have q: "rinv w3" "rcalls w3 = rcalls w2" "rstored w3 = rstored w2" "ours r2"
            "rx_run r2 = rx_run rec" using run1 by simp_all
        show ?thesis
        proof (cases se)
          case (Some err)
          obtain fe r3 where "rec_Fail r2 ?c err (clk (odds ?f) 0) w3 = (fe, r3, w')" "\<exists>e. res = Inl e"
            using body \<open>agent _ _ _ _ _ = Inr plan\<close> pl Inr sp Some by (auto simp: Diagnose_recorded_def Let_def split: prod.splits)
          then show ?thesis by (rule done_failed [where new = new]) (use q p run s(3) in auto)
        next
          case None
          obtain ce r3 w4 where cp: "rec_Complete r2 ?c (clk (odds ?f) 0) w3 = (ce, r3, w4)" by (metis prod.exhaust)
          from q(1,4) cp show ?thesis
          proof (rule complete_cases)
            assume h: "ce = None" "rinv w4" "rcalls w4 = rcalls w3" "rec_RunID r3 = rec_RunID r2"
              "rstored w4 = (rstored w3)(run_ID (rx_run r2) \<mapsto>
                 (rx_run r2)\<lparr>run_Status := RunCompleted, run_FinishedAt := Some (clk (odds ?f) 0)\<rparr>)"
            have "res = Inr \<lparr>dg_RunID = rec_RunID r3, dg_Conclusion = content\<rparr>" "w' = w4"
              using body \<open>agent _ _ _ _ _ = Inr plan\<close> pl Inr sp None cp h(1) by (auto simp: Diagnose_recorded_def Let_def)
            with h q p run s show ?thesis
              by (intro ran [of "(rx_run r2)\<lparr>run_Status := RunCompleted, run_FinishedAt := Some (clk (odds ?f) 0)\<rparr>" new])
                 (auto simp: rec_RunID_def)
          next
            fix err
            assume h: "ce = Some err" "rinv w4" "rcalls w4 = rcalls w3" "rstored w4 = rstored w3" "ours r3"
              "rx_run r3 = (rx_run r2)\<lparr>run_Status := RunCompleted, run_FinishedAt := Some (clk (odds ?f) 0)\<rparr>"
            obtain fe r4 where "rec_Fail r3 ?c err (clk (odds ?f) 1) w4 = (fe, r4, w')" "\<exists>e. res = Inl e"
              using body \<open>agent _ _ _ _ _ = Inr plan\<close> pl Inr sp None cp h(1)
              by (auto simp: Diagnose_recorded_def Let_def split: prod.splits)
            then show ?thesis by (rule done_failed [where new = new]) (use h q p run s(3) in auto)
          qed
        qed
      qed
    qed
  qed
qed

end

end
