(* ===== verification/Messaging.thy ===== *)
theory Messaging
  imports Incident_Service Json Telemetry "HOL-Library.Monad_Syntax"
begin

text \<open>
  \<open>internal/messaging\<close>: the events, the retry decision, and the consumer loop over the main queue, the
  retry queue and the dead letter queue. RabbitMQ is third-party: what it answers to a publication, a
  confirmation and an acknowledgement is an argument of each step, and its queues are the state the
  steps act on. What the code must guarantee whatever it answers is that no message is lost.
\<close>

section \<open>Events\<close>

text \<open>The time stamp is kept as the RFC 3339 text in which \<open>encoding/json\<close> writes a \<open>time.Time\<close>, the
  raw payload as the JSON value it holds (\<open>None\<close> for a missing one).\<close>

record event =
  evt_ID :: string
  evt_Type :: string
  evt_Timestamp :: string
  evt_Payload :: "json option"

definition IncidentCreated :: string where "IncidentCreated = ''incident.created''"
definition AgentRequested :: string where "AgentRequested = ''agent.requested''"
definition ActionRequested :: string where "ActionRequested = ''action.requested''"
definition ActionCompleted :: string where "ActionCompleted = ''action.completed''"

definition ExchangeAgent :: string where "ExchangeAgent = ''gooncall.agent''"
definition QueueAgent :: string where "QueueAgent = ''gooncall.agent.queue''"

definition NewEvent :: "string \<Rightarrow> json \<Rightarrow> string \<Rightarrow> string \<Rightarrow> event" where
  "NewEvent eventType payload u now = \<lparr>evt_ID = u, evt_Type = eventType, evt_Timestamp = now, evt_Payload = Some payload\<rparr>"

definition encode_event :: "event \<Rightarrow> string" where
  "encode_event e = json_encode (JObj
     [(''id'', JStr (evt_ID e)), (''type'', JStr (evt_Type e)), (''timestamp'', JStr (evt_Timestamp e)),
      (''payload'', (case evt_Payload e of None \<Rightarrow> JNull | Some p \<Rightarrow> p))])"

text \<open>The text forms that \<open>time.Time\<close> accepts: RFC 3339 with the ranges of its fields.\<close>

definition digit :: "char \<Rightarrow> bool" where "digit c = (0x30 \<le> byte c \<and> byte c \<le> 0x39)"

definition number_of :: "string \<Rightarrow> nat" where
  "number_of s = foldl (\<lambda>n c. 10 * n + (byte c - 0x30)) 0 s"

definition month_days :: "nat \<Rightarrow> nat \<Rightarrow> nat" where
  "month_days y m =
     (if m = 2 then (if y mod 4 = 0 \<and> (y mod 100 \<noteq> 0 \<or> y mod 400 = 0) then 29 else 28)
      else if m \<in> {4, 6, 9, 11} then 30 else 31)"

definition number_text :: "nat \<Rightarrow> string \<Rightarrow> (nat \<times> string) option" where
  "number_text n s = (if n \<le> length s \<and> list_all digit (take n s) then Some (number_of (take n s), drop n s) else None)"

definition expect :: "char \<Rightarrow> string \<Rightarrow> string option" where
  "expect c s = (case s of [] \<Rightarrow> None | d # r \<Rightarrow> if d = c then Some r else None)"

text \<open>An hour may have one digit, seconds a fraction after a point or a comma, and a zone may reach 24:60:
  \<open>time.Time\<close> reads RFC 3339 without its strict checks.\<close>

definition hour_text :: "string \<Rightarrow> (nat \<times> string) option" where
  "hour_text s = (case number_text 2 s of Some r \<Rightarrow> Some r | None \<Rightarrow> number_text 1 s)"

definition skip_fraction :: "string \<Rightarrow> string" where
  "skip_fraction s =
     (case s of
        c # d # r \<Rightarrow> if (c = CHR ''.'' \<or> c = CHR '','') \<and> digit d then dropWhile digit r else s
      | _ \<Rightarrow> s)"

definition zone_text :: "string \<Rightarrow> bool" where
  "zone_text z =
     (z = ''Z'' \<or> (case z of
        [] \<Rightarrow> False
      | c # r \<Rightarrow> (c = CHR ''+'' \<or> c = CHR ''-'') \<and>
          (case do { (h, r1) \<leftarrow> number_text 2 r; r2 \<leftarrow> expect (CHR '':'') r1; (m, r3) \<leftarrow> number_text 2 r2; Some (h, m, r3) } of
             None \<Rightarrow> False
           | Some (h, m, r3) \<Rightarrow> h \<le> 24 \<and> m \<le> 60 \<and> r3 = [])))"

definition time_text :: "string \<Rightarrow> bool" where
  "time_text s =
     (case do {
        (y, r) \<leftarrow> number_text 4 s; r \<leftarrow> expect (CHR ''-'') r;
        (mo, r) \<leftarrow> number_text 2 r; r \<leftarrow> expect (CHR ''-'') r;
        (d, r) \<leftarrow> number_text 2 r; r \<leftarrow> expect (CHR ''T'') r;
        (h, r) \<leftarrow> hour_text r; r \<leftarrow> expect (CHR '':'') r;
        (mi, r) \<leftarrow> number_text 2 r; r \<leftarrow> expect (CHR '':'') r;
        (sec, r) \<leftarrow> number_text 2 r;
        Some (1 \<le> mo \<and> mo \<le> 12 \<and> 1 \<le> d \<and> d \<le> month_days y mo \<and> h \<le> 23 \<and> mi \<le> 59 \<and> sec \<le> 59
              \<and> zone_text (skip_fraction r)) } of
        None \<Rightarrow> False
      | Some ok \<Rightarrow> ok)"

text \<open>\<open>json.Unmarshal\<close> into an \<open>Event\<close>: fields matched without case, the last occurrence wins, \<open>null\<close>
  leaves a field as it is. The zero time is the text of Go's zero \<open>time.Time\<close>.\<close>

fun last_field :: "string \<Rightarrow> (string \<times> json) list \<Rightarrow> json option \<Rightarrow> json option" where
  "last_field name [] acc = acc"
| "last_field name ((k, v) # kvs) acc = last_field name kvs (if EqualFold k name then Some v else acc)"

definition time_mismatch :: "(string \<times> json) list \<Rightarrow> bool" where
  "time_mismatch kvs =
     list_ex (\<lambda>(k, v). EqualFold k ''timestamp''
       \<and> (case v of JStr s \<Rightarrow> \<not> time_text s | JNull \<Rightarrow> False | _ \<Rightarrow> True)) kvs"

definition zero_time :: string where "zero_time = ''0001-01-01T00:00:00Z''"

definition decode_event :: "string \<Rightarrow> gerror + event" where
  "decode_event s =
     (case json_parse s of
        None \<Rightarrow> Inl (plain_err ''invalid JSON'')
      | Some JNull \<Rightarrow> Inr \<lparr>evt_ID = '''', evt_Type = '''', evt_Timestamp = zero_time, evt_Payload = None\<rparr>
      | Some (JObj kvs) \<Rightarrow>
          if field_mismatch ''id'' kvs \<or> field_mismatch ''type'' kvs \<or> time_mismatch kvs
          then Inl (plain_err ''json: cannot unmarshal event'')
          else Inr \<lparr>evt_ID = string_field ''id'' kvs '''', evt_Type = string_field ''type'' kvs '''',
                    evt_Timestamp = string_field ''timestamp'' kvs zero_time, evt_Payload = last_field ''payload'' kvs None\<rparr>
      | Some _ \<Rightarrow> Inl (plain_err ''json: cannot unmarshal event''))"

text \<open>\<open>DecodePayload\<close> into the struct with the one field \<open>incident_id\<close>.\<close>

definition incident_payload :: "string \<Rightarrow> json" where
  "incident_payload i = JObj [(''incident_id'', JStr i)]"

definition DecodePayload :: "event \<Rightarrow> gerror + string" where
  "DecodePayload e =
     (case evt_Payload e of
        None \<Rightarrow> Inl (plain_err ''unexpected end of JSON input'')
      | Some JNull \<Rightarrow> Inr ''''
      | Some (JObj kvs) \<Rightarrow>
          if field_mismatch ''incident_id'' kvs then Inl (plain_err ''json: cannot unmarshal payload'')
          else Inr (string_field ''incident_id'' kvs '''')
      | Some _ \<Rightarrow> Inl (plain_err ''json: cannot unmarshal payload''))"

section \<open>Retry decision\<close>

text \<open>The values a header can have, at their Go widths.\<close>

datatype header_value = HInt "64 word" | HInt32 "32 word" | HInt64 "64 word" | HFloat float64 | HOther

type_synonym headers = "string \<rightharpoonup> header_value"

definition RetryCountHeader :: string where "RetryCountHeader = ''x-retry-count''"
definition MaxRetries :: int where "MaxRetries = 3"
definition retryRoutingKey :: string where "retryRoutingKey = ''agent.retry''"
definition dlqRoutingKey :: string where "dlqRoutingKey = ''agent.dlq''"

definition retryQueueName :: "string \<Rightarrow> string" where "retryQueueName queue = queue @ ''.retry''"
definition dlqQueueName :: "string \<Rightarrow> string" where "dlqQueueName queue = queue @ ''.dlq''"

text \<open>\<open>fint\<close> is Go's conversion of a \<open>float64\<close> to \<open>int\<close>, left to the implementation out of range.\<close>

definition retryCount :: "(float64 \<Rightarrow> 64 word) \<Rightarrow> headers \<Rightarrow> 64 word" where
  "retryCount fint h =
     (case h RetryCountHeader of
        None \<Rightarrow> 0
      | Some (HInt n) \<Rightarrow> n
      | Some (HInt32 n) \<Rightarrow> scast n
      | Some (HInt64 n) \<Rightarrow> n
      | Some (HFloat x) \<Rightarrow> fint x
      | Some HOther \<Rightarrow> 0)"

definition retryDecision :: "64 word \<Rightarrow> string \<times> 64 word \<times> bool" where
  "retryDecision retries =
     (if sint retries < MaxRetries then (retryRoutingKey, retries + 1, True) else (dlqRoutingKey, retries, False))"

definition cloneHeaders :: "headers \<Rightarrow> headers" where "cloneHeaders h = (\<lambda>k. h k)"

definition failedMessageRoute :: "(float64 \<Rightarrow> 64 word) \<Rightarrow> headers \<Rightarrow> string \<times> headers \<times> bool" where
  "failedMessageRoute fint h =
     (case retryDecision (retryCount fint h) of
        (key, nxt, toRetry) \<Rightarrow>
          (key, if toRetry then (cloneHeaders h)(RetryCountHeader \<mapsto> HInt32 (scast nxt)) else h, \<not> toRetry))"

section \<open>The consumer\<close>

record message =
  mg_body :: string
  mg_headers :: headers

text \<open>The queues and the state of the application behind the handlers.\<close>

record 'w mq =
  mq_main :: "message list"
  mq_retry :: "message list"
  mq_dlq :: "message list"
  mq_app :: 'w

text \<open>What the broker does with a republication: the publication fails at once (the message may still
  have arrived), the channel has no confirm mode, the confirmation does not come, the broker refuses,
  or it confirms, and then has stored the message.\<close>

datatype confirmation = PublishFailed bool | NoConfirmMode bool | WaitFailed bool | Refused bool | Confirmed

definition stored_by :: "confirmation \<Rightarrow> bool" where
  "stored_by a = (case a of PublishFailed b \<Rightarrow> b | NoConfirmMode b \<Rightarrow> b | WaitFailed b \<Rightarrow> b | Refused b \<Rightarrow> b | Confirmed \<Rightarrow> True)"

definition route_to :: "string \<Rightarrow> message \<Rightarrow> 'w mq \<Rightarrow> 'w mq" where
  "route_to key m q =
     (if key = retryRoutingKey then q\<lparr>mq_retry := mq_retry q @ [m]\<rparr>
      else if key = dlqRoutingKey then q\<lparr>mq_dlq := mq_dlq q @ [m]\<rparr> else q)"

text \<open>\<open>republishConfirmed\<close>: success only when the broker confirmed; every failure nacks the original,
  which stays in the queue.\<close>

definition republishConfirmed ::
  "message \<Rightarrow> string \<Rightarrow> headers \<Rightarrow> confirmation \<Rightarrow> 'w mq \<Rightarrow> gerror option \<times> 'w mq" where
  "republishConfirmed m key h answer q =
     (let q1 = (if stored_by answer then route_to key \<lparr>mg_body = mg_body m, mg_headers = h\<rparr> q else q)
      in (case answer of
            Confirmed \<Rightarrow> None
          | PublishFailed _ \<Rightarrow> Some (plain_err (''republish to '' @ key))
          | NoConfirmMode _ \<Rightarrow> Some (plain_err ''publisher confirm is not enabled on the consumer channel'')
          | WaitFailed _ \<Rightarrow> Some (plain_err (''wait for confirm of republish to '' @ key))
          | Refused _ \<Rightarrow> Some (plain_err (''republish to '' @ key @ '' was nacked by the broker'')), q1))"

text \<open>An acknowledgement whose error the code ignores: when it does not arrive the broker keeps the
  message and delivers it again.\<close>

definition ack :: "bool \<Rightarrow> 'w mq \<Rightarrow> 'w mq" where
  "ack arrives q = (if arrives then q\<lparr>mq_main := tl (mq_main q)\<rparr> else q)"

definition recordRoutedMessage :: "(metric \<Rightarrow> 'w \<Rightarrow> 'w) \<Rightarrow> bool \<Rightarrow> 'w mq \<Rightarrow> 'w mq" where
  "recordRoutedMessage inc toDLQ q = q\<lparr>mq_app := inc (if toDLQ then DLQTotal else RetriesTotal) (mq_app q)\<rparr>"

type_synonym 'w handler = "ctx \<Rightarrow> event \<Rightarrow> fresh \<Rightarrow> 'w \<Rightarrow> gerror option \<times> 'w"
type_synonym 'w terminal_handler = "ctx \<Rightarrow> event \<Rightarrow> gerror \<Rightarrow> fresh \<Rightarrow> 'w \<Rightarrow> gerror option \<times> 'w"

definition onDeadLetter ::
  "'w terminal_handler option \<Rightarrow> ctx \<Rightarrow> event \<Rightarrow> gerror \<Rightarrow> fresh \<Rightarrow> 'w mq \<Rightarrow> 'w mq" where
  "onDeadLetter terminal c ev cause f q =
     (case terminal of None \<Rightarrow> q | Some h \<Rightarrow> q\<lparr>mq_app := snd (h c ev cause f (mq_app q))\<rparr>)"

definition finishDeadLetter ::
  "'w terminal_handler option \<Rightarrow> ctx \<Rightarrow> event \<Rightarrow> gerror \<Rightarrow> bool \<Rightarrow> fresh \<Rightarrow> 'w mq \<Rightarrow> 'w mq" where
  "finishDeadLetter terminal c ev cause arrives f q =
     ack arrives (onDeadLetter terminal (without_cancel c) ev cause f q)"

text \<open>One delivery, the body of the loop of \<open>Subscribe\<close>, on the head of the main queue.\<close>

definition consume_one ::
  "(metric \<Rightarrow> 'w \<Rightarrow> 'w) \<Rightarrow> (float64 \<Rightarrow> 64 word) \<Rightarrow> 'w handler \<Rightarrow> 'w terminal_handler option \<Rightarrow> ctx \<Rightarrow> confirmation
     \<Rightarrow> bool \<Rightarrow> fresh \<Rightarrow> 'w mq \<Rightarrow> 'w mq" where
  "consume_one inc fint handler terminal c answer arrives f q =
     (case mq_main q of
        [] \<Rightarrow> q
      | msg # _ \<Rightarrow>
          (case decode_event (mg_body msg) of
             Inl _ \<Rightarrow>
               (case republishConfirmed msg dlqRoutingKey (mg_headers msg) answer q of
                  (Some _, q1) \<Rightarrow> q1
                | (None, q1) \<Rightarrow> ack arrives (recordRoutedMessage inc True q1))
           | Inr ev \<Rightarrow>
               (case handler c ev (evens f) (mq_app q) of
                  (None, w1) \<Rightarrow> ack arrives (q\<lparr>mq_app := w1\<rparr>)
                | (Some err, w1) \<Rightarrow>
                    (case failedMessageRoute fint (mg_headers msg) of
                       (key, h, toDLQ) \<Rightarrow>
                         (case republishConfirmed msg key h answer (q\<lparr>mq_app := w1\<rparr>) of
                            (Some _, q1) \<Rightarrow> q1
                          | (None, q1) \<Rightarrow>
                              (let q2 = recordRoutedMessage inc toDLQ q1
                               in if toDLQ then finishDeadLetter terminal c ev err arrives (odds f) q2
                                  else ack arrives q2))))))"

text \<open>After the time to live the broker moves a message of the retry queue back to the main queue.\<close>

definition retry_due :: "'w mq \<Rightarrow> 'w mq" where
  "retry_due q = (case mq_retry q of [] \<Rightarrow> q | m # ms \<Rightarrow> q\<lparr>mq_retry := ms, mq_main := mq_main q @ [m]\<rparr>)"

section \<open>The producer\<close>

text \<open>What happens to a publication: opening the channel or confirm mode fails, the publication fails,
  the broker answers with an acknowledgement or a refusal and may have returned the message, or the
  context ends first.\<close>

datatype publish_answer =
    ChannelFailed gerror
  | ConfirmFailed gerror
  | SendFailed gerror
  | Answered bool "(string \<times> string) option"
  | ContextDone gerror

definition producer_Publish :: "bool \<Rightarrow> publish_answer \<Rightarrow> gerror option" where
  "producer_Publish online answer =
     (if \<not> online then Some (plain_err ''producer: nil connection'')
      else
        (case answer of
           ChannelFailed err \<Rightarrow> Some err
         | ConfirmFailed err \<Rightarrow> Some (wrap_err ''enable publisher confirm: '' err)
         | SendFailed err \<Rightarrow> Some err
         | ContextDone err \<Rightarrow> Some err
         | Answered ok returned \<Rightarrow>
             if \<not> ok then Some (sentinel_err ErrPublishNotConfirmed)
             else (case returned of
                     None \<Rightarrow> None
                   | Some (key, text) \<Rightarrow>
                       Some (wrap_sentinel ErrPublishUnroutable (''routing_key='' @ key @ '' ('' @ text @ '')'')))))"

section \<open>What a delivery can do\<close>

definition q_bodies :: "'w mq \<Rightarrow> string list" where
  "q_bodies q = map mg_body (mq_main q @ mq_retry q @ mq_dlq q)"

lemma stored_Confirmed [simp]: "stored_by Confirmed"
  by (simp add: stored_by_def)

lemma routing_keys [simp]: "retryRoutingKey \<noteq> dlqRoutingKey" "dlqRoutingKey \<noteq> retryRoutingKey"
  by (simp_all add: retryRoutingKey_def dlqRoutingKey_def)

lemma republish_None [simp]:
  "republishConfirmed m key h answer q = (None, q1) \<longleftrightarrow>
     answer = Confirmed \<and> q1 = route_to key \<lparr>mg_body = mg_body m, mg_headers = h\<rparr> q"
  by (auto simp: republishConfirmed_def split: confirmation.splits)

lemma republish_Confirmed [simp]:
  "republishConfirmed m key h Confirmed q = (None, route_to key \<lparr>mg_body = mg_body m, mg_headers = h\<rparr> q)"
  by simp

lemma republish_Some:
  "republishConfirmed m key h answer q = (Some e, q1) \<Longrightarrow> answer \<noteq> Confirmed"
  by (auto simp: republishConfirmed_def)

lemma republish_frame:
  assumes "republishConfirmed m key h answer q = (r, q1)"
  shows "mq_main q1 = mq_main q" and "mq_app q1 = mq_app q"
    and "set (q_bodies q) \<subseteq> set (q_bodies q1)"
  using assms by (auto simp: republishConfirmed_def route_to_def q_bodies_def Let_def split: if_splits)

lemma message_fields [simp]: "\<lparr>mg_body = mg_body m, mg_headers = mg_headers m\<rparr> = m"
  by simp

lemma route_frame [simp]:
  "mq_main (route_to key m q) = mq_main q" "mq_app (route_to key m q) = mq_app q"
  by (simp_all add: route_to_def)

lemma ack_frame [simp]:
  "mq_retry (ack b q) = mq_retry q" "mq_dlq (ack b q) = mq_dlq q" "mq_app (ack b q) = mq_app q"
  "mq_main (ack b q) = (if b then tl (mq_main q) else mq_main q)"
  by (simp_all add: ack_def)

lemma recordRouted_frame [simp]:
  "mq_main (recordRoutedMessage inc d q) = mq_main q" "mq_retry (recordRoutedMessage inc d q) = mq_retry q"
  "mq_dlq (recordRoutedMessage inc d q) = mq_dlq q"
  "mq_app (recordRoutedMessage inc d q) = inc (if d then DLQTotal else RetriesTotal) (mq_app q)"
  by (simp_all add: recordRoutedMessage_def)

lemma onDeadLetter_frame [simp]:
  "mq_main (onDeadLetter t c ev e f q) = mq_main q" "mq_retry (onDeadLetter t c ev e f q) = mq_retry q"
  "mq_dlq (onDeadLetter t c ev e f q) = mq_dlq q"
  by (simp_all add: onDeadLetter_def split: option.splits)

text \<open>The outcomes of one delivery. \<open>kept\<close>: the original was nacked. \<open>handled\<close>: the handler succeeded.
  \<open>moved\<close>: the broker confirmed the copy in the queue the key names.\<close>

lemma consume_cases:
  assumes "consume_one inc fint handler terminal c answer arrives f q = q'" and "mq_main q = msg # ms"
  obtains (kept) "mq_main q' = mq_main q" "set (q_bodies q) \<subseteq> set (q_bodies q')" "answer \<noteq> Confirmed"
      "mq_app q' = mq_app q \<or> (\<exists>ev. mq_app q' = snd (handler c ev (evens f) (mq_app q)))"
  | (handled) ev w1 where "decode_event (mg_body msg) = Inr ev" "handler c ev (evens f) (mq_app q) = (None, w1)"
      "q' = ack arrives (q\<lparr>mq_app := w1\<rparr>)"
  | (undecodable) e where "decode_event (mg_body msg) = Inl e" "answer = Confirmed"
      "q' = ack arrives (recordRoutedMessage inc True (route_to dlqRoutingKey msg q))"
  | (retried) ev err w1 h where "decode_event (mg_body msg) = Inr ev" "handler c ev (evens f) (mq_app q) = (Some err, w1)"
      "failedMessageRoute fint (mg_headers msg) = (retryRoutingKey, h, False)" "answer = Confirmed"
      "q' = ack arrives (recordRoutedMessage inc False
              (route_to retryRoutingKey \<lparr>mg_body = mg_body msg, mg_headers = h\<rparr> (q\<lparr>mq_app := w1\<rparr>)))"
  | (exhausted) ev err w1 where "decode_event (mg_body msg) = Inr ev" "handler c ev (evens f) (mq_app q) = (Some err, w1)"
      "failedMessageRoute fint (mg_headers msg) = (dlqRoutingKey, mg_headers msg, True)" "answer = Confirmed"
      "q' = finishDeadLetter terminal c ev err arrives (odds f)
              (recordRoutedMessage inc True (route_to dlqRoutingKey msg (q\<lparr>mq_app := w1\<rparr>)))"
proof (cases "decode_event (mg_body msg)")
  case (Inl e)
  show thesis
  proof (cases "republishConfirmed msg dlqRoutingKey (mg_headers msg) answer q")
    case (Pair r q1)
    with Inl assms show thesis
      using kept [OF _ _ republish_Some disjI1] republish_frame [OF Pair] undecodable
      by (cases r) (auto simp: consume_one_def)
  qed
next
  case (Inr ev)
  obtain r w1 where h: "handler c ev (evens f) (mq_app q) = (r, w1)" by force
  show thesis
  proof (cases r)
    case None
    with Inr h assms handled show thesis by (simp add: consume_one_def)
  next
    case (Some err)
    obtain key hd d where route: "failedMessageRoute fint (mg_headers msg) = (key, hd, d)" by (metis prod_cases3)
    then have dir: "if d then key = dlqRoutingKey \<and> hd = mg_headers msg else key = retryRoutingKey"
      by (auto simp: failedMessageRoute_def retryDecision_def split: if_splits)
    show thesis
    proof (cases "republishConfirmed msg key hd answer (q\<lparr>mq_app := w1\<rparr>)")
      case (Pair r1 q1)
      show thesis
      proof (cases r1)
        case None
        with Pair Inr h Some route dir assms show thesis
          using retried [of ev err w1 hd] exhausted [of ev err w1] by (cases d) (auto simp: consume_one_def)
      next
        case (Some e1)
        with Pair Inr h \<open>r = Some err\<close> route assms have "q' = q1" by (simp add: consume_one_def)
        moreover from this h have "mq_app q' = snd (handler c ev (evens f) (mq_app q))"
          using republish_frame [OF Pair] by simp
        ultimately show thesis
          using kept republish_frame [OF Pair] republish_Some [OF Pair [unfolded Some]] by (auto simp: q_bodies_def)
      qed
    qed
  qed
qed

section \<open>No message is lost, whatever the broker answers\<close>

text \<open>A run of the worker: deliveries with what the broker answers, and expiries of the retry queue.\<close>

datatype delivery = Deliver ctx confirmation bool fresh | RetryDue

definition run_delivery ::
  "(metric \<Rightarrow> 'w \<Rightarrow> 'w) \<Rightarrow> (float64 \<Rightarrow> 64 word) \<Rightarrow> 'w handler \<Rightarrow> 'w terminal_handler option \<Rightarrow> delivery \<Rightarrow> 'w mq \<Rightarrow> 'w mq" where
  "run_delivery inc fint handler terminal d q =
     (case d of Deliver c answer arrives f \<Rightarrow> consume_one inc fint handler terminal c answer arrives f q
      | RetryDue \<Rightarrow> retry_due q)"

text \<open>The body a delivery finished: its handler returned without an error.\<close>

definition finished :: "'w handler \<Rightarrow> delivery \<Rightarrow> 'w mq \<Rightarrow> string set" where
  "finished handler d q =
     (case d of
        RetryDue \<Rightarrow> {}
      | Deliver c answer arrives f \<Rightarrow>
          (case mq_main q of
             [] \<Rightarrow> {}
           | msg # _ \<Rightarrow>
               (case decode_event (mg_body msg) of
                  Inl _ \<Rightarrow> {}
                | Inr ev \<Rightarrow> if fst (handler c ev (evens f) (mq_app q)) = None then {mg_body msg} else {})))"

fun run_consumer ::
  "(metric \<Rightarrow> 'w \<Rightarrow> 'w) \<Rightarrow> (float64 \<Rightarrow> 64 word) \<Rightarrow> 'w handler \<Rightarrow> 'w terminal_handler option \<Rightarrow> delivery list
     \<Rightarrow> 'w mq \<Rightarrow> string set \<times> 'w mq" where
  "run_consumer inc fint handler terminal [] q = ({}, q)"
| "run_consumer inc fint handler terminal (d # ds) q =
     (case run_consumer inc fint handler terminal ds (run_delivery inc fint handler terminal d q) of
        (fin, q') \<Rightarrow> (finished handler d q \<union> fin, q'))"

lemma consume_keeps:
  "set (q_bodies q) \<subseteq> set (q_bodies (run_delivery inc fint handler terminal d q)) \<union> finished handler d q"
proof (cases d)
  case RetryDue
  then show ?thesis by (auto simp: run_delivery_def retry_due_def q_bodies_def split: list.splits)
next
  case (Deliver c answer arrives f)
  show ?thesis
  proof (cases "mq_main q")
    case Nil
    with Deliver show ?thesis by (simp add: run_delivery_def consume_one_def)
  next
    case (Cons msg ms)
    from refl [of "consume_one inc fint handler terminal c answer arrives f q"] Cons show ?thesis
      by (cases rule: consume_cases)
        (use Cons in \<open>auto simp: Deliver run_delivery_def finished_def q_bodies_def route_to_def finishDeadLetter_def\<close>)
  qed
qed

lemma run_consumer_keeps:
  "run_consumer inc fint handler terminal ds q = (fin, q') \<Longrightarrow> set (q_bodies q) \<subseteq> set (q_bodies q') \<union> fin"
proof (induction ds arbitrary: q fin)
  case (Cons d ds)
  obtain fin1 where "run_consumer inc fint handler terminal ds (run_delivery inc fint handler terminal d q) = (fin1, q')"
    "fin = finished handler d q \<union> fin1"
    using Cons.prems by (auto split: prod.splits)
  with Cons.IH [OF this(1)] consume_keeps [of q inc fint handler terminal d] show ?case by blast
qed simp

section \<open>Retries end\<close>

lemma sint_widen [simp]: "sint (scast (n :: 32 word) :: 64 word) = sint n"
  using sint_ge [of n] sint_lt [of n] by (simp add: signed_scast_eq signed_take_bit_int_eq_self_iff)

lemma retry_counts_up:
  assumes "failedMessageRoute fint h = (key, h', False)"
  shows "sint (retryCount fint h) < sint (retryCount fint h')" and "sint (retryCount fint h) < MaxRetries"
proof -
  let ?n = "retryCount fint h"
  from assms have lt: "sint ?n < MaxRetries" and h': "retryCount fint h' = scast (scast (?n + 1) :: 32 word)"
    by (auto simp: failedMessageRoute_def retryDecision_def retryCount_def split: if_splits)
  have nxt: "sint (?n + 1) = sint ?n + 1"
    using lt sint_ge [of ?n] by (simp add: sint_word_add signed_take_bit_int_eq_self_iff MaxRetries_def)
  show "sint ?n < MaxRetries" by (rule lt)
  show "sint ?n < sint (retryCount fint h')"
  proof (cases "- (2 ^ 31) \<le> sint ?n + 1")
    case True
    then have "sint (scast (?n + 1) :: 32 word) = sint ?n + 1"
      using nxt lt by (simp add: MaxRetries_def signed_scast_eq signed_take_bit_int_eq_self_iff)
    then show ?thesis by (simp add: h')
  next
    case False
    have "- (2 ^ 31) \<le> sint (scast (?n + 1) :: 32 word)" using sint_ge [of "scast (?n + 1) :: 32 word"] by simp
    with False show ?thesis by (simp add: h')
  qed
qed

text \<open>Four failures in a row, each confirmed and acknowledged, take a message that was never retried
  through the retry queue three times and then into the dead letter queue.\<close>

definition failing :: "'w handler \<Rightarrow> bool" where
  "failing handler = (\<forall>c ev f w. fst (handler c ev f w) \<noteq> None)"

lemma consume_failing:
  assumes "failing handler" and "mq_main q = msg # ms" and "decode_event (mg_body msg) = Inr ev"
    and "failedMessageRoute fint (mg_headers msg) = (key, h, toDLQ)"
    and "consume_one inc fint handler terminal c Confirmed True f q = q'"
  shows "mq_main q' = ms"
    and "mq_retry q' = (if toDLQ then mq_retry q else mq_retry q @ [\<lparr>mg_body = mg_body msg, mg_headers = h\<rparr>])"
    and "mq_dlq q' = (if toDLQ then mq_dlq q @ [msg] else mq_dlq q)"
proof -
  obtain err w1 where "handler c ev (evens f) (mq_app q) = (Some err, w1)"
    using assms(1) unfolding failing_def by (metis not_None_eq prod.collapse)
  with assms(2-5) show "mq_main q' = ms"
    and "mq_retry q' = (if toDLQ then mq_retry q else mq_retry q @ [\<lparr>mg_body = mg_body msg, mg_headers = h\<rparr>])"
    and "mq_dlq q' = (if toDLQ then mq_dlq q @ [msg] else mq_dlq q)"
    by (auto simp: consume_one_def finishDeadLetter_def route_to_def failedMessageRoute_def retryDecision_def Let_def
        split: if_splits)
qed

definition count_header :: "64 word \<Rightarrow> headers \<Rightarrow> headers" where
  "count_header n h = (if n = 0 then h else h(RetryCountHeader \<mapsto> HInt32 (scast n)))"

lemma count_header_route:
  assumes "h RetryCountHeader = None" and "n \<in> {0, 1, 2}"
  shows "failedMessageRoute fint (count_header n h) = (retryRoutingKey, count_header (n + 1) h, False)"
  using assms by (auto simp: failedMessageRoute_def retryDecision_def retryCount_def count_header_def cloneHeaders_def MaxRetries_def)

lemma count_header_dead:
  "h RetryCountHeader = None \<Longrightarrow> failedMessageRoute fint (count_header 3 h) = (dlqRoutingKey, count_header 3 h, True)"
  by (simp add: failedMessageRoute_def retryDecision_def retryCount_def count_header_def MaxRetries_def)

text \<open>A failed delivery followed by the expiry of the retry queue.\<close>

definition retry_round ::
  "(metric \<Rightarrow> 'w \<Rightarrow> 'w) \<Rightarrow> (float64 \<Rightarrow> 64 word) \<Rightarrow> 'w handler \<Rightarrow> 'w terminal_handler option \<Rightarrow> ctx \<Rightarrow> fresh \<Rightarrow> 'w mq \<Rightarrow> 'w mq" where
  "retry_round inc fint handler terminal c f q = retry_due (consume_one inc fint handler terminal c Confirmed True f q)"

lemma retry_round_failing:
  assumes "failing handler" and "decode_event b = Inr ev" and "h RetryCountHeader = None" and "n \<in> {0, 1, 2}"
    and "mq_main q = [\<lparr>mg_body = b, mg_headers = count_header n h\<rparr>]" and "mq_retry q = []"
    and "retry_round inc fint handler terminal c f q = q'"
  shows "mq_main q' = [\<lparr>mg_body = b, mg_headers = count_header (n + 1) h\<rparr>]" and "mq_retry q' = []" and "mq_dlq q' = mq_dlq q"
proof -
  let ?q = "consume_one inc fint handler terminal c Confirmed True f q"
  have "failedMessageRoute fint (count_header n h) = (retryRoutingKey, count_header (n + 1) h, False)"
    using assms(3,4) by (rule count_header_route)
  with consume_failing [OF assms(1,5) _ _ refl, of ev fint retryRoutingKey "count_header (n + 1) h" False inc terminal c f] assms(2,6)
  have "mq_main ?q = []" "mq_retry ?q = [\<lparr>mg_body = b, mg_headers = count_header (n + 1) h\<rparr>]" "mq_dlq ?q = mq_dlq q"
    by simp_all
  then show "mq_main q' = [\<lparr>mg_body = b, mg_headers = count_header (n + 1) h\<rparr>]" and "mq_retry q' = []" and "mq_dlq q' = mq_dlq q"
    using assms(7) by (auto simp: retry_round_def retry_due_def)
qed

section \<open>Events survive the wire\<close>

lemma names_fold [simp]:
  "\<not> EqualFold ''id'' ''type''" "\<not> EqualFold ''id'' ''timestamp''" "\<not> EqualFold ''id'' ''payload''"
  "\<not> EqualFold ''type'' ''id''" "\<not> EqualFold ''type'' ''timestamp''" "\<not> EqualFold ''type'' ''payload''"
  "\<not> EqualFold ''timestamp'' ''id''" "\<not> EqualFold ''timestamp'' ''type''" "\<not> EqualFold ''timestamp'' ''payload''"
  "\<not> EqualFold ''payload'' ''id''" "\<not> EqualFold ''payload'' ''type''" "\<not> EqualFold ''payload'' ''timestamp''"
  "EqualFold s s"
  by (simp_all add: EqualFold_def ToLower_def ascii_lower_def)

lemma decode_encode:
  assumes "valid_utf8 (evt_ID e)" and "valid_utf8 (evt_Type e)" and "valid_utf8 (evt_Timestamp e)" and "time_text (evt_Timestamp e)"
    and "evt_Payload e = Some p" and "plain_json p"
  shows "decode_event (encode_event e) = Inr e"
proof -
  have names: "valid_utf8 ''id''" "valid_utf8 ''type''" "valid_utf8 ''timestamp''" "valid_utf8 ''payload''"
    by (rule valid_ascii, simp add: byte_def)+
  let ?j = "JObj [(''id'', JStr (evt_ID e)), (''type'', JStr (evt_Type e)), (''timestamp'', JStr (evt_Timestamp e)), (''payload'', p)]"
  have "json_parse (json_encode ?j) = Some ?j" by (rule json_parse_encode) (use assms names in simp)
  moreover have "encode_event e = json_encode ?j" using assms(5) by (simp only: encode_event_def option.case)
  ultimately show ?thesis
    using assms by (simp add: decode_event_def field_mismatch_def time_mismatch_def split: json.split del: json_encode.simps)
qed

lemma DecodePayload_incident: "evt_Payload e = Some (incident_payload i) \<Longrightarrow> DecodePayload e = Inr i"
  by (simp add: DecodePayload_def incident_payload_def field_mismatch_def)

lemma plain_incident_payload: "valid_utf8 i \<Longrightarrow> plain_json (incident_payload i)"
  using valid_ascii [of "''incident_id''"] by (simp add: incident_payload_def byte_def)

lemma producer_Publish_ok: "producer_Publish online answer = None \<longleftrightarrow> online \<and> answer = Answered True None"
  by (auto simp: producer_Publish_def split: publish_answer.splits option.splits)

section \<open>Guarantees of the queue\<close>

text \<open>An event, a handler that always fails and a queue to show the guarantees on.\<close>

definition sample_event :: event where
  "sample_event = NewEvent AgentRequested (incident_payload ''inc_a0'') ''u-1'' ''2026-01-02T03:04:05Z''"

definition sample_queue :: "'w \<Rightarrow> 'w mq" where
  "sample_queue w = \<lparr>mq_main = [\<lparr>mg_body = encode_event sample_event, mg_headers = Map.empty\<rparr>], mq_retry = [], mq_dlq = [], mq_app = w\<rparr>"

definition refusing :: "'w handler" where
  "refusing c ev f w = (Some (plain_err ''no''), w)"

definition sample_fresh :: fresh where
  "sample_fresh = \<lparr>clk = (\<lambda>i. int i), uid = (\<lambda>i. replicate i (CHR ''x''))\<rparr>"

lemma sample_time: "time_text ''2026-01-02T03:04:05Z''"
  by (simp add: time_text_def number_text_def expect_def hour_text_def skip_fraction_def zone_text_def digit_def byte_def
      number_of_def month_days_def)

lemma sample_fields:
  "valid_utf8 (evt_ID sample_event)" "valid_utf8 (evt_Type sample_event)" "valid_utf8 (evt_Timestamp sample_event)"
  "time_text (evt_Timestamp sample_event)" "evt_Payload sample_event = Some (incident_payload ''inc_a0'')"
  "plain_json (incident_payload ''inc_a0'')"
  using sample_time plain_incident_payload [OF valid_ascii [of "''inc_a0''"]]
  by (simp_all add: sample_event_def NewEvent_def AgentRequested_def valid_ascii byte_def)

lemma sample_decodes: "decode_event (encode_event sample_event) = Inr sample_event"
  by (rule decode_encode [OF sample_fields])

lemma refusing_fails: "failing refusing"
  by (simp add: failing_def refusing_def)

text \<open>C11. No event is lost, whatever the broker answers to republications and acknowledgements, in whatever
  order deliveries and retry expiries come: after any run of the worker, the body of every message
  that was in one of the three queues is still in one of them, or a handler finished it without an
  error.\<close>

theorem no_message_lost:
  assumes "run_consumer inc fint handler terminal ds q = (fin, q')" and "b \<in> set (q_bodies q)"
  shows "b \<in> set (q_bodies q') \<or> b \<in> fin"
  using run_consumer_keeps [OF assms(1)] assms(2) by blast

lemma no_message_lost_witness:
  "encode_event sample_event \<in> set (q_bodies (snd (run_consumer (\<lambda>_. id) (\<lambda>_. 0) refusing None
     [Deliver background (WaitFailed False) True sample_fresh, Deliver background Confirmed False sample_fresh, RetryDue]
     (sample_queue ()))))"
proof -
  let ?ds = "[Deliver background (WaitFailed False) True sample_fresh, Deliver background Confirmed False sample_fresh, RetryDue]"
  obtain fin q' where run: "run_consumer (\<lambda>_. id) (\<lambda>_. 0) refusing None ?ds (sample_queue ()) = (fin, q')" by force
  have "finished refusing d q = {}" for d and q :: "unit mq"
    by (auto simp: finished_def refusing_def split: delivery.splits list.splits sum.splits)
  with run have "fin = {}" by (auto split: prod.splits)
  moreover have "encode_event sample_event \<in> set (q_bodies (sample_queue ()))" by (simp add: q_bodies_def sample_queue_def)
  ultimately show ?thesis using no_message_lost [OF run] run by simp
qed

text \<open>C14. A message without a retry header whose handler always fails is redelivered exactly three times: after
  three rounds through the retry queue the fourth failure puts it, with its body unchanged and the count 3 in
  its header, into the dead letter queue, and both other queues are empty.\<close>

theorem dead_letter_after_three:
  assumes "failing handler" and "decode_event b = Inr ev" and "h RetryCountHeader = None"
    and "mq_main q = [\<lparr>mg_body = b, mg_headers = h\<rparr>]" and "mq_retry q = []"
    and "q3 = fold (\<lambda>(c, f). retry_round inc fint handler terminal c f) [(c0, f0), (c1, f1), (c2, f2)] q"
    and "q4 = consume_one inc fint handler terminal c3 Confirmed True f3 q3"
  shows "mq_main q3 = [\<lparr>mg_body = b, mg_headers = h(RetryCountHeader \<mapsto> HInt32 3)\<rparr>] \<and> mq_dlq q3 = mq_dlq q
    \<and> mq_main q4 = [] \<and> mq_retry q4 = [] \<and> mq_dlq q4 = mq_dlq q @ [\<lparr>mg_body = b, mg_headers = h(RetryCountHeader \<mapsto> HInt32 3)\<rparr>]"
proof -
  note fails = retry_round_failing [where h = h and b = b, OF assms(1-3) _ _ _ refl, where inc = inc and fint = fint and terminal = terminal]
  have 0: "mq_main q = [\<lparr>mg_body = b, mg_headers = count_header 0 h\<rparr>]"
    using assms(4) by (simp add: count_header_def)
  note 1 = fails [OF _ 0 assms(5), of c0 f0, simplified]
  note 2 = fails [OF _ 1(1,2), of c1 f1, simplified]
  note 3 = fails [OF _ 2(1,2), of c2 f2, simplified]
  have q3: "mq_main q3 = [\<lparr>mg_body = b, mg_headers = count_header 3 h\<rparr>]" "mq_retry q3 = []" "mq_dlq q3 = mq_dlq q"
    using 1(3) 2(3) 3 assms(6) by simp_all
  from consume_failing [OF assms(1) q3(1) _ _ assms(7) [symmetric], simplified, OF assms(2) count_header_dead [where h = h, OF assms(3)]] q3
  show ?thesis by (simp add: count_header_def)
qed

lemma dead_letter_after_three_witness:
  "mq_dlq (consume_one (\<lambda>_. id) (\<lambda>_. 0) refusing None background Confirmed True sample_fresh
     (fold (\<lambda>(c, f). retry_round (\<lambda>_. id) (\<lambda>_. 0) refusing None c f)
        [(background, sample_fresh), (background, sample_fresh), (background, sample_fresh)] (sample_queue ())))
   = [\<lparr>mg_body = encode_event sample_event, mg_headers = [''x-retry-count'' \<mapsto> HInt32 3]\<rparr>]"
  using dead_letter_after_three [OF refusing_fails sample_decodes, of Map.empty "sample_queue ()", OF _ _ _ refl refl]
  by (simp add: sample_queue_def RetryCountHeader_def)

text \<open>A message cannot circle for ever, whatever count its header carries (any integer of 32 or 64
  bits, also a negative one): each time it goes to the retry queue its count, read back from the
  32-bit header, is strictly greater than before, and with a count of three or more it goes to the
  dead letter queue with its headers unchanged.\<close>

theorem retries_end:
  "(case failedMessageRoute fint h of
      (key, h', toDLQ) \<Rightarrow>
        if toDLQ then key = dlqRoutingKey \<and> h' = h \<and> 3 \<le> sint (retryCount fint h)
        else key = retryRoutingKey \<and> sint (retryCount fint h) < sint (retryCount fint h') \<and> sint (retryCount fint h) < 3)"
proof -
  obtain key h' toDLQ where r: "failedMessageRoute fint h = (key, h', toDLQ)" by (metis prod_cases3)
  show ?thesis
  proof (cases toDLQ)
    case True
    with r show ?thesis
      by (auto simp: failedMessageRoute_def retryDecision_def MaxRetries_def split: if_splits)
  next
    case False
    with r have "key = retryRoutingKey" by (auto simp: failedMessageRoute_def retryDecision_def split: if_splits)
    with False r retry_counts_up [of fint h key h'] show ?thesis by (simp add: MaxRetries_def)
  qed
qed

text \<open>An event survives the wire: what the producer encodes the consumer decodes to the same event, and
  an \<open>agent.requested\<close> payload gives back its incident id.\<close>

theorem event_round_trip:
  assumes "valid_utf8 u" and "valid_utf8 ty" and "valid_utf8 now" and "time_text now" and "valid_utf8 i"
  shows "decode_event (encode_event (NewEvent ty (incident_payload i) u now)) = Inr (NewEvent ty (incident_payload i) u now)
    \<and> DecodePayload (NewEvent ty (incident_payload i) u now) = Inr i"
proof -
  have "plain_json (incident_payload i)" using assms(5) by (rule plain_incident_payload)
  with assms decode_encode [of "NewEvent ty (incident_payload i) u now"] show ?thesis
    by (simp add: NewEvent_def DecodePayload_incident)
qed

lemma event_round_trip_witness:
  "decode_event (encode_event (NewEvent ''agent.requested'' (incident_payload ''inc_1'') ''u'' ''2026-01-02T03:04:05Z''))
     = Inr (NewEvent ''agent.requested'' (incident_payload ''inc_1'') ''u'' ''2026-01-02T03:04:05Z'')"
  using event_round_trip [of "''u''" "''agent.requested''" "''2026-01-02T03:04:05Z''" "''inc_1''"] sample_time
  by (simp add: valid_ascii byte_def)

end
