(* ===== verification/Worker.thy ===== *)
theory Worker
  imports Run_Safety Recorder Messaging
begin

text \<open>
  The worker of \<open>internal/bootstrap\<close>: the tools and the runtime of the diagnosis agent, the idempotent
  entry \<open>RunDiagnosis\<close>, the handler of \<open>agent.requested\<close>, the terminal handler of the dead letter queue
  and the publisher. The language model behind the agent, the tools that only read (their answers
  come from Prometheus, RabbitMQ or the run books) and the JSON binding of the tool library are
  arguments. The lemmas show that whatever the worker does is a sequence of steps of \<open>System\<close>, so the
  invariants of the reachable states cover it.
\<close>

section \<open>Searching past incidents\<close>

record history_input =
  hi_Service :: string
  hi_AlertName :: string
  hi_Status :: string

record history_result =
  hs_ID :: string
  hs_Service :: string
  hs_AlertName :: string
  hs_Title :: string
  hs_Status :: string
  hs_Severity :: string
  hs_StartedAt :: time
  hs_ResolvedAt :: "time option"

definition history_of :: "incident \<Rightarrow> history_result" where
  "history_of inc =
     \<lparr>hs_ID = inc_ID inc, hs_Service = inc_Service inc, hs_AlertName = inc_AlertName inc, hs_Title = inc_Title inc,
      hs_Status = status_string (inc_Status inc), hs_Severity = inc_Severity inc, hs_StartedAt = inc_StartedAt inc,
      hs_ResolvedAt = inc_ResolvedAt inc\<rparr>"

definition history_search :: "'w incident_repo \<Rightarrow> ctx \<Rightarrow> history_input \<Rightarrow> 'w \<Rightarrow> gerror + history_result list" where
  "history_search repo c inp w =
     (case ir_List repo c \<lparr>lf_Service = hi_Service inp, lf_Status = hi_Status inp, lf_Limit = 50, lf_Offset = 0\<rparr> w of
        Inl err \<Rightarrow> Inl err
      | Inr incs \<Rightarrow>
          Inr (map history_of (filter (\<lambda>inc. \<not> (hi_AlertName inp \<noteq> '''' \<and> inc_AlertName inc \<noteq> hi_AlertName inp)) incs)))"

section \<open>The tools of the agent\<close>

text \<open>The tool library decodes the arguments of a call and encodes its result.\<close>

record tool_library =
  tl_history_in :: "string \<Rightarrow> gerror + history_input"
  tl_history_out :: "history_result list \<Rightarrow> gerror + string"
  tl_restart_in :: "string \<Rightarrow> gerror + restart_input"
  tl_restart_out :: "restart_result \<Rightarrow> gerror + string"

definition tool_answer :: "('b \<Rightarrow> gerror + string) \<Rightarrow> gerror + 'b \<Rightarrow> string \<times> gerror option" where
  "tool_answer out r =
     (case r of
        Inl err \<Rightarrow> ('''', Some err)
      | Inr x \<Rightarrow> (case out x of Inl err \<Rightarrow> ('''', Some err) | Inr text \<Rightarrow> (text, None)))"

text \<open>A tool that answers without touching the state of the program.\<close>

type_synonym reader = "int \<Rightarrow> ctx \<Rightarrow> string \<Rightarrow> fresh \<Rightarrow> string \<times> gerror option"

record readers =
  tr_runbook :: reader
  tr_query :: reader
  tr_alerts :: reader
  tr_range :: reader
  tr_inspect :: reader

definition read_tool :: "reader \<Rightarrow> 'w tool" where
  "read_tool rd = (\<lambda>tmo c args f w. (rd tmo c args f, w))"

definition history_tool :: "tool_library \<Rightarrow> world tool" where
  "history_tool lib = (\<lambda>tmo c args f w.
     (case tl_history_in lib args of
        Inl err \<Rightarrow> (('''', Some err), w)
      | Inr inp \<Rightarrow> (tool_answer (tl_history_out lib) (history_search world_incident_repo c inp w), w)))"

definition restart_tool :: "config \<Rightarrow> environment \<Rightarrow> tool_library \<Rightarrow> world tool" where
  "restart_tool cfg env lib = (\<lambda>tmo c args f w.
     (case tl_restart_in lib args of
        Inl err \<Rightarrow> (('''', Some err), w)
      | Inr inp \<Rightarrow>
          (case restart_request (system_tool cfg env) c inp f w of
             (r, w1) \<Rightarrow> (tool_answer (tl_restart_out lib) r, w1))))"

definition register_tool :: "string \<Rightarrow> 'w tool \<Rightarrow> risk_level \<Rightarrow> 'w tool registry \<Rightarrow> 'w tool registry" where
  "register_tool name t risk reg = snd (Register (\<lambda>_. Inr name) t risk reg)"

definition buildToolRegistry :: "config \<Rightarrow> tool_library \<Rightarrow> readers \<Rightarrow> world tool registry" where
  "buildToolRegistry cfg lib rs =
     (let r1 = register_tool ''runbook_search'' (read_tool (tr_runbook rs)) RiskLow
                 (register_tool ''incident_history'' (history_tool lib) RiskLow registry_New);
          r2 = (if cf_PrometheusURL cfg \<noteq> ''''
                then register_tool ''prometheus_range_query'' (read_tool (tr_range rs)) RiskLow
                       (register_tool ''prometheus_alerts'' (read_tool (tr_alerts rs)) RiskLow
                          (register_tool ''prometheus_query'' (read_tool (tr_query rs)) RiskLow r1))
                else r1)
      in if mq_ManagementURL (cf_RabbitMQ cfg) \<noteq> ''''
         then register_tool ''rabbitmq_inspect'' (read_tool (tr_inspect rs)) RiskLow r2 else r2)"

definition worker_registry :: "config \<Rightarrow> environment \<Rightarrow> tool_library \<Rightarrow> readers \<Rightarrow> world tool registry" where
  "worker_registry cfg env lib rs =
     register_tool ''worker_restart'' (restart_tool cfg env lib) RiskMedium (buildToolRegistry cfg lib rs)"

section \<open>The runtime of the agent\<close>

text \<open>The prompt used when the prompt file cannot be read, as UTF-8 bytes.\<close>

definition txt_default_prompt :: string where
  "txt_default_prompt = utf8_bytes
     [0xE4, 0xBD, 0xA0, 0xE6, 0x98, 0xAF, 0xE8, 0xBF, 0x90, 0xE7, 0xBB, 0xB4, 0xE6, 0x95, 0x85, 0xE9, 0x9A, 0x9C,
      0xE8, 0xAF, 0x8A, 0xE6, 0x96, 0xAD, 0x20, 0x41, 0x67, 0x65, 0x6E, 0x74, 0xE3, 0x80, 0x82]"

definition loadPrompt :: "gerror + string \<Rightarrow> string" where
  "loadPrompt file = (case file of Inl _ \<Rightarrow> txt_default_prompt | Inr text \<Rightarrow> text)"

definition worker_runtime :: "config \<Rightarrow> environment \<Rightarrow> tool_library \<Rightarrow> readers \<Rightarrow> world agent_runtime" where
  "worker_runtime cfg env lib rs =
     WithRunTimeout (ag_TimeoutSeconds (cf_Agent cfg) * 1000000000)
       (WithToolLimits (cf_ToolTimeoutSeconds cfg * 1000000000) (ag_MaxToolCalls (cf_Agent cfg))
          (WithRunRecording world_run_repo (Some publish_event)
             (runtime_New count_metric (worker_registry cfg env lib rs) (ag_MaxSteps (cf_Agent cfg)))))"

definition buildAgent ::
  "config \<Rightarrow> environment \<Rightarrow> tool_library \<Rightarrow> readers \<Rightarrow> gerror + string \<Rightarrow> world agent_runtime option \<times> string" where
  "buildAgent cfg env lib rs file =
     (if lc_BaseURL (cf_LLM cfg) = '''' \<or> lc_Model (cf_LLM cfg) = '''' then (None, '''')
      else (Some (worker_runtime cfg env lib rs), loadPrompt file))"

section \<open>Handling an event\<close>

fun any_active :: "agent_run list \<Rightarrow> bool" where
  "any_active [] = False"
| "any_active (r # rs) = (if IsActive (run_Status r) then True else any_active rs)"

definition hasActiveRun :: "ctx \<Rightarrow> 'w run_repo option \<Rightarrow> string \<Rightarrow> 'w \<Rightarrow> bool" where
  "hasActiveRun c repo incidentID w =
     (case repo of
        None \<Rightarrow> False
      | Some runs \<Rightarrow>
          (case rr_ListRunsByIncident runs c incidentID w of Inl _ \<Rightarrow> False | Inr rs \<Rightarrow> any_active rs))"

definition RunDiagnosis ::
  "'w incident_service \<Rightarrow> 'w run_repo option \<Rightarrow> 'w agent_runtime option \<Rightarrow> react_agent \<Rightarrow> string
     \<Rightarrow> ctx \<Rightarrow> string \<Rightarrow> fresh \<Rightarrow> 'w \<Rightarrow> gerror option \<times> 'w" where
  "RunDiagnosis svc repo rt agent prompt c incidentID f w =
     (case svc_Get svc c incidentID w of
        Inl err \<Rightarrow> (Some err, w)
      | Inr inc \<Rightarrow>
          if IsTerminal (inc_Status inc) then (None, w)
          else if hasActiveRun c repo (inc_ID inc) w then (None, w)
          else
            (case (if inc_Status inc = StatusOpen then svc_Analyze svc c (inc_ID inc) (evens f) w else (Inr inc, w)) of
               (Inl err, w1) \<Rightarrow> (Some err, w1)
             | (Inr inc1, w1) \<Rightarrow>
                 (case rt of
                    None \<Rightarrow> (None, w1)
                  | Some r \<Rightarrow>
                      (case Diagnose r agent c inc1 prompt (odds f) w1 of
                         (Inl err, w2) \<Rightarrow> if errIs err ErrConflict then (None, w2) else (Some err, w2)
                       | (Inr _, w2) \<Rightarrow> (None, w2)))))"

definition handleAgentRequested ::
  "'w incident_service \<Rightarrow> 'w run_repo option \<Rightarrow> 'w agent_runtime option \<Rightarrow> react_agent \<Rightarrow> string \<Rightarrow> 'w handler" where
  "handleAgentRequested svc repo rt agent prompt c ev f w =
     (case DecodePayload ev of
        Inl err \<Rightarrow> (Some err, w)
      | Inr incidentID \<Rightarrow> RunDiagnosis svc repo rt agent prompt c incidentID f w)"

definition failIncidentOnDeadLetter :: "'w incident_service \<Rightarrow> 'w terminal_handler" where
  "failIncidentOnDeadLetter svc c ev cause f w =
     (case DecodePayload ev of
        Inl _ \<Rightarrow> (None, w)
      | Inr incidentID \<Rightarrow>
          if incidentID = '''' then (None, w)
          else
            (case svc_Fail svc c incidentID ''agent event retries exhausted'' (err_text cause) f w of
               (Inl err, w1) \<Rightarrow> (if errIs err ErrInvalidTransition then None else Some err, w1)
             | (Inr _, w1) \<Rightarrow> (None, w1)))"

text \<open>Publishing: without a producer nothing is sent and nothing fails. A publication that failed may still
  have reached the queue.\<close>

definition PublishAgentRequested ::
  "bool option \<Rightarrow> publish_answer \<Rightarrow> bool \<Rightarrow> string \<Rightarrow> string \<Rightarrow> string \<Rightarrow> 'w mq \<Rightarrow> gerror option \<times> 'w mq" where
  "PublishAgentRequested producer answer arrived incidentID u now q =
     (case producer of
        None \<Rightarrow> (None, q)
      | Some online \<Rightarrow>
          (let ev = NewEvent AgentRequested (incident_payload incidentID) u now;
               r = producer_Publish online answer
           in (r, if online \<and> (r = None \<or> arrived)
                  then q\<lparr>mq_main := mq_main q @ [\<lparr>mg_body = encode_event ev, mg_headers = Map.empty\<rparr>]\<rparr> else q)))"

section \<open>The tools the agent can reach\<close>

lemma register_tool_ok: "registry_ok reg \<Longrightarrow> registry_ok (register_tool name t risk reg)"
  unfolding register_tool_def by (rule Register_ok [where e = "fst (Register (\<lambda>_. Inr name) t risk reg)"]) simp_all

lemma register_tool_All:
  assumes "registry_ok reg" and "x \<in> set (registry_All (register_tool name t risk reg))"
  shows "x \<in> set (registry_All reg) \<or> x = \<lparr>rt_Name = name, rt_Tool = t, rt_RiskLevel = risk\<rparr>"
proof -
  obtain e reg' where reg: "Register (\<lambda>_. Inr name) t risk reg = (e, reg')" by force
  from Register_All [OF assms(1) reg] assms(2) show ?thesis
    by (cases e) (auto simp: register_tool_def reg)
qed

lemma read_only_All:
  "registry_ok (buildToolRegistry cfg lib rs)
    \<and> (\<forall>t \<in> set (registry_All (buildToolRegistry cfg lib rs)).
        rt_RiskLevel t = RiskLow \<and> (rt_Tool t = history_tool lib \<or> (\<exists>rd. rt_Tool t = read_tool rd)))"
proof -
  define good where "good reg \<longleftrightarrow> registry_ok reg \<and> (\<forall>t \<in> set (registry_All reg).
      rt_RiskLevel t = RiskLow \<and> (rt_Tool t = history_tool lib \<or> (\<exists>rd. rt_Tool t = read_tool rd)))"
    for reg :: "world tool registry"
  have new: "good registry_New"
    unfolding good_def by (simp add: registry_New_ok) (simp add: registry_New_def registry_All_def)
  have reads: "good reg \<Longrightarrow> good (register_tool name (read_tool rd) RiskLow reg)" for name rd reg
    unfolding good_def using register_tool_ok register_tool_All [of reg _ name "read_tool rd" RiskLow] by fastforce
  have history: "good reg \<Longrightarrow> good (register_tool name (history_tool lib) RiskLow reg)" for name reg
    unfolding good_def using register_tool_ok register_tool_All [of reg _ name "history_tool lib" RiskLow] by fastforce
  have "good (buildToolRegistry cfg lib rs)"
    unfolding buildToolRegistry_def Let_def by (auto intro!: reads history new)
  then show ?thesis by (simp add: good_def)
qed

lemma worker_tool:
  assumes "t \<in> set (registry_All (worker_registry cfg env lib rs))"
  shows "rt_Tool t = history_tool lib \<or> (\<exists>rd. rt_Tool t = read_tool rd)
    \<or> (rt_Tool t = restart_tool cfg env lib \<and> rt_RiskLevel t = RiskMedium)"
proof -
  note reads = read_only_All [of cfg lib rs]
  from register_tool_All [OF conjunct1 [OF reads] assms [unfolded worker_registry_def]] show ?thesis
    using bspec [OF conjunct2 [OF reads], of t] by (elim disjE) simp_all
qed

lemma history_tool_state: "history_tool lib tmo c args f w = (x, w') \<Longrightarrow> w' = w"
  by (auto simp: history_tool_def split: sum.splits)

lemma read_tool_state: "read_tool rd tmo c args f w = (x, w') \<Longrightarrow> w' = w"
  by (auto simp: read_tool_def)

lemma restart_tool_state:
  "restart_tool cfg env lib tmo c args f w = (x, w') \<Longrightarrow> w' = w \<or> (\<exists>inp y. restart_request (system_tool cfg env) c inp f w = (y, w'))"
  by (auto simp: restart_tool_def split: sum.splits prod.splits)

lemma worker_tool_state:
  assumes "t \<in> set (registry_All (worker_registry cfg env lib rs))" and "rt_Tool t tmo c args f w = (x, w')"
  shows "w' = w \<or> (\<exists>inp y. restart_request (system_tool cfg env) c inp f w = (y, w'))"
  using worker_tool [OF assms(1)] assms(2) history_tool_state read_tool_state restart_tool_state by metis

lemma worker_runtime_simps [simp]:
  "rt_runRepo (worker_runtime cfg env lib rs) = Some world_run_repo"
  "rt_count (worker_runtime cfg env lib rs) = count_metric"
  "rt_broker (worker_runtime cfg env lib rs) = Some publish_event"
  "rt_registry (worker_runtime cfg env lib rs) = worker_registry cfg env lib rs"
  by (simp_all add: worker_runtime_def WithRunTimeout_def WithToolLimits_def WithRunRecording_def runtime_New_def Let_def)

lemma worker_max_calls:
  "rt_maxToolCalls (worker_runtime cfg env lib rs) = max 0 (ag_MaxToolCalls (cf_Agent cfg))"
  by (simp add: worker_runtime_def WithRunTimeout_def WithToolLimits_def WithRunRecording_def runtime_New_def Let_def)

lemma worker_tool_runs:
  assumes "t \<in> set (registry_All (worker_registry cfg env lib rs))" and "rt_Tool t tmo c args f w = (x, w')"
  shows "w_runs w' = w_runs w"
  using worker_tool_state [OF assms] runs_restart by metis

interpretation wrec: run_recording world_run_repo w_rstored "\<lambda>w. memr_calls (w_runs w)" w_rinv "\<lambda>w. ((), beside_runs w)"
  "worker_runtime cfg env lib rs"
  for cfg env lib rs
  unfolding run_recording_def run_recording_axioms_def
proof (intro conjI allI impI wr.run_repository_axioms, goal_cases)
  case (5 publish i ev w) then show ?case by (auto simp: w_rstored_def)
next
  case (6 publish i ev w) then show ?case by auto
next
  case (7 publish i ev w) then show ?case by (auto simp: w_rinv_def)
next
  case (8 t w tmo c args f x w')
  from worker_tool_runs [OF 8(1,3) [unfolded worker_runtime_simps]] 8(2) show ?case by (simp add: w_rinv_def)
next
  case (9 t w tmo c args f x w')
  from worker_tool_runs [OF 9(1,3) [unfolded worker_runtime_simps]] show ?case by (simp add: w_rstored_def)
next
  case (10 t w tmo c args f x w')
  from worker_tool_runs [OF 10(1,3) [unfolded worker_runtime_simps]] show ?case by simp
qed (simp_all add: w_rstored_def w_rinv_def)

interpretation wrel: reliable_recording world_run_repo w_rstored "\<lambda>w. memr_calls (w_runs w)" w_rinv "\<lambda>w. ((), beside_runs w)"
  "worker_runtime cfg env lib rs"
  for cfg env lib rs
proof (unfold_locales, goal_cases)
  case (1 w r old c)
  then have m: "memr_inv (w_runs w)" "map_of (mr_runs (w_runs w)) (run_ID r) = Some old"
    by (simp_all add: world_views memr_stored_def)
  have "\<not> list_ex (\<lambda>(_, x). run_ID x \<noteq> run_ID r \<and> run_IncidentID x = run_IncidentID r \<and> IsActive (run_Status x))
      (mr_runs (w_runs w))"
  proof -
    have "run_ID x = run_ID r" if "map_of (mr_runs (w_runs w)) k = Some x" "run_IncidentID x = run_IncidentID r"
        "IsActive (run_Status x)" for k x
    proof -
      from m(1) have "one_active_run (memr_stored (w_runs w))" "run_ID x = k"
        using that(1) by (auto simp: memr_inv_def memr_stored_def)
      with m(2) that 1(3,4) show ?thesis unfolding one_active_run_def memr_stored_def by metis
    qed
    then show ?thesis using m(1) by (auto simp: list_ex_runs memr_inv_def)
  qed
  with m(2) show ?case by (simp add: world_run_repo_def lift_run_repo_def memory_run_repo_def memr_UpdateRun_def)
qed

end
