(* ===== verification/Worker_Steps.thy ===== *)
theory Worker_Steps
  imports Worker
begin

text \<open>
  What the worker does is what \<open>System\<close> says can happen: each operation of the recorder, each tool
  call, a whole diagnosis and the handlers of the event queue are sequences of system steps, and so
  is the consumer loop on its application state. Then what a duplicated event, a dead letter and a
  diagnosis do to the incident and its runs.
\<close>

section \<open>Refinement of the system\<close>

abbreviation system_run :: "config \<Rightarrow> world \<Rightarrow> world \<Rightarrow> bool" where
  "system_run cfg \<equiv> (system_step cfg)\<^sup>*\<^sup>*"

lemma system_run_reachable: "system_run cfg w w' \<Longrightarrow> reachable cfg w \<Longrightarrow> reachable cfg w'"
  by (induction rule: rtranclp_induct) (auto intro: reachable.step)

definition world_recorder :: "world recorder \<Rightarrow> bool" where
  "world_recorder r = (rx_runRepo r = world_run_repo \<and> rx_broker r = Some publish_event \<and> rx_count r = count_metric)"

lemma world_recorder_simps [simp]:
  "world_recorder (r\<lparr>rx_run := x\<rparr>) = world_recorder r" "world_recorder (r\<lparr>rx_stepIdx := i\<rparr>) = world_recorder r"
  "world_recorder (r\<lparr>rx_toolCalls := i\<rparr>) = world_recorder r"
  by (simp_all add: world_recorder_def)

lemma NewRecorder_world [simp]: "world_recorder (NewRecorder world_run_repo (Some publish_event) count_metric inc ty n f)"
  by (simp add: world_recorder_def NewRecorder_def)

lemma run_one: "system_step cfg w w' \<Longrightarrow> system_run cfg w w'"
  by (rule r_into_rtranclp)

lemma run_then: "system_run cfg w1 w2 \<Longrightarrow> system_run cfg w w1 \<Longrightarrow> system_run cfg w w2"
  by (rule rtranclp_trans)

text \<open>A write to the run tables, then telemetry about it.\<close>

lemma publish_run: "world_recorder r \<Longrightarrow> system_run cfg w (rec_publish r t d w)"
  by (auto simp: rec_publish_def world_recorder_def intro: run_one announce)

lemma write_run:
  assumes "run_step w x"
  shows "system_run cfg w x" and "world_recorder r \<Longrightarrow> system_run cfg w (rec_publish r t d x)"
    and "world_recorder r \<Longrightarrow> system_run cfg w (rec_publish r t d (rx_count r m x))"
    and "world_recorder r \<Longrightarrow> system_run cfg w (rec_publish (r\<lparr>rx_run := run\<rparr>) t d (rx_count r m x))"
proof -
  show x: "system_run cfg w x" by (rule run_one [OF runs [OF assms]])
  have c: "system_run cfg x (rx_count r m x)" if "world_recorder r"
    using that by (auto simp: world_recorder_def intro: run_one observe)
  show "system_run cfg w (rec_publish r t d x)" if "world_recorder r"
    using x publish_run [OF that] by (rule rtranclp_trans)
  show "system_run cfg w (rec_publish r t d (rx_count r m x))" if "world_recorder r"
    using rtranclp_trans [OF x c [OF that]] publish_run [OF that] by (rule rtranclp_trans)
  show "system_run cfg w (rec_publish (r\<lparr>rx_run := run\<rparr>) t d (rx_count r m x))" if "world_recorder r"
    using rtranclp_trans [OF x c [OF that]] publish_run [of "r\<lparr>rx_run := run\<rparr>"] that by (auto intro: rtranclp_trans)
qed

lemma recorder_repo: "world_recorder r \<Longrightarrow> rx_runRepo r = world_run_repo"
  by (simp add: world_recorder_def)

lemma start_run: "world_recorder r \<Longrightarrow> rec_Start r c w = (e, w') \<Longrightarrow> system_run cfg w w'"
  by (auto simp: rec_Start_def recorder_repo split: prod.splits option.splits intro: write_run dest!: create_run)

lemma step_run: "world_recorder r \<Longrightarrow> rec_Step r c a b i out d f w = (e, r', w') \<Longrightarrow> system_run cfg w w' \<and> world_recorder r'"
  by (auto simp: rec_Step_def recorder_repo Let_def split: prod.splits option.splits intro: write_run dest!: add_step)

lemma complete_run:
  "world_recorder r \<Longrightarrow> rec_Complete r c now w = (e, r', w') \<Longrightarrow> system_run cfg w w' \<and> world_recorder r'"
  by (auto simp: rec_Complete_def recorder_repo Let_def split: prod.splits option.splits intro: write_run dest!: update_run)

lemma fail_run:
  "world_recorder r \<Longrightarrow> rec_Fail r c cause now w = (e, r', w') \<Longrightarrow> system_run cfg w w' \<and> world_recorder r'"
  by (auto simp: rec_Fail_def recorder_repo Let_def split: prod.splits option.splits intro: write_run dest!: update_run)

lemma start_call_run: "world_recorder r \<Longrightarrow> StartToolCall r c i name risk args now w = (e, w') \<Longrightarrow> system_run cfg w w'"
  by (auto simp: StartToolCall_def recorder_repo split: prod.splits option.splits intro: write_run dest!: add_call)

lemma complete_call_run:
  "world_recorder r \<Longrightarrow> CompleteToolCall r c i name res err d w = (e, w') \<Longrightarrow> system_run cfg w w'"
  by (auto simp: CompleteToolCall_def recorder_repo Let_def split: prod.splits option.splits intro: write_run dest!: update_call)

text \<open>A tool call, and a whole plan of the agent.\<close>

lemma invoke_run:
  assumes r: "world_recorder r" and t: "t \<in> set (wrapTools (worker_registry cfg env lib rs) tmo)"
    and step: "InvokableRun t c args f (r, w) = (x, r', w')"
  shows "system_run cfg w w' \<and> world_recorder r'"
proof -
  let ?r = "r\<lparr>rx_toolCalls := rx_toolCalls r + 1\<rparr>" and ?id = "''call_'' @ uid f 0"
  have r1: "world_recorder ?r" using r by simp
  obtain e w1 where call: "StartToolCall ?r c ?id (rtl_name t) (rtl_risk t) args (clk f 0) w = (e, w1)" by force
  note started = start_call_run [OF r1 call]
  show ?thesis
  proof (cases "rx_maxToolCalls r > 0 \<and> rx_toolCalls r + 1 > rx_maxToolCalls r")
    case True
    with step r1 show ?thesis by (auto simp: InvokableRun_def checkToolCall_def Let_def)
  next
    case False
    then have cnt: "checkToolCall r = (None, ?r)" by (auto simp: checkToolCall_def Let_def)
    show ?thesis
    proof (cases e)
      case (Some err)
      with step cnt call started r1 show ?thesis by (auto simp: InvokableRun_def Let_def)
    next
      case None
      obtain tl where tl: "tl \<in> set (registry_All (worker_registry cfg env lib rs))" "rtl_inner t = rt_Tool tl"
        using t by (auto simp: wrapTools_def)
      obtain result err w3 where run: "rtl_inner t (if rtl_timeout t \<le> 0 then 30000000000 else rtl_timeout t)
          (WithToolCallID c ?id) args (evens (later 2 1 f)) (ToolStarted ?r (rtl_name t) w1) = ((result, err), w3)"
        by (metis prod.exhaust)
      have tool: "system_run cfg (ToolStarted ?r (rtl_name t) w1) w3"
        using worker_tool_state [OF tl(1)] run tl(2) by (metis request run_one rtranclp.rtrancl_refl)
      obtain pe w4 where fin: "CompleteToolCall ?r c ?id (rtl_name t) result err
          (milliseconds (clk (odds (later 2 1 f)) 0 - clk f 1)) w3 = (pe, w4)" by force
      have "(r', w') = (?r, w4)"
        using step cnt call None run fin by (auto simp: InvokableRun_def Let_def split: option.splits)
      moreover have "system_run cfg w1 (ToolStarted ?r (rtl_name t) w1)" unfolding ToolStarted_def by (rule publish_run [OF r1])
      note rtranclp_trans [OF started rtranclp_trans [OF this rtranclp_trans [OF tool complete_call_run [OF r1 fin]]]]
      ultimately show ?thesis using r1 by simp
    qed
  qed
qed

lemma plan_run:
  assumes "world_recorder r"
    and "run_plan plan (map InvokableRun (wrapTools (worker_registry cfg env lib rs) tmo)) c f (r, w) = (out, r', w')"
  shows "system_run cfg w w' \<and> world_recorder r'"
  using assms
proof (induction plan arbitrary: f r w)
  case (CallTool n args cont)
  let ?tools = "wrapTools (worker_registry cfg env lib rs) tmo"
  show ?case
  proof (cases "n < length ?tools")
    case True
    obtain x r1 w1 where call: "InvokableRun (?tools ! n) c args (evens f) (r, w) = (x, r1, w1)" by (metis prod.exhaust)
    from invoke_run [OF CallTool.prems(1) nth_mem [OF True] call] have s: "system_run cfg w w1" "world_recorder r1" by simp_all
    from call CallTool.prems(2) True
    have "run_plan (cont x) (map InvokableRun ?tools) c (odds f) (r1, w1) = (out, r', w')" by simp
    from CallTool.IH [OF _ s(2) this] s(1) show ?thesis by (auto intro: rtranclp_trans)
  next
    case False
    with CallTool.prems(2)
    have "run_plan (cont ('''', Some (plain_err ''tool not found''))) (map InvokableRun ?tools) c (odds f) (r, w) = (out, r', w')"
      by simp
    from CallTool.IH [OF _ CallTool.prems(1) this] show ?thesis by simp
  qed
qed simp

section \<open>A diagnosis\<close>

lemma recorded_run:
  assumes r: "world_recorder r"
    and step: "Diagnose_recorded (worker_runtime cfg env lib rs) agent c inc prompt r f w = (res, w')"
  shows "system_run cfg w w'"
proof -
  let ?tools = "wrapTools (worker_registry cfg env lib rs) (rt_toolTimeout (worker_runtime cfg env lib rs))"
    and ?rt = "worker_runtime cfg env lib rs"
  let ?c = "WithRunID c (rec_RunID r)"
  have failed: "system_run cfg w w'"
    if "system_run cfg w v" "world_recorder r1" "rec_Fail r1 c1 cause now v = (fe, r2, w')" for v r1 c1 cause now fe r2
    using that fail_run rtranclp_trans by metis
  show ?thesis
  proof (cases "agent (rt_runTimeout ?rt) ?c (rt_maxSteps ?rt) (map rtl_name ?tools) (BuildMessages prompt inc)")
    case (Inl err)
    then obtain fe r2 where "rec_Fail r ?c err (clk f 0) w = (fe, r2, w')"
      using step by (auto simp: Diagnose_recorded_def Let_def split: prod.splits)
    then show ?thesis by (rule failed [OF rtranclp.rtrancl_refl r])
  next
    case (Inr plan)
    obtain out r1 w1 where pl: "run_plan plan (map InvokableRun ?tools) ?c (evens f) (r, w) = (out, r1, w1)"
      by (metis prod.exhaust)
    from plan_run [OF r pl] have p: "system_run cfg w w1" "world_recorder r1" by simp_all
    show ?thesis
    proof (cases out)
      case (Inl err)
      obtain fe r2 where "rec_Fail r1 ?c err (clk (odds f) 0) w1 = (fe, r2, w')"
        using step \<open>agent _ _ _ _ _ = Inr plan\<close> pl Inl by (auto simp: Diagnose_recorded_def Let_def split: prod.splits)
      then show ?thesis by (rule failed [OF p])
    next
      case (Inr content)
      obtain se r2 w2 where sp: "rec_Step r1 ?c ''diagnosis'' ''finalize'' '''' content 0 (odds f) w1 = (se, r2, w2)"
        by (metis prod.exhaust)
      from step_run [OF p(2) sp] p(1) have q: "system_run cfg w w2" "world_recorder r2" by (auto intro: rtranclp_trans)
      obtain ce r3 w3 where cp: "rec_Complete r2 ?c (clk (odds f) 0) w2 = (ce, r3, w3)" by (metis prod.exhaust)
      from complete_run [OF q(2) cp] q(1) have u: "system_run cfg w w3" "world_recorder r3" by (auto intro: rtranclp_trans)
      from step \<open>agent _ _ _ _ _ = Inr plan\<close> pl Inr sp cp
      have "w' = w3 \<or> (\<exists>fe r4. rec_Fail r2 ?c (the se) (clk (odds f) 0) w2 = (fe, r4, w'))
          \<or> (\<exists>fe r4. rec_Fail r3 ?c (the ce) (clk (odds f) 1) w3 = (fe, r4, w'))"
        by (auto simp: Diagnose_recorded_def Let_def split: option.splits prod.splits)
      then show ?thesis using u failed [OF q] failed [OF u] by blast
    qed
  qed
qed

lemma diagnose_run:
  assumes "Diagnose (worker_runtime cfg env lib rs) agent c inc prompt f w = (res, w')"
  shows "system_run cfg w w'"
proof -
  let ?rt = "worker_runtime cfg env lib rs"
  let ?r = "NewRecorder world_run_repo (Some publish_event) count_metric inc ''diagnosis'' (rt_maxToolCalls ?rt) f"
  obtain e w1 where st: "rec_Start ?r c w = (e, w1)" by force
  have s: "system_run cfg w w1" by (rule start_run [OF NewRecorder_world st])
  show ?thesis
  proof (cases e)
    case None
    with assms st have "Diagnose_recorded ?rt agent c inc prompt ?r (later 1 1 f) w1 = (res, w')"
      by (auto simp: Diagnose_def Let_def)
    from recorded_run [OF NewRecorder_world this] s show ?thesis by (auto intro: rtranclp_trans)
  next
    case (Some err)
    with assms st s show ?thesis by (auto simp: Diagnose_def Let_def)
  qed
qed

definition agent_of :: "world agent_runtime option \<Rightarrow> config \<Rightarrow> bool" where
  "agent_of rt cfg = (\<forall>r. rt = Some r \<longrightarrow> (\<exists>env lib rs. r = worker_runtime cfg env lib rs))"

lemma buildAgent_of: "agent_of (fst (buildAgent cfg env lib rs file)) cfg"
  by (auto simp: agent_of_def buildAgent_def)

lemma RunDiagnosis_run:
  assumes rt: "agent_of rt cfg" and step: "RunDiagnosis world_incidents repo rt agent prompt c i f w = (e, w')"
  shows "system_run cfg w w'"
proof -
  have diag: "system_run cfg v v'" if "rt = Some r" "Diagnose r agent c inc prompt g v = (res, v')" for r inc g v res v'
    using rt that diagnose_run unfolding agent_of_def by metis
  have "w' = w \<or> (\<exists>j x. svc_Analyze world_incidents c j (evens f) w = (x, w'))
    \<or> (\<exists>r inc res v. rt = Some r \<and> Diagnose r agent c inc prompt (odds f) v = (res, w')
        \<and> (v = w \<or> (\<exists>j x. svc_Analyze world_incidents c j (evens f) w = (x, v))))"
    using step by (fastforce simp: RunDiagnosis_def split: sum.splits if_splits prod.splits option.splits)
  then show ?thesis
  proof (elim disjE exE conjE)
    fix j x assume "svc_Analyze world_incidents c j (evens f) w = (x, w')"
    then show ?thesis by (rule run_one [OF analyze])
  next
    fix r inc res v j x
    assume "rt = Some r" "Diagnose r agent c inc prompt (odds f) v = (res, w')"
      "svc_Analyze world_incidents c j (evens f) w = (x, v)"
    then show ?thesis using diag run_one [OF analyze] rtranclp_trans by metis
  qed (use diag in \<open>auto\<close>)
qed

lemma handler_run:
  "agent_of rt cfg \<Longrightarrow> handleAgentRequested world_incidents repo rt agent prompt c ev f w = (e, w') \<Longrightarrow> system_run cfg w w'"
  by (auto simp: handleAgentRequested_def split: sum.splits dest: RunDiagnosis_run)

lemma dead_letter_run:
  "failIncidentOnDeadLetter world_incidents c ev cause f w = (e, w') \<Longrightarrow> system_run cfg w w'"
  by (auto simp: failIncidentOnDeadLetter_def split: sum.splits if_splits prod.splits intro: run_one dead_letter)

section \<open>The consumer on the state of the application\<close>

lemma delivery_run:
  assumes rt: "agent_of rt cfg"
    and step: "run_delivery count_metric fint (handleAgentRequested world_incidents repo rt agent prompt)
      (Some (failIncidentOnDeadLetter world_incidents)) d q = q'"
  shows "system_run cfg (mq_app q) (mq_app q')"
proof (cases d)
  case RetryDue
  then show ?thesis using step by (auto simp: run_delivery_def retry_due_def split: list.splits)
next
  case (Deliver c answer arrives f)
  let ?h = "handleAgentRequested world_incidents repo rt agent prompt"
  have handled: "system_run cfg w w1" if "?h c' ev g w = (e, w1)" for c' ev g w e w1
    using handler_run [OF rt that] .
  have counted: "system_run cfg w (count_metric m w1)" if "system_run cfg w w1" for m w w1
    using that run_one [OF observe] by (rule rtranclp_trans)
  show ?thesis
  proof (cases "mq_main q")
    case Nil
    with step Deliver show ?thesis by (auto simp: run_delivery_def consume_one_def)
  next
    case (Cons msg ms)
    from step Deliver have "consume_one count_metric fint ?h (Some (failIncidentOnDeadLetter world_incidents)) c answer arrives f q = q'"
      by (simp add: run_delivery_def)
    then show ?thesis using Cons
    proof (cases rule: consume_cases)
      case kept
      then show ?thesis using handled by (metis prod.collapse rtranclp.rtrancl_refl)
    next
      case (exhausted ev err w1)
      have "system_run cfg (count_metric DLQTotal w1) (mq_app q')"
        unfolding exhausted(5) finishDeadLetter_def onDeadLetter_def
        by (simp add: dead_letter_run [OF surjective_pairing])
      with counted [OF handled [OF exhausted(2)]] show ?thesis by (rule rtranclp_trans)
    qed (use handled counted in \<open>auto intro: run_one observe\<close>)
  qed
qed

lemma consumer_run:
  assumes "agent_of rt cfg"
    and "run_consumer count_metric fint (handleAgentRequested world_incidents repo rt agent prompt)
      (Some (failIncidentOnDeadLetter world_incidents)) ds q = (fin, q')"
  shows "system_run cfg (mq_app q) (mq_app q')"
  using assms(2)
proof (induction ds arbitrary: q fin)
  case (Cons d ds)
  let ?run = "run_delivery count_metric fint (handleAgentRequested world_incidents repo rt agent prompt)
      (Some (failIncidentOnDeadLetter world_incidents)) d q"
  obtain fin1 where "run_consumer count_metric fint (handleAgentRequested world_incidents repo rt agent prompt)
      (Some (failIncidentOnDeadLetter world_incidents)) ds ?run = (fin1, q')"
    using Cons.prems by (auto split: prod.splits)
  from Cons.IH [OF this] delivery_run [OF assms(1) refl] show ?case by (rule rtranclp_trans [rotated])
qed simp

section \<open>Duplicated events and dead letters\<close>

lemma world_get: "ir_GetByID world_incident_repo c i w = (case w_istored w i of None \<Rightarrow> Inl (sentinel_err ErrNotFound) | Some inc \<Rightarrow> Inr inc)"
  by (simp add: world_incident_repo_def lift_incident_repo_def memory_repo_def mem_GetByID_def w_istored_def mem_stored_def)

lemma any_active_iff [simp]: "any_active rs \<longleftrightarrow> (\<exists>r \<in> set rs. IsActive (run_Status r))"
  by (induction rs) auto

lemma world_active:
  assumes "w_rinv w"
  shows "hasActiveRun c (Some world_run_repo) i w
    \<longleftrightarrow> (\<exists>j run. w_rstored w j = Some run \<and> run_IncidentID run = i \<and> IsActive (run_Status run))"
proof -
  obtain rs where rs: "rr_ListRunsByIncident world_run_repo c i w = Inr rs"
    by (simp add: world_run_repo_def lift_run_repo_def memory_run_repo_def memr_ListRunsByIncident_def)
  from wr.rlist_ok [OF assms rs] rs show ?thesis by (auto simp: hasActiveRun_def)
qed

lemma duplicate_kept:
  assumes "w_rinv w" and "w_iinv w" and "w_istored w i = Some inc"
    and "IsTerminal (inc_Status inc) \<or> (\<exists>j run. w_rstored w j = Some run \<and> run_IncidentID run = i \<and> IsActive (run_Status run))"
  shows "RunDiagnosis world_incidents (Some world_run_repo) rt agent prompt c i f w = (None, w)"
proof -
  have "inc_ID inc = i" by (rule wi.key_id [OF assms(2,3)])
  with assms(3,4) world_active [OF assms(1), of c i] show ?thesis by (auto simp: RunDiagnosis_def svc_Get_def world_get)
qed

lemma world_update_err:
  "ir_UpdateWithEvent world_incident_repo c inc ev w = (Inl e, w') \<Longrightarrow> \<not> errIs e ErrInvalidTransition"
  by (auto simp: world_incident_repo_def lift_incident_repo_def memory_repo_def mem_UpdateWithEvent_def
      checkUpdateConflicts_def checkEventConflict_def updateLocked_def split: option.splits if_splits dest!: throughD)

lemma dead_letter_terminal:
  assumes sys: "system_ok w" and ev: "DecodePayload ev = Inr i" "i \<noteq> ''''" and step: "failIncidentOnDeadLetter world_incidents c ev cause f w = (None, w')"
  shows "\<exists>inc inc'. w_istored w i = Some inc \<and> w_istored w' i = Some inc'
    \<and> (if IsTerminal (inc_Status inc) then inc' = inc else inc_Status inc' = StatusFailed)"
proof -
  have inv: "w_iinv w" and hist: "history_ok (w_view w)" using sys by (simp_all add: system_ok_def)
  obtain r w1 where t: "transitionWithAudit world_incidents c i StatusFailed ''agent event retries exhausted'' (err_text cause) '''' Map.empty f w = (r, w1)"
    by force
  with step ev have out: "w1 = w'" "\<forall>e. r = Inl e \<longrightarrow> errIs e ErrInvalidTransition"
    by (auto simp: failIncidentOnDeadLetter_def svc_ops split: sum.splits prod.splits if_splits)
  obtain inc where inc: "w_istored w i = Some inc"
    using t out by (cases "w_istored w i") (auto simp: transitionWithAudit_def world_get)
  have may: "CanTransition (inc_Status inc) StatusFailed \<longleftrightarrow> \<not> IsTerminal (inc_Status inc)"
  proof -
    have "entry_ok (Some inc) (w_journal w i)" using hist inc unfolding history_ok_def by (metis fst_conv snd_conv)
    then show ?thesis by (cases "inc_Status inc") (auto simp: entry_ok_def CanTransition_def)
  qed
  from inv t show ?thesis
  proof (rule wi.transition_cases)
    fix e assume f: "r = Inl e" "w_istored w1 = w_istored w"
    have "\<not> CanTransition (inc_Status inc) StatusFailed"
    proof
      assume ok: "CanTransition (inc_Status inc) StatusFailed"
      then have "Transition (inc_Status inc) StatusFailed = None" by simp
      with t f(1) inc obtain ev x e' v where "ir_UpdateWithEvent world_incident_repo c x ev w = (Inl e', v)"
          "errIs e ErrInvalidTransition \<longrightarrow> errIs e' ErrInvalidTransition"
        by (auto simp: transitionWithAudit_def world_get Let_def split: sum.splits prod.splits if_splits)
      with world_update_err out f(1) show False by auto
    qed
    with may inc f(2) out show ?thesis by simp
  next
    fix cur x assume m: "w_istored w i = Some cur" "CanTransition (inc_Status cur) StatusFailed"
      "x = bump_version (moved_incident cur StatusFailed f)" "w_istored w1 = (w_istored w)(i \<mapsto> x)"
    then have "inc_Status x = StatusFailed" by simp
    with m may inc out show ?thesis by auto
  qed
qed

section \<open>How a diagnosis ends\<close>

lemma analyze_id:
  assumes "w_iinv w" and "svc_Analyze world_incidents c i f w = (Inr inc, w')"
  shows "inc_ID inc = i"
proof -
  from assms(2) have "transitionWithAudit world_incidents c i StatusInvestigating ''state machine transition'' '''' '''' Map.empty f w
      = (Inr inc, w')" by (simp add: svc_ops)
  with assms(1) show ?thesis by (rule wi.transition_cases) auto
qed

text \<open>Either the run tables are as before, or exactly one run was added for the incident, which is not
  RUNNING any more and has no more tool calls than the configuration allows.\<close>

lemma RunDiagnosis_ends:
  assumes inv: "w_rinv w" "w_iinv w" and rt: "agent_of rt cfg"
    and step: "RunDiagnosis world_incidents repo rt agent prompt c i f w = (e, w')"
  obtains (same) "w_runs w' = w_runs w \<or> (w_rstored w' = w_rstored w \<and> memr_calls (w_runs w') = memr_calls (w_runs w))"
  | (ran) j x new where "w_rstored w j = None" "w_rstored w' = (w_rstored w)(j \<mapsto> x)" "run_IncidentID x = i"
      "\<forall>k s. w_rstored w k = Some s \<longrightarrow> run_IncidentID s = i \<longrightarrow> \<not> IsActive (run_Status s)"
      "run_Status x = RunCompleted \<and> e = None \<or> run_Status x = RunFailed"
      "memr_calls (w_runs w') = (memr_calls (w_runs w))(j := memr_calls (w_runs w) j @ new)"
      "ag_MaxToolCalls (cf_Agent cfg) > 0 \<longrightarrow> int (length new) \<le> ag_MaxToolCalls (cf_Agent cfg)"
proof (cases "\<exists>r inc res v. rt = Some r \<and> Diagnose r agent c inc prompt (odds f) v = (res, w') \<and> inc_ID inc = i
      \<and> w_runs v = w_runs w \<and> (\<forall>d. res = Inr d \<longrightarrow> e = None)")
  case True
  then obtain inc res v env lib rs where d: "Diagnose (worker_runtime cfg env lib rs) agent c inc prompt (odds f) v = (res, w')"
      "inc_ID inc = i" "w_runs v = w_runs w" "\<forall>d. res = Inr d \<longrightarrow> e = None"
    using rt unfolding agent_of_def by blast
  have v: "w_rinv v" "w_rstored v = w_rstored w" using d(3) inv(1) by (simp_all add: w_rinv_def w_rstored_def fun_eq_iff)
  from v(1) d(1) show thesis
  proof (rule wrel.diagnose_cases)
    assume "w_rstored w' = w_rstored v" "memr_calls (w_runs w') = memr_calls (w_runs v)"
    with d(3) v(2) same show thesis by simp
  next
    fix x new
    assume h: "w_rstored v (''run_'' @ uid (odds f) 0) = None"
      "\<forall>k s. w_rstored v k = Some s \<longrightarrow> run_IncidentID s = inc_ID inc \<longrightarrow> \<not> IsActive (run_Status s)"
      "w_rstored w' = (w_rstored v)(''run_'' @ uid (odds f) 0 \<mapsto> x)" "run_IncidentID x = inc_ID inc"
      "run_Status x = (case res of Inr _ \<Rightarrow> RunCompleted | Inl _ \<Rightarrow> RunFailed)"
      "memr_calls (w_runs w') = (memr_calls (w_runs v))(''run_'' @ uid (odds f) 0 := memr_calls (w_runs v) (''run_'' @ uid (odds f) 0) @ new)"
      "0 < rt_maxToolCalls (worker_runtime cfg env lib rs) \<longrightarrow> int (length new) \<le> rt_maxToolCalls (worker_runtime cfg env lib rs)"
    show thesis
      by (rule ran [of "''run_'' @ uid (odds f) 0" x new]) (use h d v worker_max_calls in \<open>auto split: sum.splits\<close>)
  qed
next
  case False
  have "w_runs w' = w_runs w"
  proof (cases "svc_Get world_incidents c i w")
    case (Inr inc)
    then have id: "inc_ID inc = i"
      using wi.get_ok [OF inv(2)] wi.key_id [OF inv(2)] by (auto simp: svc_Get_def)
    show ?thesis
    proof (cases "inc_Status inc = StatusOpen")
      case True
      obtain x v where an: "svc_Analyze world_incidents c i (evens f) w = (x, v)" by force
      have "inc_ID y = i" if "x = Inr y" for y using analyze_id [OF inv(2)] an that by simp
      with False step Inr id True an runs_svc(3) [OF an] show ?thesis
        by (auto simp: RunDiagnosis_def split: if_splits sum.splits option.splits prod.splits)
    next
      case other: False
      with False step Inr id show ?thesis
        by (auto simp: RunDiagnosis_def split: if_splits sum.splits option.splits prod.splits)
    qed
  qed (use step in \<open>auto simp: RunDiagnosis_def\<close>)
  with same show thesis by blast
qed

end
