(* ===== verification/Api.thy ===== *)
theory Api
  imports Worker_Steps
begin

text \<open>
  \<open>internal/api\<close>: authentication, the route table and every handler, over the services they call. A
  request arrives parsed as gin hands it to the handlers (path segments, headers, query values, the
  bound body or the binding error); a response is its status and the value that is written as
  JSON. \<open>world_api\<close> is what \<open>bootstrap/server.go\<close> assembles.
\<close>

section \<open>Authentication\<close>

definition RoleWebhook :: string where "RoleWebhook = ''webhook''"
definition RoleRead :: string where "RoleRead = ''read''"
definition RoleAdmin :: string where "RoleAdmin = ''admin''"

datatype verdict = Allowed string string | Unauthorized string | Forbidden string

definition auth_Enabled :: "auth_config \<Rightarrow> bool" where
  "auth_Enabled a = (au_WebhookToken a \<noteq> '''' \<or> au_ReadToken a \<noteq> '''' \<or> au_AdminToken a \<noteq> '''')"

definition tokenMatches :: "string \<Rightarrow> string \<Rightarrow> bool" where
  "tokenMatches configured presented =
     (if configured = '''' \<or> presented = '''' then False else configured = presented)"

definition bearerToken :: "string \<Rightarrow> string" where
  "bearerToken raw =
     (if length raw \<le> 7 \<or> \<not> EqualFold (take 7 raw) ''bearer '' then '''' else TrimSpace (drop 7 raw))"

text \<open>The actor a request acts as: only an admin has one, and it comes from the configuration.\<close>

definition setActor :: "auth_config \<Rightarrow> string \<Rightarrow> string" where
  "setActor a role =
     (if role = RoleAdmin then (if au_AdminActor a = '''' then ''admin'' else au_AdminActor a) else '''')"

definition WebhookAuth :: "auth_config \<Rightarrow> string \<Rightarrow> verdict" where
  "WebhookAuth a header =
     (if \<not> tokenMatches (au_WebhookToken a) header then Unauthorized ''invalid or missing webhook token''
      else Allowed RoleWebhook '''')"

definition ReadAuth :: "auth_config \<Rightarrow> string \<Rightarrow> verdict" where
  "ReadAuth a header =
     (let presented = bearerToken header
      in if tokenMatches (au_AdminToken a) presented then Allowed RoleAdmin (setActor a RoleAdmin)
         else if tokenMatches (au_ReadToken a) presented then Allowed RoleRead (setActor a RoleRead)
         else Unauthorized ''invalid or missing read token'')"

definition AdminAuth :: "auth_config \<Rightarrow> string \<Rightarrow> verdict" where
  "AdminAuth a header =
     (let presented = bearerToken header
      in if tokenMatches (au_AdminToken a) presented then Allowed RoleAdmin (setActor a RoleAdmin)
         else if tokenMatches (au_ReadToken a) presented then Forbidden ''admin token required''
         else Unauthorized ''invalid or missing admin token'')"

section \<open>Requests and responses\<close>

record alert =
  al_Status :: string
  al_Labels :: "string \<rightharpoonup> string"
  al_Annotations :: "string \<rightharpoonup> string"
  al_StartsAt :: time
  al_EndsAt :: time
  al_Fingerprint :: string

record api_request =
  rq_ctx :: ctx
  rq_method :: string
  rq_path :: "string list"
  rq_authorization :: string
  rq_webhook_token :: string
  rq_query :: "string \<Rightarrow> string"
  rq_alerts :: "gerror + alert list"
  rq_incident :: "gerror + create_input"

record incident_response =
  iv_ID :: string
  iv_Service :: string
  iv_Severity :: string
  iv_Title :: string
  iv_Description :: string
  iv_AlertName :: string
  iv_Fingerprint :: string
  iv_Status :: string
  iv_StartedAt :: time
  iv_ResolvedAt :: "time option"
  iv_CreatedAt :: time
  iv_UpdatedAt :: time

definition ToIncidentResponse :: "incident \<Rightarrow> incident_response" where
  "ToIncidentResponse inc =
     \<lparr>iv_ID = inc_ID inc, iv_Service = inc_Service inc, iv_Severity = inc_Severity inc, iv_Title = inc_Title inc,
      iv_Description = inc_Description inc, iv_AlertName = inc_AlertName inc, iv_Fingerprint = inc_Fingerprint inc,
      iv_Status = status_string (inc_Status inc), iv_StartedAt = inc_StartedAt inc, iv_ResolvedAt = inc_ResolvedAt inc,
      iv_CreatedAt = inc_CreatedAt inc, iv_UpdatedAt = inc_UpdatedAt inc\<rparr>"

fun ToIncidentResponses :: "incident list \<Rightarrow> incident_response list" where
  "ToIncidentResponses [] = []"
| "ToIncidentResponses (inc # incs) = ToIncidentResponse inc # ToIncidentResponses incs"

record diagnosis_response =
  dr_RunID :: string
  dr_Conclusion :: string
  dr_Error :: string

text \<open>The values the handlers write. \<open>BWebhook\<close> carries the created, resolved and failed lists, \<open>BHealth\<close>
  the status and one entry for each check.\<close>

datatype api_body =
    BError string
  | BText string
  | BIncident incident_response
  | BIncidents "incident_response list" nat
  | BAnalyze incident_response "diagnosis_response option"
  | BEvents "incident_event list"
  | BApproval approval
  | BApprovals "approval list"
  | BRun agent_run
  | BRuns "agent_run list"
  | BSteps "agent_step list"
  | BCalls "tool_call list"
  | BEvidences "evidence list"
  | BStream "stream_event list"
  | BWebhook "string list" "string list" "string list"
  | BHealth string "(string \<times> string) list"

record api_response =
  rp_status :: nat
  rp_body :: api_body

definition reply :: "nat \<Rightarrow> api_body \<Rightarrow> api_response" where
  "reply code body = \<lparr>rp_status = code, rp_body = body\<rparr>"

definition respondError :: "gerror \<Rightarrow> api_response" where
  "respondError err =
     (if errIs err ErrInvalidInput then reply 400 (BError (err_text err))
      else if errIs err ErrNotFound then reply 404 (BError (err_text err))
      else if errIs err ErrInvalidTransition \<or> errIs err ErrConcurrentModification then reply 409 (BError (err_text err))
      else reply 500 (BError (err_text err)))"

definition approval_respondError :: "gerror \<Rightarrow> api_response" where
  "approval_respondError err =
     (if errIs err ErrNotFound then reply 404 (BError (err_text err))
      else if errIs err ErrNotPending \<or> errIs err ErrExpired then reply 409 (BError (err_text err))
      else reply 500 (BError (err_text err)))"

text \<open>A query whose result is written when it succeeds.\<close>

definition answer :: "(gerror \<Rightarrow> api_response) \<Rightarrow> ('b \<Rightarrow> api_body) \<Rightarrow> gerror + 'b \<Rightarrow> api_response" where
  "answer on_error body r = (case r of Inl err \<Rightarrow> on_error err | Inr x \<Rightarrow> reply 200 (body x))"

section \<open>The handlers\<close>

type_synonym 'w publisher = "ctx \<Rightarrow> string \<Rightarrow> fresh \<Rightarrow> 'w \<Rightarrow> gerror option \<times> 'w"

record 'w api =
  hd_incidents :: "'w incident_service"
  hd_approvals :: "'w approval_service"
  hd_runs :: "'w run_repo"
  hd_incident_repo :: "'w incident_repo option"
  hd_publisher :: "'w publisher option"
  hd_alert_runs :: "'w run_repo option"
  hd_diagnoser :: "(ctx \<Rightarrow> incident \<Rightarrow> string \<Rightarrow> fresh \<Rightarrow> 'w \<Rightarrow> (gerror + diagnosis_result) \<times> 'w) option"
  hd_prompt :: string
  hd_received :: "string \<Rightarrow> stream_event list"
  hd_checks :: "(string \<times> (ctx \<Rightarrow> gerror option)) list"
  hd_count :: "metric \<Rightarrow> 'w \<Rightarrow> 'w"

definition parseIntDefault :: "string \<Rightarrow> int \<Rightarrow> int" where
  "parseIntDefault s dflt = (if s = '''' then dflt else case Atoi s of Inl _ \<Rightarrow> dflt | Inr n \<Rightarrow> n)"

subsection \<open>Incidents\<close>

definition api_Create :: "'w api \<Rightarrow> api_request \<Rightarrow> fresh \<Rightarrow> 'w \<Rightarrow> api_response \<times> 'w" where
  "api_Create h req f w =
     (case rq_incident req of
        Inl err \<Rightarrow> (reply 400 (BError (err_text err)), w)
      | Inr inp \<Rightarrow>
          (case svc_Create (hd_incidents h) (rq_ctx req) inp f w of
             (Inl err, w1) \<Rightarrow> (respondError err, w1)
           | (Inr (inc, created), w1) \<Rightarrow>
               (reply (if created then 201 else 200) (BIncident (ToIncidentResponse inc)), w1)))"

definition api_List :: "'w api \<Rightarrow> api_request \<Rightarrow> 'w \<Rightarrow> api_response" where
  "api_List h req w =
     answer respondError (\<lambda>items. BIncidents (ToIncidentResponses items) (length items))
       (svc_List (hd_incidents h) (rq_ctx req)
          \<lparr>lf_Service = rq_query req ''service'', lf_Status = rq_query req ''status'',
           lf_Limit = parseIntDefault (rq_query req ''limit'') 50,
           lf_Offset = parseIntDefault (rq_query req ''offset'') 0\<rparr> w)"

definition api_Get :: "'w api \<Rightarrow> api_request \<Rightarrow> string \<Rightarrow> 'w \<Rightarrow> api_response" where
  "api_Get h req i w =
     answer respondError (\<lambda>inc. BIncident (ToIncidentResponse inc)) (svc_Get (hd_incidents h) (rq_ctx req) i w)"

definition diagnosis_error :: "gerror \<Rightarrow> diagnosis_response" where
  "diagnosis_error err = \<lparr>dr_RunID = '''', dr_Conclusion = '''', dr_Error = err_text err\<rparr>"

definition api_Analyze :: "'w api \<Rightarrow> api_request \<Rightarrow> string \<Rightarrow> fresh \<Rightarrow> 'w \<Rightarrow> api_response \<times> 'w" where
  "api_Analyze h req i f w =
     (case svc_Analyze (hd_incidents h) (rq_ctx req) i (evens f) w of
        (Inl err, w1) \<Rightarrow> (respondError err, w1)
      | (Inr inc, w1) \<Rightarrow>
          (case hd_publisher h of
             Some publish \<Rightarrow>
               (case publish (rq_ctx req) (inc_ID inc) (odds f) w1 of
                  (r, w2) \<Rightarrow> (reply 200 (BAnalyze (ToIncidentResponse inc) (map_option diagnosis_error r)), w2))
           | None \<Rightarrow>
               (case hd_diagnoser h of
                  None \<Rightarrow> (reply 200 (BAnalyze (ToIncidentResponse inc) None), w1)
                | Some diagnose \<Rightarrow>
                    (case diagnose (rq_ctx req) inc (hd_prompt h) (odds f) w1 of
                       (r, w2) \<Rightarrow>
                         (reply 200 (BAnalyze (ToIncidentResponse inc) (Some
                            (case r of
                               Inl err \<Rightarrow> diagnosis_error err
                             | Inr d \<Rightarrow> \<lparr>dr_RunID = dg_RunID d, dr_Conclusion = dg_Conclusion d, dr_Error = ''''\<rparr>))), w2)))))"

definition api_Resolve :: "'w api \<Rightarrow> api_request \<Rightarrow> string \<Rightarrow> fresh \<Rightarrow> 'w \<Rightarrow> api_response \<times> 'w" where
  "api_Resolve h req i f w =
     (case svc_Resolve (hd_incidents h) (rq_ctx req) i f w of
        (Inl err, w1) \<Rightarrow> (respondError err, w1)
      | (Inr inc, w1) \<Rightarrow> (reply 200 (BIncident (ToIncidentResponse inc)), w1))"

definition api_Events :: "'w api \<Rightarrow> api_request \<Rightarrow> string \<Rightarrow> 'w \<Rightarrow> api_response" where
  "api_Events h req i w = answer respondError BEvents (svc_ListEvents (hd_incidents h) (rq_ctx req) i w)"

subsection \<open>Approvals\<close>

definition approvals_List :: "'w api \<Rightarrow> api_request \<Rightarrow> 'w \<Rightarrow> api_response" where
  "approvals_List h req w =
     (if rq_query req ''status'' \<noteq> '''' \<and> rq_query req ''status'' \<noteq> approval_status_string ApprovalPending
      then reply 400 (BError ''unsupported status filter: only PENDING is supported'')
      else answer approval_respondError BApprovals (as_ListPending (hd_approvals h) (rq_ctx req) w))"

definition approvals_ListByRun :: "'w api \<Rightarrow> api_request \<Rightarrow> string \<Rightarrow> 'w \<Rightarrow> api_response" where
  "approvals_ListByRun h req runID w =
     (case as_GetRun (hd_approvals h) (rq_ctx req) runID w of
        Inl err \<Rightarrow> approval_respondError err
      | Inr _ \<Rightarrow> answer approval_respondError BApprovals (as_ListByRun (hd_approvals h) (rq_ctx req) runID w))"

definition approvals_Get :: "'w api \<Rightarrow> api_request \<Rightarrow> string \<Rightarrow> 'w \<Rightarrow> api_response" where
  "approvals_Get h req i w = answer approval_respondError BApproval (as_Get (hd_approvals h) (rq_ctx req) i w)"

definition approvalActor :: "string \<Rightarrow> string" where
  "approvalActor actor = (if actor \<noteq> '''' then actor else ''anonymous'')"

definition approvals_Approve :: "'w api \<Rightarrow> api_request \<Rightarrow> string \<Rightarrow> string \<Rightarrow> fresh \<Rightarrow> 'w \<Rightarrow> api_response \<times> 'w" where
  "approvals_Approve h req i actor f w =
     (case Approve (hd_approvals h) (rq_ctx req) i (approvalActor actor) f w of
        (r, w1) \<Rightarrow> (answer approval_respondError BApproval r, w1))"

definition approvals_Reject :: "'w api \<Rightarrow> api_request \<Rightarrow> string \<Rightarrow> string \<Rightarrow> fresh \<Rightarrow> 'w \<Rightarrow> api_response \<times> 'w" where
  "approvals_Reject h req i actor f w =
     (case Reject (hd_approvals h) (rq_ctx req) i (approvalActor actor) f w of
        (r, w1) \<Rightarrow> (answer approval_respondError BApproval r, w1))"

subsection \<open>Runs\<close>

definition runs_Get :: "'w api \<Rightarrow> api_request \<Rightarrow> string \<Rightarrow> 'w \<Rightarrow> api_response" where
  "runs_Get h req i w = answer respondError BRun (rr_GetRun (hd_runs h) (rq_ctx req) i w)"

definition runs_Steps :: "'w api \<Rightarrow> api_request \<Rightarrow> string \<Rightarrow> 'w \<Rightarrow> api_response" where
  "runs_Steps h req i w = answer respondError BSteps (rr_ListSteps (hd_runs h) (rq_ctx req) i w)"

definition runs_ToolCalls :: "'w api \<Rightarrow> api_request \<Rightarrow> string \<Rightarrow> 'w \<Rightarrow> api_response" where
  "runs_ToolCalls h req i w =
     (case rr_GetRun (hd_runs h) (rq_ctx req) i w of
        Inl err \<Rightarrow> respondError err
      | Inr _ \<Rightarrow> answer respondError BCalls (rr_ListToolCalls (hd_runs h) (rq_ctx req) i w))"

definition runs_ByIncident :: "'w api \<Rightarrow> api_request \<Rightarrow> string \<Rightarrow> 'w \<Rightarrow> api_response" where
  "runs_ByIncident h req i w =
     (case hd_incident_repo h of
        None \<Rightarrow> reply 503 (BError ''incident repository is not configured'')
      | Some repo \<Rightarrow>
          (case ir_GetByID repo (rq_ctx req) i w of
             Inl err \<Rightarrow> respondError err
           | Inr _ \<Rightarrow> answer respondError BRuns (rr_ListRunsByIncident (hd_runs h) (rq_ctx req) i w)))"

definition runs_Evidences :: "'w api \<Rightarrow> api_request \<Rightarrow> string \<Rightarrow> 'w \<Rightarrow> api_response" where
  "runs_Evidences h req i w = answer respondError BEvidences (rr_ListEvidences (hd_runs h) (rq_ctx req) i w)"

text \<open>The stream of a run: what its subscription receives until the client leaves is \<open>hd_received\<close>; the
  subscription itself is in \<open>Telemetry\<close> and gone when the request ends.\<close>

definition runs_Stream :: "'w api \<Rightarrow> api_request \<Rightarrow> string \<Rightarrow> 'w \<Rightarrow> api_response" where
  "runs_Stream h req i w =
     (case rr_GetRun (hd_runs h) (rq_ctx req) i w of
        Inl err \<Rightarrow> respondError err
      | Inr _ \<Rightarrow> reply 200 (BStream (hd_received h i)))"

subsection \<open>The Alertmanager webhook\<close>

definition label :: "(string \<rightharpoonup> string) \<Rightarrow> string \<Rightarrow> string" where
  "label m k = (case m k of None \<Rightarrow> '''' | Some v \<Rightarrow> v)"

definition alertService :: "alert \<Rightarrow> string" where
  "alertService al =
     (if label (al_Labels al) ''service'' \<noteq> '''' then label (al_Labels al) ''service''
      else if label (al_Labels al) ''job'' \<noteq> '''' then label (al_Labels al) ''job''
      else ''unknown'')"

definition alertTitle :: "alert \<Rightarrow> string" where
  "alertTitle al =
     (let t1 = label (al_Annotations al) ''summary'';
          t2 = (if t1 = '''' then label (al_Labels al) ''alertname'' else t1)
      in if t2 = '''' then ''unknown alert'' else t2)"

definition alert_input :: "alert \<Rightarrow> create_input" where
  "alert_input al =
     \<lparr>ci_Service = alertService al, ci_Severity = label (al_Labels al) ''severity'', ci_Title = alertTitle al,
      ci_Description = label (al_Annotations al) ''description'', ci_AlertName = label (al_Labels al) ''alertname''\<rparr>"

definition alert_hasActiveRun :: "'w api \<Rightarrow> ctx \<Rightarrow> string \<Rightarrow> 'w \<Rightarrow> bool" where
  "alert_hasActiveRun h c i w = hasActiveRun c (hd_alert_runs h) i w"

text \<open>The three result lists of a request.\<close>

record tally =
  ta_created :: "string list"
  ta_resolved :: "string list"
  ta_failed :: "string list"

definition add_created :: "string \<Rightarrow> tally \<Rightarrow> tally" where
  "add_created i t = t\<lparr>ta_created := ta_created t @ [i]\<rparr>"

definition add_resolved :: "string \<Rightarrow> tally \<Rightarrow> tally" where
  "add_resolved i t = t\<lparr>ta_resolved := ta_resolved t @ [i]\<rparr>"

definition add_failed :: "string \<Rightarrow> string \<Rightarrow> gerror \<Rightarrow> tally \<Rightarrow> tally" where
  "add_failed what name err t = t\<lparr>ta_failed := ta_failed t @ [what @ '' '' @ name @ '': '' @ err_text err]\<rparr>"

definition resolve_alert :: "'w api \<Rightarrow> ctx \<Rightarrow> alert \<Rightarrow> fresh \<Rightarrow> tally \<Rightarrow> 'w \<Rightarrow> tally \<times> 'w" where
  "resolve_alert h c al f t w =
     (let name = label (al_Labels al) ''alertname''
      in case ResolveExternally (hd_incidents h) c (Fingerprint (alertService al) name (alertTitle al)) f w of
           (Inl err, w1) \<Rightarrow> (add_failed ''resolve'' name err t, hd_count h (WebhookTotal ''resolve'' ''error'') w1)
         | (Inr inc, w1) \<Rightarrow>
             (if inc_Status inc = StatusResolved then add_resolved (inc_ID inc) t else t,
              hd_count h (WebhookTotal ''resolve'' ''ok'') w1))"

definition publish_alert :: "'w api \<Rightarrow> ctx \<Rightarrow> string \<Rightarrow> string \<Rightarrow> fresh \<Rightarrow> tally \<Rightarrow> 'w \<Rightarrow> tally \<times> 'w" where
  "publish_alert h c name i f t w =
     (case hd_publisher h of
        None \<Rightarrow> (t, w)
      | Some publish \<Rightarrow>
          (case publish c i f w of
             (Some err, w1) \<Rightarrow> (add_failed ''publish'' name err t, hd_count h (WebhookTotal ''publish'' ''error'') w1)
           | (None, w1) \<Rightarrow> (t, hd_count h (WebhookTotal ''publish'' ''ok'') w1)))"

definition firing_alert :: "'w api \<Rightarrow> ctx \<Rightarrow> alert \<Rightarrow> fresh \<Rightarrow> tally \<Rightarrow> 'w \<Rightarrow> tally \<times> 'w" where
  "firing_alert h c al f t w =
     (let name = label (al_Labels al) ''alertname''
      in case svc_Create (hd_incidents h) c (alert_input al) (evens f) w of
           (Inl err, w1) \<Rightarrow> (add_failed ''create'' name err t, hd_count h (WebhookTotal ''create'' ''error'') w1)
         | (Inr (inc, isNew), w1) \<Rightarrow>
             (let w2 = hd_count h (WebhookTotal ''create'' ''ok'') w1
              in if isNew then publish_alert h c name (inc_ID inc) (odds f) (add_created (inc_ID inc) t) w2
                 else if inc_Status inc \<noteq> StatusOpen \<or> alert_hasActiveRun h c (inc_ID inc) w2 then (t, w2)
                 else publish_alert h c name (inc_ID inc) (odds f) t w2))"

fun webhook_loop :: "'w api \<Rightarrow> ctx \<Rightarrow> alert list \<Rightarrow> fresh \<Rightarrow> tally \<Rightarrow> 'w \<Rightarrow> tally \<times> 'w" where
  "webhook_loop h c [] f t w = (t, w)"
| "webhook_loop h c (al # als) f t w =
     (case (if al_Status al = ''resolved'' then resolve_alert h c al (evens f) t w else firing_alert h c al (evens f) t w) of
        (t1, w1) \<Rightarrow> webhook_loop h c als (odds f) t1 w1)"

definition api_Webhook :: "'w api \<Rightarrow> api_request \<Rightarrow> fresh \<Rightarrow> 'w \<Rightarrow> api_response \<times> 'w" where
  "api_Webhook h req f w =
     (case rq_alerts req of
        Inl err \<Rightarrow> (reply 400 (BError (err_text err)), w)
      | Inr alerts \<Rightarrow>
          (case webhook_loop h (rq_ctx req) alerts f \<lparr>ta_created = [], ta_resolved = [], ta_failed = []\<rparr> w of
             (t, w1) \<Rightarrow>
               (reply (if ta_failed t \<noteq> [] then 503 else 200) (BWebhook (ta_created t) (ta_resolved t) (ta_failed t)), w1)))"

subsection \<open>Health\<close>

definition api_Health :: "api_response" where
  "api_Health = reply 200 (BHealth ''ok'' [])"

fun run_checks :: "ctx \<Rightarrow> (string \<times> (ctx \<Rightarrow> gerror option)) list \<Rightarrow> bool \<times> (string \<times> string) list" where
  "run_checks c [] = (True, [])"
| "run_checks c ((name, check) # cs) =
     (case run_checks c cs of
        (ready, out) \<Rightarrow>
          (case check c of
             Some _ \<Rightarrow> (False, (name, ''unavailable'') # out)
           | None \<Rightarrow> (ready, (name, ''ok'') # out)))"

definition api_Ready :: "'w api \<Rightarrow> api_request \<Rightarrow> api_response" where
  "api_Ready h req =
     (case run_checks (rq_ctx req) (hd_checks h) of
        (ready, out) \<Rightarrow>
          if \<not> ready then reply 503 (BHealth ''not_ready'' out) else reply 200 (BHealth ''ready'' out))"

section \<open>The routes\<close>

datatype access = Public | Reading | Hook | Administration

datatype endpoint =
    Healthz | Readyz
  | ListIncidents | GetIncident | IncidentRuns | IncidentEvents
  | GetRunE | RunSteps | RunEvidences | RunToolCalls | RunApprovals | RunStream
  | ListApprovals | GetApproval
  | PostAlerts
  | PostIncident | PostAnalyze | PostResolve | PostApprove | PostReject

definition v1 :: "string list \<Rightarrow> string list" where
  "v1 path = [''api'', ''v1''] @ path"

definition router_New :: "(access \<times> string \<times> string list \<times> endpoint) list" where
  "router_New =
     [(Public, ''GET'', [''healthz''], Healthz), (Public, ''GET'', [''readyz''], Readyz),
      (Reading, ''GET'', v1 [''incidents''], ListIncidents),
      (Reading, ''GET'', v1 [''incidents'', '':id''], GetIncident),
      (Reading, ''GET'', v1 [''incidents'', '':id'', ''runs''], IncidentRuns),
      (Reading, ''GET'', v1 [''incidents'', '':id'', ''events''], IncidentEvents),
      (Reading, ''GET'', v1 [''runs'', '':id''], GetRunE),
      (Reading, ''GET'', v1 [''runs'', '':id'', ''steps''], RunSteps),
      (Reading, ''GET'', v1 [''runs'', '':id'', ''evidences''], RunEvidences),
      (Reading, ''GET'', v1 [''runs'', '':id'', ''tool-calls''], RunToolCalls),
      (Reading, ''GET'', v1 [''runs'', '':id'', ''approvals''], RunApprovals),
      (Reading, ''GET'', v1 [''runs'', '':id'', ''stream''], RunStream),
      (Reading, ''GET'', v1 [''approvals''], ListApprovals),
      (Reading, ''GET'', v1 [''approvals'', '':id''], GetApproval),
      (Hook, ''POST'', v1 [''alerts''], PostAlerts),
      (Administration, ''POST'', v1 [''incidents''], PostIncident),
      (Administration, ''POST'', v1 [''incidents'', '':id'', ''analyze''], PostAnalyze),
      (Administration, ''POST'', v1 [''incidents'', '':id'', ''resolve''], PostResolve),
      (Administration, ''POST'', v1 [''approvals'', '':id'', ''approve''], PostApprove),
      (Administration, ''POST'', v1 [''approvals'', '':id'', ''reject''], PostReject)]"

text \<open>A path matches a pattern segment by segment; \<open>:id\<close> takes any segment that is not empty.\<close>

fun match_path :: "string list \<Rightarrow> string list \<Rightarrow> string \<Rightarrow> string option" where
  "match_path [] [] i = Some i"
| "match_path (p # ps) (s # ss) i =
     (if p = '':id'' then (if s = '''' then None else match_path ps ss s)
      else if p = s then match_path ps ss i else None)"
| "match_path _ _ i = None"

fun find_route :: "(access \<times> string \<times> string list \<times> endpoint) list \<Rightarrow> string \<Rightarrow> string list \<Rightarrow> (access \<times> endpoint \<times> string) option" where
  "find_route [] meth path = None"
| "find_route ((acc, m, pat, ep) # rs) meth path =
     (case (if m = meth then match_path pat path '''' else None) of
        Some i \<Rightarrow> Some (acc, ep, i)
      | None \<Rightarrow> find_route rs meth path)"

definition authorize :: "auth_config \<Rightarrow> access \<Rightarrow> api_request \<Rightarrow> verdict" where
  "authorize auth acc req =
     (if acc = Public \<or> \<not> auth_Enabled auth then Allowed '''' ''''
      else (case acc of
              Hook \<Rightarrow> WebhookAuth auth (rq_webhook_token req)
            | Administration \<Rightarrow> AdminAuth auth (rq_authorization req)
            | _ \<Rightarrow> ReadAuth auth (rq_authorization req)))"

definition handle :: "'w api \<Rightarrow> endpoint \<Rightarrow> string \<Rightarrow> string \<Rightarrow> api_request \<Rightarrow> fresh \<Rightarrow> 'w \<Rightarrow> api_response \<times> 'w" where
  "handle h ep i actor req f w =
     (case ep of
        Healthz \<Rightarrow> (api_Health, w)
      | Readyz \<Rightarrow> (api_Ready h req, w)
      | ListIncidents \<Rightarrow> (api_List h req w, w)
      | GetIncident \<Rightarrow> (api_Get h req i w, w)
      | IncidentRuns \<Rightarrow> (runs_ByIncident h req i w, w)
      | IncidentEvents \<Rightarrow> (api_Events h req i w, w)
      | GetRunE \<Rightarrow> (runs_Get h req i w, w)
      | RunSteps \<Rightarrow> (runs_Steps h req i w, w)
      | RunEvidences \<Rightarrow> (runs_Evidences h req i w, w)
      | RunToolCalls \<Rightarrow> (runs_ToolCalls h req i w, w)
      | RunApprovals \<Rightarrow> (approvals_ListByRun h req i w, w)
      | RunStream \<Rightarrow> (runs_Stream h req i w, w)
      | ListApprovals \<Rightarrow> (approvals_List h req w, w)
      | GetApproval \<Rightarrow> (approvals_Get h req i w, w)
      | PostAlerts \<Rightarrow> api_Webhook h req f w
      | PostIncident \<Rightarrow> api_Create h req f w
      | PostAnalyze \<Rightarrow> api_Analyze h req i f w
      | PostResolve \<Rightarrow> api_Resolve h req i f w
      | PostApprove \<Rightarrow> approvals_Approve h req i actor f w
      | PostReject \<Rightarrow> approvals_Reject h req i actor f w)"

definition serve :: "'w api \<Rightarrow> auth_config \<Rightarrow> api_request \<Rightarrow> fresh \<Rightarrow> 'w \<Rightarrow> api_response \<times> 'w" where
  "serve h auth req f w =
     (case find_route router_New (rq_method req) (rq_path req) of
        None \<Rightarrow> (reply 404 (BText ''404 page not found''), w)
      | Some (acc, ep, i) \<Rightarrow>
          (case authorize auth acc req of
             Unauthorized msg \<Rightarrow> (reply 401 (BError msg), w)
           | Forbidden msg \<Rightarrow> (reply 403 (BError msg), w)
           | Allowed role actor \<Rightarrow> handle h ep i actor req f w))"

section \<open>The server of the application\<close>

text \<open>The publisher is the application itself, which is always there: without a RabbitMQ connection it
  sends nothing and reports no error. The queue lies outside the state of the process.\<close>

definition app_publisher :: "bool option \<Rightarrow> (string \<Rightarrow> fresh \<Rightarrow> publish_answer) \<Rightarrow> 'w publisher" where
  "app_publisher producer outcome c i f w =
     (case producer of None \<Rightarrow> (None, w) | Some online \<Rightarrow> (producer_Publish online (outcome i f), w))"

definition buildServer ::
  "config \<Rightarrow> environment \<Rightarrow> tool_library \<Rightarrow> readers \<Rightarrow> react_agent \<Rightarrow> gerror + string \<Rightarrow> bool option
     \<Rightarrow> (string \<Rightarrow> fresh \<Rightarrow> publish_answer) \<Rightarrow> (string \<Rightarrow> stream_event list) \<Rightarrow> (string \<times> (ctx \<Rightarrow> gerror option)) list
     \<Rightarrow> world api" where
  "buildServer cfg env lib rs agent file producer outcome received checks =
     \<lparr>hd_incidents = world_incidents, hd_approvals = world_approvals cfg env, hd_runs = world_run_repo,
      hd_incident_repo = Some world_incident_repo, hd_publisher = Some (app_publisher producer outcome),
      hd_alert_runs = Some world_run_repo,
      hd_diagnoser = (case buildAgent cfg env lib rs file of (None, _) \<Rightarrow> None
        | (Some rt, _) \<Rightarrow> Some (\<lambda>c inc prompt. Diagnose rt agent c inc prompt)),
      hd_prompt = snd (buildAgent cfg env lib rs file), hd_received = received, hd_checks = checks, hd_count = count_metric\<rparr>"

definition buildHealthHandler ::
  "config \<Rightarrow> (ctx \<Rightarrow> gerror option) option \<Rightarrow> bool option \<Rightarrow> (string \<times> (ctx \<Rightarrow> gerror option)) list" where
  "buildHealthHandler cfg db_ping rabbit_closed =
     [(''config'', \<lambda>_. Validate cfg)]
     @ (case db_ping of None \<Rightarrow> [] | Some ping \<Rightarrow> [(''postgres'', ping)])
     @ (case rabbit_closed of None \<Rightarrow> []
        | Some is_closed \<Rightarrow> [(''rabbitmq'', \<lambda>_. if is_closed then Some (plain_err ''rabbitmq connection is closed'') else None)])"

section \<open>Authentication and reading\<close>

lemma tokenMatches_iff: "tokenMatches a b \<longleftrightarrow> a = b \<and> a \<noteq> ''''"
  by (auto simp: tokenMatches_def)

lemma ToIncidentResponses_map [simp]: "ToIncidentResponses incs = map ToIncidentResponse incs"
  by (induction incs) auto

definition reading :: "endpoint \<Rightarrow> bool" where
  "reading ep = (ep \<notin> {PostAlerts, PostIncident, PostAnalyze, PostResolve, PostApprove, PostReject})"

lemma handle_reading: "reading ep \<Longrightarrow> snd (handle h ep i actor req f w) = w"
  by (cases ep) (simp_all add: reading_def handle_def)

text \<open>The access class of a matched route fits its endpoint.\<close>

lemma find_route_in: "find_route rs m path = Some (acc, ep, i) \<Longrightarrow> \<exists>pat. (acc, m, pat, ep) \<in> set rs"
  by (induction rs m path rule: find_route.induct) (auto split: option.splits if_splits)

lemma route_access:
  assumes "find_route router_New m path = Some (acc, ep, i)"
  shows "(acc = Hook \<longleftrightarrow> ep = PostAlerts) \<and> (acc = Administration \<longleftrightarrow> \<not> reading ep \<and> ep \<noteq> PostAlerts)"
  using find_route_in [OF assms] by (auto simp: router_New_def reading_def)

lemma serve_cases:
  assumes "serve h auth req f w = (resp, w')"
  obtains (missing) "find_route router_New (rq_method req) (rq_path req) = None" "w' = w" "rp_status resp = 404"
  | (refused) acc ep i where "find_route router_New (rq_method req) (rq_path req) = Some (acc, ep, i)" "w' = w"
      "rp_status resp = 401 \<or> rp_status resp = 403" "\<forall>role actor. authorize auth acc req \<noteq> Allowed role actor"
  | (handled) acc ep i role actor where "find_route router_New (rq_method req) (rq_path req) = Some (acc, ep, i)"
      "authorize auth acc req = Allowed role actor" "handle h ep i actor req f w = (resp, w')"
proof (cases "find_route router_New (rq_method req) (rq_path req)")
  case None
  with assms missing show thesis by (auto simp: serve_def reply_def)
next
  case (Some a)
  obtain acc ep i where a: "a = (acc, ep, i)" by (cases a) auto
  with Some assms handled refused show thesis
    by (cases "authorize auth acc req") (auto simp: serve_def reply_def)
qed

text \<open>With a token configured, a request that changed something was a webhook with the webhook token or
  an administration request with the admin token.\<close>

lemma serve_guarded:
  assumes "auth_Enabled auth" and "serve h auth req f w = (resp, w')" and "w' \<noteq> w"
  shows "(\<exists>i. find_route router_New (rq_method req) (rq_path req) = Some (Hook, PostAlerts, i)
        \<and> tokenMatches (au_WebhookToken auth) (rq_webhook_token req))
    \<or> (\<exists>ep i. find_route router_New (rq_method req) (rq_path req) = Some (Administration, ep, i)
        \<and> tokenMatches (au_AdminToken auth) (bearerToken (rq_authorization req)))"
  using assms(2)
proof (cases rule: serve_cases)
  case (handled acc ep i role actor)
  have "\<not> reading ep" using handled(3) handle_reading [of ep h i actor req f w] assms(3) by auto
  with route_access [OF handled(1)] consider "acc = Hook" "ep = PostAlerts" | "acc = Administration" by blast
  then show ?thesis
  proof cases
    case 1
    with handled(1,2) assms(1) show ?thesis
      by (auto simp: authorize_def WebhookAuth_def split: if_splits)
  next
    case 2
    with handled(1,2) assms(1) show ?thesis
      by (auto simp: authorize_def AdminAuth_def Let_def split: if_splits)
  qed
qed (use assms(3) in auto)

text \<open>Who decides an approval is the configured actor.\<close>

lemma approve_actor:
  assumes "auth_Enabled auth" and "find_route router_New (rq_method req) (rq_path req) = Some (acc, ep, i)"
    and "ep = PostApprove \<or> ep = PostReject" and "authorize auth acc req = Allowed role actor"
  shows "approvalActor actor = (if au_AdminActor auth = '''' then ''admin'' else au_AdminActor auth)"
proof -
  have "acc = Administration" using route_access [OF assms(2)] assms(3) by (auto simp: reading_def)
  with assms(1,4) show ?thesis
    by (auto simp: authorize_def AdminAuth_def Let_def setActor_def approvalActor_def split: if_splits)
qed

section \<open>The webhook\<close>

lemma hasActiveRun_state: "alert_hasActiveRun h c i w = hasActiveRun c (hd_alert_runs h) i w"
  by (simp add: alert_hasActiveRun_def)

text \<open>Each alert adds at most one entry for its result, and a failure exactly one failed entry.\<close>

definition tally_size :: "tally \<Rightarrow> nat" where
  "tally_size t = length (ta_created t) + length (ta_resolved t)"

lemma tally_simps [simp]:
  "tally_size (add_created i t) = Suc (tally_size t)" "tally_size (add_resolved i t) = Suc (tally_size t)"
  "tally_size (add_failed a b e t) = tally_size t"
  "length (ta_failed (add_failed a b e t)) = Suc (length (ta_failed t))" "ta_failed (add_created i t) = ta_failed t"
  "ta_failed (add_resolved i t) = ta_failed t"
  by (simp_all add: tally_size_def add_created_def add_resolved_def add_failed_def)

lemma publish_alert_failed:
  "publish_alert h c name i f t w = (t', w') \<Longrightarrow> tally_size t' = tally_size t \<and> length (ta_failed t) \<le> length (ta_failed t')
     \<and> length (ta_failed t') \<le> Suc (length (ta_failed t))"
  by (auto simp: publish_alert_def split: option.splits prod.splits)

lemma alert_sizes:
  assumes "(if al_Status al = ''resolved'' then resolve_alert h c al f t w else firing_alert h c al f t w) = (t', w')"
  shows "tally_size t' \<le> Suc (tally_size t) \<and> length (ta_failed t) \<le> length (ta_failed t')
     \<and> length (ta_failed t') \<le> Suc (length (ta_failed t))"
proof (cases "al_Status al = ''resolved''")
  case True
  with assms show ?thesis by (auto simp: resolve_alert_def Let_def split: sum.splits prod.splits)
next
  case False
  with assms show ?thesis
    by (auto simp: firing_alert_def Let_def split: sum.splits prod.splits if_splits dest!: publish_alert_failed)
qed

end
