(* ===== verification/Scenario.thy ===== *)
theory Scenario
  imports System
begin

text \<open>
  One run of the whole application, computed from the definitions: an alert opens an incident, a
  diagnosis run asks for a restart, a human approves it, the endpoint is called and the verification
  passes. The witnesses of the properties are taken from it.
\<close>

definition demo_cfg :: config where
  "demo_cfg = config_Default
     \<lparr>cf_Execution := \<lparr>ex_Mode = ''http'', ex_RestartURL = ''http://ops/restart'', ex_Token = ''s'',
        ex_AllowedTargets = [''worker''], ex_TimeoutSeconds = 30\<rparr>,
      cf_Verification := (cf_Verification config_Default)
        \<lparr>ve_Mode := ''prometheus'', ve_Attempts := 1, ve_IntervalSeconds := 0, ve_RequiredSuccesses := 1,
         ve_Queries := \<lparr>vq_Consumers = ''c'', vq_QueueDepth = ''q'', vq_ErrorRate = ''e''\<rparr>\<rparr>\<rparr>"

definition demo_sample :: "int \<Rightarrow> prom_reply" where
  "demo_sample n = PromReply 200 ''200 OK'' (Inr \<lparr>po_Status = ''success'', po_Result = [[SampleNumber (Fin 0), SampleNumber (Fin (of_int n))]]\<rparr>)"

definition demo_env :: environment where
  "demo_env = \<lparr>en_endpoint = (\<lambda>_ _. Response 200 ''{}''), en_url_err = None,
     en_prometheus = (\<lambda>i url. demo_sample (if last url = CHR ''c'' then 2 else 0)), en_overflow = (\<lambda>_. 0), en_ctx = (\<lambda>_. None), en_wait = (\<lambda>_. None)\<rparr>"

definition demo_fresh :: "string \<Rightarrow> fresh" where
  "demo_fresh u = \<lparr>clk = (\<lambda>i. int i), uid = (\<lambda>i. u @ [''0123456789'' ! i])\<rparr>"

definition demo_input :: create_input where
  "demo_input = \<lparr>ci_Service = ''svc'', ci_Severity = '''', ci_Title = ''backlog'', ci_Description = '''', ci_AlertName = ''QueueBacklog''\<rparr>"

definition demo_run :: agent_run where
  "demo_run = \<lparr>run_ID = ''run_1'', run_IncidentID = ''inc_a0'', run_AgentType = ''diagnosis'', run_Status = RunRunning,
     run_Goal = '''', run_CurrentStep = 0, run_StartedAt = 0, run_FinishedAt = None, run_Error = ''''\<rparr>"

definition demo_w1 :: world where
  "demo_w1 = snd (svc_Create world_incidents background demo_input (demo_fresh ''a'') empty_world)"

definition demo_w2 :: world where
  "demo_w2 = snd (rr_CreateRun world_run_repo background demo_run demo_w1)"

definition demo_w3 :: world where
  "demo_w3 = snd (svc_Analyze world_incidents background ''inc_a0'' (demo_fresh ''b'') demo_w2)"

definition demo_w4 :: world where
  "demo_w4 = snd (restart_request (system_tool demo_cfg demo_env) (background\<lparr>cx_run_id := ''run_1''\<rparr>)
     \<lparr>ri_Target = ''worker'', ri_Reason = ''backlog''\<rparr> (demo_fresh ''c'') demo_w3)"

definition demo_w5 :: world where
  "demo_w5 = snd (Approve (world_approvals demo_cfg demo_env) background ''ap_c0'' ''alice'' (demo_fresh ''d'') demo_w4)"

text \<open>The code the run goes through, for the simplifier; \<open>Fingerprint\<close> stays unevaluated.\<close>


lemmas world_wiring = world_incidents_def world_incident_repo_def lift_incident_repo_def through_def memory_repo_def
  put_incidents_def world_run_repo_def lift_run_repo_def put_runs_def memory_run_repo_def
  world_approvals_def world_approval_repo_def lift_approval_repo_def put_approvals_def memory_approval_repo_def
  system_tool_def SetApproval_def

lemmas repo_code = mem_GetActiveByFingerprint_def found_or_err_def mem_CreateWithEvent_def checkCreateConflicts_def
  createLocked_def checkEventConflict_def addEventLocked_def mem_GetByID_def mem_UpdateWithEvent_def checkUpdateConflicts_def
  updateLocked_def stored_events_def bump_version_def mema_Create_def mema_TransitionStatus_def memr_CreateRun_def memr_GetRun_def

lemmas svc_code = svc_Create_def svc_ops transitionWithAudit_def Transition_def
  new_incident_def moved_incident_def transition_events_def CanTransition_def svc_Get_def

lemmas demo_defs = demo_input_def demo_fresh_def demo_run_def background_def
  empty_world_def NewMemory_def NewMemoryApproval_def NewMemoryRun_def count_metric_def publish_event_def

lemmas tool_code = world_tool_def world_http_def NewHTTPExecutor_def deployment_New_def WithHTTPExecutor_def WithAllowedTargets_def
  policy_New_def checkTarget_def

lemmas approval_code = restart_request_def Request_def resolveIncidentID_def new_approval_def moveIncident_def
  approvalIncidentID_def as_publish_def Approve_def executeClaimed_def set_decider_def set_outcome_def outcome_status_def
  WithApprovalID_def ApprovalIDFrom_def persistContext_def without_cancel_def later_def evens_def odds_def

lemmas executor_code = world_executor_def observed_Execute_def observeClosure_def remediation_Execute_def
  verify_and_close_def world_remediation_def rm_publish_def tool_Execute_def http_Execute_def http_classify_def
  call_endpoint_def no_result_def rootCause_def

lemma demo_tool [simp]: "world_tool demo_cfg demo_env = \<lparr>dt_approval = None, dt_policy = Some \<lparr>pe_approvalEnabled = True\<rparr>,
    dt_allowedTargets = Some [''worker''],
    dt_http = Some \<lparr>hx_client = call_endpoint demo_env 30000000000, hx_url = ''http://ops/restart'',
      hx_url_err = None, hx_token = ''s''\<rparr>\<rparr>"
  by (simp add: tool_code demo_cfg_def Let_def execution_modes config_Default_def demo_env_def)

lemma demo_parse: "parse_restart (restart_args \<lparr>ri_Target = ''worker'', ri_Reason = ''backlog''\<rparr>)
    = Inr \<lparr>ri_Target = ''worker'', ri_Reason = ''backlog''\<rparr>"
  by (rule restart_args_parse) (simp_all add: valid_ascii byte_def)

lemma demo_trim: "TrimSpace ''worker'' = ''worker''"
  by (rule TrimSpace_graphic) (simp_all add: graphic_def)

definition demo_probe :: probe where
  "demo_probe = \<lparr>pb_ctx = en_ctx demo_env,
     pb_gather = (\<lambda>i. Gather (en_overflow demo_env)
       (NewPrometheusGatherer (cf_PrometheusURL demo_cfg) \<lparr>qu_Consumers = ''c'', qu_QueueDepth = ''q'', qu_ErrorRate = ''e''\<rparr>)
       (en_prometheus demo_env i)), pb_wait = en_wait demo_env\<rparr>"

lemma demo_gatherer: "buildGatherer demo_cfg demo_env = Inr demo_probe"
  by (simp add: buildGatherer_def demo_cfg_def demo_probe_def Let_def config_Default_def)

lemma demo_gather: "pb_gather demo_probe i = Inr \<lparr>me_ConsumerCount = 2, me_QueueDepth = 0, me_ErrorRate = Fin 0\<rparr>"
  by (simp add: demo_probe_def demo_env_def Gather_def queryScalar_def NewPrometheusGatherer_def demo_sample_def
      QueryEscape_def escape_char_def f64_to_int_def)

lemma demo_ctx: "pb_ctx demo_probe i = None"
  by (simp add: demo_probe_def demo_env_def)

lemma demo_sequence: "\<exists>as. VerifySequence DefaultConfig (Some demo_probe)
    \<lparr>rc_Attempts = 1, rc_Interval = 0, rc_RequiredSuccesses = 1\<rparr>
  = (\<lparr>sq_Passed = True, sq_Successes = 1, sq_Attempts = as, sq_Reason = ''''\<rparr>, None)"
  by (simp add: VerifySequence_def normalized_def demo_gather make_attempt_def Verify_Passed demo_ctx Let_def
      DefaultConfig_def f64_0_01_def)

definition demo_incident :: "status \<Rightarrow> int \<Rightarrow> 64 word \<Rightarrow> incident" where
  "demo_incident st t v = \<lparr>inc_ID = ''inc_a0'', inc_Service = ''svc'', inc_Severity = ''MEDIUM'', inc_Title = ''backlog'',
     inc_Description = '''', inc_AlertName = ''QueueBacklog'',
     inc_Fingerprint = Fingerprint ''svc'' ''QueueBacklog'' ''backlog'', inc_Status = st, inc_StartedAt = 0,
     inc_ResolvedAt = None, inc_CreatedAt = 0, inc_UpdatedAt = t, inc_Version = v\<rparr>"

definition demo_events :: "incident_event list" where
  "demo_events =
     [NewIncidentEvent ''inc_a0'' EventIncidentCreated None StatusOpen ''alert firing'' '''' ''a1'' 1,
      NewIncidentEvent ''inc_a0'' EventStatusTransition (Some StatusOpen) StatusInvestigating
        ''state machine transition'' '''' ''b0'' 1]"

definition demo_runs :: mem_runs where
  "demo_runs = \<lparr>mr_runs = [(''run_1'', demo_run)], mr_steps = \<lambda>_. [], mr_calls = \<lambda>_. [], mr_evids = \<lambda>_. []\<rparr>"

lemma demo_at_3: "demo_w3 = \<lparr>w_incidents = \<lparr>mi_items = [(''inc_a0'', demo_incident StatusInvestigating 0 1)],
       mi_events = [(''inc_a0'', demo_events)]\<rparr>,
     w_approvals = \<lparr>ma_items = []\<rparr>, w_runs = demo_runs, w_broker = NewStreamBroker,
     w_metrics = [IncidentsTotal ''svc'' ''MEDIUM''], w_calls = []\<rparr>"
  by (simp add: demo_w3_def demo_w2_def demo_w1_def world_wiring repo_code svc_code demo_defs Let_def
      demo_incident_def demo_events_def demo_runs_def)

definition demo_approval :: approval where
  "demo_approval = new_approval ''inc_a0'' ''run_1'' '''' ''restart_worker''
     (restart_args \<lparr>ri_Target = ''worker'', ri_Reason = ''backlog''\<rparr>) ''backlog'' (demo_fresh ''c'')"

lemma demo_at_4: "demo_w4 = \<lparr>w_incidents = \<lparr>mi_items = [(''inc_a0'', demo_incident StatusWaitingApproval 2 2)],
       mi_events = [(''inc_a0'', demo_events @ [NewIncidentEvent ''inc_a0'' EventStatusTransition (Some StatusInvestigating)
         StatusWaitingApproval ''state machine transition'' '''' ''c1'' 3])]\<rparr>,
     w_approvals = \<lparr>ma_items = [(''ap_c0'', demo_approval)]\<rparr>, w_runs = demo_runs,
     w_broker = Publish ''run_1'' \<lparr>se_Type = ''approval.required'', se_Data = approval_event demo_approval\<rparr> NewStreamBroker,
     w_metrics = [IncidentsTotal ''svc'' ''MEDIUM'', ApprovalsTotal ''restart_worker'' ApprovalPending], w_calls = []\<rparr>"
  by (simp add: demo_w4_def demo_at_3 world_wiring repo_code svc_code demo_defs Let_def approval_code demo_trim
      checkTarget_def demo_incident_def demo_events_def demo_runs_def demo_approval_def)

lemma demo_answers [simp]: "en_endpoint demo_env cs req = Response 200 ''{}''"
  "ve_Attempts (cf_Verification demo_cfg) = 1" "ve_IntervalSeconds (cf_Verification demo_cfg) = 0"
  "ve_RequiredSuccesses (cf_Verification demo_cfg) = 1" "verifier_New DefaultConfig = DefaultConfig"
  by (simp_all add: demo_env_def demo_cfg_def verifier_New_def DefaultConfig_def f64_0_01_def Let_def)

text \<open>The incident is resolved, the approval executed, the endpoint called once under the approval's id.\<close>

lemma demo_at_5: "map (inc_Status \<circ> snd) (mi_items (w_incidents demo_w5)) = [StatusResolved]
  \<and> map (ap_Status \<circ> snd) (ma_items (w_approvals demo_w5)) = [ApprovalExecuted]
  \<and> w_keys demo_w5 = [''ap_c0'']"
proof -
  obtain ats where seq: "VerifySequence DefaultConfig (Some demo_probe)
      \<lparr>rc_Attempts = 1, rc_Interval = 0, rc_RequiredSuccesses = 1\<rparr>
    = (\<lparr>sq_Passed = True, sq_Successes = 1, sq_Attempts = ats, sq_Reason = ''''\<rparr>, None)"
    using demo_sequence by blast
  show ?thesis
    by (simp add: demo_w5_def demo_at_4 world_wiring repo_code svc_code demo_defs Let_def approval_code demo_trim
        checkTarget_def demo_incident_def demo_events_def demo_runs_def demo_approval_def executor_code demo_parse
        demo_gatherer seq mem_UpdateWithEvents_def w_keys_def)
qed

end
