(* ===== verification/Server.thy ===== *)
theory Server
  imports Api Scenario
begin

text \<open>
  The HTTP server on the whole application: a request changes the application only by steps of the
  system, never runs a diagnosis, needs the token of its route group to change anything, and a
  webhook leaves the incidents in the state its alerts ask for.
\<close>

section \<open>The server refines the system\<close>

text \<open>A handler record built by \<open>buildServer\<close>.\<close>

definition server_of :: "world api \<Rightarrow> config \<Rightarrow> bool" where
  "server_of h cfg = (\<exists>env lib rs agent file producer outcome received checks.
     h = buildServer cfg env lib rs agent file producer outcome received checks)"

lemma server_simps:
  assumes "server_of h cfg"
  shows "hd_incidents h = world_incidents" "hd_count h = count_metric" "hd_alert_runs h = Some world_run_repo"
    "hd_incident_repo h = Some world_incident_repo" "hd_runs h = world_run_repo"
  using assms by (auto simp: server_of_def buildServer_def)

lemma server_approvals:
  assumes "server_of h cfg"
  obtains env where "hd_approvals h = world_approvals cfg env"
  using assms by (auto simp: server_of_def buildServer_def)

lemma server_publisher:
  assumes "server_of h cfg"
  obtains producer outcome where "hd_publisher h = Some (app_publisher producer outcome)"
  using assms by (auto simp: server_of_def buildServer_def)

lemma server_publish:
  assumes "server_of h cfg" and "hd_publisher h = Some publish" and "publish c i f w = (r, w')"
  shows "w' = w"
  by (rule server_publisher [OF assms(1)]) (use assms(2,3) in \<open>auto simp: app_publisher_def split: option.splits\<close>)

lemma counted_run: "system_run cfg w w' \<Longrightarrow> system_run cfg w (count_metric m w')"
  by (rule rtranclp_trans [OF _ run_one [OF observe]])

lemma publish_alert_run:
  assumes "server_of h cfg" and "publish_alert h c name i f t w = (t', w')"
  shows "w' = w \<or> (\<exists>m. w' = count_metric m w)"
proof (cases "hd_publisher h")
  case (Some publish)
  obtain r w1 where p: "publish c i f w = (r, w1)" by force
  with server_publish [OF assms(1) Some] have "w1 = w" by blast
  with p Some assms(2) server_simps(2) [OF assms(1)] show ?thesis
    by (auto simp: publish_alert_def split: prod.splits option.splits)
qed (use assms(2) in \<open>simp add: publish_alert_def\<close>)

lemma alert_run:
  assumes h: "server_of h cfg"
    and step: "(if al_Status al = ''resolved'' then resolve_alert h c al f t w else firing_alert h c al f t w) = (t', w')"
  shows "system_run cfg w w'"
proof (cases "al_Status al = ''resolved''")
  case True
  obtain r w1 where ext: "ResolveExternally world_incidents c
      (Fingerprint (alertService al) (label (al_Labels al) ''alertname'') (alertTitle al)) f w = (r, w1)" by force
  have "\<exists>m. w' = count_metric m w1"
    using step True ext server_simps [OF h] by (auto simp: resolve_alert_def Let_def split: sum.splits)
  with counted_run [OF run_one [OF resolve_externally [OF ext]]] show ?thesis by blast
next
  case False
  obtain r w1 where cr: "svc_Create world_incidents c (alert_input al) (evens f) w = (r, w1)" by force
  have "\<exists>m. w' = count_metric m w1 \<or> (\<exists>m'. w' = count_metric m' (count_metric m w1))"
    using step False cr server_simps [OF h]
    by (auto simp: firing_alert_def Let_def split: sum.splits prod.splits if_splits dest!: publish_alert_run [OF h])
  with counted_run [OF run_one [OF create [OF cr]]] show ?thesis by (auto intro: counted_run)
qed

lemma webhook_run: "server_of h cfg \<Longrightarrow> webhook_loop h c als f t w = (t', w') \<Longrightarrow> system_run cfg w w'"
proof (induction als arbitrary: f t w)
  case (Cons al als)
  obtain t1 w1 where one: "(if al_Status al = ''resolved'' then resolve_alert h c al (evens f) t w
      else firing_alert h c al (evens f) t w) = (t1, w1)" by force
  with Cons.prems(2) have "webhook_loop h c als (odds f) t1 w1 = (t', w')" by simp
  with alert_run [OF Cons.prems(1) one] Cons.IH [OF Cons.prems(1)] show ?case by (meson rtranclp_trans)
qed simp

lemma diagnoser_run:
  assumes "server_of h cfg" and "hd_diagnoser h = Some diagnose" and "diagnose c inc prompt f w = (r, w')"
  shows "system_run cfg w w'"
  using assms diagnose_run
  by (auto simp: server_of_def buildServer_def buildAgent_def split: if_splits)

lemma analyze_request_run:
  assumes h: "server_of h cfg" and step: "api_Analyze h req i f w = (resp, w')"
  shows "system_run cfg w w'"
proof -
  obtain publish where p: "hd_publisher h = Some publish" by (rule server_publisher [OF h])
  obtain r w1 where an: "svc_Analyze world_incidents (rq_ctx req) i (evens f) w = (r, w1)" by force
  have "w' = w1"
    using step an p server_simps [OF h] server_publish [OF h p] by (auto simp: api_Analyze_def split: sum.splits prod.splits)
  with run_one [OF analyze [OF an]] show ?thesis by simp
qed

lemma handle_run:
  assumes h: "server_of h cfg" and step: "handle h ep i actor req f w = (resp, w')"
  shows "system_run cfg w w'"
proof (cases "reading ep")
  case True
  with handle_reading [OF True, of h i actor req f w] step show ?thesis by simp
next
  case False
  obtain env where ap: "hd_approvals h = world_approvals cfg env" by (rule server_approvals [OF h])
  consider "ep = PostAlerts" | "ep = PostIncident" | "ep = PostAnalyze" | "ep = PostResolve"
    | "ep = PostApprove" | "ep = PostReject" using False by (auto simp: reading_def)
  then show ?thesis
  proof cases
    case 1
    with step show ?thesis
      by (auto simp: handle_def api_Webhook_def split: sum.splits prod.splits intro: webhook_run [OF h])
  next
    case 2
    with step server_simps(1) [OF h] show ?thesis
      by (auto simp: handle_def api_Create_def split: sum.splits prod.splits intro: run_one create)
  next
    case 3
    with step show ?thesis by (auto simp: handle_def intro: analyze_request_run [OF h])
  next
    case 4
    with step server_simps(1) [OF h] show ?thesis
      by (auto simp: handle_def api_Resolve_def split: sum.splits prod.splits intro: run_one resolve)
  next
    case 5
    with step ap show ?thesis
      by (auto simp: handle_def approvals_Approve_def split: prod.splits intro: run_one approve)
  next
    case 6
    with step ap show ?thesis
      by (auto simp: handle_def approvals_Reject_def split: prod.splits intro: run_one reject)
  qed
qed

lemma serve_run: "server_of h cfg \<Longrightarrow> serve h auth req f w = (resp, w') \<Longrightarrow> system_run cfg w w'"
  by (erule serve_cases) (auto intro: handle_run)

section \<open>No diagnosis by the server\<close>

lemma alert_runs:
  assumes h: "server_of h cfg"
    and step: "(if al_Status al = ''resolved'' then resolve_alert h c al f t w else firing_alert h c al f t w) = (t', w')"
  shows "w_runs w' = w_runs w"
proof (cases "al_Status al = ''resolved''")
  case True
  with step server_simps [OF h] show ?thesis
    by (auto simp: resolve_alert_def Let_def split: sum.splits prod.splits dest!: runs_external)
next
  case False
  with step server_simps [OF h] show ?thesis
    by (auto simp: firing_alert_def Let_def split: sum.splits prod.splits if_splits
        dest!: publish_alert_run [OF h] runs_create)
qed

lemma webhook_runs: "server_of h cfg \<Longrightarrow> webhook_loop h c als f t w = (t', w') \<Longrightarrow> w_runs w' = w_runs w"
proof (induction als arbitrary: f t w)
  case (Cons al als)
  obtain t1 w1 where one: "(if al_Status al = ''resolved'' then resolve_alert h c al (evens f) t w
      else firing_alert h c al (evens f) t w) = (t1, w1)" by force
  with Cons.prems(2) have "webhook_loop h c als (odds f) t1 w1 = (t', w')" by simp
  with alert_runs [OF Cons.prems(1) one] Cons.IH [OF Cons.prems(1)] show ?case by simp
qed simp

lemma serve_runs:
  assumes h: "server_of h cfg" and step: "serve h auth req f w = (resp, w')"
  shows "w_runs w' = w_runs w"
  using step
proof (cases rule: serve_cases)
  case (handled acc ep i role actor)
  obtain env where ap: "hd_approvals h = world_approvals cfg env" by (rule server_approvals [OF h])
  obtain publish where p: "hd_publisher h = Some publish" by (rule server_publisher [OF h])
  show ?thesis
    using handled(3) server_simps [OF h] ap p
    by (cases ep)
      (auto simp: handle_def api_Webhook_def api_Create_def api_Analyze_def api_Resolve_def approvals_Approve_def
        approvals_Reject_def split: sum.splits prod.splits
        dest!: webhook_runs [OF h] runs_create runs_svc runs_approve runs_reject server_publish [OF h p])
qed auto

section \<open>What a webhook does to the incidents\<close>

text \<open>The fingerprint of an alert; an incident that is not terminal with a fingerprint.\<close>

definition alert_fp :: "alert \<Rightarrow> string" where
  "alert_fp al = Fingerprint (alertService al) (label (al_Labels al) ''alertname'') (alertTitle al)"

definition open_for :: "world \<Rightarrow> string \<Rightarrow> bool" where
  "open_for w fp = (\<exists>i inc. w_istored w i = Some inc \<and> inc_Fingerprint inc = fp \<and> \<not> IsTerminal (inc_Status inc))"

lemma open_for_cong: "w_istored w' = w_istored w \<Longrightarrow> open_for w' = open_for w"
  by (simp add: fun_eq_iff open_for_def)

lemma open_for_put_other:
  assumes "w_istored w' = (w_istored w)(k \<mapsto> inc)" and "\<forall>old. w_istored w k = Some old \<longrightarrow> inc_Fingerprint old \<noteq> fp"
    and "inc_Fingerprint inc \<noteq> fp"
  shows "open_for w' fp = open_for w fp"
  using assms unfolding open_for_def by (metis fun_upd_apply option.sel)

lemma counted_views [simp]:
  "w_istored (count_metric m w) = w_istored w" "w_iinv (count_metric m w) = w_iinv w"
  by (simp_all add: world_views)

lemma open_counted [simp]: "open_for (count_metric m w) = open_for w"
  by (rule open_for_cong) simp

lemma resolve_open:
  assumes "w_iinv w" and "fp \<noteq> ''''" and "ResolveExternally world_incidents c fp f w = (r, w')"
  shows "w_iinv w' \<and> (\<forall>fp'. fp' \<noteq> fp \<longrightarrow> open_for w' fp' = open_for w fp')
    \<and> (\<forall>inc. r = Inr inc \<longrightarrow> \<not> open_for w' fp)"
  using assms(1,3)
proof (cases rule: wc.resolve_cases)
  case unchanged
  with assms(1) show ?thesis by (auto simp: open_for_def)
next
  case (closed cur inc n w1 ev)
  have fp: "inc_Fingerprint inc = fp" "IsTerminal (inc_Status inc)"
    using closed by (auto simp: bump_version_def externally_resolved_def)
  have "\<not> open_for w' fp"
  proof
    assume "open_for w' fp"
    then obtain j x where x: "w_istored w' j = Some x" "inc_Fingerprint x = fp" "\<not> IsTerminal (inc_Status x)"
      by (auto simp: open_for_def)
    with closed(7) fp have j: "j \<noteq> inc_ID cur" "w_istored w j = Some x" by (auto split: if_splits)
    have "\<not> IsTerminal (inc_Status cur)" using closed(3) by (cases "inc_Status cur") auto
    with x closed(1,2) j(2) assms(2) have "j = inc_ID cur"
      using wi.unique_active [OF assms(1) j(2) closed(1)] by simp
    with j(1) show False by simp
  qed
  moreover have "open_for w' fp' = open_for w fp'" if "fp' \<noteq> fp" for fp'
    using open_for_put_other [OF closed(7)] closed(1,2) fp(1) that by auto
  ultimately show ?thesis using closed by auto
next
  case (stopped e cur x)
  with open_for_cong [of w' w] show ?thesis by simp
next
  case (stopped_late e cur n w1)
  with open_for_cong [of w' w] show ?thesis by simp
qed

lemma create_open:
  assumes "w_iinv w" and "svc_Create world_incidents c inp f w = (r, w')"
    and "fp = Fingerprint (ci_Service inp) (ci_AlertName inp) (ci_Title inp)"
  shows "w_iinv w' \<and> (\<forall>fp'. fp' \<noteq> fp \<longrightarrow> open_for w' fp' = open_for w fp')
    \<and> (\<forall>x. r = Inr x \<longrightarrow> open_for w' fp)"
  using assms(1,2)
proof (cases rule: wi.create_cases)
  case (existing inc)
  then have "open_for w' fp" unfolding open_for_def using assms(3) by metis
  with existing open_for_cong [of w' w] show ?thesis by simp
next
  case (refused e)
  with open_for_cong [of w' w] show ?thesis by simp
next
  case (created inc ev)
  have fp: "inc_Fingerprint inc = fp" "\<not> IsTerminal (inc_Status inc)"
    using created(2) assms(3) by (simp_all add: new_incident_def)
  have "open_for w' fp" unfolding open_for_def using created(4) fp by (intro exI [of _ "inc_ID inc"]) auto
  moreover have "open_for w' fp' = open_for w fp'" if "fp' \<noteq> fp" for fp'
    using open_for_put_other [OF created(4)] created(3) fp(1) that by auto
  ultimately show ?thesis using created by auto
qed

lemma alert_open:
  assumes h: "server_of h cfg" and inv: "w_iinv w"
    and step: "(if al_Status al = ''resolved'' then resolve_alert h c al f t w else firing_alert h c al f t w) = (t', w')"
  shows "w_iinv w' \<and> (\<forall>fp. fp \<noteq> alert_fp al \<longrightarrow> open_for w' fp = open_for w fp)
    \<and> (length (ta_failed t') = length (ta_failed t) \<longrightarrow> open_for w' (alert_fp al) = (al_Status al \<noteq> ''resolved''))"
proof (cases "al_Status al = ''resolved''")
  case True
  obtain r w1 where ext: "ResolveExternally world_incidents c (alert_fp al) f w = (r, w1)" by force
  have "alert_fp al \<noteq> ''''" by (simp add: alert_fp_def)
  note res = resolve_open [OF inv this ext]
  have "(\<exists>m. w' = count_metric m w1) \<and> (length (ta_failed t') = length (ta_failed t) \<longrightarrow> (\<exists>inc. r = Inr inc))"
    using step True ext server_simps [OF h] by (auto simp: resolve_alert_def alert_fp_def Let_def split: sum.splits)
  with res True show ?thesis by auto
next
  case False
  obtain r w1 where cr: "svc_Create world_incidents c (alert_input al) (evens f) w = (r, w1)" by force
  have "alert_fp al = Fingerprint (ci_Service (alert_input al)) (ci_AlertName (alert_input al)) (ci_Title (alert_input al))"
    by (simp add: alert_fp_def alert_input_def)
  note res = create_open [OF inv cr this]
  have "(\<exists>m. w' = count_metric m w1 \<or> (\<exists>m'. w' = count_metric m' (count_metric m w1)))
      \<and> (length (ta_failed t') = length (ta_failed t) \<longrightarrow> (\<exists>x. r = Inr x))"
    using step False cr server_simps [OF h]
    by (auto simp: firing_alert_def Let_def split: sum.splits prod.splits if_splits dest!: publish_alert_run [OF h])
  with res False show ?thesis by auto
qed

lemma alert_fails_grow:
  assumes "webhook_loop h c als f t w = (t', w')"
  shows "length (ta_failed t) \<le> length (ta_failed t') \<and> tally_size t' \<le> tally_size t + length als
    \<and> length (ta_failed t') \<le> length (ta_failed t) + length als"
  using assms
proof (induction als arbitrary: f t w)
  case (Cons al als)
  obtain t1 w1 where one: "(if al_Status al = ''resolved'' then resolve_alert h c al (evens f) t w
      else firing_alert h c al (evens f) t w) = (t1, w1)" by force
  with Cons.prems have "webhook_loop h c als (odds f) t1 w1 = (t', w')" by simp
  from Cons.IH [OF this] alert_sizes [OF one] show ?case by simp
qed simp

lemma webhook_open:
  assumes "server_of h cfg" and "w_iinv w" and "webhook_loop h c als f t w = (t', w')"
    and "length (ta_failed t') = length (ta_failed t)"
  shows "w_iinv w' \<and> (fp \<notin> alert_fp ` set als \<longrightarrow> open_for w' fp = open_for w fp)
    \<and> (\<forall>pre al post. als = pre @ al # post \<longrightarrow> alert_fp al \<notin> alert_fp ` set post
         \<longrightarrow> open_for w' (alert_fp al) = (al_Status al \<noteq> ''resolved''))"
  using assms(2-)
proof (induction als arbitrary: f t w fp)
  case (Cons al als)
  obtain t1 w1 where one: "(if al_Status al = ''resolved'' then resolve_alert h c al (evens f) t w
      else firing_alert h c al (evens f) t w) = (t1, w1)" by force
  with Cons.prems(2) have rest: "webhook_loop h c als (odds f) t1 w1 = (t', w')" by simp
  have lens: "length (ta_failed t1) = length (ta_failed t)" "length (ta_failed t') = length (ta_failed t1)"
    using alert_sizes [OF one] alert_fails_grow [OF rest] Cons.prems(3) by auto
  note first = alert_open [OF assms(1) Cons.prems(1) one]
  note later = Cons.IH [OF _ rest lens(2)]
  have kept: "fp \<notin> alert_fp ` set als \<longrightarrow> open_for w' fp = open_for w1 fp" for fp using later first by blast
  have "open_for w' (alert_fp b) = (al_Status b \<noteq> ''resolved'')"
    if "al # als = pre @ b # post" "alert_fp b \<notin> alert_fp ` set post" for pre b post
    using that first lens(1) kept later by (cases pre) auto
  with first kept later show ?case by auto
qed simp

section \<open>Who decides\<close>

text \<open>A decided approval was rejected or claimed for execution. Without a decision through \<open>Approve\<close> or
  \<open>Reject\<close> no approval becomes decided.\<close>

definition decided :: "approval \<Rightarrow> bool" where
  "decided b = (claimed b \<or> ap_Status b = ApprovalRejected)"

definition no_decision :: "world \<Rightarrow> world \<Rightarrow> bool" where
  "no_decision w w' = (\<forall>i b. w_astored w' i = Some b \<longrightarrow> decided b \<longrightarrow> w_astored w i = Some b)"

lemma no_decision_same: "w_astored w' = w_astored w \<Longrightarrow> no_decision w w'"
  by (simp add: no_decision_def)

lemma no_decision_trans: "no_decision w1 w2 \<Longrightarrow> no_decision w2 w3 \<Longrightarrow> no_decision w1 w3"
  by (simp add: no_decision_def)

lemma counted_approvals [simp]: "w_astored (count_metric m w) = w_astored w" "w_ainv (count_metric m w) = w_ainv w"
  by (simp_all add: world_views)

lemma expire_undecided:
  assumes "w_ainv w" and "ExpirePending approval_store_only c i f w = (r, w')"
  shows "no_decision w w'"
proof (cases "i = ''''")
  case True
  with assms(2) show ?thesis by (simp add: ExpirePending_def no_decision_same)
next
  case False
  with assms(2) have rep: "ar_ExpirePendingByIncident world_approval_repo c i f w = (r, w')"
    by (simp add: ExpirePending_def approval_store_only_def)
  show ?thesis
  proof (cases r)
    case (Inl e)
    with rep wp.expire_err [OF assms(1)] show ?thesis by (auto intro: no_decision_same)
  next
    case (Inr n)
    show ?thesis
      unfolding no_decision_def
    proof (intro allI impI)
      fix j b
      assume b: "w_astored w' j = Some b" "decided b"
      show "w_astored w j = Some b"
      proof (cases "w_astored w j")
        case None
        with b wp.expire_new [OF assms(1) rep] show ?thesis by simp
      next
        case (Some a)
        from wp.expire_ok [OF assms(1) rep [unfolded Inr] False Some] b Some show ?thesis
          by (auto simp: decided_def claimed_def split: if_splits)
      qed
    qed
  qed
qed

lemma external_undecided:
  assumes inv: "w_iinv w" "w_ainv w" and step: "ResolveExternally world_incidents c fp f w = (r, w')"
  shows "no_decision w w'"
  using inv(1) step
proof (cases rule: wc.resolve_cases)
  case unchanged
  then show ?thesis by (simp add: no_decision_same)
next
  case (stopped e cur x)
  from expire_undecided [OF inv(2) stopped(3)] show ?thesis .
next
  case (stopped_late e cur n w1)
  from stopped_late(6) have "w_astored w' = w_astored w1" by (simp add: beside_incidents_def w_astored_def)
  with expire_undecided [OF inv(2) stopped_late(3)] show ?thesis by (simp add: no_decision_def)
next
  case (closed cur inc n w1 ev)
  from closed(11) have "w_astored w' = w_astored w1" by (simp add: beside_incidents_def w_astored_def)
  with expire_undecided [OF inv(2) closed(4)] show ?thesis by (simp add: no_decision_def)
qed

lemma beside_approvals_same: "((), beside_incidents w') = ((), beside_incidents w) \<Longrightarrow> w_astored w' = w_astored w"
  by (simp add: beside_incidents_def w_astored_def)

lemma transition_undecided:
  "w_iinv w \<Longrightarrow> transitionWithAudit world_incidents c i to why err ty pl f w = (r, w') \<Longrightarrow> no_decision w w'"
  using wi.transition_keeps [of w c i to why err ty pl f r w'] beside_approvals_same by (auto intro: no_decision_same)

lemma svc_undecided:
  "w_iinv w \<Longrightarrow> svc_Analyze world_incidents c i f w = (r, w') \<Longrightarrow> no_decision w w'"
  "w_iinv w \<Longrightarrow> svc_Resolve world_incidents c i f w = (r, w') \<Longrightarrow> no_decision w w'"
  by (auto simp: svc_ops intro: transition_undecided)

lemma create_undecided:
  assumes "w_iinv w" and "svc_Create world_incidents c inp f w = (r, w')"
  shows "no_decision w w'"
proof -
  have "((), beside_incidents w') = ((), beside_incidents w)" using assms by (cases rule: wi.create_cases) auto
  from no_decision_same [OF beside_approvals_same [OF this]] show ?thesis .
qed

lemma counted_undecided: "no_decision w w1 \<Longrightarrow> no_decision w (count_metric m w1)"
  by (simp add: no_decision_def)

lemma alert_undecided:
  assumes h: "server_of h cfg" and inv: "w_iinv w" "w_ainv w"
    and step: "(if al_Status al = ''resolved'' then resolve_alert h c al f t w else firing_alert h c al f t w) = (t', w')"
  shows "no_decision w w'"
proof (cases "al_Status al = ''resolved''")
  case True
  obtain r w1 where ext: "ResolveExternally world_incidents c (alert_fp al) f w = (r, w1)" by force
  have "\<exists>m. w' = count_metric m w1"
    using step True ext server_simps [OF h] by (auto simp: resolve_alert_def alert_fp_def Let_def split: sum.splits)
  with external_undecided [OF inv ext] show ?thesis by (auto intro: counted_undecided)
next
  case False
  obtain r w1 where cr: "svc_Create world_incidents c (alert_input al) (evens f) w = (r, w1)" by force
  have "\<exists>m. w' = count_metric m w1 \<or> (\<exists>m'. w' = count_metric m' (count_metric m w1))"
    using step False cr server_simps [OF h]
    by (auto simp: firing_alert_def Let_def split: sum.splits prod.splits if_splits dest!: publish_alert_run [OF h])
  with create_undecided [OF inv(1) cr] show ?thesis by (auto intro: counted_undecided)
qed

lemma webhook_undecided:
  "server_of h cfg \<Longrightarrow> system_ok w \<Longrightarrow> reachable cfg w \<Longrightarrow> webhook_loop h c als f t w = (t', w') \<Longrightarrow> no_decision w w'"
proof (induction als arbitrary: f t w)
  case (Cons al als)
  obtain t1 w1 where one: "(if al_Status al = ''resolved'' then resolve_alert h c al (evens f) t w
      else firing_alert h c al (evens f) t w) = (t1, w1)" by force
  with Cons.prems(4) have rest: "webhook_loop h c als (odds f) t1 w1 = (t', w')" by simp
  have r1: "reachable cfg w1" using system_run_reachable [OF alert_run [OF Cons.prems(1) one] Cons.prems(3)] .
  have "w_iinv w" "w_ainv w" using Cons.prems(2) by (simp_all add: system_ok_def)
  from alert_undecided [OF Cons.prems(1) this one] Cons.IH [OF Cons.prems(1) reachable_ok [OF r1] r1 rest]
  show ?case by (rule no_decision_trans)
qed (simp add: no_decision_same)

text \<open>A request that decided an approval was \<open>Approve\<close> or \<open>Reject\<close> for it.\<close>

lemma handle_decides:
  assumes h: "server_of h cfg" and w: "reachable cfg w" and step: "handle h ep i actor req f w = (resp, w')"
    and b: "w_astored w' j = Some b" "decided b" "w_astored w j \<noteq> Some b"
  shows "(ep = PostApprove \<or> ep = PostReject) \<and> i = j \<and> ap_ApprovedBy b = approvalActor actor
    \<and> (\<exists>a. w_astored w j = Some a \<and> ap_Status a = ApprovalPending \<and> same_binding a b)"
proof -
  have inv: "w_iinv w" "w_ainv w" using reachable_ok [OF w] by (simp_all add: system_ok_def)
  obtain env where ap: "hd_approvals h = world_approvals cfg env" by (rule server_approvals [OF h])
  obtain publish where p: "hd_publisher h = Some publish" by (rule server_publisher [OF h])
  have yes: "\<not> no_decision w w'" using b by (auto simp: no_decision_def)
  then have "\<not> reading ep" using handle_reading [of ep h i actor req f w] step no_decision_same by auto
  then consider "ep = PostAlerts" | "ep = PostIncident \<or> ep = PostAnalyze \<or> ep = PostResolve"
    | "ep = PostApprove" | "ep = PostReject" by (auto simp: reading_def)
  then show ?thesis
  proof cases
    case 1
    with step yes webhook_undecided [OF h reachable_ok [OF w] w] show ?thesis
      by (auto simp: handle_def api_Webhook_def no_decision_same split: sum.splits prod.splits)
  next
    case 2
    with step yes server_simps [OF h] p show ?thesis
      by (auto simp: handle_def api_Create_def api_Analyze_def api_Resolve_def no_decision_same
          split: sum.splits prod.splits dest!: server_publish [OF h p] dest: create_undecided [OF inv(1)] svc_undecided [OF inv(1)])
  next
    case 3
    then obtain r where ap: "Approve (world_approvals cfg env) (rq_ctx req) i (approvalActor actor) f w = (r, w')"
      using step ap by (auto simp: handle_def approvals_Approve_def split: prod.splits)
    from inv ap show ?thesis
    proof (cases rule: wa.approve_cases)
      case (given_up a e)
      with b show ?thesis by (cases "j = i") (auto simp: advanced_def decided_def claimed_def)
    next
      case (executed a b')
      with b 3 show ?thesis by (cases "j = i") (auto simp: advanced_def)
    qed (use yes no_decision_same in auto)
  next
    case 4
    then obtain r where ap: "Reject (world_approvals cfg env) (rq_ctx req) i (approvalActor actor) f w = (r, w')"
      using step ap by (auto simp: handle_def approvals_Reject_def split: prod.splits)
    from inv ap show ?thesis
    proof (cases rule: wa.reject_cases)
      case (rejected a b')
      with b 4 show ?thesis by (cases "j = i") (auto simp: advanced_def)
    qed (use yes no_decision_same in auto)
  qed
qed

section \<open>The server and the worker in the scenario\<close>

text \<open>A tool library, readers and an agent that asks for the past incidents and then concludes.\<close>

definition demo_lib :: tool_library where
  "demo_lib = \<lparr>tl_history_in = (\<lambda>_. Inr \<lparr>hi_Service = ''svc'', hi_AlertName = '''', hi_Status = ''''\<rparr>),
     tl_history_out = (\<lambda>rs. Inr (concat (map hs_ID rs))),
     tl_restart_in = parse_restart, tl_restart_out = (\<lambda>r. Inr (restart_output r))\<rparr>"

definition demo_readers :: readers where
  "demo_readers = (let rd = (\<lambda>_ _ _ _. ('''', None)) in
     \<lparr>tr_runbook = rd, tr_query = rd, tr_alerts = rd, tr_range = rd, tr_inspect = rd\<rparr>)"

definition demo_agent :: react_agent where
  "demo_agent = (\<lambda>_ _ _ _ _. Inr (CallTool 0 ''{}'' (\<lambda>_. Finish (Inr ''consumer stopped''))))"

definition demo_runtime :: "world agent_runtime option" where
  "demo_runtime = Some (worker_runtime demo_cfg demo_env demo_lib demo_readers)"

lemma demo_runtime_of: "agent_of demo_runtime demo_cfg"
  by (auto simp: agent_of_def demo_runtime_def)

lemma demo_reachable_1: "reachable demo_cfg demo_w1"
  unfolding demo_w1_def by (rule reachable.step [OF reachable.start system_step.create]) (rule surjective_pairing)

lemma demo_at_1: "demo_w1 = \<lparr>w_incidents = \<lparr>mi_items = [(''inc_a0'', demo_incident StatusOpen 0 0)],
       mi_events = [(''inc_a0'', [hd demo_events])]\<rparr>,
     w_approvals = \<lparr>ma_items = []\<rparr>, w_runs = NewMemoryRun, w_broker = NewStreamBroker,
     w_metrics = [IncidentsTotal ''svc'' ''MEDIUM''], w_calls = []\<rparr>"
  by (simp add: demo_w1_def world_wiring repo_code svc_code demo_defs Let_def demo_incident_def demo_events_def)

lemma demo_reachable_4: "reachable demo_cfg demo_w4"
proof -
  have "reachable demo_cfg demo_w1"
    unfolding demo_w1_def by (rule reachable.step [OF reachable.start system_step.create]) (rule surjective_pairing)
  then have "reachable demo_cfg demo_w2"
    unfolding demo_w2_def by (rule reachable.step [OF _ system_step.runs [OF create_run]]) (rule surjective_pairing)
  then have "reachable demo_cfg demo_w3"
    unfolding demo_w3_def by (rule reachable.step [OF _ system_step.analyze]) (rule surjective_pairing)
  then show ?thesis
    unfolding demo_w4_def by (rule reachable.step [OF _ system_step.request]) (rule surjective_pairing)
qed

lemma demo_approves: "system_step demo_cfg demo_w4 demo_w5"
  unfolding demo_w5_def by (rule system_step.approve) (rule surjective_pairing)

lemma demo_reachable: "reachable demo_cfg demo_w5"
  by (rule reachable.step [OF demo_reachable_4 demo_approves])

text \<open>The server with all three tokens, a request for it and an alert.\<close>

definition demo_auth :: auth_config where
  "demo_auth = \<lparr>au_WebhookToken = ''hook'', au_ReadToken = ''read'', au_AdminToken = ''root'', au_AdminActor = ''alice''\<rparr>"

definition demo_server :: "world api" where
  "demo_server = buildServer demo_cfg demo_env demo_lib demo_readers demo_agent (Inr ''diagnose'') (Some True)
     (\<lambda>_ _. Answered True None) (\<lambda>_. []) []"

definition demo_alert :: "string \<Rightarrow> alert" where
  "demo_alert st = \<lparr>al_Status = st, al_Labels = [''service'' \<mapsto> ''svc'', ''alertname'' \<mapsto> ''QueueBacklog''],
     al_Annotations = [''summary'' \<mapsto> ''backlog''], al_StartsAt = 0, al_EndsAt = 0, al_Fingerprint = ''''\<rparr>"

definition demo_request :: "string list \<Rightarrow> api_request" where
  "demo_request path = \<lparr>rq_ctx = background, rq_method = ''POST'', rq_path = v1 path, rq_authorization = ''Bearer root'',
     rq_webhook_token = ''hook'', rq_query = \<lambda>_. '''', rq_alerts = Inr [demo_alert ''firing''],
     rq_incident = Inr demo_input\<rparr>"

lemma demo_server_of: "server_of demo_server demo_cfg"
  unfolding server_of_def demo_server_def by blast

lemma demo_routes:
  "find_route router_New ''POST'' (v1 [''alerts'']) = Some (Hook, PostAlerts, '''')"
  "find_route router_New ''POST'' (v1 [''approvals'', ''ap_c0'', ''approve'']) = Some (Administration, PostApprove, ''ap_c0'')"
  by (simp_all add: router_New_def v1_def)

lemma demo_bearer: "EqualFold ''Bearer '' ''bearer ''"
  by code_simp

lemma demo_authorized:
  "authorize demo_auth Hook (demo_request path) = Allowed ''webhook'' ''''"
  "authorize demo_auth Administration (demo_request path) = Allowed ''admin'' ''alice''"
  by (simp_all add: authorize_def auth_Enabled_def demo_auth_def demo_request_def WebhookAuth_def AdminAuth_def tokenMatches_def
      setActor_def RoleWebhook_def RoleAdmin_def bearerToken_def demo_bearer TrimSpace_graphic graphic_def)

text \<open>A route that changes something is a POST, and only the webhook's path leads to the webhook.\<close>

lemma match_path_fixed: "match_path pat path i \<noteq> None \<Longrightarrow> '':id'' \<notin> set pat \<Longrightarrow> path = pat"
  by (induction pat path i rule: match_path.induct) (auto split: if_splits)

lemma find_route_match:
  "find_route rs m path = Some (acc, ep, i) \<Longrightarrow> \<exists>pat. (acc, m, pat, ep) \<in> set rs \<and> match_path pat path '''' = Some i"
  by (induction rs m path rule: find_route.induct) (auto split: option.splits if_splits)

lemma find_route_post:
  assumes "find_route router_New m path = Some (acc, ep, i)" and "\<not> reading ep"
  shows "m = ''POST'' \<and> (ep = PostAlerts \<longleftrightarrow> path = v1 [''alerts''])"
proof -
  have "find_route router_New ''POST'' (v1 [''alerts'']) = Some (Hook, PostAlerts, '''')" by (rule demo_routes)
  moreover obtain pat where pat: "(acc, m, pat, ep) \<in> set router_New" "match_path pat path '''' = Some i"
    using find_route_match [OF assms(1)] by blast
  moreover have m: "m = ''POST''" using pat(1) assms(2) by (auto simp: router_New_def reading_def)
  moreover have "path = v1 [''alerts'']" if "ep = PostAlerts"
    using pat match_path_fixed [of pat path "''''"] that by (auto simp: router_New_def v1_def)
  ultimately show ?thesis using assms(1) by auto
qed

section \<open>Properties of the server\<close>

text \<open>C7. The server refines the system: every request, whatever it is and whoever sends it, changes the
  application only by steps of the system and keeps it reachable. It never runs a diagnosis and
  leaves every recorded run alone, with and without a message queue.\<close>

theorem server_refines_system:
  assumes "server_of h cfg" and "reachable cfg w" and "serve h auth req f w = (resp, w')"
  shows "system_run cfg w w' \<and> reachable cfg w' \<and> w_runs w' = w_runs w"
  using serve_run [OF assms(1,3)] system_run_reachable [OF _ assms(2)] serve_runs [OF assms(1,3)] by blast

lemma server_refines_system_witness:
  "reachable demo_cfg (snd (serve demo_server demo_auth (demo_request [''alerts'']) (demo_fresh ''a'') empty_world))"
  using server_refines_system [OF demo_server_of reachable.start surjective_pairing] by blast


lemma demo_webhook:
  "rp_status (fst (serve demo_server demo_auth (demo_request [''alerts'']) (demo_fresh ''a'') empty_world)) = 200"
  "w_metrics (snd (serve demo_server demo_auth (demo_request [''alerts'']) (demo_fresh ''a'') empty_world)) \<noteq> []"
proof -
  have "serve demo_server demo_auth (demo_request [''alerts'']) (demo_fresh ''a'') empty_world
      = api_Webhook demo_server (demo_request [''alerts'']) (demo_fresh ''a'') empty_world"
    using demo_routes(1) demo_authorized(1) [of "[''alerts'']"]
    by (simp add: serve_def demo_request_def handle_def)
  then show "rp_status (fst (serve demo_server demo_auth (demo_request [''alerts'']) (demo_fresh ''a'') empty_world)) = 200"
    "w_metrics (snd (serve demo_server demo_auth (demo_request [''alerts'']) (demo_fresh ''a'') empty_world)) \<noteq> []"
    by (simp_all add: api_Webhook_def demo_request_def demo_alert_def firing_alert_def alert_input_def alertService_def
        alertTitle_def label_def demo_server_def buildServer_def world_wiring repo_code svc_code demo_defs Let_def
        publish_alert_def app_publisher_def producer_Publish_def add_created_def reply_def)
qed


text \<open>C9. Only an administrator decides: when an approval was executed, claimed for execution or rejected by
  a request and a token is configured, the request was \<open>Approve\<close> or \<open>Reject\<close> for that approval with the
  admin token, the approval was PENDING before, and the recorded approver is the actor of the
  configuration, not something the client sent.\<close>

theorem decided_by_admin:
  assumes "server_of h cfg" and "reachable cfg w" and "auth_Enabled auth" and "serve h auth req f w = (resp, w')"
    and "w_astored w' j = Some b" and "claimed b \<or> ap_Status b = ApprovalRejected" and "w_astored w j \<noteq> Some b"
  shows "bearerToken (rq_authorization req) = au_AdminToken auth \<and> au_AdminToken auth \<noteq> ''''
    \<and> (\<exists>ep. find_route router_New (rq_method req) (rq_path req) = Some (Administration, ep, j)
         \<and> (ep = PostApprove \<or> ep = PostReject))
    \<and> ap_ApprovedBy b = (if au_AdminActor auth = '''' then ''admin'' else au_AdminActor auth)
    \<and> (\<exists>a. w_astored w j = Some a \<and> ap_Status a = ApprovalPending \<and> same_binding a b)"
  using assms(4)
proof (cases rule: serve_cases)
  case (handled acc ep i role actor)
  have "decided b" using assms(6) by (simp add: decided_def)
  note dec = handle_decides [OF assms(1,2) handled(3) assms(5) this assms(7)]
  then have ep: "ep = PostApprove \<or> ep = PostReject" "i = j" "ap_ApprovedBy b = approvalActor actor" by auto
  have acc: "acc = Administration" using route_access [OF handled(1)] ep(1) by (auto simp: reading_def)
  have "tokenMatches (au_AdminToken auth) (bearerToken (rq_authorization req))"
    using handled(2) assms(3) by (auto simp: acc authorize_def AdminAuth_def Let_def split: if_splits)
  with dec ep acc handled(1) approve_actor [OF assms(3) handled(1) ep(1) handled(2)] show ?thesis
    by (auto simp: tokenMatches_iff)
qed (use assms in auto)

lemma demo_approval_request:
  "snd (serve demo_server demo_auth (demo_request [''approvals'', ''ap_c0'', ''approve'']) (demo_fresh ''d'') demo_w4) = demo_w5"
proof -
  let ?req = "demo_request [''approvals'', ''ap_c0'', ''approve'']"
  have "find_route router_New (rq_method ?req) (rq_path ?req) = Some (Administration, PostApprove, ''ap_c0'')"
    using demo_routes(2) by (simp add: demo_request_def)
  then have "snd (serve demo_server demo_auth ?req (demo_fresh ''d'') demo_w4)
      = snd (Approve (world_approvals demo_cfg demo_env) background ''ap_c0'' ''alice'' (demo_fresh ''d'') demo_w4)"
    by (simp add: serve_def demo_authorized handle_def approvals_Approve_def approvalActor_def demo_server_def buildServer_def
        split: prod.split) (simp add: demo_request_def)
  then show ?thesis by (simp add: demo_w5_def)
qed

lemma demo_claimed: "\<exists>b. w_astored demo_w5 ''ap_c0'' = Some b \<and> claimed b"
proof -
  have "calls_ok (w_keys demo_w5) (w_astored demo_w5)"
    using reachable_ok [OF demo_reachable] by (simp add: system_ok_def)
  with demo_at_5 show ?thesis by (simp add: calls_ok_def)
qed

lemma decided_by_admin_witness:
  "\<exists>b. w_astored demo_w5 ''ap_c0'' = Some b \<and> claimed b \<and> ap_ApprovedBy b = ''alice''"
proof -
  obtain b where b: "w_astored demo_w5 ''ap_c0'' = Some b" "claimed b" using demo_claimed by blast
  have step: "serve demo_server demo_auth (demo_request [''approvals'', ''ap_c0'', ''approve'']) (demo_fresh ''d'') demo_w4
      = (fst (serve demo_server demo_auth (demo_request [''approvals'', ''ap_c0'', ''approve'']) (demo_fresh ''d'') demo_w4), demo_w5)"
    using demo_approval_request by (metis prod.collapse)
  have "w_astored demo_w4 ''ap_c0'' \<noteq> Some b"
    using b(2) by (auto simp: demo_at_4 w_astored_def mema_stored_def demo_approval_def new_approval_def claimed_def)
  from decided_by_admin [OF demo_server_of demo_reachable_4 _ step b(1) disjI1 [OF b(2)] this] b
  show ?thesis by (auto simp: auth_Enabled_def demo_auth_def)
qed

text \<open>C8. A webhook answered with 200 leaves the incidents as its alerts ask: for each alert that no later
  alert of the request shares its fingerprint with, an incident with that fingerprint is open
  afterwards when the alert fires, and none is when it is resolved; alerts with other fingerprints
  are not affected.\<close>

theorem webhook_synchronizes:
  assumes "server_of h cfg" and "reachable cfg w" and "serve h auth req f w = (resp, w')" and "rp_status resp = 200"
    and "rq_path req = v1 [''alerts'']" and "rq_method req = ''POST''" and "rq_alerts req = Inr als"
  shows "(\<forall>pre al post. als = pre @ al # post \<longrightarrow> alert_fp al \<notin> alert_fp ` set post
         \<longrightarrow> open_for w' (alert_fp al) = (al_Status al \<noteq> ''resolved''))
    \<and> (\<forall>fp. fp \<notin> alert_fp ` set als \<longrightarrow> open_for w' fp = open_for w fp)"
  using assms(3)
proof (cases rule: serve_cases)
  case (handled acc ep i role actor)
  have ep: "ep = PostAlerts" using handled(1) demo_routes(1) assms(5,6) by simp
  obtain t where run: "webhook_loop h (rq_ctx req) als f \<lparr>ta_created = [], ta_resolved = [], ta_failed = []\<rparr> w = (t, w')"
      "ta_failed t = []"
    using handled(3) assms(4,7) ep by (auto simp: handle_def api_Webhook_def reply_def split: prod.splits if_splits)
  have "w_iinv w" using reachable_ok [OF assms(2)] by (simp add: system_ok_def)
  from webhook_open [OF assms(1) this run(1)] run(2) show ?thesis by simp
qed (use assms(4) in auto)

lemma webhook_synchronizes_witness:
  "open_for (snd (serve demo_server demo_auth (demo_request [''alerts'']) (demo_fresh ''a'') empty_world))
     (alert_fp (demo_alert ''firing''))"
proof -
  from webhook_synchronizes [OF demo_server_of reachable.start surjective_pairing demo_webhook(1), of "[demo_alert ''firing'']"]
  have "\<forall>pre al post. [demo_alert ''firing''] = pre @ al # post \<longrightarrow> alert_fp al \<notin> alert_fp ` set post
      \<longrightarrow> open_for (snd (serve demo_server demo_auth (demo_request [''alerts'']) (demo_fresh ''a'') empty_world)) (alert_fp al)
         = (al_Status al \<noteq> ''resolved'')"
    by (simp add: demo_request_def)
  from this [rule_format, of "[]" "demo_alert ''firing''" "[]"] show ?thesis by (simp add: demo_alert_def)
qed

text \<open>The answer of a webhook accounts for its alerts: it is 503, so that Alertmanager tries again,
  exactly when an alert failed, and never lists more results or more errors than there were alerts.
  A body that does not parse is answered with 400 and changes nothing.\<close>

theorem webhook_accounts:
  assumes "api_Webhook h req f w = (resp, w')"
  shows "case rq_alerts req of
      Inl err \<Rightarrow> rp_status resp = 400 \<and> w' = w
    | Inr als \<Rightarrow> (\<exists>created resolved failed. rp_body resp = BWebhook created resolved failed
        \<and> rp_status resp = (if failed = [] then 200 else 503)
        \<and> length created + length resolved \<le> length als \<and> length failed \<le> length als)"
proof (cases "rq_alerts req")
  case (Inr als)
  obtain t w1 where run: "webhook_loop h (rq_ctx req) als f \<lparr>ta_created = [], ta_resolved = [], ta_failed = []\<rparr> w = (t, w1)"
    by force
  have "rp_body resp = BWebhook (ta_created t) (ta_resolved t) (ta_failed t)
      \<and> rp_status resp = (if ta_failed t = [] then 200 else 503)"
    using run assms Inr by (auto simp: api_Webhook_def reply_def)
  with alert_fails_grow [OF run] Inr show ?thesis by (simp add: tally_size_def)
qed (use assms in \<open>auto simp: api_Webhook_def reply_def\<close>)

lemma webhook_accounts_witness:
  "rp_status (fst (api_Webhook demo_server ((demo_request [''alerts''])\<lparr>rq_alerts := Inl (plain_err ''EOF'')\<rparr>) (demo_fresh ''a'')
     demo_w4)) = 400"
  using webhook_accounts [OF surjective_pairing, of demo_server "(demo_request [''alerts''])\<lparr>rq_alerts := Inl (plain_err ''EOF'')\<rparr>"
    "demo_fresh ''a''" demo_w4] by simp

end
