(* ===== verification/Guarantees.thy ===== *)
theory Guarantees
  imports Server
begin

text \<open>
  What each operation of the application promises to its caller, stated over the composed
  application: approvals, remediation, incidents, verification, configuration, the event stream and
  the repositories. Each property rests on the facts its component provides.
\<close>

section \<open>Approvals\<close>

text \<open>C15. A decision is taken once: \<open>Approve\<close> or \<open>Reject\<close> of an approval that is not PENDING any more
  reports \<open>ErrNotPending\<close> and changes nothing at all; no approval, no incident, no counter, no event,
  no call.\<close>

theorem decided_once:
  assumes "w_astored w i = Some a" and "ap_Status a \<noteq> ApprovalPending"
  shows "\<exists>e. errIs e ErrNotPending \<and> Approve (world_approvals cfg env) c i actor f w = (Inl e, w)
    \<and> Reject (world_approvals cfg env) c i actor f w = (Inl e, w)"
  using assms
  by (simp add: Approve_def Reject_def world_approval_repo_def lift_approval_repo_def through_def memory_approval_repo_def
      mema_TransitionStatus_def put_approvals_def w_astored_def mema_stored_def)

lemma decided_once_witness:
  "snd (Approve (world_approvals demo_cfg demo_env) background ''ap_c0'' ''mallory'' (demo_fresh ''z'') demo_w5) = demo_w5"
proof -
  obtain b where "w_astored demo_w5 ''ap_c0'' = Some b" "claimed b" using demo_claimed by blast
  with decided_once [of demo_w5 "''ap_c0''" b demo_cfg demo_env background "''mallory''" "demo_fresh ''z''"]
  show ?thesis by (auto simp: claimed_def)
qed

text \<open>C16. What \<open>Approve\<close> returns is what happened: an approval returned without an error was PENDING for
  an incident that waited for it, is stored as returned with the outcome of the execution and the
  actor, and the endpoint was called at most once, under its id. When \<open>Approve\<close> reports an error the
  approval was left alone, is EXPIRED or APPROVED without any call, or the outcome of a call could
  not be written and it stays EXECUTING.\<close>

theorem approve_result:
  assumes "reachable cfg w" and "Approve (world_approvals cfg env) c i actor f w = (r, w')"
  shows "case r of
      Inr b \<Rightarrow> w_astored w' i = Some b \<and> ap_Status b \<in> {ApprovalExecuted, ApprovalFailed, ApprovalUnknown}
        \<and> ap_ApprovedBy b = actor \<and> (w_keys w' = w_keys w \<or> w_keys w' = w_keys w @ [i])
        \<and> (\<exists>a inc. w_astored w i = Some a \<and> ap_Status a = ApprovalPending \<and> same_binding a b
             \<and> w_istored w (ap_IncidentID a) = Some inc \<and> inc_Status inc = StatusWaitingApproval)
    | Inl e \<Rightarrow> w_keys w' = w_keys w \<and> (w_astored w' i = w_astored w i
          \<or> (\<exists>b. w_astored w' i = Some b \<and> ap_Status b \<in> {ApprovalApproved, ApprovalExpired}))
        \<or> (\<exists>b. w_astored w' i = Some b \<and> ap_Status b = ApprovalExecuting)"
proof -
  have inv: "w_iinv w" "w_ainv w" and bound: "bindings_ok (w_astored w) (w_istored w)"
    using reachable_ok [OF assms(1)] by (simp_all add: system_ok_def)
  from inv assms(2) show ?thesis
  proof (cases rule: wa.approve_cases)
    case (given_up a e)
    from given_up(1,4) obtain b where "w_astored w' i = Some b" by (cases "w_astored w' i") (auto simp: advanced_def)
    with given_up show ?thesis by auto
  next
    case (executed a b)
    have "same_binding a b" using executed(1,4,7) by (simp add: advanced_def)
    moreover have "ap_IncidentID a \<noteq> ''''" using bound executed(1) unfolding bindings_ok_def by blast
    moreover have "ap_Status b \<noteq> ApprovalExecuting \<longrightarrow> ap_Status b \<in> {ApprovalExecuted, ApprovalFailed, ApprovalUnknown}"
      using executed(8) by (auto simp: claimed_def)
    ultimately show ?thesis using executed by (auto split: sum.splits)
  qed auto
qed

lemma approve_result_witness:
  "\<exists>b. Approve (world_approvals demo_cfg demo_env) background ''ap_c0'' ''alice'' (demo_fresh ''d'') demo_w4 = (Inr b, demo_w5)
    \<and> w_astored demo_w5 ''ap_c0'' = Some b \<and> ap_ApprovedBy b = ''alice''"
proof -
  obtain r where r: "Approve (world_approvals demo_cfg demo_env) background ''ap_c0'' ''alice'' (demo_fresh ''d'') demo_w4 = (r, demo_w5)"
    unfolding demo_w5_def by (metis prod.collapse)
  have "w_keys demo_w5 \<noteq> w_keys demo_w4" using demo_at_5 by (simp add: demo_at_4 w_keys_def)
  moreover have "ap_Status b \<noteq> ApprovalExecuting" if "w_astored demo_w5 ''ap_c0'' = Some b" for b
  proof -
    from demo_at_5 obtain k x where "ma_items (w_approvals demo_w5) = [(k, x)]" "ap_Status x = ApprovalExecuted"
      by (cases "ma_items (w_approvals demo_w5)") auto
    with that show ?thesis by (auto simp: w_astored_def mema_stored_def split: if_splits)
  qed
  ultimately show ?thesis
    using approve_result [OF demo_reachable_4 r] r by (cases r) auto
qed

text \<open>\<open>Reject\<close> without an error leaves the approval REJECTED by the actor and its incident FAILED; it
  never calls the endpoint, error or not.\<close>

theorem reject_result:
  assumes "reachable cfg w" and "Reject (world_approvals cfg env) c i actor f w = (r, w')"
  shows "w_keys w' = w_keys w \<and> (case r of
      Inr b \<Rightarrow> w_astored w' i = Some b \<and> ap_Status b = ApprovalRejected \<and> ap_ApprovedBy b = actor
        \<and> (\<exists>inc. w_istored w' (ap_IncidentID b) = Some inc \<and> inc_Status inc = StatusFailed)
    | Inl e \<Rightarrow> w_astored w' i = w_astored w i
        \<or> (\<exists>b. w_astored w' i = Some b \<and> ap_Status b = ApprovalRejected \<and> ap_ApprovedBy b = actor))"
proof -
  have inv: "w_iinv w" "w_ainv w" and bound: "bindings_ok (w_astored w) (w_istored w)"
    using reachable_ok [OF assms(1)] by (simp_all add: system_ok_def)
  from inv assms(2) show ?thesis
  proof (cases rule: wa.reject_cases)
    case (rejected a b)
    have "ap_IncidentID b = ap_IncidentID a" using rejected(1,3,4) by (simp add: advanced_def same_binding_def)
    moreover have "ap_IncidentID a \<noteq> ''''" using bound rejected(1) unfolding bindings_ok_def by blast
    ultimately show ?thesis using rejected by (auto split: sum.splits)
  qed auto
qed

lemma reject_result_witness:
  "w_keys (snd (Reject (world_approvals demo_cfg demo_env) background ''ap_c0'' ''bob'' (demo_fresh ''d'') demo_w4)) = w_keys demo_w4"
  using reject_result [OF demo_reachable_4 surjective_pairing] by blast

text \<open>C24. \<open>Request\<close> without an error stores one new PENDING approval with exactly the action and arguments
  asked for, bound to the incident of the run, which waits for it from then on; with an error no
  approval became claimed by it. The endpoint is never called.\<close>

theorem request_result:
  assumes "reachable cfg w" and "Request (world_approvals cfg env) c runID callID act args why f w = (r, w')"
  shows "w_keys w' = w_keys w \<and> (case r of
      Inr a \<Rightarrow> w_astored w' = (w_astored w)(ap_ID a \<mapsto> a) \<and> w_astored w (ap_ID a) = None
        \<and> ap_Status a = ApprovalPending \<and> ap_Action a = act \<and> ap_Arguments a = args \<and> ap_RunID a = runID
        \<and> (\<exists>inc. w_istored w' (ap_IncidentID a) = Some inc \<and> inc_Status inc = StatusWaitingApproval)
    | Inl e \<Rightarrow> \<forall>i b. w_astored w' i = Some b \<longrightarrow> claimed b \<longrightarrow> w_astored w i = Some b)"
proof -
  have inv: "w_iinv w" "w_ainv w" using reachable_ok [OF assms(1)] by (simp_all add: system_ok_def)
  from inv assms(2) show ?thesis
  proof (cases rule: wa.request_cases)
    case (requested inc a)
    have "inc \<noteq> ''''" using fresh_binding [OF reachable_ok [OF assms(1)] requested(1)] by blast
    with requested show ?thesis by (simp add: new_approval_def)
  next
    case (withdrawn inc a e)
    have "w_astored w j = Some b" if "w_astored w' j = Some b" "claimed b" for j b
      using withdrawn that by (cases "j = ap_ID a") (auto simp: advanced_def)
    with withdrawn show ?thesis by simp
  qed auto
qed

lemma demo_request_ok:
  "isl (fst (Request (world_approvals demo_cfg demo_env) background ''run_1'' '''' ''restart_worker'' ''{}'' ''backlog''
     (demo_fresh ''c'') demo_w3)) = False"
  by (simp add: demo_at_3 world_wiring repo_code svc_code demo_defs Let_def approval_code demo_incident_def demo_events_def
      demo_runs_def NewIncidentEvent_def)

lemma request_result_witness:
  "\<exists>a. fst (Request (world_approvals demo_cfg demo_env) background ''run_1'' '''' ''restart_worker'' ''{}'' ''backlog''
     (demo_fresh ''c'') demo_w3) = Inr a \<and> ap_Arguments a = ''{}'' \<and> ap_Status a = ApprovalPending"
proof -
  have "reachable demo_cfg demo_w3"
    unfolding demo_w3_def demo_w2_def
    by (rule reachable.step [OF reachable.step [OF demo_reachable_1 system_step.runs [OF create_run]] system_step.analyze])
      (rule surjective_pairing)+
  from request_result [OF this surjective_pairing, of demo_env background "''run_1''" "''''" "''restart_worker''" "''{}''" "''backlog''"
      "demo_fresh ''c''"] demo_request_ok
  show ?thesis by (auto split: sum.splits)
qed

section \<open>Incidents\<close>

text \<open>C23. A resolved alert closes its incident: when \<open>ResolveExternally\<close> succeeds the incident it returns is
  terminal, no open incident has the fingerprint, and an incident it closed has no PENDING approval
  left; whatever the result, an incident in MITIGATING or VERIFYING is not touched.\<close>

theorem external_resolution:
  assumes "reachable cfg w" and "fp \<noteq> ''''" and "ResolveExternally world_incidents c fp f w = (r, w')"
  shows "(\<forall>inc. r = Inr inc \<longrightarrow> IsTerminal (inc_Status inc) \<and> inc_Fingerprint inc = fp \<and> \<not> open_for w' fp
        \<and> (w_istored w (inc_ID inc) \<noteq> w_istored w' (inc_ID inc) \<longrightarrow> inc_Status inc = StatusResolved
            \<and> (\<forall>j a. w_astored w' j = Some a \<longrightarrow> ap_IncidentID a = inc_ID inc \<longrightarrow> ap_Status a \<noteq> ApprovalPending)))
    \<and> (\<forall>i inc. w_istored w i = Some inc \<longrightarrow> inc_Status inc \<in> {StatusMitigating, StatusVerifying}
        \<longrightarrow> w_istored w' i = Some inc)"
proof -
  have inv: "w_iinv w" "w_ainv w" using reachable_ok [OF assms(1)] by (simp_all add: system_ok_def)
  note still = resolve_open [OF inv(1) assms(2,3)]
  from inv(1) assms(3) show ?thesis
  proof (cases rule: wc.resolve_cases)
    case unchanged
    with still show ?thesis by auto
  next
    case (closed cur inc n w1 ev)
    have inc: "inc_ID inc = inc_ID cur" "inc_Status inc = StatusResolved" "inc_Fingerprint inc = fp"
      using closed(2,5) by (simp_all add: bump_version_def externally_resolved_def)
    have same: "w_astored w' = w_astored w1" using closed(11) by (simp add: beside_incidents_def w_astored_def)
    have "ExpirePending (world_approvals cfg env) c (inc_ID cur) (evens f) w = (Inr n, w1)" for env
      using closed(4) by (simp add: world_expirer [symmetric])
    from wa.expire_pending_table [OF inv(2) this] same
    have "ap_Status a \<noteq> ApprovalPending" if "w_astored w' j = Some a" "ap_IncidentID a = inc_ID cur" for j a
      using that by auto
    moreover have "i \<noteq> inc_ID cur"
      if "w_istored w i = Some x" "inc_Status x \<in> {StatusMitigating, StatusVerifying}" for i x
      using that closed(1,3) by auto
    ultimately show ?thesis using closed(6,7) still inc by auto
  next
    case (stopped e cur x)
    then show ?thesis by simp
  next
    case (stopped_late e cur n w1)
    then show ?thesis by simp
  qed
qed

lemma demo_closes: "\<exists>inc. fst (ResolveExternally world_incidents background (alert_fp (demo_alert ''resolved'')) (demo_fresh ''r'') demo_w1)
    = Inr inc"
  by (simp add: alert_fp_def demo_alert_def alertService_def alertTitle_def label_def ResolveExternally_def demo_at_1 world_wiring
      repo_code svc_code demo_defs Let_def demo_incident_def demo_events_def ExpirePending_def approval_store_only_def
      mema_ExpirePendingByIncident_def NewIncidentEvent_def mem_UpdateWithEvents_def evens_def odds_def later_def)

lemma external_resolution_witness:
  "\<not> open_for (snd (ResolveExternally world_incidents background (alert_fp (demo_alert ''resolved'')) (demo_fresh ''r'') demo_w1))
     (alert_fp (demo_alert ''resolved''))"
proof -
  have "alert_fp (demo_alert ''resolved'') \<noteq> ''''" by (simp add: alert_fp_def)
  from external_resolution [OF demo_reachable_1 this surjective_pairing] demo_closes show ?thesis by blast
qed

text \<open>C22. Creation deduplicates: \<open>Create\<close> without an error returns an open incident with the fingerprint of
  the input, the stored one when there was one and otherwise a new one with the next id in OPEN with
  version 0; with an error nothing changed, and a request without service or title is such an error.\<close>

theorem create_deduplicates:
  assumes "reachable cfg w" and "svc_Create world_incidents c inp f w = (r, w')"
  shows "case r of
      Inr (inc, created) \<Rightarrow> w_istored w' (inc_ID inc) = Some inc \<and> \<not> IsTerminal (inc_Status inc)
        \<and> inc_Fingerprint inc = Fingerprint (ci_Service inp) (ci_AlertName inp) (ci_Title inp)
        \<and> ci_Service inp \<noteq> '''' \<and> ci_Title inp \<noteq> ''''
        \<and> (created \<longrightarrow> \<not> open_for w (inc_Fingerprint inc) \<and> inc_Status inc = StatusOpen \<and> inc_Version inc = 0
             \<and> w_istored w' = (w_istored w)(inc_ID inc \<mapsto> inc) \<and> w_istored w (inc_ID inc) = None)
        \<and> (\<not> created \<longrightarrow> w_istored w' = w_istored w)
    | Inl e \<Rightarrow> w_istored w' = w_istored w \<and> w_journal w' = w_journal w
        \<and> (ci_Service inp = '''' \<or> ci_Title inp = '''' \<longrightarrow> errIs e ErrInvalidInput)"
proof -
  have inv: "w_iinv w" using reachable_ok [OF assms(1)] by (simp add: system_ok_def)
  have next_ok: "system_ok w'" by (rule reachable_ok [OF reachable.step [OF assms(1) system_step.create [OF assms(2)]]])
  have valid: "ci_Service inp \<noteq> '''' \<and> ci_Title inp \<noteq> ''''" if "r = Inr x" for x
    using assms(2) that by (auto simp: svc_Create_def split: if_splits)
  have invalid: "errIs e ErrInvalidInput" if "r = Inl e" "ci_Service inp = '''' \<or> ci_Title inp = ''''" for e
    using assms(2) that by (auto simp: svc_Create_def split: if_splits)
  from inv assms(2) show ?thesis
  proof (cases rule: wi.create_cases)
    case (refused e)
    with invalid show ?thesis by simp
  next
    case (existing inc)
    with valid show ?thesis by auto
  next
    case (created inc ev)
    have fp: "inc_Fingerprint inc = Fingerprint (ci_Service inp) (ci_AlertName inp) (ci_Title inp)" "\<not> IsTerminal (inc_Status inc)"
        "inc_Status inc = StatusOpen" "inc_Version inc = 0"
      using created(2) by (simp_all add: new_incident_def)
    have "\<not> open_for w (inc_Fingerprint inc)"
    proof
      assume "open_for w (inc_Fingerprint inc)"
      then obtain j x where x: "w_istored w j = Some x" "inc_Fingerprint x = inc_Fingerprint inc" "\<not> IsTerminal (inc_Status x)"
        by (auto simp: open_for_def)
      then have j: "j \<noteq> inc_ID inc" using created(3) by auto
      have "w_iinv w'" using next_ok by (simp add: system_ok_def)
      from wi.unique_active [OF this, of j x "inc_ID inc" inc] x j created(4) fp show False by simp
    qed
    with created fp valid show ?thesis by auto
  qed
qed

lemma create_deduplicates_witness:
  "\<exists>inc. fst (svc_Create world_incidents background demo_input (demo_fresh ''a'') empty_world) = Inr (inc, True)
    \<and> w_istored demo_w1 (inc_ID inc) = Some inc"
proof -
  have "\<exists>inc. fst (svc_Create world_incidents background demo_input (demo_fresh ''a'') empty_world) = Inr (inc, True)"
    by (simp add: world_wiring repo_code svc_code demo_defs Let_def)
  with create_deduplicates [OF reachable.start surjective_pairing, of background demo_input "demo_fresh ''a''"]
  show ?thesis by (auto simp: demo_w1_def)
qed

section \<open>Remediation and verification\<close>

text \<open>C18. What the execution of an approved action leaves behind. It needs a run whose incident is MITIGATING.
  When it succeeds the verification sequence decided: RESOLVED when it passed, FAILED when it did not.
  When it fails the incident is unchanged, FAILED with an error other than an unknown result, or still
  VERIFYING.\<close>

theorem remediation_outcome:
  assumes "w_iinv w" and "remediation_Execute (world_remediation cfg env) c act args runID f w = (r, w')"
  shows "case r of
      Inr x \<Rightarrow> \<exists>run cur inc sq err. rr_GetRun world_run_repo c runID w = Inr run
        \<and> w_istored w (run_IncidentID run) = Some cur \<and> inc_Status cur = StatusMitigating
        \<and> VerifySequence (rm_verifier (world_remediation cfg env)) (rm_gatherer (world_remediation cfg env))
            (rm_verifyCfg (world_remediation cfg env)) = (sq, err)
        \<and> xr_Verified x = sq_Passed sq \<and> w_istored w' = (w_istored w)(run_IncidentID run \<mapsto> inc)
        \<and> inc_Status inc = (if sq_Passed sq then StatusResolved else StatusFailed)
    | Inl e \<Rightarrow> w_istored w' = w_istored w
        \<or> (\<exists>run cur inc. rr_GetRun world_run_repo c runID w = Inr run \<and> w_istored w (run_IncidentID run) = Some cur
             \<and> inc_Status cur = StatusMitigating \<and> w_istored w' = (w_istored w)(run_IncidentID run \<mapsto> inc)
             \<and> (inc_Status inc = StatusFailed \<and> \<not> errIs e ErrResultUnknown \<or> inc_Status inc = StatusVerifying))"
  using assms
proof (cases rule: wm.remediation_cases)
  case (failed run cur inc e)
  then show ?thesis by auto
next
  case (unclosed run cur inc e)
  then show ?thesis by auto
next
  case (finished run cur inc x sq err)
  then show ?thesis by fastforce
qed auto

definition demo_mitigating :: world where
  "demo_mitigating = snd (svc_MoveTo world_incidents background ''inc_a0'' StatusMitigating (demo_fresh ''m'') demo_w4)"

lemma demo_mitigating_inv: "w_iinv demo_mitigating"
proof -
  have "w_iinv demo_w4" using reachable_ok [OF demo_reachable_4] by (simp add: system_ok_def)
  moreover have "transitionWithAudit world_incidents background ''inc_a0'' StatusMitigating ''state machine transition'' '''' ''''
      Map.empty (demo_fresh ''m'') demo_w4 = (fst (svc_MoveTo world_incidents background ''inc_a0'' StatusMitigating
        (demo_fresh ''m'') demo_w4), demo_mitigating)"
    by (simp add: demo_mitigating_def svc_ops)
  ultimately show ?thesis by (rule wi.transition_keeps(1))
qed

lemma demo_mitigating_at: "demo_mitigating = demo_w4\<lparr>w_incidents :=
    \<lparr>mi_items = [(''inc_a0'', demo_incident StatusMitigating 0 3)],
     mi_events = [(''inc_a0'', demo_events @ [NewIncidentEvent ''inc_a0'' EventStatusTransition (Some StatusInvestigating)
         StatusWaitingApproval ''state machine transition'' '''' ''c1'' 3,
       NewIncidentEvent ''inc_a0'' EventStatusTransition (Some StatusWaitingApproval)
         StatusMitigating ''state machine transition'' '''' ''m0'' 1])]\<rparr>\<rparr>"
  by (simp add: demo_mitigating_def demo_at_4 world_wiring repo_code svc_code demo_defs Let_def demo_incident_def demo_events_def
      NewIncidentEvent_def)

lemma demo_remediates: "\<exists>x. fst (remediation_Execute (world_remediation demo_cfg demo_env)
    (background\<lparr>cx_approval_id := ''ap_c0''\<rparr>) ''restart_worker'' (restart_args \<lparr>ri_Target = ''worker'', ri_Reason = ''backlog''\<rparr>)
    ''run_1'' (demo_fresh ''n'') demo_mitigating) = Inr x \<and> xr_Verified x"
proof -
  obtain ats where seq: "VerifySequence DefaultConfig (Some demo_probe)
      \<lparr>rc_Attempts = 1, rc_Interval = 0, rc_RequiredSuccesses = 1\<rparr>
    = (\<lparr>sq_Passed = True, sq_Successes = 1, sq_Attempts = ats, sq_Reason = ''''\<rparr>, None)"
    using demo_sequence by blast
  show ?thesis
    by (simp add: demo_mitigating_at demo_at_4 world_wiring repo_code svc_code demo_defs Let_def approval_code demo_trim
        checkTarget_def demo_incident_def demo_events_def demo_runs_def demo_approval_def executor_code demo_parse
        demo_gatherer seq mem_UpdateWithEvents_def)
qed

lemma remediation_outcome_witness:
  "\<exists>inc. w_istored (snd (remediation_Execute (world_remediation demo_cfg demo_env)
      (background\<lparr>cx_approval_id := ''ap_c0''\<rparr>) ''restart_worker'' (restart_args \<lparr>ri_Target = ''worker'', ri_Reason = ''backlog''\<rparr>)
      ''run_1'' (demo_fresh ''n'') demo_mitigating)) ''inc_a0'' = Some inc \<and> inc_Status inc = StatusResolved"
proof -
  have "rr_GetRun world_run_repo background ''run_1'' demo_mitigating = Inr demo_run"
    by (simp add: demo_mitigating_at demo_at_4 world_run_repo_def lift_run_repo_def memory_run_repo_def memr_GetRun_def demo_runs_def)
  moreover have "rr_GetRun world_run_repo (background\<lparr>cx_approval_id := ''ap_c0''\<rparr>) ''run_1'' demo_mitigating = Inr demo_run"
    by (simp add: demo_mitigating_at demo_at_4 world_run_repo_def lift_run_repo_def memory_run_repo_def memr_GetRun_def demo_runs_def)
  ultimately show ?thesis
    using remediation_outcome [OF demo_mitigating_inv surjective_pairing, of demo_cfg demo_env
        "background\<lparr>cx_approval_id := ''ap_c0''\<rparr>" "''restart_worker''"
        "restart_args \<lparr>ri_Target = ''worker'', ri_Reason = ''backlog''\<rparr>" "''run_1''" "demo_fresh ''n''"] demo_remediates
    by (auto simp: demo_run_def)
qed


definition demo_lost :: environment where
  "demo_lost = demo_env\<lparr>en_endpoint := (\<lambda>_ _. TransportError True (plain_err ''timeout''))\<rparr>"

lemma demo_lost_tool: "world_tool demo_cfg demo_lost = \<lparr>dt_approval = None, dt_policy = Some \<lparr>pe_approvalEnabled = True\<rparr>,
    dt_allowedTargets = Some [''worker''],
    dt_http = Some \<lparr>hx_client = call_endpoint demo_lost 30000000000, hx_url = ''http://ops/restart'',
      hx_url_err = None, hx_token = ''s''\<rparr>\<rparr>"
  by (simp add: tool_code demo_cfg_def Let_def execution_modes config_Default_def demo_lost_def demo_env_def)


section \<open>What the deployment endpoint receives\<close>

lemma calls_incident_repo:
  "ir_UpdateWithEvent world_incident_repo c inc ev w = (y, w') \<Longrightarrow> w_calls w' = w_calls w"
  "ir_UpdateWithEvents world_incident_repo c inc evs w = (y, w') \<Longrightarrow> w_calls w' = w_calls w"
  by (auto simp: world_incident_repo_def lift_incident_repo_def put_incidents_def dest!: throughD)

lemma calls_audit: "MoveToWithAudit world_incidents c i to ty pl f w = (r, w') \<Longrightarrow> w_calls w' = w_calls w"
  by (auto simp: svc_ops transitionWithAudit_def Let_def split: sum.splits option.splits if_splits prod.splits
      dest: calls_incident_repo)

lemma calls_close:
  "verify_and_close (world_remediation cfg env) world_incidents runs c action runID inc i op f w = (r, w') \<Longrightarrow> w_calls w' = w_calls w"
  by (auto simp: verify_and_close_def Let_def split: prod.splits sum.splits if_splits dest!: calls_audit)

lemma calls_remediation:
  assumes "remediation_Execute (world_remediation cfg env) c act args runID f w = (r, w')"
  shows "w_calls w' = w_calls w
    \<or> (\<exists>x w1. tool_Execute (world_tool cfg env) c act args w = (x, w1) \<and> w_calls w' = w_calls w1)"
proof (cases "w' = w")
  case False
  have tool: "rm_restart (world_remediation cfg env) = world_tool cfg env" by (simp add: world_remediation_def)
  obtain x w1 where x: "tool_Execute (world_tool cfg env) c act args w = (x, w1)" by force
  have "w' = w1 \<or> (\<exists>i to ty pl y. MoveToWithAudit world_incidents c i to ty pl f w1 = (y, w'))
     \<or> (\<exists>i to ty pl y w2 inc op. MoveToWithAudit world_incidents c i to ty pl f w1 = (y, w2)
          \<and> verify_and_close (world_remediation cfg env) world_incidents world_run_repo c act runID inc i op (later 4 2 f) w2 = (r, w'))"
    using assms False x
    by (fastforce simp: remediation_Execute_def Let_def tool split: sum.splits if_splits prod.splits)
  then have "w_calls w' = w_calls w1" using calls_audit calls_close by metis
  with x show ?thesis by blast
qed simp

lemma world_tool_simps:
  assumes "dt_http (world_tool cfg env) = Some e"
  shows "hx_url e = ex_RestartURL (cf_Execution cfg) \<and> hx_token e = ex_Token (cf_Execution cfg)
    \<and> ex_Mode (cf_Execution cfg) = ExecutionModeHTTP
    \<and> (\<forall>ts. dt_allowedTargets (world_tool cfg env) = Some ts \<longrightarrow> ts = ex_AllowedTargets (cf_Execution cfg))"
  using assms by (auto simp: world_tool_def world_http_def NewHTTPExecutor_def Let_def deployment_New_def WithHTTPExecutor_def
      WithAllowedTargets_def split: if_splits sum.splits)

text \<open>C17. What reaches the deployment endpoint: an execution sends at most one request, in http mode only, to
  the configured URL, for the restart action, with the id of the approval as idempotency key, the
  arguments of the approval as its body, and a target of the white list.\<close>

theorem endpoint_request:
  assumes "world_executor cfg env c act args runID f w = (r, w')"
  shows "w_calls w' = w_calls w
    \<or> (\<exists>req inp. w_calls w' = w_calls w @ [req] \<and> ex_Mode (cf_Execution cfg) = ExecutionModeHTTP
         \<and> hr_url req = ex_RestartURL (cf_Execution cfg) \<and> act = ''restart_worker''
         \<and> hr_body req = deployment_payload act (ApprovalIDFrom c) args
         \<and> (''Idempotency-Key'', ApprovalIDFrom c) \<in> set (hr_headers req) \<and> ApprovalIDFrom c \<noteq> ''''
         \<and> parse_restart args = Inr inp \<and> ri_Target inp \<in> set (ex_AllowedTargets (cf_Execution cfg)))"
proof -
  obtain r1 w1 where rem: "remediation_Execute (world_remediation cfg env) c act args runID f w = (r1, w1)" by force
  have same: "w_calls w' = w_calls w1"
    using assms rem
    by (auto simp: world_executor_def observed_Execute_def observeClosure_def Let_def split: sum.splits if_splits option.splits)
  from calls_remediation [OF rem] show ?thesis
  proof (elim disjE exE conjE)
    fix x w2
    assume tool: "tool_Execute (world_tool cfg env) c act args w = (x, w2)" and w2: "w_calls w1 = w_calls w2"
    from tool_Execute_calls [OF tool] show ?thesis
    proof (elim disjE exE conjE)
      fix e inp out ts
      assume h: "dt_http (world_tool cfg env) = Some e" "act = ''restart_worker''" "parse_restart args = Inr inp"
        "dt_allowedTargets (world_tool cfg env) = Some ts" "ri_Target inp \<in> set ts" "ApprovalIDFrom c \<noteq> []"
        "hx_client e c (deployment_request e act (ApprovalIDFrom c) args) w = (out, w2)"
      have "dt_http (rm_restart (world_remediation cfg env)) = Some e" using h(1) by (simp add: world_remediation_def)
      from world_client [OF this h(7)] have "w_calls w' = w_calls w @ [deployment_request e act (ApprovalIDFrom c) args]"
        using same w2 by simp
      with h world_tool_simps [OF h(1)] show ?thesis
        using idempotency_key [of "ApprovalIDFrom c" e act args] by (auto simp: deployment_request_def)
    qed (use same w2 in simp)
  qed (use same in simp)
qed

lemma endpoint_request_witness:
  "w_calls (snd (world_executor (demo_cfg\<lparr>cf_Execution := (cf_Execution demo_cfg)\<lparr>ex_Mode := ''mock''\<rparr>\<rparr>) demo_env background
     ''restart_worker'' ''{}'' ''run_1'' (demo_fresh ''n'') demo_mitigating)) = w_calls demo_mitigating"
  using endpoint_request [OF surjective_pairing, of "demo_cfg\<lparr>cf_Execution := (cf_Execution demo_cfg)\<lparr>ex_Mode := ''mock''\<rparr>\<rparr>" demo_env
      background "''restart_worker''" "''{}''" "''run_1''" "demo_fresh ''n''" demo_mitigating]
  by (auto simp: execution_modes)

section \<open>Transitions and runs\<close>

text \<open>C21. A transition does exactly what the state machine allows: when it succeeds the stored incident went
  along an edge of the transition table to the status asked for, its version went up by one, it has a
  resolution time when it is RESOLVED now, and exactly one audit event from the old status to the new one
  was appended; when it fails nothing changed, and an unknown incident and a forbidden edge are told
  apart by the error.\<close>

theorem transition_exact:
  assumes "reachable cfg w" and "svc_MoveTo world_incidents c i to f w = (r, w')"
  shows "case r of
      Inr inc \<Rightarrow> \<exists>cur ev. w_istored w i = Some cur \<and> CanTransition (inc_Status cur) to \<and> inc_Status inc = to
        \<and> inc_Version inc = inc_Version cur + 1 \<and> inc_Fingerprint inc = inc_Fingerprint cur
        \<and> (to = StatusResolved \<longrightarrow> inc_ResolvedAt inc \<noteq> None)
        \<and> w_istored w' = (w_istored w)(i \<mapsto> inc) \<and> w_journal w' = (w_journal w)(i := w_journal w i @ [ev])
        \<and> StatusChange ev = (status_string (inc_Status cur), status_string to)
    | Inl e \<Rightarrow> w_istored w' = w_istored w \<and> w_journal w' = w_journal w
        \<and> (w_istored w i = None \<longrightarrow> errIs e ErrNotFound)
        \<and> (\<forall>cur. w_istored w i = Some cur \<longrightarrow> \<not> CanTransition (inc_Status cur) to \<longrightarrow> errIs e ErrInvalidTransition)"
proof -
  have inv: "w_iinv w" using reachable_ok [OF assms(1)] by (simp add: system_ok_def)
  have step: "transitionWithAudit world_incidents c i to ''state machine transition'' '''' '''' Map.empty f w = (r, w')"
    using assms(2) by (simp add: svc_ops)
  have errs: "(w_istored w i = None \<longrightarrow> errIs e ErrNotFound)
      \<and> (\<forall>cur. w_istored w i = Some cur \<longrightarrow> \<not> CanTransition (inc_Status cur) to \<longrightarrow> errIs e ErrInvalidTransition)" if "r = Inl e" for e
    using step that by (auto simp: transitionWithAudit_def world_get Transition_def split: if_splits)
  from inv step show ?thesis
  proof (cases rule: wi.transition_cases)
    case (failed e)
    with errs show ?thesis by simp
  next
    case (moved cur inc)
    have "\<exists>ev. transition_events cur to ''state machine transition'' '''' '''' Map.empty f = [ev]
        \<and> StatusChange ev = (status_string (inc_Status cur), status_string to)"
      by (simp add: transition_events_def NewIncidentEvent_def StatusChange_def payloadString_def opt_status_string_def)
    with moved show ?thesis by (auto simp: bump_version_def moved_incident_def Let_def)
  qed
qed

lemma transition_exact_witness:
  "\<exists>inc. fst (svc_MoveTo world_incidents background ''inc_a0'' StatusMitigating (demo_fresh ''m'') demo_w4) = Inr inc
    \<and> inc_Status inc = StatusMitigating"
proof -
  have "\<exists>inc. fst (svc_MoveTo world_incidents background ''inc_a0'' StatusMitigating (demo_fresh ''m'') demo_w4) = Inr inc"
    by (simp add: demo_at_4 world_wiring repo_code svc_code demo_defs Let_def demo_incident_def demo_events_def NewIncidentEvent_def)
  with transition_exact [OF demo_reachable_4 surjective_pairing, of background "''inc_a0''" StatusMitigating "demo_fresh ''m''"]
  show ?thesis by auto
qed

text \<open>C26. An incident is diagnosed by one agent at a time: in every reachable state at most one run of an
  incident is RUNNING or COMPLETED, and the run table answers with each run under its own id.\<close>

theorem one_agent_at_a_time:
  assumes "reachable cfg w" and "w_rstored w i = Some a" and "w_rstored w j = Some b"
    and "run_IncidentID a = run_IncidentID b" and "IsActive (run_Status a)" and "IsActive (run_Status b)"
  shows "i = j \<and> run_ID a = i"
proof -
  have "one_active_run (w_rstored w)" "run_ID a = i"
    using reachable_rinv [OF assms(1)] assms(2) by (auto simp: world_views memr_inv_def)
  with assms(2-) show ?thesis unfolding one_active_run_def by blast
qed

lemma one_agent_at_a_time_witness:
  "w_rstored demo_w4 ''run_1'' = Some demo_run \<and> run_ID demo_run = ''run_1''"
proof -
  have run: "w_rstored demo_w4 ''run_1'' = Some demo_run" "IsActive (run_Status demo_run)"
    by (simp_all add: demo_at_4 w_rstored_def memr_stored_def demo_runs_def demo_run_def)
  from one_agent_at_a_time [OF demo_reachable_4 run(1) run(1) refl run(2) run(2)] run show ?thesis by simp
qed

end
