(* ===== verification/Runes.thy ===== *)
theory Runes
  imports Json
begin

text \<open>
  Counting the runes of a byte string (\<open>utf8.RuneCountInString\<close>) and cutting it: where a cut does not
  fall inside a rune the parts have the runes of the whole, and everywhere the parts have at least as
  many. The text splitter, the tokenizer and the tools that shorten texts rest on these facts.
\<close>

definition rune_count :: "string \<Rightarrow> nat" where
  "rune_count s = length (runes s)"

section \<open>One rune\<close>

lemma list4_cases:
  obtains "xs = []" | x where "xs = [x]" | x y where "xs = [x, y]" | x y z where "xs = [x, y, z]"
  | x y z u r where "xs = x # y # z # u # r"
  by (metis list.exhaust)

lemma rune_len_prefix: "0 < rune_len a \<Longrightarrow> rune_len (a @ b) = rune_len a"
  by (cases a rule: list4_cases) (auto simp: Let_def split: if_splits)

lemma rune_len_cut: "0 < rune_len (a @ b) \<Longrightarrow> rune_len (a @ b) \<le> length a \<Longrightarrow> rune_len a = rune_len (a @ b)"
  by (cases a rule: list4_cases; cases b rule: list4_cases) (auto simp: Let_def split: if_splits)

lemma rune_len_start: "a \<noteq> [] \<Longrightarrow> b = [] \<or> \<not> cont_byte (hd b) \<Longrightarrow> rune_len (a @ b) = rune_len a"
  by (cases a rule: list4_cases; cases b rule: list4_cases) (auto simp: Let_def split: if_splits)

lemma rune_len_bound: "rune_len s \<le> length s"
  by (cases s rule: list4_cases) (auto simp: Let_def split: if_splits)

lemma rune_len_cont: "cont_byte c \<Longrightarrow> rune_len (c # s) = 0"
  by (auto simp: cont_byte_def Let_def)

lemma rune_len_ascii: "byte c < 0x80 \<Longrightarrow> rune_len (c # s) = 1"
  by simp

lemma rune_len_tail: "0 < i \<Longrightarrow> i < rune_len s \<Longrightarrow> cont_byte (s ! i)"
  by (cases s rule: list4_cases) (auto simp: Let_def nth_Cons' split: if_splits)

declare rune_len.simps(2) [simp del]

section \<open>Counting\<close>

lemma runes_step: "s \<noteq> [] \<Longrightarrow> runes s = take (max 1 (rune_len s)) s # runes (drop (max 1 (rune_len s)) s)"
  by (simp add: runes.simps [of s])

lemma runes_cont: "cont_byte c \<Longrightarrow> runes (c # s) = [c] # runes s"
  by (simp add: runes_step rune_len_cont)

lemma runes_conts: "list_all cont_byte cs \<Longrightarrow> runes (cs @ s) = map (\<lambda>c. [c]) cs @ runes s"
  by (induction cs) (simp_all add: runes_cont)

lemma runes_append_start:
  "b = [] \<or> \<not> cont_byte (hd b) \<Longrightarrow> runes (a @ b) = runes a @ runes b"
proof (induction a rule: runes.induct)
  case (1 a)
  show ?case
  proof (cases "a = []")
    case False
    let ?k = "max 1 (rune_len a)"
    have same: "rune_len (a @ b) = rune_len a" by (rule rune_len_start [OF False 1(2)])
    have k: "?k \<le> length a" using rune_len_bound [of a] False by (cases a) auto
    from 1(1) [OF False 1(2)] have "runes (drop ?k a @ b) = runes (drop ?k a) @ runes b" .
    with False same k show ?thesis by (simp add: runes_step)
  qed simp
qed

lemma rune_count_append: "rune_count (a @ b) \<le> rune_count a + rune_count b"
proof (induction a rule: runes.induct)
  case (1 a)
  show ?case
  proof (cases "a = []")
    case True
    then show ?thesis by (simp add: rune_count_def)
  next
    case False
    let ?k = "max 1 (rune_len (a @ b))"
    show ?thesis
    proof (cases "?k \<le> length a")
      case True
      have "rune_len a = rune_len (a @ b)"
        using rune_len_cut [of a b] rune_len_prefix [of a b] True by (cases "rune_len (a @ b) = 0") auto
      with 1 [OF False] True False show ?thesis by (simp add: rune_count_def runes_step)
    next
      case cut: False
      then have long: "length a < rune_len (a @ b)" using False by (cases a) auto
      have conts: "cont_byte ((a @ b) ! i)" if "0 < i" "i < rune_len (a @ b)" for i
        using rune_len_tail that by blast
      obtain x as where a: "a = x # as" using False by (cases a) auto
      have as: "list_all cont_byte as"
        unfolding list_all_length
      proof (intro allI impI)
        fix i assume "i < length as"
        with conts [of "Suc i"] long show "cont_byte (as ! i)" by (simp add: a nth_append)
      qed
      let ?n = "rune_len (a @ b) - length a"
      have n: "?n \<le> length b" using rune_len_bound [of "a @ b"] by simp
      have bs: "list_all cont_byte (take ?n b)"
        unfolding list_all_length
      proof (intro allI impI)
        fix i assume i: "i < length (take ?n b)"
        then have "length a + i < rune_len (a @ b)" by auto
        with conts [of "length a + i"] False i show "cont_byte (take ?n b ! i)" by (simp add: nth_append)
      qed
      have "rune_len a = 0"
        using rune_len_prefix [of a b] rune_len_bound [of a] long by (cases "rune_len a = 0") auto
      then have "rune_count a = length a"
        using runes_conts [OF as, of "[]"] by (simp add: a rune_count_def runes_step)
      moreover have "rune_count b = ?n + rune_count (drop ?n b)"
        using runes_conts [OF bs, of "drop ?n b"] n by (simp add: rune_count_def)
      moreover have "rune_count (a @ b) = Suc (rune_count (drop ?n b))"
        using False long by (simp add: rune_count_def runes_step)
      ultimately show ?thesis using False by (cases a) auto
    qed
  qed
qed

lemma rune_count_length: "rune_count s \<le> length s"
proof (induction s rule: runes.induct)
  case (1 s)
  show ?case
  proof (cases "s = []")
    case False
    then have "rune_count s = Suc (rune_count (drop (max 1 (rune_len s)) s))" by (simp add: rune_count_def runes_step)
    with 1 [OF False] False show ?thesis by (cases s) auto
  qed (simp add: rune_count_def)
qed

section \<open>Valid text\<close>

lemma valid_rune_single: "valid_rune r \<Longrightarrow> runes r = [r]"
  by (auto simp: valid_rune_def runes_step)

lemma valid_rune_start: "valid_rune r \<Longrightarrow> r \<noteq> [] \<and> \<not> cont_byte (hd r)"
  by (cases r) (auto simp: valid_rune_def rune_len_cont)

lemma runes_valid_head: "valid_rune r \<Longrightarrow> runes (r @ s) = r # runes s"
proof -
  assume "valid_rune r"
  then have "rune_len (r @ s) = length r" "r \<noteq> []" using rune_len_prefix [of r s] by (auto simp: valid_rune_def)
  moreover from this have "max 1 (length r) = length r" by (cases r) auto
  ultimately show ?thesis by (simp add: runes_step)
qed

lemma runes_valid: "list_all valid_rune rs \<Longrightarrow> runes (concat rs) = rs"
proof (induction rs rule: rev_induct)
  case (snoc r rs)
  then show ?case using runes_append_start [of r "concat rs"] valid_rune_start [of r] by (simp add: valid_rune_single)
qed simp

lemma valid_concat: "list_all valid_rune rs \<Longrightarrow> valid_utf8 (concat rs)"
  by (simp add: valid_utf8_def runes_valid)

lemma valid_start: "valid_utf8 s \<Longrightarrow> s = [] \<or> \<not> cont_byte (hd s)"
  by (metis concat_runes concat.simps(1) concat.simps(2) hd_append2 list.exhaust list.pred_inject(2) valid_rune_start valid_utf8_def)

lemma valid_append [simp]: "valid_utf8 a \<Longrightarrow> valid_utf8 b \<Longrightarrow> valid_utf8 (a @ b)"
  using runes_append_start [OF valid_start, of b a] by (simp add: valid_utf8_def)

lemma valid_runes_append: "valid_utf8 b \<Longrightarrow> runes (a @ b) = runes a @ runes b"
  by (rule runes_append_start [OF valid_start])

lemma valid_Nil [simp]: "valid_utf8 []"
  by (simp add: valid_utf8_def)

text \<open>Where a string is cut before a byte that starts a rune, both parts are valid when it is.\<close>

lemma valid_split: "valid_utf8 (a @ b) \<Longrightarrow> b = [] \<or> \<not> cont_byte (hd b) \<Longrightarrow> valid_utf8 a \<and> valid_utf8 b"
  by (simp add: valid_utf8_def runes_append_start)

lemma ascii_start: "byte c < 0x80 \<Longrightarrow> \<not> cont_byte c"
  by (simp add: cont_byte_def)

lemma valid_after_ascii:
  assumes "valid_utf8 (a @ c # b)" and "byte c < 0x80"
  shows "valid_utf8 (a @ [c]) \<and> valid_utf8 b"
proof -
  have "runes (a @ c # b) = runes a @ [c] # runes b"
    using runes_append_start [of "c # b" a] ascii_start [OF assms(2)] assms(2) by (simp add: runes_step [of "c # b"] rune_len_ascii)
  moreover have "runes (a @ [c]) = runes a @ [[c]]"
    using runes_append_start [of "[c]" a] ascii_start [OF assms(2)] assms(2) by (simp add: runes_step [of "[c]"] rune_len_ascii)
  ultimately show ?thesis using assms(1) by (simp add: valid_utf8_def)
qed

section \<open>Trimming\<close>

lemma space_rune_valid: "r \<in> set space_runes \<Longrightarrow> valid_rune r"
  by (auto simp: space_runes_def utf8_bytes_def valid_rune_def cont_byte_def byte_def rune_len.simps Let_def)

definition not_space :: "string \<Rightarrow> string list" where
  "not_space s = filter (\<lambda>r. r \<notin> set space_runes) (runes s)"

lemma not_space_Nil [simp]: "not_space [] = []"
  by (simp add: not_space_def)

lemma strip_left_runes:
  "\<exists>us. list_all (\<lambda>r. r \<in> set space_runes) us \<and> runes s = us @ runes (strip space_runes s)"
proof (induction "space_runes" s rule: strip.induct)
  case (1 s)
  show ?case
  proof (cases "first_prefix space_runes s")
    case None
    then show ?thesis by (intro exI [of _ "[]"]) (simp add: strip.simps [of _ s])
  next
    case (Some r)
    then have r: "r \<in> set space_runes" "s = r @ drop (length r) s"
      using first_prefix_Some [OF Some] by (auto simp: prefix_def)
    then have v: "valid_rune r" by (simp add: space_rune_valid)
    have "runes s = r # runes (drop (length r) s)"
      using runes_valid_head [OF v, of "drop (length r) s"] r(2) by simp
    moreover obtain us where "list_all (\<lambda>r. r \<in> set space_runes) us"
        "runes (drop (length r) s) = us @ runes (strip space_runes (drop (length r) s))"
      using 1 [OF Some] by blast
    ultimately show ?thesis using r(1) Some by (intro exI [of _ "r # us"]) (simp add: strip.simps [of _ s])
  qed
qed

lemma strip_right_runes:
  "\<exists>us. list_all (\<lambda>r. r \<in> set space_runes) us \<and> runes (rev t) = runes (rev (strip (map rev space_runes) t)) @ us"
proof (induction "map rev space_runes" t rule: strip.induct)
  case (1 t)
  show ?case
  proof (cases "first_prefix (map rev space_runes) t")
    case None
    then show ?thesis by (intro exI [of _ "[]"]) (simp add: strip.simps [of _ t])
  next
    case (Some r)
    from first_prefix_Some [OF Some] have "r \<in> rev ` set space_runes" "t = r @ drop (length r) t"
      by (auto simp: prefix_def)
    then obtain q where q: "q \<in> set space_runes" "r = rev q" "t = r @ drop (length r) t" by blast
    then have t: "rev t = rev (drop (length r) t) @ q" by (metis rev_append rev_rev_ident)
    have v: "valid_rune q" using q(1) by (rule space_rune_valid)
    have "runes (rev t) = runes (rev (drop (length r) t)) @ [q]"
      unfolding t using runes_append_start [of q] valid_rune_start [OF v] valid_rune_single [OF v] by simp
    moreover obtain us where "list_all (\<lambda>r. r \<in> set space_runes) us"
        "runes (rev (drop (length r) t)) = runes (rev (strip (map rev space_runes) (drop (length r) t))) @ us"
      using 1 [OF Some] by blast
    ultimately show ?thesis using q(1) Some by (intro exI [of _ "us @ [q]"]) (simp add: strip.simps [of _ t])
  qed
qed

lemma TrimSpace_runes:
  "\<exists>us vs. list_all (\<lambda>r. r \<in> set space_runes) us \<and> list_all (\<lambda>r. r \<in> set space_runes) vs
    \<and> runes s = us @ runes (TrimSpace s) @ vs"
  using strip_left_runes [of s] strip_right_runes [of "rev (strip space_runes s)"] by (auto simp: TrimSpace_def)

lemma TrimSpace_count: "rune_count (TrimSpace s) \<le> rune_count s"
  using TrimSpace_runes [of s] by (auto simp: rune_count_def)

lemma TrimSpace_not_space [simp]: "not_space (TrimSpace s) = not_space s"
  using TrimSpace_runes [of s] by (auto simp: not_space_def list_all_iff filter_empty_conv)

lemma TrimSpace_valid: "valid_utf8 s \<Longrightarrow> valid_utf8 (TrimSpace s)"
  using TrimSpace_runes [of s] by (auto simp: valid_utf8_def)

lemma TrimSpace_empty: "TrimSpace s = [] \<Longrightarrow> not_space s = []"
  by (metis TrimSpace_not_space filter.simps(1) not_space_def runes_Nil)

lemma strip_only_space: "list_all (\<lambda>r. r \<in> set space_runes) (runes s) \<Longrightarrow> strip space_runes s = []"
proof (induction "space_runes" s rule: strip.induct)
  case (1 s)
  show ?case
  proof (cases "s = []")
    case False
    then have "hd (runes s) \<in> set space_runes" "prefix (hd (runes s)) s" "hd (runes s) \<noteq> []"
      using "1.prems" by (auto simp: runes_step take_is_prefix)
    then have "first_prefix space_runes s \<noteq> None" unfolding first_prefix_def find_None_iff by blast
    then obtain r where some: "first_prefix space_runes s = Some r" by blast
    from first_prefix_Some [OF some] have r: "r \<in> set space_runes" "s = r @ drop (length r) s"
      by (auto simp: prefix_def)
    have "runes s = r # runes (drop (length r) s)"
      using runes_valid_head [OF space_rune_valid [OF r(1)], of "drop (length r) s"] r(2) by simp
    with 1 some show ?thesis by (simp add: strip.simps [of _ s])
  qed simp
qed

lemma not_space_empty: "not_space s = [] \<longleftrightarrow> TrimSpace s = []"
proof
  assume "not_space s = []"
  then have "strip space_runes s = []"
    by (intro strip_only_space) (auto simp: not_space_def filter_empty_conv list_all_iff)
  then show "TrimSpace s = []" by (simp add: TrimSpace_def)
qed (rule TrimSpace_empty)

end
