(* ===== verification/Splitter.thy ===== *)
theory Splitter
  imports Runes
begin

text \<open>
  The text splitter (\<open>src/internal/knowledge/splitter/splitter.go\<close>): a document is cut into chunks of at
  most \<open>chunkSize\<close> runes, along Markdown headings first, then paragraphs, lines, sentences and words, and
  between runes when nothing else helps. The recursion of \<open>split\<close> over its ten levels and the loop over
  the parts of a level are the two mutually recursive functions \<open>split_at\<close> and \<open>pack\<close>.
\<close>

section \<open>Cutting a text into parts\<close>

record Splitter =
  spl_chunkSize :: nat

definition splitter_New :: "int \<Rightarrow> Splitter" where
  "splitter_New chunkSize = \<lparr> spl_chunkSize = (if chunkSize \<le> 0 then 1000 else nat chunkSize) \<rparr>"

definition nl :: char where "nl = CHR 0x0A"

text \<open>\<open>strings.ReplaceAll(text, CR LF, LF)\<close> and \<open>strings.SplitAfter\<close>.\<close>

fun replace_crlf :: "string \<Rightarrow> string" where
  "replace_crlf (c # d # s) = (if c = CHR 0x0D \<and> d = nl then d # replace_crlf s else c # replace_crlf (d # s))"
| "replace_crlf s = s"

definition cons_first :: "'a \<Rightarrow> 'a list list \<Rightarrow> 'a list list" where
  "cons_first c ps = (case ps of [] \<Rightarrow> [[c]] | p # ps \<Rightarrow> (c # p) # ps)"

function split_after :: "string \<Rightarrow> string \<Rightarrow> string list" where
  "split_after sep [] = [[]]"
| "split_after sep (c # s) =
     (if sep \<noteq> [] \<and> prefix sep (c # s) then sep # split_after sep (drop (length sep) (c # s))
      else cons_first c (split_after sep s))"
  by pat_completeness auto
termination by (relation "measure (\<lambda>(sep, s). length s)") (auto simp: prefix_def neq_Nil_conv)

text \<open>
  Sections: a line that is an ATX heading of the level starts a new part, unless it is inside a fenced
  code block. The state is the parts so far, the current part and the fence that is open.
\<close>

definition heading :: "nat \<Rightarrow> string \<Rightarrow> bool" where
  "heading level line =
     (let h = replicate level (CHR 0x23) in
      prefix (h @ '' '') line \<or> prefix (h @ [CHR 0x09]) line \<or> TrimSpace line = h)"

definition opens_fence :: "string \<Rightarrow> bool" where
  "opens_fence line = (prefix (replicate 3 (CHR 0x60)) line \<or> prefix ''~~~'' line)"

definition closes_fence :: "string \<Rightarrow> string \<Rightarrow> bool" where
  "closes_fence fence line = (prefix fence line \<and> list_all (\<lambda>c. c = hd fence) (TrimSpace line))"

definition section_line :: "nat \<Rightarrow> string list \<times> string \<times> string \<Rightarrow> string \<Rightarrow> string list \<times> string \<times> string" where
  "section_line level st line =
     (case st of (parts, cur, fence) \<Rightarrow>
      let trimmed = dropWhile (\<lambda>c. c = CHR 0x20) line in
      if 3 < length line - length trimmed then (parts, cur @ line, fence)
      else if fence \<noteq> [] then (parts, cur @ line, if closes_fence fence trimmed then [] else fence)
      else if opens_fence trimmed then (parts, cur @ line, takeWhile (\<lambda>c. c = hd trimmed) trimmed)
      else if heading level trimmed then (if cur \<noteq> [] then parts @ [cur] else parts, line, fence)
      else (parts, cur @ line, fence))"

definition splitSections :: "string \<Rightarrow> nat \<Rightarrow> string list" where
  "splitSections text level =
     (case foldl (section_line level) ([], [], []) (split_after [nl] text) of (parts, cur, fence) \<Rightarrow> parts @ [cur])"

text \<open>Sentences and words: a part ends after a rune that is a boundary before the runes that follow it.\<close>

fun cut_after :: "(string \<Rightarrow> string list \<Rightarrow> bool) \<Rightarrow> string list \<Rightarrow> string \<Rightarrow> string list" where
  "cut_after boundary [] cur = [cur]"
| "cut_after boundary (r # rs) cur =
     (if boundary r rs then (cur @ r) # cut_after boundary rs [] else cut_after boundary rs (cur @ r))"

definition is_space :: "string \<Rightarrow> bool" where
  "is_space r = (r \<in> set space_runes)"

definition sentence_end :: "string \<Rightarrow> string list \<Rightarrow> bool" where
  "sentence_end r rs =
     (r \<in> {utf8_bytes [0xE3, 0x80, 0x82], utf8_bytes [0xEF, 0xBC, 0x81], utf8_bytes [0xEF, 0xBC, 0x9F]}
      \<or> (r \<in> {''.'', ''!'', ''?''} \<and> (rs = [] \<or> is_space (hd rs))))"

definition parts_of :: "nat \<Rightarrow> string \<Rightarrow> string list" where
  "parts_of level text =
     (if level \<le> 6 then splitSections text level
      else if level = 7 then split_after [nl, nl] text
      else if level = 8 then split_after [nl] text
      else if level = 9 then cut_after sentence_end (runes text) []
      else cut_after (\<lambda>r rs. is_space r) (runes text) [])"

text \<open>
  The last resort: slices of \<open>size\<close> runes, an invalid byte being the rune U+FFFD. A splitter of
  \<open>splitter_New\<close> has a positive sz; the step is at least one here, so that slicing ends for any sz.
\<close>

function slices :: "nat \<Rightarrow> 'a list \<Rightarrow> 'a list list" where
  "slices sz rs = (if rs = [] then [] else take (max 1 sz) rs # slices sz (drop (max 1 sz) rs))"
  by pat_completeness auto
termination by (relation "measure (\<lambda>(n, rs). length rs)") auto

declare slices.simps [simp del]

definition hardSplit :: "string \<Rightarrow> nat \<Rightarrow> string list" where
  "hardSplit s sz =
     filter (\<lambda>p. p \<noteq> []) (map (\<lambda>rs. TrimSpace (to_valid (concat rs))) (slices sz (runes s)))"

section \<open>The recursion\<close>

definition flush :: "string \<Rightarrow> string list" where
  "flush buf = (if buf \<noteq> [] then [TrimSpace buf] else [])"

function split_at :: "nat \<Rightarrow> nat \<Rightarrow> string \<Rightarrow> string list"
  and pack :: "nat \<Rightarrow> nat \<Rightarrow> string list \<Rightarrow> string \<Rightarrow> nat \<Rightarrow> string list" where
  "split_at sz level text =
     (if rune_count text \<le> sz then [text]
      else if 10 < level then hardSplit text sz
      else pack sz level (parts_of level text) [] 0)"
| "pack sz level [] buf bufSize = flush buf"
| "pack sz level (p # ps) buf bufSize =
     (let n = rune_count p; emptied = (if buf = [] then bufSize else 0) in
      if TrimSpace p = [] then pack sz level ps buf bufSize
      else if sz < n then flush buf @ split_at sz (Suc level) (TrimSpace p) @ pack sz level ps [] emptied
      else if sz < bufSize + n then flush buf @ pack sz level ps p (emptied + n)
      else pack sz level ps (buf @ p) (bufSize + n))"
  by pat_completeness auto
termination
  by (relation "measures
        [\<lambda>x. case x of Inl (sz, level, text) \<Rightarrow> 2 * (11 - level) | Inr (sz, level, ps, buf, n) \<Rightarrow> Suc (2 * (10 - level)),
         \<lambda>x. case x of Inl _ \<Rightarrow> 0 | Inr (sz, level, ps, buf, n) \<Rightarrow> length ps]") auto

declare split_at.simps [simp del]

definition Split :: "Splitter \<Rightarrow> string \<Rightarrow> string list" where
  "Split sp text =
     (let t = TrimSpace (replace_crlf text) in if t = [] then [] else split_at (spl_chunkSize sp) 1 t)"

section \<open>The sz of the chunks\<close>

lemma rune_count_Nil [simp]: "rune_count [] = 0"
  by (simp add: rune_count_def)

lemma rune_count_flush: "c \<in> set (flush buf) \<Longrightarrow> rune_count c \<le> rune_count buf"
  by (auto simp: flush_def TrimSpace_count split: if_splits)

lemma slices_length: "p \<in> set (slices n rs) \<Longrightarrow> length p \<le> max 1 n"
  by (induction n rs rule: slices.induct) (subst (asm) slices.simps, auto split: if_splits)

lemma slices_concat: "concat (slices n rs) = rs"
  by (induction n rs rule: slices.induct) (subst slices.simps, simp)

lemma slices_runes: "p \<in> set (slices n (runes s)) \<Longrightarrow> r \<in> set p \<Longrightarrow> r \<in> set (runes s)"
  by (metis slices_concat UN_I set_concat)

lemma rune_count_valid: "list_all valid_rune rs \<Longrightarrow> rune_count (concat rs) = length rs"
  by (simp add: rune_count_def runes_valid)

lemma rune_count_concat: "rune_count (concat ps) \<le> sum_list (map rune_count ps)"
proof (induction ps)
  case (Cons p ps)
  then show ?case using rune_count_append [of p "concat ps"] by simp
qed simp

lemma valid_replacement: "valid_rune (utf8_bytes [0xEF, 0xBF, 0xBD])"
  by (simp add: valid_rune_def utf8_bytes_def rune_len.simps byte_def cont_byte_def)

lemma to_valid_count: "rune_count (to_valid s) = rune_count s"
  unfolding to_valid_def
  by (subst rune_count_valid) (auto simp: list_all_iff valid_replacement rune_count_def)

lemma first_rune: "s \<noteq> [] \<Longrightarrow> valid_rune (take (max 1 (rune_len s)) s) \<or> rune_len s = 0"
proof -
  assume "s \<noteq> []"
  let ?r = "take (rune_len s) s"
  have "rune_len ?r = rune_len s" if "rune_len s \<noteq> 0"
    using rune_len_cut [of ?r "drop (rune_len s) s"] rune_len_bound [of s] that by simp
  then show ?thesis using rune_len_bound [of s] by (cases "rune_len s") (auto simp: valid_rune_def max_def)
qed

lemma runes_single_count: "r \<in> set (runes s) \<Longrightarrow> rune_count r \<le> 1"
proof (induction s rule: runes.induct)
  case (1 s)
  show ?case
  proof (cases "s = [] \<or> r \<in> set (runes (drop (max 1 (rune_len s)) s))")
    case False
    with 1(2) have r: "s \<noteq> []" "r = take (max 1 (rune_len s)) s" by (auto simp: runes_step)
    from first_rune [OF r(1)] show ?thesis
    proof
      assume "rune_len s = 0"
      with r(2) have "length r \<le> 1" by simp
      with rune_count_length [of r] show ?thesis by simp
    qed (simp add: r(2) rune_count_def valid_rune_single del: take_eq_Nil)
  qed (use 1 in \<open>cases "s = []"; auto\<close>)
qed

lemma hardSplit_count: "p \<in> set (hardSplit s n) \<Longrightarrow> 0 < n \<Longrightarrow> rune_count p \<le> n"
proof -
  assume "p \<in> set (hardSplit s n)" and n: "0 < n"
  then obtain rs where rs: "rs \<in> set (slices n (runes s))" and p: "p = TrimSpace (to_valid (concat rs))"
    by (auto simp: hardSplit_def)
  have "rune_count p \<le> rune_count (concat rs)" using TrimSpace_count to_valid_count p by metis
  also have "\<dots> \<le> sum_list (map rune_count rs)" by (rule rune_count_concat)
  also have "\<dots> \<le> sum_list (map (\<lambda>_. 1) rs)"
    using slices_runes [OF rs] by (intro sum_list_mono runes_single_count)
  also have "\<dots> = length rs" by (simp add: sum_list_triv)
  also have "\<dots> \<le> n" using slices_length [OF rs] n by simp
  finally show ?thesis .
qed

lemma split_pack_count:
  shows "c \<in> set (split_at n level t) \<Longrightarrow> 0 < n \<Longrightarrow> rune_count c \<le> n"
    and "c \<in> set (pack n level ps buf m) \<Longrightarrow> 0 < n \<Longrightarrow> rune_count buf \<le> m \<Longrightarrow> m \<le> n
      \<Longrightarrow> (buf = [] \<longrightarrow> m = 0) \<Longrightarrow> rune_count c \<le> n"
proof (induction n level t and n level ps buf m rule: split_at_pack.induct)
  case (1 n level t)
  then show ?case using hardSplit_count [of c t n] by (auto simp: split_at.simps [of n] split: if_splits)
next
  case (2 n level buf m)
  then show ?case using rune_count_flush [of c buf] by simp
next
  case (3 n level p ps buf m)
  note IH = 3(1-5) and c = 3(6) and bounds = 3(7-10)
  have flushed: "x \<in> set (flush buf) \<Longrightarrow> rune_count x \<le> n" for x
    using rune_count_flush [of x buf] bounds by simp
  have emptied: "(if buf = [] then m else 0) = 0" using bounds by simp
  consider (blank) "TrimSpace p = []" | (big) "TrimSpace p \<noteq> []" "n < rune_count p"
    | (full) "TrimSpace p \<noteq> []" "\<not> n < rune_count p" "n < m + rune_count p"
    | (fits) "TrimSpace p \<noteq> []" "\<not> n < rune_count p" "\<not> n < m + rune_count p" by blast
  then show ?case
  proof cases
    case blank
    with IH(1) [OF refl refl blank] c bounds show ?thesis by simp
  next
    case big
    with c emptied consider "c \<in> set (flush buf)" | "c \<in> set (split_at n (Suc level) (TrimSpace p))"
      | "c \<in> set (pack n level ps [] 0)" by (auto simp: Let_def)
    then show ?thesis
      using flushed IH(2) [OF refl refl big] IH(3) [OF refl refl big] bounds emptied by cases auto
  next
    case full
    with c emptied consider "c \<in> set (flush buf)" | "c \<in> set (pack n level ps p (rune_count p))"
      by (auto simp: Let_def)
    moreover have "p \<noteq> []" using full(1) by (auto simp: TrimSpace_def)
    ultimately show ?thesis
      using flushed IH(4) [OF refl refl full] bounds full emptied by cases auto
  next
    case fits
    have "p \<noteq> []" using fits(1) by (auto simp: TrimSpace_def)
    moreover have "rune_count (buf @ p) \<le> m + rune_count p" using rune_count_append [of buf p] bounds by simp
    ultimately show ?thesis using IH(5) [OF refl refl fits] c bounds fits by (simp add: Let_def)
  qed
qed

section \<open>The text of the chunks\<close>

text \<open>Cutting keeps the text, and the parts of a valid text are valid.\<close>

definition ends_line :: "string \<Rightarrow> bool" where
  "ends_line p = (p \<noteq> [] \<and> last p = nl)"

lemma byte_nl [simp]: "byte nl = 10"
  by (simp add: byte_def nl_def)

lemma split_after_ne [simp]: "split_after sep s \<noteq> []"
  by (induction sep s rule: split_after.induct) (auto simp: cons_first_def split: list.split)

lemma cons_first_concat [simp]: "concat (cons_first c ps) = c # concat ps"
  by (cases ps) (auto simp: cons_first_def)

lemma split_after_concat: "concat (split_after sep s) = s"
  by (induction sep s rule: split_after.induct) (auto simp: prefix_def)

lemma split_after_lines: "sep \<noteq> [] \<Longrightarrow> last sep = nl \<Longrightarrow> list_all ends_line (butlast (split_after sep s))"
proof (induction sep s rule: split_after.induct)
  case (2 sep c s)
  then show ?case
    by (cases "split_after sep s") (auto simp: cons_first_def ends_line_def split: if_splits)
qed simp

lemma lines_valid: "list_all ends_line (butlast ps) \<Longrightarrow> valid_utf8 (concat ps) \<Longrightarrow> list_all valid_utf8 ps"
proof (induction ps)
  case (Cons p ps)
  show ?case
  proof (cases "ps = []")
    case False
    with Cons.prems(1) obtain q where "p = q @ [nl]"
      by (cases p rule: rev_cases) (auto simp: ends_line_def)
    then show ?thesis using valid_after_ascii [of q nl "concat ps"] Cons False by simp
  qed (use Cons in simp)
qed simp

lemma section_lines:
  "foldl (section_line level) (parts, cur, fence) ls = (parts', cur', fence') \<Longrightarrow> list_all ends_line (butlast ls)
    \<Longrightarrow> list_all ends_line parts \<Longrightarrow> (ls \<noteq> [] \<longrightarrow> cur = [] \<or> ends_line cur)
    \<Longrightarrow> concat parts' @ cur' = concat parts @ cur @ concat ls \<and> list_all ends_line parts'"
proof (induction ls arbitrary: parts cur fence)
  case (Cons l ls)
  obtain p1 c1 f1 where step: "section_line level (parts, cur, fence) l = (p1, c1, f1)" by (metis prod_cases3)
  have now: "concat p1 @ c1 = concat parts @ cur @ l" "list_all ends_line p1"
    "c1 = cur @ l \<or> c1 = l"
    using step Cons.prems(3,4) by (auto simp: section_line_def Let_def split: if_splits)
  have "ls \<noteq> [] \<Longrightarrow> ends_line l" using Cons.prems(2) by simp
  with now(3) have "ls \<noteq> [] \<longrightarrow> c1 = [] \<or> ends_line c1" by (auto simp: ends_line_def)
  with Cons.IH [of p1 c1 f1] Cons.prems(1,2) step now show ?case by (auto split: if_splits)
qed simp

lemma splitSections_ok:
  "concat (splitSections s level) = s \<and> list_all ends_line (butlast (splitSections s level))"
proof -
  obtain parts cur fence where "foldl (section_line level) ([], [], []) (split_after [nl] s) = (parts, cur, fence)"
    by (metis prod_cases3)
  with section_lines [OF this split_after_lines] show ?thesis
    by (simp add: splitSections_def split_after_concat)
qed

lemma cut_after_concat: "concat (cut_after b rs cur) = cur @ concat rs"
  by (induction b rs cur rule: cut_after.induct) auto

lemma cut_after_valid:
  "list_all valid_rune rs \<Longrightarrow> valid_utf8 cur \<Longrightarrow> list_all valid_utf8 (cut_after b rs cur)"
  by (induction b rs cur rule: cut_after.induct) (auto simp: valid_utf8_def [of r for r] valid_runes_append valid_rune_single)

lemma parts_of_concat: "concat (parts_of level s) = s"
  by (simp add: parts_of_def splitSections_ok split_after_concat cut_after_concat concat_runes)

lemma parts_of_valid: "valid_utf8 s \<Longrightarrow> list_all valid_utf8 (parts_of level s)"
  using lines_valid [of "splitSections s level"] lines_valid [of "split_after [nl] s"]
    lines_valid [of "split_after [nl, nl] s"] splitSections_ok [of s level]
  by (simp add: parts_of_def split_after_lines split_after_concat cut_after_valid)
     (simp add: cut_after_valid valid_utf8_def)

section \<open>What is not white space\<close>

lemma not_space_append: "valid_utf8 b \<Longrightarrow> not_space (a @ b) = not_space a @ not_space b"
  by (simp add: not_space_def valid_runes_append)

lemma not_space_concat: "list_all valid_utf8 ps \<Longrightarrow> not_space (concat ps) = concat (map not_space ps)"
proof (induction ps)
  case (Cons p ps)
  have "valid_utf8 (concat ps)" using Cons.prems by (induction ps) auto
  with Cons show ?case by (simp add: not_space_append)
qed (simp add: not_space_def)

lemma not_space_runes: "list_all valid_rune rs \<Longrightarrow> not_space (concat rs) = filter (\<lambda>r. r \<notin> set space_runes) rs"
  by (simp add: not_space_def runes_valid)

lemma hardSplit_not_space:
  assumes "valid_utf8 s"
  shows "concat (map not_space (hardSplit s n)) = not_space s \<and> [] \<notin> set (map not_space (hardSplit s n))"
proof -
  have v: "list_all valid_rune p" if "p \<in> set (slices n (runes s))" for p
    using slices_runes [OF that] assms by (auto simp: valid_utf8_def list_all_iff)
  then have piece: "not_space (TrimSpace (to_valid (concat p))) = filter (\<lambda>r. r \<notin> set space_runes) p"
    if "p \<in> set (slices n (runes s))" for p
    using that by (simp add: to_valid_id valid_concat not_space_runes)
  have "concat (map not_space (filter (\<lambda>p. p \<noteq> []) ps)) = concat (map not_space ps)" for ps
    by (induction ps) (auto simp: not_space_def)
  then have "concat (map not_space (hardSplit s n))
      = concat (map (filter (\<lambda>r. r \<notin> set space_runes)) (slices n (runes s)))"
    using piece by (simp add: hardSplit_def cong: map_cong)
  also have "\<dots> = not_space s"
    using slices_concat [of n "runes s"] by (simp add: not_space_def flip: filter_concat)
  finally show ?thesis
    by (auto simp: hardSplit_def not_space_empty dest!: sym [of "[]"])
qed

definition carries :: "string list \<Rightarrow> string list \<Rightarrow> bool" where
  "carries chunks words = (concat (map not_space chunks) = words \<and> [] \<notin> set (map not_space chunks))"

lemma carries_append [simp]: "carries cs ws \<Longrightarrow> carries ds vs \<Longrightarrow> carries (cs @ ds) (ws @ vs)"
  by (auto simp: carries_def)

lemma carries_flush: "buf = [] \<or> not_space buf \<noteq> [] \<Longrightarrow> carries (flush buf) (not_space buf)"
  by (auto simp: carries_def flush_def)

lemma split_pack_carries:
  shows "valid_utf8 t \<Longrightarrow> not_space t \<noteq> [] \<Longrightarrow> carries (split_at n level t) (not_space t)"
    and "list_all valid_utf8 ps \<Longrightarrow> valid_utf8 buf \<Longrightarrow> buf = [] \<or> not_space buf \<noteq> []
      \<Longrightarrow> carries (pack n level ps buf m) (not_space buf @ concat (map not_space ps))"
proof (induction n level t and n level ps buf m rule: split_at_pack.induct)
  case (1 n level t)
  have "not_space t = concat (map not_space (parts_of level t))"
    using not_space_concat [OF parts_of_valid [OF 1(2)], of level] by (simp add: parts_of_concat)
  then show ?case
    using 1 hardSplit_not_space [of t n] parts_of_valid [of t level]
    by (auto simp: split_at.simps [of n] carries_def)
next
  case (2 n level buf m)
  then show ?case using carries_flush [of buf] by simp
next
  case (3 n level p ps buf m)
  note IH = 3(1-5) and valid = 3(6,7) and buf = 3(8)
  have flushed: "carries (flush buf) (not_space buf)" by (rule carries_flush [OF buf])
  have p: "valid_utf8 p" "list_all valid_utf8 ps" using valid(1) by auto
  consider (blank) "TrimSpace p = []" | (big) "TrimSpace p \<noteq> []" "n < rune_count p"
    | (full) "TrimSpace p \<noteq> []" "\<not> n < rune_count p" "n < m + rune_count p"
    | (fits) "TrimSpace p \<noteq> []" "\<not> n < rune_count p" "\<not> n < m + rune_count p" by blast
  then show ?case
  proof cases
    case blank
    with IH(1) [OF refl refl blank p(2) valid(2) buf] show ?thesis
      using not_space_empty [of p] by (simp add: Let_def)
  next
    case big
    have "carries (split_at n (Suc level) (TrimSpace p)) (not_space p)"
      using IH(2) [OF refl refl big] p(1) big(1) by (simp add: TrimSpace_valid not_space_empty)
    moreover have "carries (pack n level ps [] (if buf = [] then m else 0)) (concat (map not_space ps))"
      using IH(3) [OF refl refl big] p(2) by simp
    ultimately show ?thesis using flushed big by (simp add: Let_def)
  next
    case full
    have "carries (pack n level ps p ((if buf = [] then m else 0) + rune_count p)) (not_space p @ concat (map not_space ps))"
      using IH(4) [OF refl refl full] p full(1) by (simp add: not_space_empty)
    then show ?thesis using flushed full by (simp add: Let_def)
  next
    case fits
    have "not_space (buf @ p) = not_space buf @ not_space p" by (rule not_space_append [OF p(1)])
    with IH(5) [OF refl refl fits] p valid(2) fits show ?thesis by (simp add: Let_def not_space_empty)
  qed
qed

text \<open>Line ends are white space, so rewriting them loses nothing else.\<close>

lemma byte_cr: "byte (CHR 0x0D) = 13"
  by (simp add: byte_def)

lemma valid_rune_cr:
  assumes "valid_rune r" and "CHR 0x0D \<in> set r"
  shows "r = [CHR 0x0D]"
proof -
  obtain i where i: "i < length r" "r ! i = CHR 0x0D" using assms(2) by (auto simp: in_set_conv_nth)
  then have "i = 0" using rune_len_tail [of i r] assms(1) by (auto simp: valid_rune_def cont_byte_def byte_cr)
  with i obtain q where "r = CHR 0x0D # q" by (cases r) auto
  then show ?thesis using assms(1) rune_len_ascii [of "CHR 0x0D" q] by (simp add: valid_rune_def byte_cr)
qed

lemma replace_no_cr: "CHR 0x0D \<notin> set r \<Longrightarrow> replace_crlf (r @ s) = r @ replace_crlf s"
proof (induction r)
  case (Cons c r)
  then show ?case by (cases "r @ s") auto
qed simp

lemma replace_crlf_runes:
  "list_all valid_rune rs \<Longrightarrow> \<exists>qs. list_all valid_rune qs \<and> replace_crlf (concat rs) = concat qs
    \<and> filter (\<lambda>r. r \<notin> set space_runes) qs = filter (\<lambda>r. r \<notin> set space_runes) rs"
proof (induction rs rule: length_induct)
  case (1 rs)
  show ?case
  proof (cases rs)
    case (Cons r rest)
    have "list_all valid_rune rest" "valid_rune r" using 1(2) Cons by auto
    then have v: "list_all valid_rune rest" "valid_rune r" and len: "length rest < length rs" using 1(2) Cons by auto
    obtain qs where qs: "list_all valid_rune qs" "replace_crlf (concat rest) = concat qs"
      "filter (\<lambda>r. r \<notin> set space_runes) qs = filter (\<lambda>r. r \<notin> set space_runes) rest"
      using 1(1) len v(1) by blast
    have "char_of (13::nat) = CHR 0x0D" "char_of (10::nat) = nl" by (simp_all add: char_of_eq_iff byte_cr flip: byte_def)
    then have spaces: "[CHR 0x0D] \<in> set space_runes" "[nl] \<in> set space_runes"
      by (simp_all add: space_runes_def utf8_bytes_def)
    show ?thesis
    proof (cases "r = [CHR 0x0D]")
      case False
      then have "CHR 0x0D \<notin> set r" using valid_rune_cr [OF v(2)] by blast
      with Cons qs v(2) show ?thesis by (intro exI [of _ "r # qs"]) (simp add: replace_no_cr)
    next
      case cr: True
      show ?thesis
      proof (cases "\<exists>rest2. rest = [nl] # rest2")
        case True
        then obtain rest2 where rest2: "rest = [nl] # rest2" by blast
        then have "list_all valid_rune rest2" "length rest2 < length rs" using v(1) len by auto
        then obtain qs where "list_all valid_rune qs" "replace_crlf (concat rest2) = concat qs"
          "filter (\<lambda>r. r \<notin> set space_runes) qs = filter (\<lambda>r. r \<notin> set space_runes) rest2"
          using 1(1) by blast
        then show ?thesis using Cons cr rest2 spaces v(1) by (intro exI [of _ "[nl] # qs"]) simp
      next
        case False
        have "replace_crlf (CHR 0x0D # concat rest) = CHR 0x0D # replace_crlf (concat rest)"
        proof (cases "concat rest")
          case (Cons d more)
          then obtain q rest' where rest: "rest = (d # q) # rest'" using v(1)
            by (cases rest; cases "hd rest") (auto simp: valid_rune_def)
          then have "d \<noteq> nl" using v(1) False rune_len_ascii [of nl q] by (auto simp: valid_rune_def)
          with Cons show ?thesis by simp
        next
          case Nil
          show ?thesis unfolding Nil by simp
        qed
        then show ?thesis using Cons cr qs v(2) spaces by (intro exI [of _ "[CHR 0x0D] # qs"]) simp
      qed
    qed
  qed (auto intro: exI [of _ "[]"])
qed

lemma replace_crlf_ok: "valid_utf8 s \<Longrightarrow> valid_utf8 (replace_crlf s) \<and> not_space (replace_crlf s) = not_space s"
  using replace_crlf_runes [of "runes s"] not_space_runes [of "runes s"]
  by (auto simp: concat_runes valid_utf8_def runes_valid not_space_runes)

section \<open>The splitter\<close>

lemma Split_count:
  "chunk \<in> set (Split (splitter_New n) doc) \<Longrightarrow> rune_count chunk \<le> (if n \<le> 0 then 1000 else nat n)"
  by (auto simp: Split_def Let_def splitter_New_def dest: split_pack_count(1) split: if_splits)

text \<open>C35. Every chunk has at most \<open>chunkSize\<close> runes (1000 where no positive size is given), for any
  bytes whatsoever, valid UTF-8 or not.\<close>

theorem chunks_are_bounded:
  "list_all (\<lambda>chunk. rune_count chunk \<le> (if n \<le> 0 then 1000 else nat n)) (Split (splitter_New n) doc)"
  by (simp add: list_all_iff Split_count del: if_split)

text \<open>C36. Splitting loses nothing but white space: for a valid document the runes of the chunks that are
  not white space, read one chunk after the other, are those of the document, in its order and each once;
  and no chunk is empty.\<close>

theorem chunks_keep_the_text:
  assumes "valid_utf8 doc"
  shows "concat (map not_space (Split (splitter_New n) doc)) = not_space doc
    \<and> [] \<notin> set (Split (splitter_New n) doc)"
proof -
  let ?t = "TrimSpace (replace_crlf doc)"
  have t: "valid_utf8 ?t" "not_space ?t = not_space doc"
    using replace_crlf_ok [OF assms] by (simp_all add: TrimSpace_valid)
  show ?thesis
  proof (cases "?t = []")
    case False
    then have "not_space ?t \<noteq> []" using not_space_empty [of "replace_crlf doc"] by simp
    from split_pack_carries(1) [OF t(1) this, of "spl_chunkSize (splitter_New n)" 1] False t(2)
    show ?thesis using image_eqI [of "[]" not_space "[]"] by (auto simp: Split_def Let_def carries_def simp del: image_eqI)
  qed (use t in \<open>simp add: Split_def\<close>)
qed

lemma chunks_keep_the_text_witness:
  "concat (map not_space (Split (splitter_New 2) ''a bc'')) = not_space ''a bc''
    \<and> [] \<notin> set (Split (splitter_New 2) ''a bc'')"
  by (rule chunks_keep_the_text) code_simp

end
