(* ===== verification/Float64.thy ===== *)
theory Float64
  imports Go_Std
begin

text \<open>
  The arithmetic of \<open>float64\<close> and \<open>float32\<close> the retrieval code uses: a result is the exact rational
  result rounded to the nearest value of the format, ties to even (IEEE 754 binary64 and binary32,
  subnormal values and overflow to infinity included). A \<open>float32\<close> is the \<open>float64\<close> of the same value.
  The sign of zero is dropped, and the code divides by no negative zero. \<open>math.Log\<close>, \<open>math.Log2\<close> and
  \<open>math.Sqrt\<close> are arguments of the definitions that call them.
\<close>

section \<open>Rounding\<close>

lemma round_half_even_floor: "\<lfloor>q\<rfloor> \<le> round_half_even q" "round_half_even q \<le> \<lfloor>q\<rfloor> + 1"
  by (auto simp: round_half_even_def Let_def)

lemma round_half_even_int [simp]: "round_half_even (of_int n) = n"
  by (simp add: round_half_even_def)

lemma round_half_even_mono: "p \<le> q \<Longrightarrow> round_half_even p \<le> round_half_even q"
proof -
  assume le: "p \<le> q"
  show ?thesis
  proof (cases "\<lfloor>p\<rfloor> = \<lfloor>q\<rfloor>")
    case True
    with le show ?thesis by (auto simp: round_half_even_def Let_def)
  next
    case False
    with floor_mono [OF le] have "\<lfloor>p\<rfloor> + 1 \<le> \<lfloor>q\<rfloor>" by simp
    with round_half_even_floor [of p] round_half_even_floor [of q] show ?thesis by linarith
  qed
qed

text \<open>\<open>log2_floor q\<close> is the exponent \<open>e\<close> with \<open>2\<^sup>e \<le> q < 2\<^sup>e\<^sup>+\<^sup>1\<close> of a positive \<open>q\<close>.\<close>

fun bits :: "nat \<Rightarrow> nat" where
  "bits n = (if n = 0 then 0 else Suc (bits (n div 2)))"

declare bits.simps [simp del]

definition log2_floor :: "rat \<Rightarrow> int" where
  "log2_floor q =
     (case quotient_of q of (n, d) \<Rightarrow>
      let e = int (bits (nat n)) - int (bits (nat d)) in if q < 2 powi e then e - 1 else e)"

text \<open>A format is its number of significant bits, the exponent of its least value and its greatest
  exponent.\<close>

type_synonym float_format = "int \<times> int \<times> nat"

definition binary64 :: float_format where "binary64 = (53, - 1074, 1024)"
definition binary32 :: float_format where "binary32 = (24, - 149, 128)"

definition ulp :: "float_format \<Rightarrow> rat \<Rightarrow> rat" where
  "ulp f q = (case f of (p, m, _) \<Rightarrow> 2 powi (max (log2_floor q - (p - 1)) m))"

definition fround :: "float_format \<Rightarrow> rat \<Rightarrow> rat" where
  "fround f q = (if q = 0 then 0 else of_int (round_half_even (q / ulp f \<bar>q\<bar>)) * ulp f \<bar>q\<bar>)"

definition fl :: "float_format \<Rightarrow> rat \<Rightarrow> float64" where
  "fl f q = (let r = fround f q; limit = 2 ^ snd (snd f) in
     if limit \<le> r then PosInf else if r \<le> - limit then NegInf else Fin r)"

lemma bits_bound: "0 < n \<Longrightarrow> 2 ^ (bits n - 1) \<le> n \<and> n < 2 ^ bits n \<and> 0 < bits n"
proof (induction n rule: bits.induct)
  case (1 n)
  show ?case
  proof (cases "n div 2 = 0")
    case True
    with 1(2) have "n = 1" by linarith
    then show ?thesis by (simp add: bits.simps)
  next
    case False
    with 1 have "2 ^ (bits (n div 2) - 1) \<le> n div 2" "n div 2 < 2 ^ bits (n div 2)" "0 < bits (n div 2)" by auto
    moreover have "bits n = Suc (bits (n div 2))" using 1(2) by (simp add: bits.simps)
    moreover have "(2::nat) ^ bits (n div 2) = 2 * 2 ^ (bits (n div 2) - 1)" using calculation(3)
      by (cases "bits (n div 2)") auto
    ultimately show ?thesis by simp linarith
  qed
qed

lemma bits_rat:
  assumes "0 < n"
  shows "2 ^ bits (nat n) / 2 \<le> (of_int n :: rat) \<and> (of_int n :: rat) < 2 ^ bits (nat n)"
proof -
  have b: "2 ^ (bits (nat n) - 1) \<le> nat n" "nat n < 2 ^ bits (nat n)" "0 < bits (nat n)"
    using bits_bound [of "nat n"] assms by auto
  have "(of_nat (2 ^ (bits (nat n) - 1)) :: rat) \<le> of_nat (nat n)" "(of_nat (nat n) :: rat) < of_nat (2 ^ bits (nat n))"
    using b(1,2) by (simp_all only: of_nat_le_iff of_nat_less_iff)
  moreover have "(of_nat (nat n) :: rat) = of_int n" using assms by simp
  moreover have "(2::rat) ^ bits (nat n) = 2 * 2 ^ (bits (nat n) - 1)" using b(3) by (cases "bits (nat n)") auto
  ultimately show ?thesis by simp
qed

lemma log2_floor:
  assumes "0 < q"
  shows "2 powi log2_floor q \<le> q" and "q < 2 powi (log2_floor q + 1)"
proof -
  obtain n d where nd: "quotient_of q = (n, d)" by (cases "quotient_of q")
  have d: "0 < d" and q: "q = of_int n / of_int d" using quotient_of_denom_pos [OF nd] quotient_of_div [OF nd] by auto
  with assms have n: "0 < n" by (simp add: zero_less_divide_iff)
  define A B :: rat where "A = 2 ^ bits (nat n)" and "B = 2 ^ bits (nat d)"
  have AB: "0 < A" "0 < B" by (auto simp: A_def B_def)
  have "A / 2 \<le> of_int n" "of_int n < A" "B / 2 \<le> of_int d" "of_int d < B"
    using bits_rat [OF n] bits_rat [OF d] by (auto simp: A_def B_def)
  then have bounds: "A / B / 2 \<le> q" "q < 2 * (A / B)"
    using frac_le [of "of_int n" "A / 2" "of_int d" B] frac_less [of "of_int n" A "B / 2" "of_int d"] AB n d
    by (simp_all add: q mult.commute)
  define e where "e = int (bits (nat n)) - int (bits (nat d))"
  have e: "2 powi e = A / B" "2 powi (e - 1) = A / B / 2" "2 powi (e + 1) = 2 * (A / B)"
    by (simp_all add: e_def A_def B_def power_int_diff power_int_add)
  have "log2_floor q = (if q < 2 powi e then e - 1 else e)" by (simp add: log2_floor_def nd e_def Let_def)
  with bounds e show "2 powi log2_floor q \<le> q" and "q < 2 powi (log2_floor q + 1)" by auto
qed

section \<open>Rounding is monotone and keeps small integers\<close>

lemma powi_pos [simp]: "0 < (2 powi e :: rat)"
  by simp

lemma ulp_pos [simp]: "0 < ulp f q"
  by (simp add: ulp_def split: prod.split)

lemma powi_mono: "a \<le> b \<Longrightarrow> (2 powi a :: rat) \<le> 2 powi b"
  by (rule power_int_increasing) auto

lemma powi_less: "(2 powi a :: rat) < 2 powi b \<Longrightarrow> a < b"
  using powi_mono [of b a] by (meson leD linorder_not_le)

lemma powi_ratio:
  assumes "a \<le> b"
  shows "(2 powi b :: rat) = of_int (2 ^ nat (b - a)) * 2 powi a"
proof -
  have "(2 powi b :: rat) = 2 powi (b - a) * 2 powi a" by (simp flip: power_int_add)
  moreover have "(2 powi (b - a) :: rat) = 2 ^ nat (b - a)" using assms by (simp add: power_int_def)
  ultimately show ?thesis by simp
qed

lemma log2_floor_eqI:
  assumes "2 powi e \<le> q" and "q < 2 powi (e + 1)"
  shows "log2_floor q = e"
proof -
  have q: "0 < q" using assms(1) powi_pos [of e] by linarith
  have "2 powi log2_floor q < (2 powi (e + 1) :: rat)" "2 powi e < (2 powi (log2_floor q + 1) :: rat)"
    using log2_floor [OF q] assms by simp_all
  then have "log2_floor q < e + 1" "e < log2_floor q + 1" by (blast dest: powi_less)+
  then show ?thesis by simp
qed

lemma log2_floor_mono: "0 < p \<Longrightarrow> p \<le> q \<Longrightarrow> log2_floor p \<le> log2_floor q"
proof -
  assume p: "0 < p" and le: "p \<le> q"
  have "2 powi log2_floor p \<le> p" using log2_floor(1) [OF p] .
  also have "p \<le> q" by (rule le)
  also have "q < 2 powi (log2_floor q + 1)" using log2_floor(2) p le by simp
  finally show ?thesis using powi_less by fastforce
qed

lemma fround_mono_pos:
  assumes "0 < p" and "p \<le> q" and "0 < fst f"
  shows "fround f p \<le> fround f q"
proof -
  obtain w m e where f: "f = (w, m, e)" by (metis prod_cases3)
  let ?u = "\<lambda>x. max (log2_floor x - (w - 1)) m"
  have le: "?u p \<le> ?u q" using log2_floor_mono [OF assms(1,2)] by simp
  show ?thesis
  proof (cases "?u p = ?u q")
    case False
    let ?b = "2 powi log2_floor q :: rat"
    have e: "log2_floor p + 1 \<le> log2_floor q" and up: "?u p \<le> log2_floor q" "?u q \<le> log2_floor q"
      using False le assms(3) f by auto
    have "p \<le> ?b" using log2_floor(2) [OF assms(1)] powi_mono [OF e] by linarith
    have "?b \<le> q" using log2_floor(1) [of q] assms by simp
    have exact: "of_int (round_half_even (?b / ulp f x)) * ulp f x = ?b" if "?u x \<le> log2_floor q" for x
    proof -
      have "?b / ulp f x = of_int (2 ^ nat (log2_floor q - ?u x))"
        using powi_ratio [OF that] by (simp add: ulp_def f del: of_int_power)
      moreover have "?b = of_int (2 ^ nat (log2_floor q - ?u x)) * ulp f x"
        using powi_ratio [OF that] by (simp add: ulp_def f del: of_int_power)
      ultimately show ?thesis by (simp only: round_half_even_int)
    qed
    have "fround f p \<le> of_int (round_half_even (?b / ulp f p)) * ulp f p"
      using assms \<open>p \<le> ?b\<close> round_half_even_mono [of "p / ulp f p" "?b / ulp f p"]
      by (auto simp: fround_def divide_right_mono mult_right_mono order.strict_implies_order)
    also have "\<dots> = of_int (round_half_even (?b / ulp f q)) * ulp f q" using exact up by simp
    also have "\<dots> \<le> fround f q"
      using assms \<open>?b \<le> q\<close> round_half_even_mono [of "?b / ulp f q" "q / ulp f q"]
      by (auto simp: fround_def divide_right_mono mult_right_mono order.strict_implies_order)
    finally show ?thesis .
  next
    case True
    then have "ulp f p = ulp f q" by (simp add: ulp_def f)
    moreover have "p / ulp f q \<le> q / ulp f q" using assms(2) by (simp add: divide_right_mono order.strict_implies_order)
    ultimately show ?thesis
      using assms round_half_even_mono by (auto simp: fround_def mult_right_mono order.strict_implies_order)
  qed
qed

lemma fround_zero [simp]: "fround f 0 = 0"
  by (simp add: fround_def)

lemma fround_nonneg: "0 \<le> q \<Longrightarrow> 0 \<le> fround f q"
proof -
  assume "0 \<le> q"
  then have "0 \<le> q / ulp f q" by (simp add: order.strict_implies_order)
  then have "round_half_even 0 \<le> round_half_even (q / ulp f q)" by (rule round_half_even_mono)
  moreover have "round_half_even 0 = 0" using round_half_even_int [of 0] by simp
  ultimately show ?thesis using \<open>0 \<le> q\<close>
    by (auto simp: fround_def intro!: mult_nonneg_nonneg order.strict_implies_order [OF ulp_pos])
qed

lemma fround_mono: "0 \<le> p \<Longrightarrow> p \<le> q \<Longrightarrow> 0 < fst f \<Longrightarrow> fround f p \<le> fround f q"
  using fround_mono_pos [of p q f] fround_nonneg [of q] by (cases "p = 0") auto

lemma fround_int:
  assumes "n < 2 ^ 53"
  shows "fround binary64 (of_nat n) = of_nat n"
proof (cases "n = 0")
  case False
  let ?q = "of_nat n :: rat"
  let ?u = "max (log2_floor ?q - 52) (- 1074)"
  have pos: "0 < ?q" using False by simp
  have ulp: "ulp binary64 ?q = 2 powi ?u" by (simp add: ulp_def binary64_def)
  have "2 powi log2_floor ?q \<le> ?q" by (rule log2_floor(1) [OF pos])
  also have "?q < of_nat (2 ^ 53)" using assms by (simp only: of_nat_less_iff)
  also have "\<dots> = 2 powi 53" by simp
  finally have "?u \<le> 0" using powi_less [of "log2_floor ?q" 53] by simp
  from powi_ratio [OF this] have one: "1 = of_int (2 ^ nat (- ?u)) * ulp binary64 ?q"
    by (simp add: ulp del: of_int_power)
  then have "of_int (int n * 2 ^ nat (- ?u)) * ulp binary64 ?q = ?q"
    by (metis of_int_mult of_int_of_nat_eq mult.assoc mult.right_neutral)
  moreover from this have "?q / ulp binary64 ?q = of_int (int n * 2 ^ nat (- ?u))"
    by (metis ulp_pos nonzero_eq_divide_eq less_irrefl)
  ultimately show ?thesis using False by (simp add: fround_def del: of_int_mult of_int_power) 
qed simp

text \<open>Rounding a value of the format keeps it.\<close>

definition binary64_value :: "rat \<Rightarrow> bool" where
  "binary64_value q = (\<exists>n u. q = of_nat n * 2 powi u \<and> n < 2 ^ 53 \<and> - 1074 \<le> u)"

lemma powi_53: "of_nat (2 ^ 53) * 2 powi u = (2 powi (53 + u) :: rat)"
  by (simp add: power_int_add)

lemma powi_Suc: "(2 powi (u + 1) :: rat) = 2 * 2 powi u"
  by (simp add: power_int_add)

lemma fround_exact:
  assumes "binary64_value q"
  shows "fround binary64 q = q"
proof (cases "q = 0")
  case False
  obtain n u where q: "q = of_nat n * 2 powi u" and n: "n < 2 ^ 53" and u: "- 1074 \<le> u"
    using assms by (auto simp: binary64_value_def)
  have pos: "0 < q" using False by (simp add: q)
  let ?e = "max (log2_floor q - 52) (- 1074)"
  have ulp: "ulp binary64 \<bar>q\<bar> = 2 powi ?e" using pos by (simp add: ulp_def binary64_def)
  have "2 powi log2_floor q \<le> q" by (rule log2_floor(1) [OF pos])
  also have "q < of_nat (2 ^ 53) * 2 powi u"
    unfolding q using n by (intro mult_strict_right_mono) (simp_all only: of_nat_less_iff powi_pos)
  also have "\<dots> = 2 powi (53 + u)" by (rule powi_53)
  finally have "?e \<le> u" using powi_less [of "log2_floor q" "53 + u"] u by simp
  from powi_ratio [OF this] have "q = of_int (int n * 2 ^ nat (u - ?e)) * ulp binary64 \<bar>q\<bar>"
    unfolding ulp by (simp add: q del: of_int_power) 
  moreover from this have "q / ulp binary64 \<bar>q\<bar> = of_int (int n * 2 ^ nat (u - ?e))"
    by (metis ulp_pos nonzero_eq_divide_eq less_irrefl)
  ultimately show ?thesis using False by (simp only: fround_def round_half_even_int if_False)
qed simp

lemma fround_value:
  assumes "0 \<le> q"
  shows "binary64_value (fround binary64 q)"
proof (cases "q = 0")
  case True
  then show ?thesis by (auto simp: binary64_value_def intro!: exI [of _ 0])
next
  case False
  with assms have pos: "0 < q" by simp
  let ?e = "max (log2_floor q - 52) (- 1074)"
  have ulp: "ulp binary64 q = 2 powi ?e" by (simp add: ulp_def binary64_def)
  let ?n = "round_half_even (q / 2 powi ?e)"
  have "q < 2 powi (log2_floor q + 1)" by (rule log2_floor(2) [OF pos])
  also have "\<dots> \<le> 2 powi (53 + ?e)" by (rule powi_mono) simp
  also have "\<dots> = of_int (2 ^ 53) * 2 powi ?e" using powi_53 [of ?e] by simp
  finally have "q / 2 powi ?e \<le> of_int (2 ^ 53)" by (simp add: divide_le_eq)
  then have n: "?n \<le> 2 ^ 53" using round_half_even_mono round_half_even_int by metis
  have "0 \<le> ?n" using round_half_even_mono [of 0 "q / 2 powi ?e"] round_half_even_int [of 0] pos by simp
  then obtain m where m: "?n = int m" using nonneg_int_cases by blast
  have r: "fround binary64 q = of_nat m * 2 powi ?e" using pos ulp m by (simp add: fround_def)
  show ?thesis
  proof (cases "m = 2 ^ 53")
    case True
    have "fround binary64 q = of_nat (2 ^ 52) * 2 powi (?e + 1)" unfolding r True powi_Suc by simp
    moreover have "- 1074 \<le> ?e + 1" "(2::nat) ^ 52 < 2 ^ 53" by simp_all
    ultimately show ?thesis unfolding binary64_value_def by blast
  next
    case False
    then have "m < 2 ^ 53" using n m by (simp add: le_less)
    moreover have "- 1074 \<le> ?e" by simp
    ultimately show ?thesis unfolding binary64_value_def using r by blast
  qed
qed

section \<open>Operations\<close>

text \<open>The operations round with the format of their type.\<close>

fun f_add :: "float_format \<Rightarrow> float64 \<Rightarrow> float64 \<Rightarrow> float64" where
  "f_add f (Fin x) (Fin y) = fl f (x + y)"
| "f_add f NaN y = NaN"
| "f_add f x NaN = NaN"
| "f_add f PosInf NegInf = NaN"
| "f_add f NegInf PosInf = NaN"
| "f_add f PosInf y = PosInf"
| "f_add f x PosInf = PosInf"
| "f_add f NegInf y = NegInf"
| "f_add f x NegInf = NegInf"

fun f_neg :: "float64 \<Rightarrow> float64" where
  "f_neg (Fin x) = Fin (- x)"
| "f_neg PosInf = NegInf"
| "f_neg NegInf = PosInf"
| "f_neg NaN = NaN"

definition f_sub :: "float_format \<Rightarrow> float64 \<Rightarrow> float64 \<Rightarrow> float64" where
  "f_sub f x y = f_add f x (f_neg y)"

definition signed_inf :: "bool \<Rightarrow> float64" where
  "signed_inf pos = (if pos then PosInf else NegInf)"

fun f_sign :: "float64 \<Rightarrow> rat" where
  "f_sign (Fin x) = sgn x"
| "f_sign PosInf = 1"
| "f_sign NegInf = - 1"
| "f_sign NaN = 0"

definition f_mul :: "float_format \<Rightarrow> float64 \<Rightarrow> float64 \<Rightarrow> float64" where
  "f_mul f x y =
     (case (x, y) of
        (Fin a, Fin b) \<Rightarrow> fl f (a * b)
      | _ \<Rightarrow> if f_sign x * f_sign y = 0 then NaN else signed_inf (0 < f_sign x * f_sign y))"

text \<open>Division; a zero divisor counts as positive.\<close>

definition f_div :: "float_format \<Rightarrow> float64 \<Rightarrow> float64 \<Rightarrow> float64" where
  "f_div f x y =
     (case (x, y) of
        (Fin a, Fin b) \<Rightarrow> if b \<noteq> 0 then fl f (a / b) else if a = 0 then NaN else signed_inf (0 < a)
      | (Fin a, _) \<Rightarrow> if y = NaN then NaN else Fin 0
      | (_, Fin b) \<Rightarrow> if x = NaN then NaN else signed_inf (0 < f_sign x * (if b < 0 then - 1 else 1))
      | _ \<Rightarrow> NaN)"

abbreviation f64_add where "f64_add \<equiv> f_add binary64"
abbreviation f64_sub where "f64_sub \<equiv> f_sub binary64"
abbreviation f64_mul where "f64_mul \<equiv> f_mul binary64"
abbreviation f64_div where "f64_div \<equiv> f_div binary64"

definition f64_int :: "nat \<Rightarrow> float64" where
  "f64_int n = fl binary64 (of_nat n)"

fun f64_lt :: "float64 \<Rightarrow> float64 \<Rightarrow> bool" where
  "f64_lt (Fin x) (Fin y) = (x < y)"
| "f64_lt NaN _ = False"
| "f64_lt _ NaN = False"
| "f64_lt NegInf y = (y \<noteq> NegInf)"
| "f64_lt x PosInf = (x \<noteq> PosInf)"
| "f64_lt _ _ = False"

definition f64_eq :: "float64 \<Rightarrow> float64 \<Rightarrow> bool" where
  "f64_eq x y = (x \<noteq> NaN \<and> x = y)"

lemma f64_lt_irrefl [simp]: "\<not> f64_lt x x"
  by (cases x) auto

lemma f64_lt_trans: "f64_lt x y \<Longrightarrow> f64_lt y z \<Longrightarrow> f64_lt x z"
  by (cases x; cases y; cases z) auto

lemma f64_lt_asym: "f64_lt x y \<Longrightarrow> \<not> f64_lt y x"
  by (cases x; cases y) auto

lemma f64_lt_total: "x \<noteq> NaN \<Longrightarrow> y \<noteq> NaN \<Longrightarrow> x \<noteq> y \<Longrightarrow> f64_lt x y \<or> f64_lt y x"
  by (cases x; cases y) auto

lemma f64_lt_NaN: "f64_lt x y \<Longrightarrow> x \<noteq> NaN \<and> y \<noteq> NaN"
  by (cases x; cases y) auto

section \<open>Values between zero and a bound\<close>

definition f_within :: "nat \<Rightarrow> float64 \<Rightarrow> bool" where
  "f_within n x = (case x of Fin r \<Rightarrow> 0 \<le> r \<and> r \<le> of_nat n | _ \<Rightarrow> False)"

lemma fl_within:
  assumes "0 \<le> q" and "q \<le> of_nat n" and "n < 2 ^ 53"
  shows "f_within n (fl binary64 q)" "fl binary64 q = Fin (fround binary64 q)"
proof -
  have le: "fround binary64 q \<le> of_nat n"
    using fround_mono [OF assms(1,2), of binary64] fround_int [OF assms(3)] by (simp add: binary64_def)
  moreover have "(of_nat n :: rat) < 2 ^ 1024"
  proof -
    have "(of_nat n :: rat) < of_nat (2 ^ 53)" using assms(3) by (simp only: of_nat_less_iff)
    also have "\<dots> \<le> 2 ^ 1024" by simp
    finally show ?thesis .
  qed
  moreover have "0 \<le> fround binary64 q" using fround_nonneg assms(1) .
  ultimately show "fl binary64 q = Fin (fround binary64 q)" by (simp add: fl_def binary64_def Let_def)
  with le \<open>0 \<le> fround binary64 q\<close> show "f_within n (fl binary64 q)" by (simp add: f_within_def)
qed

lemma f64_int_exact: "n < 2 ^ 53 \<Longrightarrow> f64_int n = Fin (of_nat n)"
  using fl_within(2) [of "of_nat n" n] fround_int [of n] by (simp add: f64_int_def)

lemma f_within_Fin: "f_within n x \<longleftrightarrow> (\<exists>r. x = Fin r \<and> 0 \<le> r \<and> r \<le> of_nat n)"
  by (cases x) (auto simp: f_within_def)

lemma f_within_add:
  assumes "f_within n x" and "f_within m y" and "n + m < 2 ^ 53"
  shows "f_within (n + m) (f64_add x y)"
proof -
  obtain a b where "x = Fin a" "0 \<le> a" "a \<le> of_nat n" "y = Fin b" "0 \<le> b" "b \<le> of_nat m"
    using assms by (auto simp: f_within_Fin)
  then show ?thesis using fl_within(1) [of "a + b" "n + m"] assms(3) by simp
qed

lemma f_within_div:
  assumes "f_within n x" and "n \<le> m" and "0 < m" and "m < 2 ^ 53"
  shows "f_within 1 (f64_div x (f64_int m))"
proof -
  obtain a where a: "x = Fin a" "0 \<le> a" "a \<le> of_nat n" using assms by (auto simp: f_within_Fin)
  have "a \<le> of_nat m" using a(3) assms(2) by (meson of_nat_mono order_trans)
  then have "0 \<le> a / of_nat m" "a / of_nat m \<le> of_nat 1" using a(2) assms(3) by auto
  from fl_within(1) [OF this] a(1) assms(3) show ?thesis by (simp add: f64_int_exact [OF assms(4)] f_div_def)
qed

lemma f_within_zero [simp]: "f_within n (Fin 0)"
  by (simp add: f_within_def)

lemma f_within_int: "k \<le> n \<Longrightarrow> k < 2 ^ 53 \<Longrightarrow> f_within n (f64_int k)"
  by (simp add: f64_int_exact f_within_def)

lemma f_within_mono: "f_within n x \<Longrightarrow> n \<le> m \<Longrightarrow> f_within m x"
  using of_nat_mono [of n m] by (force simp: f_within_Fin)

end
