(* ===== verification/Go_Sort.thy ===== *)
theory Go_Sort
  imports Json Float64 "HOL-Library.Multiset"
begin

text \<open>
  Go's \<open>sort.SliceStable\<close> and \<open>sort.Slice\<close> with a comparison given by the caller, as the insertion sort
  they use on short slices: an element moves to the front while it is less than the one before it. A stable
  sort has no other result when the comparison is a strict weak order. \<open>sort.Slice\<close> leaves the order of
  equal elements open; what is proved of it holds for elements in any order.
\<close>

fun shift_down :: "('a \<Rightarrow> 'a \<Rightarrow> bool) \<Rightarrow> 'a \<Rightarrow> 'a list \<Rightarrow> 'a list" where
  "shift_down lt x [] = [x]"
| "shift_down lt x (y # ys) = (if lt x y then y # shift_down lt x ys else x # y # ys)"

text \<open>The sorted prefix is kept with its last element first.\<close>

definition sort_slice :: "('a \<Rightarrow> 'a \<Rightarrow> bool) \<Rightarrow> 'a list \<Rightarrow> 'a list" where
  "sort_slice lt xs = rev (fold (shift_down lt) xs [])"

lemma mset_shift_down [simp]: "mset (shift_down lt x ys) = add_mset x (mset ys)"
  by (induction ys) auto

lemma set_shift_down [simp]: "set (shift_down lt x ys) = insert x (set ys)"
  by (induction ys) auto

lemma mset_fold_shift: "mset (fold (shift_down lt) xs ys) = mset xs + mset ys"
  by (induction xs arbitrary: ys) auto

lemma mset_sort_slice [simp]: "mset (sort_slice lt xs) = mset xs"
  by (simp add: sort_slice_def mset_fold_shift)

lemma set_sort_slice [simp]: "set (sort_slice lt xs) = set xs"
  by (metis mset_sort_slice set_mset_mset)

lemma length_sort_slice [simp]: "length (sort_slice lt xs) = length xs"
  by (metis mset_sort_slice size_mset)

lemma distinct_map_sort_slice [simp]: "distinct (map f (sort_slice lt xs)) = distinct (map f xs)"
  by (metis mset_map mset_sort_slice mset_eq_imp_distinct_iff)

lemma sort_slice_Nil [simp]: "sort_slice lt [] = []"
  by (simp add: sort_slice_def)

text \<open>A comparison that is a strict weak order on the values \<open>ok\<close>, as \<open>sort\<close> asks of its callers.\<close>

locale sort_order =
  fixes lt :: "'a \<Rightarrow> 'a \<Rightarrow> bool"
    and ok :: "'a \<Rightarrow> bool"
  assumes asym: "lt x y \<Longrightarrow> \<not> lt y x"
    and weak: "ok x \<Longrightarrow> ok y \<Longrightarrow> ok z \<Longrightarrow> \<not> lt x y \<Longrightarrow> \<not> lt y z \<Longrightarrow> \<not> lt x z"
begin

lemma shift_down_sorted:
  "sorted_wrt (\<lambda>x y. \<not> lt x y) ys \<Longrightarrow> ok x \<Longrightarrow> list_all ok ys
    \<Longrightarrow> sorted_wrt (\<lambda>x y. \<not> lt x y) (shift_down lt x ys)"
proof (induction ys)
  case (Cons y ys)
  then show ?case using asym [of x y] weak [of x y] by (auto simp: list_all_iff)
qed simp

lemma fold_sorted:
  "list_all ok xs \<Longrightarrow> sorted_wrt (\<lambda>x y. \<not> lt x y) ys \<Longrightarrow> list_all ok ys
    \<Longrightarrow> sorted_wrt (\<lambda>x y. \<not> lt x y) (fold (shift_down lt) xs ys)"
proof (induction xs arbitrary: ys)
  case (Cons x xs)
  then have "list_all ok (shift_down lt x ys)" by (simp add: list_all_iff)
  with Cons show ?case by (simp add: shift_down_sorted)
qed simp

lemma sort_slice_sorted: "list_all ok xs \<Longrightarrow> sorted_wrt (\<lambda>x y. \<not> lt y x) (sort_slice lt xs)"
  using fold_sorted [of xs "[]"] by (simp add: sort_slice_def sorted_wrt_rev)

end

section \<open>Strings\<close>

text \<open>Strings compare byte by byte.\<close>

fun str_less :: "string \<Rightarrow> string \<Rightarrow> bool" where
  "str_less s [] = False"
| "str_less [] (d # t) = True"
| "str_less (c # s) (d # t) = (byte c < byte d \<or> (c = d \<and> str_less s t))"

lemma byte_eq_iff: "byte c = byte d \<longleftrightarrow> c = d"
  by (simp add: byte_def)

lemma str_less_irrefl [simp]: "\<not> str_less s s"
  by (induction s) auto

lemma str_less_trans: "str_less a b \<Longrightarrow> str_less b u \<Longrightarrow> str_less a u"
proof (induction a b arbitrary: u rule: str_less.induct)
  case (3 c s d t)
  then show ?case by (cases u) (auto dest: less_trans)
next
  case (2 d t)
  then show ?case by (cases u) auto
qed simp

lemma str_less_total: "str_less a b \<or> a = b \<or> str_less b a"
proof (induction a b rule: str_less.induct)
  case (3 c s d t)
  then show ?case using byte_eq_iff [of c d] by (auto simp: not_less)
next
  case (1 s)
  then show ?case by (cases s) auto
qed simp

lemma str_less_asym: "str_less a b \<Longrightarrow> \<not> str_less b a"
  using str_less_trans str_less_irrefl by blast

interpretation strings: sort_order str_less "\<lambda>_. True"
proof unfold_locales
  fix a b c
  show "str_less a b \<Longrightarrow> \<not> str_less b a" by (rule str_less_asym)
  assume "\<not> str_less a b" "\<not> str_less b c"
  then show "\<not> str_less a c" using str_less_total str_less_trans by metis
qed

text \<open>Decimal numerals read back as the number they denote, so they are different for different numbers,
  and consist of digits.\<close>

definition dec_value :: "string \<Rightarrow> nat" where
  "dec_value s = foldl (\<lambda>n c. 10 * n + (byte c - 48)) 0 s"

lemma byte_digit: "n < 10 \<Longrightarrow> byte (digit_char n) = 48 + n"
  by (simp add: byte_def digit_char_def)

lemma dec_value_dec_nat [simp]: "dec_value (dec_nat n) = n"
proof (induction n rule: dec_nat.induct)
  case (1 n)
  then show ?case by (subst dec_nat.simps) (auto simp: dec_value_def byte_digit)
qed

lemma dec_nat_inj [simp]: "dec_nat m = dec_nat n \<longleftrightarrow> m = n"
  by (metis dec_value_dec_nat)

lemma dec_nat_digits: "c \<in> set (dec_nat n) \<Longrightarrow> 48 \<le> byte c \<and> byte c \<le> 57"
proof (induction n rule: dec_nat.induct)
  case (1 n)
  then show ?case by (subst (asm) dec_nat.simps) (auto simp: byte_digit split: if_splits)
qed

section \<open>Removing duplicates\<close>

text \<open>The loop over a list with a set of the values seen, which keeps the first of each.\<close>

fun keep_first :: "'a set \<Rightarrow> 'a list \<Rightarrow> 'a list" where
  "keep_first seen [] = []"
| "keep_first seen (x # xs) = (if x \<in> seen then keep_first seen xs else x # keep_first (insert x seen) xs)"

lemma set_keep_first [simp]: "set (keep_first seen xs) = set xs - seen"
  by (induction xs arbitrary: seen) auto

lemma distinct_keep_first [simp]: "distinct (keep_first seen xs)"
  by (induction xs arbitrary: seen) auto

lemma length_keep_first: "length (keep_first seen xs) \<le> length xs"
  by (induction xs arbitrary: seen) (auto intro: le_SucI)

section \<open>Scores\<close>

text \<open>The comparisons of the ranked lists: the higher score first, and by name where scores are equal.\<close>

definition score_first :: "'a \<times> float64 \<Rightarrow> 'a \<times> float64 \<Rightarrow> bool" where
  "score_first x y = f64_lt (snd y) (snd x)"

definition score_then_name :: "('a \<Rightarrow> string) \<Rightarrow> 'a \<times> float64 \<Rightarrow> 'a \<times> float64 \<Rightarrow> bool" where
  "score_then_name name x y =
     (if f64_eq (snd x) (snd y) then str_less (name (fst x)) (name (fst y)) else f64_lt (snd y) (snd x))"

definition numeric :: "'a \<times> float64 \<Rightarrow> bool" where
  "numeric x = (snd x \<noteq> NaN)"

interpretation by_score: sort_order score_first numeric
proof unfold_locales
  fix x y z :: "'a \<times> float64"
  show "score_first x y \<Longrightarrow> \<not> score_first y x" by (simp add: score_first_def f64_lt_asym)
  assume "numeric x" "numeric y" "numeric z" "\<not> score_first x y" "\<not> score_first y z"
  then show "\<not> score_first x z"
    using f64_lt_total [of "snd x" "snd y"] f64_lt_total [of "snd y" "snd z"] f64_lt_trans
    unfolding score_first_def numeric_def by metis
qed

lemma not_score_then_name:
  "numeric x \<Longrightarrow> numeric y \<Longrightarrow> \<not> score_then_name name x y
    \<longleftrightarrow> f64_lt (snd x) (snd y) \<or> (snd x = snd y \<and> \<not> str_less (name (fst x)) (name (fst y)))"
  using f64_lt_total [of "snd x" "snd y"] f64_lt_asym
  by (auto simp: score_then_name_def numeric_def f64_eq_def)

interpretation by_score_and_name: sort_order "score_then_name name" numeric for name
proof unfold_locales
  fix x y z :: "'a \<times> float64"
  show "score_then_name name x y \<Longrightarrow> \<not> score_then_name name y x"
    by (auto simp: score_then_name_def f64_eq_def f64_lt_asym str_less_asym split: if_splits)
  assume "numeric x" "numeric y" "numeric z" "\<not> score_then_name name x y" "\<not> score_then_name name y z"
  then show "\<not> score_then_name name x z"
    using strings.weak [of "name (fst x)" "name (fst y)" "name (fst z)"] f64_lt_trans
    by (auto simp: not_score_then_name)
qed

end
