(* ===== verification/Loader.thy ===== *)
theory Loader
  imports Splitter Go_Sort
begin

text \<open>
  The knowledge documents (\<open>src/internal/knowledge/model/model.go\<close>, \<open>src/internal/knowledge/loader/loader.go\<close>):
  the Markdown files under a directory, their front matter, and the chunks their bodies are split into.
  The directory is the list of what \<open>filepath.WalkDir\<close> visits, in its order; what \<open>yaml.Unmarshal\<close> makes
  of a front matter is the argument \<open>yaml\<close>.
\<close>

record Chunk =
  ck_ID :: string
  ck_DocID :: string
  ck_Source :: string
  ck_DocType :: string
  ck_Service :: string
  ck_Component :: string
  ck_IncidentType :: string
  ck_ProductVersion :: string
  ck_SourceKind :: string
  ck_SourceURL :: string
  ck_LastVerifiedAt :: string
  ck_Title :: string
  ck_Content :: string
  ck_Severity :: string
  ck_Tags :: "string list"

record frontmatter =
  fm_DocID :: string
  fm_Service :: string
  fm_Component :: string
  fm_IncidentType :: string
  fm_ProductVersion :: string
  fm_SourceKind :: string
  fm_SourceURL :: string
  fm_LastVerifiedAt :: string
  fm_Severity :: string
  fm_Title :: string
  fm_Tags :: "string list"

definition no_frontmatter :: frontmatter where
  "no_frontmatter = \<lparr> fm_DocID = [], fm_Service = [], fm_Component = [], fm_IncidentType = [],
     fm_ProductVersion = [], fm_SourceKind = [], fm_SourceURL = [], fm_LastVerifiedAt = [], fm_Severity = [],
     fm_Title = [], fm_Tags = [] \<rparr>"

section \<open>One document\<close>

definition docTypeFromPath :: "string \<Rightarrow> string" where
  "docTypeFromPath rel =
     (let first = hd (split_on (CHR ''/'') rel) in
      if first = ''runbooks'' then ''runbook''
      else if first = ''incidents'' then ''incident''
      else if first = ''postmortems'' then ''postmortem''
      else if first = ''architecture'' then ''architecture''
      else ''unknown'')"

definition parseFrontmatter :: "(string \<Rightarrow> frontmatter) \<Rightarrow> string \<Rightarrow> frontmatter \<times> string" where
  "parseFrontmatter yaml doc =
     (let t = TrimSpace doc; rows = split_on nl t; inside = (\<lambda>l. TrimSpace l \<noteq> ''---'') in
      if \<not> prefix ''---'' t then (no_frontmatter, t)
      else if length rows < 3 then (no_frontmatter, t)
      else case dropWhile inside (tl rows) of
        [] \<Rightarrow> (no_frontmatter, t)
      | _ # rest \<Rightarrow> (yaml (join_with [nl] (takeWhile inside (tl rows))), TrimSpace (join_with [nl] rest)))"

definition extractHeading :: "string \<Rightarrow> string" where
  "extractHeading content =
     (case find (\<lambda>l. prefix ''# '' l) (map TrimSpace (split_on nl content)) of
        None \<Rightarrow> []
      | Some l \<Rightarrow> drop 2 l)"

text \<open>The last element of a path that names a file.\<close>

definition path_base :: "string \<Rightarrow> string" where
  "path_base path = last (split_on (CHR ''/'') path)"

definition document_id :: "string \<Rightarrow> frontmatter \<Rightarrow> string" where
  "document_id rel fm = (let d = TrimSpace (fm_DocID fm) in if d = [] then rel else d)"

definition chunk_id :: "string \<Rightarrow> nat \<Rightarrow> string" where
  "chunk_id docID i = docID @ ''#'' @ dec_nat i"

definition document_chunks :: "Splitter \<Rightarrow> (string \<Rightarrow> frontmatter) \<Rightarrow> string \<Rightarrow> string \<Rightarrow> string \<Rightarrow> Chunk list" where
  "document_chunks sp yaml path rel content =
     (case parseFrontmatter yaml content of (fm, body) \<Rightarrow>
      let docID = document_id rel fm;
          title = (if fm_Title fm = [] then extractHeading body else fm_Title fm)
      in map (\<lambda>(i, piece).
           \<lparr> ck_ID = chunk_id docID i, ck_DocID = docID, ck_Source = path_base path,
             ck_DocType = docTypeFromPath rel, ck_Service = fm_Service fm, ck_Component = fm_Component fm,
             ck_IncidentType = fm_IncidentType fm, ck_ProductVersion = fm_ProductVersion fm,
             ck_SourceKind = fm_SourceKind fm, ck_SourceURL = fm_SourceURL fm,
             ck_LastVerifiedAt = fm_LastVerifiedAt fm, ck_Title = title, ck_Content = piece,
             ck_Severity = fm_Severity fm, ck_Tags = fm_Tags fm \<rparr>)
         (enumerate 0 (Split sp body)))"

section \<open>The directory\<close>

text \<open>An entry of the walk: an error of the walk itself, a directory, or a file with its path, the path
  relative to the documents and what reading it gives.\<close>

datatype walk_entry =
    WalkError gerror
  | WalkDirectory string
  | WalkFile string string "gerror + string"

fun Load :: "Splitter \<Rightarrow> (string \<Rightarrow> frontmatter) \<Rightarrow> walk_entry list \<Rightarrow> Chunk list \<times> gerror option" where
  "Load sp yaml [] = ([], None)"
| "Load sp yaml (WalkError e # rest) = ([], Some e)"
| "Load sp yaml (WalkDirectory d # rest) = Load sp yaml rest"
| "Load sp yaml (WalkFile path rel content # rest) =
     (if \<not> suffix ''.md'' path then Load sp yaml rest
      else case content of
        Inl e \<Rightarrow> ([], Some e)
      | Inr text \<Rightarrow>
          (case Load sp yaml rest of (cs, err) \<Rightarrow> (document_chunks sp yaml path rel text @ cs, err)))"

text \<open>\<open>New\<close> replaces a missing splitter by one of the default size.\<close>

definition loader_splitter :: "Splitter option \<Rightarrow> Splitter" where
  "loader_splitter sp = (case sp of None \<Rightarrow> splitter_New 0 | Some s \<Rightarrow> s)"

section \<open>The chunks of a directory\<close>

lemma last_separator:
  assumes "c \<notin> set x" and "c \<notin> set y" and "a @ c # x = b @ c # y"
  shows "a = b \<and> x = y"
proof -
  have "takeWhile (\<lambda>d. d \<noteq> c) (rev (u @ c # v)) = rev v" if "c \<notin> set v" for u v
    using that by (auto simp: takeWhile_append)
  from this [OF assms(1), of a] this [OF assms(2), of b] assms(3) have "rev x = rev y" by metis
  with assms(3) show ?thesis by simp
qed

lemma chunk_id_inj: "chunk_id d i = chunk_id e j \<longleftrightarrow> d = e \<and> i = j"
proof -
  have "CHR ''#'' \<notin> set (dec_nat n)" for n using dec_nat_digits [of "CHR ''#''" n] by (auto simp: byte_def)
  then show ?thesis using last_separator [of "CHR ''#''" "dec_nat i" "dec_nat j" d e] by (auto simp: chunk_id_def)
qed

fun doc_ids :: "(string \<Rightarrow> frontmatter) \<Rightarrow> walk_entry list \<Rightarrow> string list" where
  "doc_ids yaml (WalkFile path rel (Inr text) # rest) =
     (if suffix ''.md'' path then document_id rel (fst (parseFrontmatter yaml text)) # doc_ids yaml rest
      else doc_ids yaml rest)"
| "doc_ids yaml (_ # rest) = doc_ids yaml rest"
| "doc_ids yaml [] = []"

lemma document_chunks_ids:
  "map ck_ID (document_chunks sp yaml path rel content) =
     (case parseFrontmatter yaml content of (fm, body) \<Rightarrow> map (chunk_id (document_id rel fm)) [0..<length (Split sp body)])"
  by (auto simp: document_chunks_def Let_def enumerate_eq_zip comp_def case_prod_unfold map_fst_zip simp flip: map_map
      split: prod.split intro!: nth_equalityI)

lemma document_chunks_content:
  "map ck_Content (document_chunks sp yaml path rel content) = Split sp (snd (parseFrontmatter yaml content))"
  by (auto simp: document_chunks_def Let_def enumerate_eq_zip case_prod_unfold intro!: nth_equalityI)

lemma document_chunks_doc:
  "c \<in> set (document_chunks sp yaml path rel content) \<Longrightarrow>
    ck_DocID c = document_id rel (fst (parseFrontmatter yaml content))"
  by (auto simp: document_chunks_def Let_def case_prod_unfold)

lemma document_chunks_id:
  "c \<in> set (document_chunks sp yaml path rel content) \<Longrightarrow>
    \<exists>n. ck_ID c = chunk_id (document_id rel (fst (parseFrontmatter yaml content))) n"
  by (auto simp: document_chunks_def Let_def case_prod_unfold)

lemma Load_ids:
  "c \<in> set (fst (Load sp yaml entries)) \<Longrightarrow> \<exists>d n. d \<in> set (doc_ids yaml entries) \<and> ck_ID c = chunk_id d n"
proof (induction entries rule: Load.induct)
  case (4 sp yaml path rel content rest)
  then show ?case by (auto split: sum.splits if_splits prod.splits dest: document_chunks_id)
qed auto

lemma no_frontmatter_fst: "fst (parseFrontmatter (\<lambda>_. no_frontmatter) t) = no_frontmatter"
  by (simp add: parseFrontmatter_def Let_def split: list.split)

lemma Load_content: "c \<in> set (fst (Load sp yaml entries)) \<Longrightarrow> \<exists>body. ck_Content c \<in> set (Split sp body)"
proof (induction entries rule: Load.induct)
  case (4 sp yaml path rel content rest)
  have "ck_Content c \<in> set (Split sp (snd (parseFrontmatter yaml t)))" if "c \<in> set (document_chunks sp yaml path rel t)" for t
    using imageI [OF that, of ck_Content] by (metis document_chunks_content set_map)
  with 4 show ?case by (auto split: sum.splits if_splits prod.splits)
qed auto

text \<open>Every chunk of the knowledge base has an identifier of its own: where no two documents share a
  document id, the identifiers of the chunks \<open>Load\<close> returns are distinct, whatever characters the
  document ids contain.\<close>

theorem chunk_ids_are_distinct:
  assumes "distinct (doc_ids yaml entries)"
  shows "distinct (map ck_ID (fst (Load sp yaml entries)))"
  using assms
proof (induction entries rule: Load.induct)
  case (4 sp yaml path rel content rest)
  show ?case
  proof (cases "suffix ''.md'' path \<and> (\<exists>t. content = Inr t)")
    case True
    then obtain t where t: "content = Inr t" by blast
    let ?d = "document_id rel (fst (parseFrontmatter yaml t))"
    have new: "?d \<notin> set (doc_ids yaml rest)" "distinct (doc_ids yaml rest)" using "4.prems" True t by auto
    have "distinct (map ck_ID (document_chunks sp yaml path rel t))"
      by (subst document_chunks_ids) (auto simp: distinct_map inj_on_def chunk_id_inj split: prod.split)
    moreover have "set (map ck_ID (document_chunks sp yaml path rel t)) \<inter> set (map ck_ID (fst (Load sp yaml rest))) = {}"
    proof -
      have "ck_ID c \<noteq> ck_ID c'" if "c \<in> set (document_chunks sp yaml path rel t)" "c' \<in> set (fst (Load sp yaml rest))" for c c'
        using document_chunks_id [OF that(1)] Load_ids [OF that(2)] new(1) by (auto simp: chunk_id_inj)
      then show ?thesis by auto
    qed
    moreover have "distinct (map ck_ID (fst (Load sp yaml rest)))" using 4(2) True t new(2) by simp
    ultimately show ?thesis using True t by (simp add: case_prod_unfold)
  next
    case False
    then show ?thesis using 4 by (auto split: sum.splits)
  qed
qed auto

lemma chunk_ids_are_distinct_witness:
  "distinct (map ck_ID (fst (Load (splitter_New 2) (\<lambda>_. no_frontmatter)
     [WalkFile ''docs/a.md'' ''a.md'' (Inr ''a b''), WalkFile ''docs/b.md'' ''b.md'' (Inr ''c d'')])))"
  by (rule chunk_ids_are_distinct)
     (simp add: suffix_to_prefix no_frontmatter_fst document_id_def, simp add: no_frontmatter_def TrimSpace_def)

end
