(* ===== verification/Vector_Store.thy ===== *)
theory Vector_Store
  imports Loader Incident_Model
begin

text \<open>
  Vector stores and embedders (\<open>src/internal/knowledge/vectorstore/vectorstore.go\<close>,
  \<open>src/internal/knowledge/embedding/embedding.go\<close>): the two interfaces of the retriever as records of
  operations on the state \<open>'w\<close> of the outside world, the contract indexing relies on, and the in-memory
  store with its cosine similarity. A component of a vector is a \<open>float32\<close>.
\<close>

type_synonym vec = "float64 list"

record Point =
  pt_ID :: string
  pt_Vector :: vec
  pt_Payload :: payload

record SearchResult =
  sr_ID :: string
  sr_Score :: float64
  sr_Payload :: payload

text \<open>A search that panics (an index out of range) is \<open>None\<close>.\<close>

record 'w VectorStore =
  vs_Upsert :: "ctx \<Rightarrow> Point list \<Rightarrow> 'w \<Rightarrow> gerror option \<times> 'w"
  vs_Search :: "ctx \<Rightarrow> vec \<Rightarrow> int \<Rightarrow> 'w \<Rightarrow> (gerror + SearchResult list) option \<times> 'w"
  vs_Hashes :: "ctx \<Rightarrow> 'w \<Rightarrow> (gerror + (string \<rightharpoonup> string)) \<times> 'w"

record 'w Embedder =
  em_Embed :: "ctx \<Rightarrow> string list \<Rightarrow> 'w \<Rightarrow> (gerror + vec list) \<times> 'w"

section \<open>The contract of an index\<close>

text \<open>
  \<open>hashes\<close> is what the store holds: the hash of every point that has one. Reading the hashes changes
  nothing, a successful upsert of one point sets its hash, and the embedder does not touch the store.
\<close>

definition payload_hash :: "payload \<Rightarrow> string option" where
  "payload_hash p = (case p ''chunk_hash'' of Some (VStr h) \<Rightarrow> if h \<noteq> [] then Some h else None | _ \<Rightarrow> None)"

locale vector_index =
  fixes store :: "'w VectorStore" and embedder :: "'w Embedder" and hashes :: "'w \<Rightarrow> string \<rightharpoonup> string"
  assumes hashes_read: "vs_Hashes store c w = (Inr h, w') \<Longrightarrow> h = hashes w \<and> w' = w"
    and upsert_one: "vs_Upsert store c [p] w = (None, w') \<Longrightarrow> payload_hash (pt_Payload p) = Some k
      \<Longrightarrow> hashes w' = (hashes w)(pt_ID p \<mapsto> k)"
    and embed_keeps: "em_Embed embedder c ts w = (r, w') \<Longrightarrow> hashes w' = hashes w"

section \<open>The in-memory store\<close>

text \<open>The map of points is an association list, so the order in which a search visits it is its order.\<close>

type_synonym mem_points = "(string \<times> Point) list"

definition mem_Upsert :: "Point list \<Rightarrow> mem_points \<Rightarrow> mem_points" where
  "mem_Upsert ps m = fold (\<lambda>p. AList.update (pt_ID p) p) ps m"

definition mem_Hashes :: "mem_points \<Rightarrow> string \<rightharpoonup> string" where
  "mem_Hashes m = (\<lambda>pid. case map_of m pid of None \<Rightarrow> None | Some p \<Rightarrow> payload_hash (pt_Payload p))"

definition to_float32 :: "float64 \<Rightarrow> float64" where
  "to_float32 x = (case x of Fin q \<Rightarrow> fl binary32 q | _ \<Rightarrow> x)"

abbreviation f32_add where "f32_add \<equiv> f_add binary32"
abbreviation f32_mul where "f32_mul \<equiv> f_mul binary32"

text \<open>The loop of \<open>cosine\<close> runs over the indices of the first vector and panics past the end of the
  second.\<close>

definition cosine :: "(float64 \<Rightarrow> float64) \<Rightarrow> vec \<Rightarrow> vec \<Rightarrow> float64 option" where
  "cosine sqrtf a b =
     (if length b < length a then None
      else case fold (\<lambda>(x, y) (dot, na, nb).
                  (f32_add dot (f32_mul x y), f32_add na (f32_mul x x), f32_add nb (f32_mul y y)))
                (zip a b) (Fin 0, Fin 0, Fin 0) of
        (dot, na, nb) \<Rightarrow>
          Some (if f64_eq na (Fin 0) \<or> f64_eq nb (Fin 0) then Fin 0
                else f_div binary32 dot (f32_mul (to_float32 (sqrtf na)) (to_float32 (sqrtf nb)))))"

fun score_points :: "(float64 \<Rightarrow> float64) \<Rightarrow> vec \<Rightarrow> mem_points \<Rightarrow> (string \<times> float64) list option" where
  "score_points sqrtf v [] = Some []"
| "score_points sqrtf v ((pid, p) # m) =
     (case cosine sqrtf v (pt_Vector p) of
        None \<Rightarrow> None
      | Some s \<Rightarrow> map_option ((#) (pid, s)) (score_points sqrtf v m))"

definition mem_Search :: "(float64 \<Rightarrow> float64) \<Rightarrow> vec \<Rightarrow> int \<Rightarrow> mem_points \<Rightarrow> SearchResult list option" where
  "mem_Search sqrtf v topK m =
     (case score_points sqrtf v m of
        None \<Rightarrow> None
      | Some scored \<Rightarrow>
          (let sorted = sort_slice score_first scored;
               first = (if 0 < topK \<and> topK < int (length sorted) then take (nat topK) sorted else sorted)
           in Some (map (\<lambda>(pid, s).
                \<lparr> sr_ID = pid, sr_Score = s,
                  sr_Payload = (case map_of m pid of None \<Rightarrow> Map.empty | Some p \<Rightarrow> pt_Payload p) \<rparr>) first)))"

text \<open>The store as an implementation of the interface, kept in a part of the world.\<close>

definition mem_VectorStore ::
  "(float64 \<Rightarrow> float64) \<Rightarrow> ('w \<Rightarrow> mem_points) \<Rightarrow> ((mem_points \<Rightarrow> mem_points) \<Rightarrow> 'w \<Rightarrow> 'w) \<Rightarrow> 'w VectorStore" where
  "mem_VectorStore sqrtf points upd =
     \<lparr> vs_Upsert = (\<lambda>c ps w. (None, upd (mem_Upsert ps) w)),
       vs_Search = (\<lambda>c v k w. (map_option Inr (mem_Search sqrtf v k (points w)), w)),
       vs_Hashes = (\<lambda>c w. (Inr (mem_Hashes (points w)), w)) \<rparr>"

lemma mem_Hashes_upsert:
  "payload_hash (pt_Payload p) = Some h \<Longrightarrow> mem_Hashes (mem_Upsert [p] m) = (mem_Hashes m)(pt_ID p \<mapsto> h)"
  by (auto simp: mem_Hashes_def mem_Upsert_def update_conv')

text \<open>A world with the store and the texts an embedder has been asked for; the embedder answers with one
  vector per text.\<close>

record demo_world =
  dw_points :: mem_points
  dw_embedded :: "string list"

definition mem_store :: "(float64 \<Rightarrow> float64) \<Rightarrow> demo_world VectorStore" where
  "mem_store sqrtf = mem_VectorStore sqrtf dw_points (\<lambda>f w. w\<lparr> dw_points := f (dw_points w) \<rparr>)"

definition log_embedder :: "(string \<Rightarrow> vec) \<Rightarrow> demo_world Embedder" where
  "log_embedder vec_of =
     \<lparr> em_Embed = (\<lambda>c ts w. (Inr (map vec_of ts), w\<lparr> dw_embedded := dw_embedded w @ ts \<rparr>)) \<rparr>"

interpretation mem_index: vector_index "mem_store sqrtf" "log_embedder vec_of" "\<lambda>w. mem_Hashes (dw_points w)" for sqrtf vec_of
  by unfold_locales (auto simp: mem_store_def mem_VectorStore_def log_embedder_def mem_Hashes_upsert)

section \<open>Searching the in-memory store\<close>

lemma score_points_ids: "score_points sqrtf v m = Some scored \<Longrightarrow> map fst scored = map fst m"
  by (induction m arbitrary: scored) (auto split: option.splits)

lemma score_points_scores:
  "score_points sqrtf v m = Some scored \<Longrightarrow> (i, s) \<in> set scored \<Longrightarrow> \<exists>p. (i, p) \<in> set m \<and> cosine sqrtf v (pt_Vector p) = Some s"
  by (induction m arbitrary: scored) (fastforce split: option.splits)+

lemma mem_Search_cases:
  assumes "mem_Search sqrtf v topK m = Some results" and "distinct (map fst m)"
  obtains scored n where "score_points sqrtf v m = Some scored"
    and "map (\<lambda>r. (sr_ID r, sr_Score r)) results = take n (sort_slice score_first scored)"
    and "0 < topK \<longrightarrow> int (length results) \<le> topK"
    and "\<forall>r \<in> set results. sr_Payload r = (case map_of m (sr_ID r) of None \<Rightarrow> Map.empty | Some p \<Rightarrow> pt_Payload p)"
proof -
  obtain scored where scored: "score_points sqrtf v m = Some scored"
    using assms(1) by (auto simp: mem_Search_def split: option.splits)
  let ?n = "if 0 < topK \<and> topK < int (length scored) then nat topK else length scored"
  have "results = map (\<lambda>(pid, s).
      \<lparr> sr_ID = pid, sr_Score = s, sr_Payload = (case map_of m pid of None \<Rightarrow> Map.empty | Some p \<Rightarrow> pt_Payload p) \<rparr>)
      (take ?n (sort_slice score_first scored))"
    using assms(1) scored by (auto simp: mem_Search_def Let_def)
  then show ?thesis using scored by (intro that [of scored ?n]) (auto simp: comp_def case_prod_unfold)
qed

text \<open>A search of the in-memory store returns points of the store with their similarity, each at most
  once, at most \<open>topK\<close> of them when \<open>topK\<close> is positive, the most similar first where the similarities are
  numbers.\<close>

theorem memory_search_is_ranked:
  assumes "mem_Search sqrtf v topK m = Some results" and "distinct (map fst m)"
    and "list_all (\<lambda>(i, p). cosine sqrtf v (pt_Vector p) \<noteq> Some NaN) m"
  shows "distinct (map sr_ID results)
    \<and> (0 < topK \<longrightarrow> int (length results) \<le> topK)
    \<and> list_all (\<lambda>r. \<exists>p. map_of m (sr_ID r) = Some p \<and> cosine sqrtf v (pt_Vector p) = Some (sr_Score r)
        \<and> sr_Payload r = pt_Payload p) results
    \<and> sorted_wrt (\<lambda>x y. \<not> f64_lt (sr_Score x) (sr_Score y)) results"
proof -
  obtain scored n where scored: "score_points sqrtf v m = Some scored"
    and rs: "map (\<lambda>r. (sr_ID r, sr_Score r)) results = take n (sort_slice score_first scored)" (is "_ = take n ?sorted")
    and len: "0 < topK \<longrightarrow> int (length results) \<le> topK"
    and payload: "\<forall>r \<in> set results. sr_Payload r = (case map_of m (sr_ID r) of None \<Rightarrow> Map.empty | Some p \<Rightarrow> pt_Payload p)"
    using mem_Search_cases [OF assms(1,2)] by blast
  have "map sr_ID results = map fst (take n ?sorted)" using arg_cong [OF rs, of "map fst"] by (simp add: comp_def)
  moreover have "distinct (map fst ?sorted)" using score_points_ids [OF scored] assms(2) by simp
  ultimately have distinct: "distinct (map sr_ID results)" by (simp flip: take_map)
  have member: "\<exists>p. map_of m (sr_ID r) = Some p \<and> cosine sqrtf v (pt_Vector p) = Some (sr_Score r)" if "r \<in> set results" for r
  proof -
    have "(sr_ID r, sr_Score r) \<in> set (map (\<lambda>r. (sr_ID r, sr_Score r)) results)" using that by auto
    then have "(sr_ID r, sr_Score r) \<in> set ?sorted" unfolding rs by (rule in_set_takeD)
    then have "(sr_ID r, sr_Score r) \<in> set scored" by simp
    from score_points_scores [OF scored this] show ?thesis using assms(2) by auto
  qed
  have "list_all numeric scored"
    using score_points_scores [OF scored] assms(3) by (fastforce simp: list_all_iff numeric_def)
  then have "sorted_wrt (\<lambda>x y. \<not> score_first y x) ?sorted" by (rule by_score.sort_slice_sorted)
  then have "sorted_wrt (\<lambda>x y. \<not> score_first y x) (map (\<lambda>r. (sr_ID r, sr_Score r)) results)"
    unfolding rs by (rule sorted_wrt_take)
  then have "sorted_wrt (\<lambda>x y. \<not> f64_lt (sr_Score x) (sr_Score y)) results"
    by (simp add: sorted_wrt_map score_first_def)
  with distinct len member payload show ?thesis by (fastforce simp: list_all_iff)
qed

lemma demo_cosine: "cosine (\<lambda>x. x) [Fin 1] [Fin 1] = Some (Fin 1)"
  by code_simp

lemma memory_search_is_ranked_witness:
  "\<exists>results. mem_Search (\<lambda>x. x) [Fin 1] 1
      [(''a'', \<lparr> pt_ID = ''a'', pt_Vector = [Fin 1], pt_Payload = Map.empty \<rparr>)] = Some results
    \<and> distinct (map sr_ID results)"
proof -
  let ?m = "[(''a'', \<lparr> pt_ID = ''a'', pt_Vector = [Fin 1], pt_Payload = Map.empty \<rparr>)]"
  obtain results where r: "mem_Search (\<lambda>x. x) [Fin 1] 1 ?m = Some results"
    by (simp add: mem_Search_def demo_cosine)
  then show ?thesis using memory_search_is_ranked [OF r] demo_cosine by auto
qed

end
