(* ===== verification/Retriever.thy ===== *)
theory Retriever
  imports Vector_Store
begin

text \<open>
  Hybrid retrieval (\<open>src/internal/knowledge/retriever/retriever.go\<close>): chunks ranked by Okapi BM25 and by
  vector search, the two rankings fused by reciprocal ranks, and the best candidates reordered by a
  reranker when there is one; and the incremental index of the chunks. The Unicode tables and \<open>math.Log\<close>
  are arguments. A Go map that is iterated over is an association list with distinct keys.
  \<open>Result.ToEvidence\<close>, which only a test calls, is left out.
\<close>

section \<open>Terms\<close>

text \<open>What the program asks of the Unicode tables: \<open>strings.ToLower\<close>, and whether a rune is a Han character
  or a letter or digit. An invalid byte is read as U+FFFD.\<close>

record unicode =
  u_lower :: "string \<Rightarrow> string"
  u_Han :: "string \<Rightarrow> bool"
  u_word :: "string \<Rightarrow> bool"

definition rune_value :: "string \<Rightarrow> string" where
  "rune_value r = (if valid_rune r then r else utf8_bytes [0xEF, 0xBF, 0xBD])"

definition flush_word :: "string \<Rightarrow> string list" where
  "flush_word word = (if word \<noteq> [] then [word] else [])"

text \<open>One rune: the terms so far, the word that is open, and the Han character just before.\<close>

definition tok_rune :: "unicode \<Rightarrow> string \<Rightarrow> string list \<times> string \<times> string option \<Rightarrow> string list \<times> string \<times> string option" where
  "tok_rune u r st =
     (case st of (out, word, prev) \<Rightarrow>
      if u_Han u r
      then (out @ flush_word word @ [r] @ (case prev of None \<Rightarrow> [] | Some p \<Rightarrow> [p @ r]), [], Some r)
      else if u_word u r then (out, word @ r, None)
      else (out @ flush_word word, [], None))"

definition rtokenize :: "unicode \<Rightarrow> string \<Rightarrow> string list" where
  "rtokenize u s =
     (case fold (tok_rune u) (map rune_value (runes (u_lower u s))) ([], [], None) of
        (out, word, _) \<Rightarrow> out @ flush_word word)"

definition uniqueTerms :: "string list \<Rightarrow> string list" where
  "uniqueTerms terms = keep_first {} terms"

section \<open>Lexical ranks\<close>

definition f64_const :: "rat \<Rightarrow> float64" where
  "f64_const q = fl binary64 q"

record bm_document =
  bd_id :: string
  bd_terms :: "string list"

definition bm_documents :: "unicode \<Rightarrow> Chunk list \<Rightarrow> bm_document list" where
  "bm_documents u chunks = map (\<lambda>c. \<lparr> bd_id = ck_ID c, bd_terms = rtokenize u (ck_Title c @ [nl] @ ck_Content c) \<rparr>) chunks"

definition docFreq :: "bm_document list \<Rightarrow> string \<Rightarrow> nat" where
  "docFreq docs term = length (filter (\<lambda>d. term \<in> set (bd_terms d)) docs)"

text \<open>The summand of a query term: \<open>k1\<close> is 1.2 and \<open>b\<close> is 0.75, and constant expressions are exact.\<close>

definition term_score :: "(float64 \<Rightarrow> float64) \<Rightarrow> nat \<Rightarrow> float64 \<Rightarrow> nat \<Rightarrow> nat \<Rightarrow> nat \<Rightarrow> float64" where
  "term_score logf n averageLength df freq len =
     (let frequency = f64_int freq; documentFrequency = f64_int df;
          idf = logf (f64_add (Fin 1)
                  (f64_div (f64_add (f64_sub (f64_int n) documentFrequency) (Fin (1/2)))
                           (f64_add documentFrequency (Fin (1/2)))));
          lengthRatio = f64_div (f64_int len) averageLength
      in f64_div (f64_mul (f64_mul idf frequency) (f64_const (22/10)))
           (f64_add frequency
             (f64_mul (f64_const (12/10)) (f64_add (Fin (1/4)) (f64_mul (Fin (3/4)) lengthRatio)))))"

definition bm_score :: "(float64 \<Rightarrow> float64) \<Rightarrow> bm_document list \<Rightarrow> float64 \<Rightarrow> string list \<Rightarrow> bm_document \<Rightarrow> float64" where
  "bm_score logf docs averageLength queryTerms d =
     fold (\<lambda>term score.
        let freq = count_list (bd_terms d) term in
        if freq = 0 then score
        else f64_add score (term_score logf (length docs) averageLength (docFreq docs term) freq (length (bd_terms d))))
      queryTerms (Fin 0)"

text \<open>The position of every identifier in a list, from 1; of an identifier that occurs twice, its last.\<close>

definition positions :: "string list \<Rightarrow> (string \<times> nat) list" where
  "positions ids = fold (\<lambda>(i, pid). AList.update pid (i + 1)) (enumerate 0 ids) []"

definition bm25Ranks :: "unicode \<Rightarrow> (float64 \<Rightarrow> float64) \<Rightarrow> string \<Rightarrow> Chunk list \<Rightarrow> (string \<times> nat) list" where
  "bm25Ranks u logf query chunks =
     (let queryTerms = uniqueTerms (rtokenize u query);
          docs = bm_documents u chunks;
          totalTerms = sum_list (map (length \<circ> bd_terms) docs)
      in if queryTerms = [] \<or> chunks = [] then []
         else if totalTerms = 0 then []
         else let averageLength = f64_div (f64_int totalTerms) (f64_int (length docs));
                  items = filter (\<lambda>it. f64_lt (Fin 0) (snd it))
                    (map (\<lambda>d. (bd_id d, bm_score logf docs averageLength queryTerms d)) docs)
              in positions (map fst (sort_slice (score_then_name (\<lambda>i. i)) items)))"

section \<open>Fusion\<close>

definition add_ranks :: "(string \<times> nat) list \<Rightarrow> (string \<times> nat list) list \<Rightarrow> (string \<times> nat list) list" where
  "add_ranks ranking ranks =
     fold (\<lambda>(pid, r) m. AList.update pid ((case map_of m pid of None \<Rightarrow> [] | Some rs \<Rightarrow> rs) @ [r]) m) ranking ranks"

definition rrf_score :: "nat list \<Rightarrow> nat \<Rightarrow> float64" where
  "rrf_score rs k = fold (\<lambda>r s. f64_add s (f64_div (Fin 1) (f64_int (k + r)))) rs (Fin 0)"

definition rrfScores :: "(string \<times> nat list) list \<Rightarrow> nat \<Rightarrow> (string \<times> float64) list" where
  "rrfScores ranks k = map (\<lambda>(pid, rs). (pid, rrf_score rs k)) ranks"

section \<open>The retriever\<close>

record 'w Reranker =
  re_Rerank :: "ctx \<Rightarrow> string \<Rightarrow> string list \<Rightarrow> 'w \<Rightarrow> (gerror + float64 list) \<times> 'w"

record 'w Hybrid =
  hy_chunks :: "Chunk list"
  hy_embedder :: "'w Embedder"
  hy_vector :: "'w VectorStore"
  hy_reranker :: "'w Reranker option"
  hy_rrfK :: nat
  hy_candidateK :: int
  hy_rerankCandidateK :: int

definition NewHybrid :: "Chunk list \<Rightarrow> 'w Embedder \<Rightarrow> 'w VectorStore \<Rightarrow> int \<Rightarrow> 'w Hybrid" where
  "NewHybrid chunks embedder vector candidateK =
     \<lparr> hy_chunks = chunks, hy_embedder = embedder, hy_vector = vector, hy_reranker = None, hy_rrfK = 60,
       hy_candidateK = (if candidateK \<le> 0 then 20 else candidateK), hy_rerankCandidateK = 0 \<rparr>"

definition WithReranker :: "'w Hybrid \<Rightarrow> 'w Reranker \<Rightarrow> int \<Rightarrow> 'w Hybrid" where
  "WithReranker h reranker candidateK =
     h\<lparr> hy_reranker := Some reranker,
        hy_rerankCandidateK := (if candidateK \<le> 0 then hy_candidateK h else candidateK) \<rparr>"

text \<open>One embedded text: \<open>one_vector\<close> is the check that exactly one non-empty vector came back.\<close>

definition one_vector :: "string \<Rightarrow> vec list \<Rightarrow> gerror + vec" where
  "one_vector what vecs =
     (case vecs of [v] \<Rightarrow> if v = [] then Inl (plain_err (what @ '': expected one non-empty vector'')) else Inr v
      | _ \<Rightarrow> Inl (plain_err (what @ '': expected one non-empty vector'')))"

definition vectorRanks ::
  "'w Hybrid \<Rightarrow> ctx \<Rightarrow> string \<Rightarrow> int \<Rightarrow> 'w \<Rightarrow> (gerror + (string \<times> nat) list) option \<times> 'w" where
  "vectorRanks h c query k w =
     (case em_Embed (hy_embedder h) c [query] w of
        (Inl e, w) \<Rightarrow> (Some (Inl e), w)
      | (Inr vecs, w) \<Rightarrow>
          (case one_vector ''embed query'' vecs of
             Inl e \<Rightarrow> (Some (Inl e), w)
           | Inr v \<Rightarrow>
               (case vs_Search (hy_vector h) c v k w of
                  (None, w) \<Rightarrow> (None, w)
                | (Some (Inl e), w) \<Rightarrow> (Some (Inl e), w)
                | (Some (Inr results), w) \<Rightarrow> (Some (Inr (positions (map sr_ID results))), w))))"

type_synonym result = "Chunk \<times> float64"

text \<open>The candidates: the fused scores of the identifiers that are chunks, best first.\<close>

definition candidates :: "'w Hybrid \<Rightarrow> (string \<times> nat) list \<Rightarrow> (string \<times> nat) list \<Rightarrow> result list" where
  "candidates h lexical similar =
     (let scores = rrfScores (add_ranks similar (add_ranks lexical [])) (hy_rrfK h);
          chunkMap = fold (\<lambda>c m. m(ck_ID c \<mapsto> c)) (hy_chunks h) Map.empty
      in sort_slice (score_then_name ck_ID)
           (List.map_filter (\<lambda>(pid, s). map_option (\<lambda>c. (c, s)) (chunkMap pid)) scores))"

definition rerank ::
  "'w Hybrid \<Rightarrow> ctx \<Rightarrow> string \<Rightarrow> int \<Rightarrow> result list \<Rightarrow> 'w \<Rightarrow> (gerror + result list) \<times> 'w" where
  "rerank h c query topK list w =
     (case hy_reranker h of
        None \<Rightarrow> (Inr list, w)
      | Some r \<Rightarrow>
          if list = [] then (Inr list, w)
          else let list = take (nat (min (max (hy_rerankCandidateK h) topK) (int (length list)))) list;
                   documents = map (\<lambda>(ch, s). ck_Title ch @ [nl] @ ck_Content ch) list
               in (case re_Rerank r c query documents w of
                     (Inl e, w) \<Rightarrow> (Inl (wrap_err ''rerank candidates: '' e), w)
                   | (Inr scores, w) \<Rightarrow>
                       if length scores \<noteq> length list
                       then (Inl (plain_err (''reranker returned '' @ dec_nat (length scores) @ '' scores for ''
                              @ dec_nat (length list) @ '' candidates'')), w)
                       else (Inr (sort_slice score_first (zip (map fst list) scores)), w)))"

definition Retrieve ::
  "unicode \<Rightarrow> (float64 \<Rightarrow> float64) \<Rightarrow> 'w Hybrid \<Rightarrow> ctx \<Rightarrow> string \<Rightarrow> int \<Rightarrow> 'w \<Rightarrow> (gerror + result list) option \<times> 'w" where
  "Retrieve u logf h c query topK0 w =
     (let topK = (if topK0 \<le> 0 then 5 else topK0) in
      case vectorRanks h c query (max (hy_candidateK h) topK) w of
        (None, w) \<Rightarrow> (None, w)
      | (Some (Inl e), w) \<Rightarrow> (Some (Inl e), w)
      | (Some (Inr similar), w) \<Rightarrow>
          (case rerank h c query topK (candidates h (bm25Ranks u logf query (hy_chunks h)) similar) w of
             (Inl e, w) \<Rightarrow> (Some (Inl e), w)
           | (Inr list, w) \<Rightarrow> (Some (Inr (take (nat topK) list)), w)))"

section \<open>The index\<close>

definition chunkHash :: "Chunk \<Rightarrow> string" where
  "chunkHash ch = hex_EncodeToString (sha256_Sum256 (ck_Content ch))"

definition chunk_point :: "Chunk \<Rightarrow> vec \<Rightarrow> Point" where
  "chunk_point ch v =
     \<lparr> pt_ID = ck_ID ch, pt_Vector = v,
       pt_Payload = [''doc_id'' \<mapsto> VStr (ck_DocID ch), ''source'' \<mapsto> VStr (ck_Source ch),
         ''doc_type'' \<mapsto> VStr (ck_DocType ch), ''service'' \<mapsto> VStr (ck_Service ch),
         ''component'' \<mapsto> VStr (ck_Component ch), ''incident_type'' \<mapsto> VStr (ck_IncidentType ch),
         ''product_version'' \<mapsto> VStr (ck_ProductVersion ch), ''source_kind'' \<mapsto> VStr (ck_SourceKind ch),
         ''source_url'' \<mapsto> VStr (ck_SourceURL ch), ''last_verified_at'' \<mapsto> VStr (ck_LastVerifiedAt ch),
         ''severity'' \<mapsto> VStr (ck_Severity ch), ''chunk_hash'' \<mapsto> VStr (chunkHash ch)] \<rparr>"

fun index_chunks :: "'w Hybrid \<Rightarrow> ctx \<Rightarrow> (string \<rightharpoonup> string) \<Rightarrow> Chunk list \<Rightarrow> 'w \<Rightarrow> gerror option \<times> 'w" where
  "index_chunks h c existing [] w = (None, w)"
| "index_chunks h c existing (ch # chs) w =
     (if (case existing (ck_ID ch) of None \<Rightarrow> [] | Some s \<Rightarrow> s) = chunkHash ch then index_chunks h c existing chs w
      else case em_Embed (hy_embedder h) c [ck_Content ch] w of
        (Inl e, w) \<Rightarrow> (Some e, w)
      | (Inr vecs, w) \<Rightarrow>
          (case one_vector (''embed chunk '' @ ck_ID ch) vecs of
             Inl e \<Rightarrow> (Some e, w)
           | Inr v \<Rightarrow>
               (case vs_Upsert (hy_vector h) c [chunk_point ch v] w of
                  (Some e, w) \<Rightarrow> (Some (wrap_err (''upsert chunk '' @ ck_ID ch @ '': '') e), w)
                | (None, w) \<Rightarrow> index_chunks h c existing chs w)))"

definition Index :: "'w Hybrid \<Rightarrow> ctx \<Rightarrow> 'w \<Rightarrow> gerror option \<times> 'w" where
  "Index h c w =
     (case vs_Hashes (hy_vector h) c w of
        (Inl e, w) \<Rightarrow> (Some e, w)
      | (Inr existing, w) \<Rightarrow> index_chunks h c existing (hy_chunks h) w)"

section \<open>Positions and fusion\<close>

lemma fold_update_keys:
  "fst ` set (fold (\<lambda>x m. AList.update (key x) (val x m) m) xs al) = key ` set xs \<union> fst ` set al"
  by (induction xs arbitrary: al) (auto simp: dom_update)

lemma fold_update_distinct:
  "distinct (map fst al) \<Longrightarrow> distinct (map fst (fold (\<lambda>x m. AList.update (key x) (val x m) m) xs al))"
  by (induction xs arbitrary: al) (auto simp: distinct_update)

lemma positions_keys: "distinct (map fst (positions ids))" "fst ` set (positions ids) = set ids"
  using fold_update_distinct [of "[]" snd "\<lambda>x m. fst x + 1" "enumerate 0 ids"]
    fold_update_keys [of snd "\<lambda>x m. fst x + 1" "enumerate 0 ids" "[]"]
  by (simp_all add: positions_def case_prod_unfold flip: set_map)

lemma add_ranks_keys: "fst ` set (add_ranks ranking m) = fst ` set ranking \<union> fst ` set m"
  by (simp add: add_ranks_def case_prod_unfold fold_update_keys)

lemma add_ranks_distinct: "distinct (map fst m) \<Longrightarrow> distinct (map fst (add_ranks ranking m))"
  by (simp add: add_ranks_def case_prod_unfold fold_update_distinct)

definition f_nonneg :: "float64 \<Rightarrow> bool" where
  "f_nonneg x = (case x of Fin q \<Rightarrow> 0 \<le> q | PosInf \<Rightarrow> True | _ \<Rightarrow> False)"

lemma fl_nonneg: "0 \<le> q \<Longrightarrow> f_nonneg (fl f q)"
  using fround_nonneg [of q f] by (auto simp: fl_def f_nonneg_def Let_def)

lemma fl_mono: "0 \<le> p \<Longrightarrow> p \<le> q \<Longrightarrow> 0 < fst f \<Longrightarrow> f64_le (fl f p) (fl f q)"
  using fround_mono [of p q f] fround_nonneg [of p f] fround_nonneg [of q f] by (auto simp: fl_def Let_def)

lemma f_nonneg_add: "f_nonneg x \<Longrightarrow> f_nonneg y \<Longrightarrow> f_nonneg (f_add f x y)"
  by (cases x; cases y) (auto simp: f_nonneg_def intro: fl_nonneg [unfolded f_nonneg_def])

lemma fl_le_PosInf: "f64_le (fl f q) PosInf"
  by (auto simp: fl_def Let_def)

lemma f_add_mono:
  "f_nonneg x \<Longrightarrow> f_nonneg y \<Longrightarrow> f64_le x x' \<Longrightarrow> f64_le y y' \<Longrightarrow> 0 < fst f \<Longrightarrow> f64_le (f_add f x y) (f_add f x' y')"
  by (cases x; cases y; cases x'; cases y') (auto simp: f_nonneg_def fl_mono fl_le_PosInf)

lemma f64_int_nonneg: "f_nonneg (f64_int n)"
  by (simp add: f64_int_def fl_nonneg)

lemma f64_le_trans: "f64_le x y \<Longrightarrow> f64_le y z \<Longrightarrow> f64_le x z"
  by (cases x; cases y; cases z) auto

lemma f64_le_refl: "f_nonneg x \<Longrightarrow> f64_le x x"
  by (cases x) (auto simp: f_nonneg_def)

text \<open>The contribution of a rank falls with the rank.\<close>

definition rank_share :: "nat \<Rightarrow> nat \<Rightarrow> float64" where
  "rank_share k r = f64_div (Fin 1) (f64_int (k + r))"

lemma binary64_bits [simp]: "0 < fst binary64"
  by (simp add: binary64_def)

lemma f64_int_cases: "f64_int n = PosInf \<or> (\<exists>q. f64_int n = Fin q \<and> 0 \<le> q)"
  using f64_int_nonneg [of n] by (cases "f64_int n") (auto simp: f_nonneg_def)

lemma rank_share_nonneg: "f_nonneg (rank_share k r)"
  using f64_int_cases [of "k + r"]
  by (auto simp: rank_share_def f_div_def signed_inf_def fl_nonneg) (auto simp: f_nonneg_def)

lemma rank_share_mono:
  assumes "r \<le> r'"
  shows "f64_le (rank_share k r') (rank_share k r)"
proof -
  have "f64_le (f64_int (k + r)) (f64_int (k + r'))"
    using assms by (simp add: f64_int_def fl_mono flip: of_nat_add)
  then consider p q where "f64_int (k + r) = Fin p" "f64_int (k + r') = Fin q" "p \<le> q" "0 \<le> p"
    | "f64_int (k + r') = PosInf"
    using f64_int_cases [of "k + r"] f64_int_cases [of "k + r'"] by auto
  then show ?thesis
  proof cases
    case 1
    then have "1 / q \<le> 1 / p" if "p \<noteq> 0" using that by (intro divide_left_mono) auto
    with 1 show ?thesis
      by (auto simp: rank_share_def f_div_def signed_inf_def fl_mono fl_le_PosInf)
  next
    case 2
    then show ?thesis using rank_share_nonneg [of k r]
      by (cases "rank_share k r") (auto simp: rank_share_def f_div_def f_nonneg_def)
  qed
qed

lemma rrf_score_snoc: "rrf_score (rs @ [r]) k = f64_add (rrf_score rs k) (rank_share k r)"
  by (simp add: rrf_score_def rank_share_def)

lemma rrf_score_nonneg: "f_nonneg (rrf_score rs k)"
proof (induction rs rule: rev_induct)
  case (snoc r rs)
  then show ?case by (simp add: rrf_score_snoc f_nonneg_add rank_share_nonneg)
qed (simp add: rrf_score_def f_nonneg_def)

definition f64_value :: "float64 \<Rightarrow> bool" where
  "f64_value x = (case x of Fin q \<Rightarrow> 0 \<le> q \<and> binary64_value q | PosInf \<Rightarrow> True | _ \<Rightarrow> False)"

lemma fl_value: "0 \<le> q \<Longrightarrow> f64_value (fl binary64 q)"
  using fround_value [of q] fround_nonneg [of q binary64] fl_nonneg [of q binary64]
  by (auto simp: fl_def f64_value_def f_nonneg_def Let_def)

lemma f64_add_value: "f_nonneg x \<Longrightarrow> f_nonneg y \<Longrightarrow> f64_value (f64_add x y)"
  by (cases x; cases y) (auto simp: f_nonneg_def fl_value, auto simp: f64_value_def)

lemma rrf_score_value: "f64_value (rrf_score rs k)"
proof (cases rs rule: rev_cases)
  case Nil
  have "binary64_value 0" unfolding binary64_value_def by (intro exI [of _ 0]) simp
  with Nil show ?thesis by (simp add: rrf_score_def f64_value_def)
next
  case (snoc ys y)
  then show ?thesis by (simp add: rrf_score_snoc f64_add_value rrf_score_nonneg rank_share_nonneg)
qed

lemma f64_add_grows: "f64_value x \<Longrightarrow> f_nonneg y \<Longrightarrow> f64_le x (f64_add x y)"
proof -
  assume x: "f64_value x" and y: "f_nonneg y"
  have "f64_le (Fin p) (fl binary64 (p + q))" if "0 \<le> p" "0 \<le> q" "binary64_value p" for p q
  proof -
    have "p \<le> fround binary64 (p + q)"
      using fround_mono [of p "p + q" binary64] fround_exact [OF that(3)] that(1,2) by simp
    with that show ?thesis by (auto simp: fl_def Let_def)
  qed
  with x y show ?thesis by (cases x; cases y) (auto simp: f64_value_def f_nonneg_def)
qed

lemma rrf_score_grows: "f64_le (rrf_score rs k) (rrf_score (rs @ extra) k)"
proof (induction extra rule: rev_induct)
  case (snoc r extra)
  have "f64_le (rrf_score (rs @ extra) k) (rrf_score (rs @ extra @ [r]) k)"
    using f64_add_grows [OF rrf_score_value rank_share_nonneg] rrf_score_snoc [of "rs @ extra" r k] by simp
  with snoc show ?case by (rule f64_le_trans)
qed (simp add: f64_le_refl rrf_score_nonneg)

lemma rrf_score_mono: "list_all2 (\<le>) rs rs' \<Longrightarrow> f64_le (rrf_score rs' k) (rrf_score rs k)"
proof (induction rs arbitrary: rs' rule: rev_induct)
  case Nil
  then show ?case by (simp add: rrf_score_def)
next
  case (snoc r rs)
  then obtain rs2 r2 where "rs' = rs2 @ [r2]" "list_all2 (\<le>) rs rs2" "r \<le> r2"
    by (auto simp: list_all2_append1 list_all2_Cons1)
  with snoc.IH show ?case
    by (simp add: rrf_score_snoc f_add_mono rrf_score_nonneg rank_share_nonneg rank_share_mono)
qed

text \<open>Fusion respects the rankings it fuses: a chunk that is placed at least as high in every ranking as
  another, and maybe in further rankings as well, gets at least the same fused score, with every quotient
  and sum rounded as \<open>float64\<close> rounds.\<close>

theorem fusion_respects_ranks:
  assumes "list_all2 (\<le>) better worse"
  shows "f64_le (rrf_score worse k) (rrf_score (better @ extra) k)"
  using rrf_score_mono [OF assms] rrf_score_grows by (rule f64_le_trans)

lemma fusion_respects_ranks_witness: "f64_le (rrf_score [3, 5] 60) (rrf_score ([1, 5] @ [2]) 60)"
  by (rule fusion_respects_ranks) simp

section \<open>Results\<close>

definition chunk_map :: "Chunk list \<Rightarrow> string \<rightharpoonup> Chunk" where
  "chunk_map chunks = fold (\<lambda>c m. m(ck_ID c \<mapsto> c)) chunks Map.empty"

lemma chunk_map_Some: "chunk_map chunks pid = Some c \<Longrightarrow> c \<in> set chunks \<and> ck_ID c = pid"
proof (induction chunks rule: rev_induct)
  case (snoc x xs)
  then show ?case by (auto simp: chunk_map_def split: if_splits)
qed (simp add: chunk_map_def)

definition found :: "'w Hybrid \<Rightarrow> (string \<times> nat) list \<Rightarrow> (string \<times> nat) list \<Rightarrow> result list" where
  "found h lexical similar =
     List.map_filter (\<lambda>(pid, s). map_option (\<lambda>c. (c, s)) (chunk_map (hy_chunks h) pid))
       (rrfScores (add_ranks similar (add_ranks lexical [])) (hy_rrfK h))"

lemma candidates_found: "candidates h lexical similar = sort_slice (score_then_name ck_ID) (found h lexical similar)"
  by (simp add: candidates_def found_def chunk_map_def Let_def)

lemma map_filter_member: "y \<in> set (List.map_filter f xs) \<Longrightarrow> \<exists>x \<in> set xs. f x = Some y"
  by (auto simp: map_filter_def)

lemma found_member:
  assumes "x \<in> set (found h lexical similar)"
  shows "fst x \<in> set (hy_chunks h) \<and> f_nonneg (snd x) \<and> ck_ID (fst x) \<in> fst ` set lexical \<union> fst ` set similar"
proof -
  let ?ranks = "add_ranks similar (add_ranks lexical [])"
  obtain pid rs c where rs: "(pid, rs) \<in> set ?ranks" and c: "chunk_map (hy_chunks h) pid = Some c"
    and x: "x = (c, rrf_score rs (hy_rrfK h))"
    using map_filter_member [OF assms [unfolded found_def]] by (auto simp: rrfScores_def)
  have "pid \<in> fst ` set lexical \<union> fst ` set similar"
    using imageI [OF rs, of fst] by (auto simp: add_ranks_keys)
  with chunk_map_Some [OF c] show ?thesis by (simp add: x rrf_score_nonneg)
qed

lemma map_filter_ids:
  "(\<And>x c. f x = Some c \<Longrightarrow> g c = fst x) \<Longrightarrow> distinct (map fst xs) \<Longrightarrow> distinct (map g (List.map_filter f xs))"
proof (induction xs)
  case (Cons x xs)
  have "g c \<in> fst ` set xs" if "c \<in> set (List.map_filter f xs)" for c
    using that Cons.prems(1) by (force simp: map_filter_def)
  with Cons show ?case by (fastforce simp: map_filter_simps split: option.split)
qed (simp add: map_filter_simps)

lemma found_distinct: "distinct (map (ck_ID \<circ> fst) (found h lexical similar))"
  unfolding found_def
  by (rule map_filter_ids)
     (auto simp: rrfScores_def case_prod_unfold comp_def add_ranks_distinct dest: chunk_map_Some)

lemma found_numeric: "list_all numeric (found h lexical similar)"
  using found_member by (fastforce simp: list_all_iff numeric_def f_nonneg_def)

lemma candidates_sorted: "sorted_wrt (\<lambda>x y. \<not> score_then_name ck_ID y x) (candidates h lexical similar)"
  unfolding candidates_found by (rule by_score_and_name.sort_slice_sorted [OF found_numeric])

lemma distinct_ids_take: "distinct (map f xs) \<Longrightarrow> distinct (map f (take n xs))"
  by (simp flip: take_map)

lemma rerank_members:
  assumes "rerank h c query topK xs w = (Inr ys, w')" and "distinct (map (ck_ID \<circ> fst) xs)"
  shows "set (map fst ys) \<subseteq> set (map fst xs) \<and> distinct (map (ck_ID \<circ> fst) ys)"
proof (cases "hy_reranker h = None \<or> xs = []")
  case True
  then show ?thesis using assms by (auto simp: rerank_def split: option.splits)
next
  case False
  then obtain r where r: "hy_reranker h = Some r" "xs \<noteq> []" by auto
  define n where "n = nat (min (max (hy_rerankCandidateK h) topK) (int (length xs)))"
  obtain scores where len: "length scores = length (take n xs)"
    and ys: "ys = sort_slice score_first (zip (map fst (take n xs)) scores)"
    using assms(1) r by (auto simp: rerank_def Let_def n_def split: prod.splits sum.splits if_splits)
  have fsts: "map fst (zip (map fst (take n xs)) scores) = map fst (take n xs)" using len by simp
  have "set (map fst ys) = set (map fst (take n xs))" using arg_cong [OF fsts, of set] by (simp add: ys)
  moreover have "distinct (map (ck_ID \<circ> fst) ys)"
    using distinct_ids_take [OF assms(2), of n] arg_cong [OF fsts, of "map ck_ID"] by (simp add: ys)
  ultimately show ?thesis using set_take_subset [of n xs] by auto
qed

definition demo_chunk :: "string \<Rightarrow> string \<Rightarrow> Chunk" where
  "demo_chunk pid content =
     \<lparr> ck_ID = pid, ck_DocID = pid, ck_Source = [], ck_DocType = ''runbook'', ck_Service = [], ck_Component = [],
       ck_IncidentType = [], ck_ProductVersion = [], ck_SourceKind = [], ck_SourceURL = [], ck_LastVerifiedAt = [],
       ck_Title = [], ck_Content = content, ck_Severity = [], ck_Tags = [] \<rparr>"

text \<open>C33. What \<open>Retrieve\<close> returns: at most \<open>topK\<close> results (5 when no positive number is asked for), each a
  chunk of the knowledge base, no chunk twice, and only chunks that one of the two rankings placed; and,
  without a reranker, in the order of their fused scores, equal scores by identifier.\<close>

theorem retrieval_is_sound:
  assumes "Retrieve u logf h c query topK w = (Some (Inr rs), w')"
  shows "int (length rs) \<le> (if topK \<le> 0 then 5 else topK)
    \<and> set (map fst rs) \<subseteq> set (hy_chunks h)
    \<and> distinct (map (ck_ID \<circ> fst) rs)
    \<and> (\<exists>similar w1. vectorRanks h c query (max (hy_candidateK h) (if topK \<le> 0 then 5 else topK)) w
          = (Some (Inr similar), w1)
        \<and> (\<forall>r \<in> set rs. ck_ID (fst r) \<in> fst ` set (bm25Ranks u logf query (hy_chunks h)) \<union> fst ` set similar))
    \<and> (hy_reranker h = None \<longrightarrow> sorted_wrt (\<lambda>x y. \<not> score_then_name ck_ID y x) rs)"
proof -
  define k where "k = (if topK \<le> 0 then 5 else topK)"
  obtain similar w1 ys w2 where vr: "vectorRanks h c query (max (hy_candidateK h) k) w = (Some (Inr similar), w1)"
    and re: "rerank h c query k (candidates h (bm25Ranks u logf query (hy_chunks h)) similar) w1 = (Inr ys, w2)"
    and rs: "rs = take (nat k) ys"
    using assms by (auto simp: Retrieve_def Let_def k_def split: prod.splits option.splits sum.splits)
  let ?xs = "candidates h (bm25Ranks u logf query (hy_chunks h)) similar"
  have xs: "distinct (map (ck_ID \<circ> fst) ?xs)" by (simp add: candidates_found found_distinct)
  have ys: "set (map fst ys) \<subseteq> set (map fst ?xs)" "distinct (map (ck_ID \<circ> fst) ys)"
    using rerank_members [OF re xs] by auto
  have member: "fst r \<in> set (hy_chunks h) \<and> ck_ID (fst r) \<in> fst ` set (bm25Ranks u logf query (hy_chunks h)) \<union> fst ` set similar"
    if "r \<in> set rs" for r
  proof -
    have "r \<in> set ys" using that in_set_takeD by (auto simp: rs)
    then have "fst r \<in> fst ` set ?xs" using ys(1) by auto
    then show ?thesis using found_member by (fastforce simp: candidates_found)
  qed
  have "0 < k" by (simp add: k_def)
  then have "int (length rs) \<le> k" by (simp add: rs)
  moreover have "distinct (map (ck_ID \<circ> fst) rs)" unfolding rs using ys(2) by (rule distinct_ids_take)
  moreover have "hy_reranker h = None \<longrightarrow> sorted_wrt (\<lambda>x y. \<not> score_then_name ck_ID y x) rs"
  proof
    assume "hy_reranker h = None"
    then have "ys = ?xs" using re by (simp add: rerank_def)
    then show "sorted_wrt (\<lambda>x y. \<not> score_then_name ck_ID y x) rs" unfolding rs by (simp add: sorted_wrt_take candidates_sorted)
  qed
  ultimately show ?thesis using member vr unfolding k_def [symmetric] by auto
qed

text \<open>A world with one indexed chunk, an embedder that answers with the same vector for every text, and a
  reader for which no rune is part of a word, so the query has no terms.\<close>

definition demo_unicode :: unicode where
  "demo_unicode = \<lparr> u_lower = (\<lambda>s. s), u_Han = (\<lambda>r. False), u_word = (\<lambda>r. False) \<rparr>"

definition demo_hybrid :: "demo_world Hybrid" where
  "demo_hybrid = NewHybrid [demo_chunk ''a'' ''x''] (log_embedder (\<lambda>_. [Fin 1])) (mem_store (\<lambda>x. x)) 0"

definition demo_store :: demo_world where
  "demo_store = \<lparr> dw_points = [(''a'', chunk_point (demo_chunk ''a'' ''x'') [Fin 1])], dw_embedded = [] \<rparr>"

lemma demo_no_terms: "rtokenize demo_unicode s = []"
proof -
  have "fold (tok_rune demo_unicode) rs ([], [], p) = ([], [], if rs = [] then p else None)" for rs p
    by (induction rs arbitrary: p) (simp_all add: tok_rune_def demo_unicode_def flush_word_def)
  then show ?thesis by (simp add: rtokenize_def flush_word_def)
qed

lemma demo_retrieve: "\<exists>rs w. Retrieve demo_unicode (\<lambda>x. x) demo_hybrid background ''x'' 1 demo_store = (Some (Inr rs), w) \<and> rs \<noteq> []"
proof -
  have "vectorRanks demo_hybrid background ''x'' 20 demo_store
      = (Some (Inr [(''a'', 1)]), demo_store\<lparr> dw_embedded := [''x''] \<rparr>)"
    by (simp add: vectorRanks_def demo_hybrid_def NewHybrid_def log_embedder_def one_vector_def mem_store_def
        mem_VectorStore_def mem_Search_def demo_store_def chunk_point_def sort_slice_def positions_def demo_cosine)
  moreover have "candidates demo_hybrid [] [(''a'', 1)] = [(demo_chunk ''a'' ''x'', rrf_score [1] 60)]"
    by (simp add: candidates_found found_def add_ranks_def rrfScores_def chunk_map_def demo_hybrid_def NewHybrid_def
        demo_chunk_def map_filter_simps sort_slice_def)
  moreover have "bm25Ranks demo_unicode (\<lambda>x. x) ''x'' (hy_chunks demo_hybrid) = []"
    by (simp add: bm25Ranks_def demo_no_terms uniqueTerms_def)
  moreover have "rerank demo_hybrid c q k xs w = (Inr xs, w)" for c q k xs w
    by (simp add: rerank_def demo_hybrid_def NewHybrid_def)
  moreover have "hy_candidateK demo_hybrid = 20" by (simp add: demo_hybrid_def NewHybrid_def)
  ultimately show ?thesis by (simp add: Retrieve_def)
qed

lemma retrieval_is_sound_witness:
  "\<exists>rs w. Retrieve demo_unicode (\<lambda>x. x) demo_hybrid background ''x'' 1 demo_store = (Some (Inr rs), w) \<and> rs \<noteq> []
    \<and> set (map fst rs) \<subseteq> set (hy_chunks demo_hybrid)"
proof -
  obtain rs w where "Retrieve demo_unicode (\<lambda>x. x) demo_hybrid background ''x'' 1 demo_store = (Some (Inr rs), w)" "rs \<noteq> []"
    using demo_retrieve by blast
  with retrieval_is_sound [OF this(1)] show ?thesis by blast
qed

section \<open>Lexical ranks\<close>

lemma bm_score_positive:
  "fold (\<lambda>term score. let freq = count_list ts term in if freq = 0 then score else f64_add score (g freq term)) terms s \<noteq> s
    \<Longrightarrow> \<exists>term \<in> set terms. term \<in> set ts"
proof (induction terms arbitrary: s)
  case (Cons t terms)
  then show ?case by (cases "t \<in> set ts") (auto simp: Let_def count_list_0_iff)
qed simp

lemma bm_score_shares: "f64_lt (Fin 0) (bm_score logf docs avg terms d) \<Longrightarrow> set terms \<inter> set (bd_terms d) \<noteq> {}"
proof -
  assume "f64_lt (Fin 0) (bm_score logf docs avg terms d)"
  then have "bm_score logf docs avg terms d \<noteq> Fin 0" by auto
  from bm_score_positive [OF this [unfolded bm_score_def]] show ?thesis by auto
qed

lemma bm25_shape:
  "bm25Ranks u logf query chunks = [] \<or> (\<exists>avg. bm25Ranks u logf query chunks
    = positions (map fst (sort_slice (score_then_name (\<lambda>i. i)) (filter (\<lambda>it. f64_lt (Fin 0) (snd it))
        (map (\<lambda>d. (bd_id d, bm_score logf (bm_documents u chunks) avg (uniqueTerms (rtokenize u query)) d)) (bm_documents u chunks))))))"
  by (auto simp: bm25Ranks_def Let_def)

text \<open>BM25 places a chunk only if its title or content shares a term with the query, and places every
  chunk at most once.\<close>

theorem lexical_ranks_share_a_term:
  "distinct (map fst (bm25Ranks u logf query chunks))
    \<and> list_all (\<lambda>(pid, r). \<exists>ch \<in> set chunks. ck_ID ch = pid
        \<and> set (rtokenize u query) \<inter> set (rtokenize u (ck_Title ch @ [nl] @ ck_Content ch)) \<noteq> {})
      (bm25Ranks u logf query chunks)"
proof (cases "bm25Ranks u logf query chunks = []")
  case False
  then obtain avg where ranks: "bm25Ranks u logf query chunks
    = positions (map fst (sort_slice (score_then_name (\<lambda>i. i)) (filter (\<lambda>it. f64_lt (Fin 0) (snd it))
        (map (\<lambda>d. (bd_id d, bm_score logf (bm_documents u chunks) avg (uniqueTerms (rtokenize u query)) d)) (bm_documents u chunks)))))"
    (is "_ = positions ?ids") using bm25_shape [of u logf query chunks] by blast
  have "\<exists>ch \<in> set chunks. ck_ID ch = pid
      \<and> set (rtokenize u query) \<inter> set (rtokenize u (ck_Title ch @ [nl] @ ck_Content ch)) \<noteq> {}"
    if "pid \<in> set ?ids" for pid
  proof -
    obtain d where d: "d \<in> set (bm_documents u chunks)" "bd_id d = pid"
      and s: "f64_lt (Fin 0) (bm_score logf (bm_documents u chunks) avg (uniqueTerms (rtokenize u query)) d)"
      using \<open>pid \<in> set ?ids\<close> by auto
    obtain ch where "ch \<in> set chunks" "d = \<lparr> bd_id = ck_ID ch, bd_terms = rtokenize u (ck_Title ch @ [nl] @ ck_Content ch) \<rparr>"
      using d(1) by (auto simp: bm_documents_def)
    with d(2) bm_score_shares [OF s] show ?thesis by (auto simp: uniqueTerms_def)
  qed
  moreover have "fst x \<in> set ?ids" if "x \<in> set (positions ?ids)" for x
    using imageI [OF that, of fst] by (simp only: positions_keys(2))
  ultimately show ?thesis unfolding ranks list_all_iff case_prod_unfold using positions_keys(1) by blast
qed simp

section \<open>Indexing\<close>

lemma chunkHash_nonempty [simp]: "chunkHash ch \<noteq> []"
  using length_hex [of "sha256_Sum256 (ck_Content ch)"] length_sha256 [of "ck_Content ch"]
  unfolding chunkHash_def by (metis list.size(3) mult_is_0 zero_neq_numeral)

lemma payload_hash_chunk [simp]: "payload_hash (pt_Payload (chunk_point ch v)) = Some (chunkHash ch)"
  by (simp add: payload_hash_def chunk_point_def)

lemma existing_hash: "(case e of None \<Rightarrow> [] | Some s \<Rightarrow> s) = chunkHash ch \<longleftrightarrow> e = Some (chunkHash ch)"
  using chunkHash_nonempty [of ch] by (cases e) (auto dest: sym)

context vector_index
begin

text \<open>Where indexing ends without an error, every chunk it was given has its hash in the store, and the
  hashes of other points are as before.\<close>

lemma index_chunks_hashes:
  assumes "hy_embedder h = embedder" and "hy_vector h = store"
  shows "index_chunks h c existing chs w = (None, w') \<Longrightarrow> distinct (map ck_ID chs)
    \<Longrightarrow> (\<And>ch. ch \<in> set chs \<Longrightarrow> existing (ck_ID ch) = hashes w (ck_ID ch))
    \<Longrightarrow> (\<forall>ch \<in> set chs. hashes w' (ck_ID ch) = Some (chunkHash ch))
      \<and> (\<forall>i. i \<notin> ck_ID ` set chs \<longrightarrow> hashes w' i = hashes w i)"
proof (induction chs arbitrary: w)
  case (Cons ch chs)
  have new: "ck_ID ch \<notin> ck_ID ` set chs" using Cons.prems(2) by auto
  show ?case
  proof (cases "existing (ck_ID ch) = Some (chunkHash ch)")
    case True
    then have "index_chunks h c existing chs w = (None, w')" using Cons.prems(1) by (simp add: existing_hash)
    with Cons.IH Cons.prems(2,3) new True show ?thesis by fastforce
  next
    case False
    then obtain v w1 w2 where e: "\<exists>vecs. em_Embed embedder c [ck_Content ch] w = (Inr vecs, w1)"
      and u: "vs_Upsert store c [chunk_point ch v] w1 = (None, w2)"
      and rest: "index_chunks h c existing chs w2 = (None, w')"
      using Cons.prems(1) assms by (auto simp: existing_hash split: prod.splits sum.splits option.splits)
    have w1: "hashes w1 = hashes w" using e embed_keeps by blast
    have w2: "hashes w2 = (hashes w)(ck_ID ch \<mapsto> chunkHash ch)"
      using upsert_one [OF u payload_hash_chunk] w1 by (simp add: chunk_point_def)
    have "existing (ck_ID x) = hashes w2 (ck_ID x)" if "x \<in> set chs" for x
    proof -
      have "ck_ID x \<noteq> ck_ID ch" using that new by (metis imageI)
      then show ?thesis using Cons.prems(3) [of x] that by (simp add: w2)
    qed
    with Cons.IH [OF rest] Cons.prems(2) new show ?thesis by (auto simp: w2)
  qed
qed auto

lemma index_up_to_date:
  "(\<And>ch. ch \<in> set chs \<Longrightarrow> existing (ck_ID ch) = Some (chunkHash ch)) \<Longrightarrow> index_chunks h c existing chs w = (None, w)"
  by (induction chs) auto

lemma index_hashes:
  assumes "hy_embedder h = embedder" and "hy_vector h = store" and "distinct (map ck_ID (hy_chunks h))"
    and "Index h c w = (None, w')"
  shows "\<forall>ch \<in> set (hy_chunks h). hashes w' (ck_ID ch) = Some (chunkHash ch)"
proof -
  obtain e w1 where r: "vs_Hashes store c w = (Inr e, w1)" and i: "index_chunks h c e (hy_chunks h) w1 = (None, w')"
    using assms(2,4) by (auto simp: Index_def split: prod.splits sum.splits)
  from hashes_read [OF r] index_chunks_hashes [OF assms(1,2) i assms(3)] show ?thesis by auto
qed

lemma index_again:
  assumes "hy_embedder h = embedder" and "hy_vector h = store" and "distinct (map ck_ID (hy_chunks h))"
    and "Index h c w = (None, w')" and "vs_Hashes store c2 w' = (Inr e, w2)"
  shows "Index h c2 w' = (None, w')"
  using index_hashes [OF assms(1-4)] hashes_read [OF assms(5)] assms(2,5)
  by (simp add: Index_def index_up_to_date)

end

text \<open>On the in-memory store, with an embedder that keeps a log.\<close>

lemma index_chunks_log:
  assumes "hy_embedder h = log_embedder vec_of" and "hy_vector h = mem_store sqrtf" and "\<And>t. vec_of t \<noteq> []"
  shows "fst (index_chunks h c existing chs w) = None
    \<and> dw_embedded (snd (index_chunks h c existing chs w))
      = dw_embedded w @ map ck_Content (filter (\<lambda>ch. existing (ck_ID ch) \<noteq> Some (chunkHash ch)) chs)"
proof (induction chs arbitrary: w)
  case (Cons ch chs)
  show ?case
  proof (cases "existing (ck_ID ch) = Some (chunkHash ch)")
    case True
    with Cons show ?thesis by (simp add: existing_hash)
  next
    case False
    let ?v = "vec_of (ck_Content ch)"
    have "em_Embed (hy_embedder h) c [ck_Content ch] w
        = (Inr [?v], w\<lparr> dw_embedded := dw_embedded w @ [ck_Content ch] \<rparr>)"
      by (simp add: assms(1) log_embedder_def)
    moreover have "one_vector t [?v] = Inr ?v" for t using assms(3) by (simp add: one_vector_def)
    moreover have "\<exists>m. vs_Upsert (hy_vector h) c ps w = (None, w\<lparr> dw_points := m \<rparr>)" for ps w
      by (auto simp: assms(2) mem_store_def mem_VectorStore_def)
    then obtain m where "vs_Upsert (hy_vector h) c [chunk_point ch ?v] (w\<lparr> dw_embedded := dw_embedded w @ [ck_Content ch] \<rparr>)
        = (None, w\<lparr> dw_embedded := dw_embedded w @ [ck_Content ch], dw_points := m \<rparr>)" by blast
    ultimately show ?thesis using False Cons by (simp add: existing_hash)
  qed
qed simp



end
