(* ===== verification/Md5.thy ===== *)
theory Md5
  imports Sha256
begin

unbundle bit_operations_syntax

text \<open>
  \<open>crypto/md5\<close> of Go's standard library, which names the points of the vector store
  (\<open>src/internal/knowledge/vectorstore/qdrant.go\<close>). The definition follows RFC 1321 on bytes (\<open>nat\<close> below
  256) and 32-bit words; the constants are its table of sines.
\<close>

definition md5_K :: "u32 list" where
  "md5_K = [0xD76AA478, 0xE8C7B756, 0x242070DB, 0xC1BDCEEE, 0xF57C0FAF, 0x4787C62A, 0xA8304613, 0xFD469501,
     0x698098D8, 0x8B44F7AF, 0xFFFF5BB1, 0x895CD7BE, 0x6B901122, 0xFD987193, 0xA679438E, 0x49B40821,
     0xF61E2562, 0xC040B340, 0x265E5A51, 0xE9B6C7AA, 0xD62F105D, 0x02441453, 0xD8A1E681, 0xE7D3FBC8,
     0x21E1CDE6, 0xC33707D6, 0xF4D50D87, 0x455A14ED, 0xA9E3E905, 0xFCEFA3F8, 0x676F02D9, 0x8D2A4C8A,
     0xFFFA3942, 0x8771F681, 0x6D9D6122, 0xFDE5380C, 0xA4BEEA44, 0x4BDECFA9, 0xF6BB4B60, 0xBEBFBC70,
     0x289B7EC6, 0xEAA127FA, 0xD4EF3085, 0x04881D05, 0xD9D4D039, 0xE6DB99E5, 0x1FA27CF8, 0xC4AC5665,
     0xF4292244, 0x432AFF97, 0xAB9423A7, 0xFC93A039, 0x655B59C3, 0x8F0CCC92, 0xFFEFF47D, 0x85845DD1,
     0x6FA87E4F, 0xFE2CE6E0, 0xA3014314, 0x4E0811A1, 0xF7537E82, 0xBD3AF235, 0x2AD7D2BB, 0xEB86D391]"

definition md5_shifts :: "nat list" where
  "md5_shifts = concat (replicate 4 [7, 12, 17, 22]) @ concat (replicate 4 [5, 9, 14, 20])
     @ concat (replicate 4 [4, 11, 16, 23]) @ concat (replicate 4 [6, 10, 15, 21])"

type_synonym md5_state = "u32 \<times> u32 \<times> u32 \<times> u32"

definition md5_init :: md5_state where
  "md5_init = (0x67452301, 0xEFCDAB89, 0x98BADCFE, 0x10325476)"

definition rotl :: "nat \<Rightarrow> u32 \<Rightarrow> u32" where
  "rotl n x = push_bit n x OR drop_bit (32 - n) x"

text \<open>A round: its number, its constant and shift, and the words of the block.\<close>

definition md5_mix :: "nat \<Rightarrow> u32 \<Rightarrow> u32 \<Rightarrow> u32 \<Rightarrow> u32 \<times> nat" where
  "md5_mix i b c d =
     (if i < 16 then ((b AND c) OR (NOT b AND d), i)
      else if i < 32 then ((d AND b) OR (NOT d AND c), (5 * i + 1) mod 16)
      else if i < 48 then (b XOR c XOR d, (3 * i + 5) mod 16)
      else (c XOR (b OR NOT d), (7 * i) mod 16))"

definition md5_round :: "u32 list \<Rightarrow> nat \<times> u32 \<times> nat \<Rightarrow> md5_state \<Rightarrow> md5_state" where
  "md5_round m r st =
     (case (r, st) of ((i, k, s), (a, b, c, d)) \<Rightarrow>
      case md5_mix i b c d of (f, g) \<Rightarrow> (d, b + rotl s (f + a + k + m ! g), b, c))"

definition md5_block :: "u32 list \<Rightarrow> md5_state \<Rightarrow> md5_state" where
  "md5_block m st =
     (case (fold (md5_round m) (zip [0..<64] (zip md5_K md5_shifts)) st, st) of
        ((a, b, c, d), (a', b', c', d')) \<Rightarrow> (a' + a, b' + b, c' + c, d' + d))"

fun le_bytes :: "nat \<Rightarrow> nat \<Rightarrow> nat list" where
  "le_bytes 0 n = []"
| "le_bytes (Suc k) n = n mod 256 # le_bytes k (n div 256)"

fun le_words :: "nat list \<Rightarrow> u32 list" where
  "le_words (a # b # c # d # bs) = of_nat (a + b * 256 + c * 65536 + d * 16777216) # le_words bs"
| "le_words _ = []"

definition md5_pad :: "nat list \<Rightarrow> nat list" where
  "md5_pad m = m @ [128] @ replicate ((119 - length m mod 64) mod 64) 0 @ le_bytes 8 (8 * length m mod 2 ^ 64)"

fun md5_blocks :: "nat \<Rightarrow> nat list \<Rightarrow> md5_state \<Rightarrow> md5_state" where
  "md5_blocks 0 m st = st"
| "md5_blocks (Suc n) m st = md5_blocks n (drop 64 m) (md5_block (le_words (take 64 m)) st)"

definition md5_Sum :: "string \<Rightarrow> nat list" where
  "md5_Sum s =
     (let m = md5_pad (map of_char s) in
      case md5_blocks (length m div 64) m md5_init of
        (a, b, c, d) \<Rightarrow> concat (map (\<lambda>w. le_bytes 4 (unat w)) [a, b, c, d]))"

lemma length_le_bytes [simp]: "length (le_bytes k n) = k"
  by (induction k arbitrary: n) simp_all

lemma length_md5 [simp]: "length (md5_Sum s) = 16"
  by (simp add: md5_Sum_def Let_def split: prod.split)

lemma le_bytes_small: "b \<in> set (le_bytes k n) \<Longrightarrow> b < 256"
  by (induction k arbitrary: n) auto

lemma md5_small: "b \<in> set (md5_Sum s) \<Longrightarrow> b < 256"
  by (auto simp: md5_Sum_def Let_def dest: le_bytes_small split: prod.splits)

end
