(* ===== verification/Knowledge_Clients.thy ===== *)
theory Knowledge_Clients
  imports Retriever Md5
begin

text \<open>
  The clients of the services retrieval uses: the embedding endpoint
  (\<open>src/internal/knowledge/embedding/embedding.go\<close>), the two rerankers
  (\<open>src/internal/knowledge/reranker/tei.go\<close>, \<open>qwen.go\<close>) and the Qdrant vector store
  (\<open>src/internal/knowledge/vectorstore/qdrant.go\<close>). The HTTP client and the Qdrant client library are
  records of operations on the world; what \<open>json.Unmarshal\<close> makes of a reply is an argument. What is
  modelled is the request that is sent and which replies are accepted.
\<close>

section \<open>HTTP\<close>

text \<open>A POST with a JSON body; the bearer token is left out where it is empty.\<close>

record http_post =
  hp_URL :: string
  hp_Bearer :: "string option"
  hp_Body :: string

datatype http_answer =
    BadRequest gerror
  | NoAnswer gerror
  | Answer nat "gerror + string"

type_synonym 'w http_client = "ctx \<Rightarrow> http_post \<Rightarrow> 'w \<Rightarrow> http_answer \<times> 'w"

definition trim_slashes :: "string \<Rightarrow> string" where
  "trim_slashes s = rev (dropWhile (\<lambda>c. c = CHR ''/'') (rev s))"

definition bearer_if :: "string \<Rightarrow> string option" where
  "bearer_if key = (if key = [] then None else Some key)"

section \<open>Embedding\<close>

record openai_embedder =
  oe_baseURL :: string
  oe_apiKey :: string
  oe_model :: string

definition NewOpenAIEmbedder :: "string \<Rightarrow> string \<Rightarrow> string \<Rightarrow> openai_embedder" where
  "NewOpenAIEmbedder baseURL apiKey model =
     \<lparr> oe_baseURL = trim_slashes baseURL, oe_apiKey = apiKey, oe_model = model \<rparr>"

definition embedding_request :: "openai_embedder \<Rightarrow> string list \<Rightarrow> http_post" where
  "embedding_request e texts =
     \<lparr> hp_URL = oe_baseURL e @ ''/embeddings'', hp_Bearer = bearer_if (oe_apiKey e),
       hp_Body = json_encode (JObj [(''model'', JStr (oe_model e)), (''input'', JArr (map JStr texts))]) \<rparr>"

text \<open>Every vector goes to the position its entry names; a position no entry names stays empty.\<close>

fun place_vectors :: "(vec \<times> int) list \<Rightarrow> vec list \<Rightarrow> gerror + vec list" where
  "place_vectors [] vecs = Inr vecs"
| "place_vectors ((v, i) # ds) vecs =
     (if i < 0 \<or> int (length vecs) \<le> i then Inl (plain_err (''invalid embedding index '' @ dec_int i))
      else place_vectors ds (vecs[nat i := v]))"

definition Embed ::
  "'w http_client \<Rightarrow> (string \<Rightarrow> gerror + (vec \<times> int) list) \<Rightarrow> openai_embedder \<Rightarrow> ctx \<Rightarrow> string list \<Rightarrow> 'w
    \<Rightarrow> (gerror + vec list) \<times> 'w" where
  "Embed http decode e c texts w =
     (case http c (embedding_request e texts) w of
        (BadRequest err, w) \<Rightarrow> (Inl err, w)
      | (NoAnswer err, w) \<Rightarrow> (Inl (wrap_err ''embedding request: '' err), w)
      | (Answer status (Inl err), w) \<Rightarrow> (Inl err, w)
      | (Answer status (Inr body), w) \<Rightarrow>
          if status \<noteq> 200 then (Inl (plain_err (''embedding status '' @ dec_nat status @ '': '' @ body)), w)
          else (case decode body of
                  Inl err \<Rightarrow> (Inl (wrap_err ''decode embedding response: '' err), w)
                | Inr d \<Rightarrow> (place_vectors d (replicate (length d) []), w)))"

definition openai_Embedder ::
  "'w http_client \<Rightarrow> (string \<Rightarrow> gerror + (vec \<times> int) list) \<Rightarrow> openai_embedder \<Rightarrow> 'w Embedder" where
  "openai_Embedder http decode e = \<lparr> em_Embed = Embed http decode e \<rparr>"

section \<open>Reranking\<close>

text \<open>The loop both clients end with: every reply names a document by its index, each exactly once.\<close>

fun place_scores :: "(int \<times> float64) list \<Rightarrow> float64 list \<Rightarrow> bool list \<Rightarrow> gerror + float64 list" where
  "place_scores [] scores seen = Inr scores"
| "place_scores ((i, s) # rs) scores seen =
     (if i < 0 \<or> int (length scores) \<le> i \<or> seen ! nat i
      then Inl (plain_err (''reranker returned invalid document index '' @ dec_int i))
      else place_scores rs (scores[nat i := s]) (seen[nat i := True]))"

definition aligned_scores :: "(int \<times> float64) list \<Rightarrow> nat \<Rightarrow> gerror + float64 list" where
  "aligned_scores ranks n =
     (if length ranks \<noteq> n
      then Inl (plain_err (''reranker returned '' @ dec_nat (length ranks) @ '' scores for '' @ dec_nat n @ '' documents''))
      else place_scores ranks (replicate n (Fin 0)) (replicate n False))"

text \<open>What both make of the answer; an error of reading the body is one of decoding it.\<close>

definition rerank_answer ::
  "(string \<Rightarrow> gerror + (int \<times> float64) list) \<Rightarrow> nat \<Rightarrow> http_answer \<Rightarrow> gerror + float64 list" where
  "rerank_answer decode n ans =
     (case ans of
        BadRequest err \<Rightarrow> Inl (wrap_err ''create rerank request: '' err)
      | NoAnswer err \<Rightarrow> Inl (wrap_err ''call reranker: '' err)
      | Answer status body \<Rightarrow>
          if status < 200 \<or> 300 \<le> status then Inl (plain_err (''reranker returned status '' @ dec_nat status))
          else (case body of
                  Inl err \<Rightarrow> Inl (wrap_err ''decode rerank response: '' err)
                | Inr b \<Rightarrow>
                    (case decode b of
                       Inl err \<Rightarrow> Inl (wrap_err ''decode rerank response: '' err)
                     | Inr ranks \<Rightarrow> aligned_scores ranks n)))"

record tei = te_baseURL :: string  te_apiKey :: string

definition NewTEI :: "string \<Rightarrow> string \<Rightarrow> tei" where
  "NewTEI baseURL apiKey = \<lparr> te_baseURL = trim_slashes (TrimSpace baseURL), te_apiKey = apiKey \<rparr>"

definition tei_request :: "tei \<Rightarrow> string \<Rightarrow> string list \<Rightarrow> http_post" where
  "tei_request t query documents =
     \<lparr> hp_URL = te_baseURL t @ ''/rerank'', hp_Bearer = bearer_if (te_apiKey t),
       hp_Body = json_encode (JObj [(''query'', JStr query), (''texts'', JArr (map JStr documents)),
         (''truncate'', JBool True), (''raw_scores'', JBool False), (''return_text'', JBool False)]) \<rparr>"

definition tei_Rerank ::
  "'w http_client \<Rightarrow> (string \<Rightarrow> gerror + (int \<times> float64) list) \<Rightarrow> tei \<Rightarrow> ctx \<Rightarrow> string \<Rightarrow> string list \<Rightarrow> 'w
    \<Rightarrow> (gerror + float64 list) \<times> 'w" where
  "tei_Rerank http decode t c query documents w =
     (if documents = [] then (Inr [], w)
      else case http c (tei_request t query documents) w of
        (ans, w) \<Rightarrow> (rerank_answer decode (length documents) ans, w))"

record qwen = qw_baseURL :: string  qw_apiKey :: string  qw_model :: string

definition NewQwen :: "string \<Rightarrow> string \<Rightarrow> string \<Rightarrow> qwen" where
  "NewQwen baseURL apiKey model =
     \<lparr> qw_baseURL = trim_slashes (TrimSpace baseURL), qw_apiKey = apiKey, qw_model = model \<rparr>"

text \<open>The token of DashScope is sent even where it is empty.\<close>

definition qwen_request :: "qwen \<Rightarrow> string \<Rightarrow> string list \<Rightarrow> http_post" where
  "qwen_request q query documents =
     \<lparr> hp_URL = qw_baseURL q @ ''/services/rerank/text-rerank/text-rerank'', hp_Bearer = Some (qw_apiKey q),
       hp_Body = json_encode (JObj [(''model'', JStr (qw_model q)),
         (''input'', JObj [(''query'', JStr query), (''documents'', JArr (map JStr documents))]),
         (''parameters'', JObj [(''return_documents'', JBool False)])]) \<rparr>"

definition qwen_Rerank ::
  "'w http_client \<Rightarrow> (string \<Rightarrow> gerror + (int \<times> float64) list) \<Rightarrow> qwen \<Rightarrow> ctx \<Rightarrow> string \<Rightarrow> string list \<Rightarrow> 'w
    \<Rightarrow> (gerror + float64 list) \<times> 'w" where
  "qwen_Rerank http decode q c query documents w =
     (if documents = [] then (Inr [], w)
      else case http c (qwen_request q query documents) w of
        (ans, w) \<Rightarrow> (rerank_answer decode (length documents) ans, w))"

section \<open>Alignment\<close>

lemma place_scores_ok:
  assumes "length seen = length scores"
  shows "(\<exists>out. place_scores ranks scores seen = Inr out)
    \<longleftrightarrow> distinct (map fst ranks) \<and> (\<forall>i \<in> fst ` set ranks. 0 \<le> i \<and> i < int (length scores) \<and> \<not> seen ! nat i)"
  using assms
proof (induction ranks scores seen rule: place_scores.induct)
  case (2 i s rs scores seen)
  show ?case
  proof (cases "i < 0 \<or> int (length scores) \<le> i \<or> seen ! nat i")
    case False
    then have n: "nat i < length seen" "0 \<le> i" using 2(2) by auto
    have other: "seen[nat i := True] ! nat j \<longleftrightarrow> j = i \<or> seen ! nat j" if "0 \<le> j" for j
      using n that by (auto simp: nth_list_update)
    have "length (seen[nat i := True]) = length (scores[nat i := s])" using 2(2) by simp
    from 2(1) [OF False this] show ?thesis using False other by (auto simp: 2(2))
  qed auto
qed simp

lemma place_scores_length: "place_scores ranks scores seen = Inr out \<Longrightarrow> length out = length scores"
  by (induction ranks scores seen rule: place_scores.induct) (auto split: if_splits)

lemma place_scores_nth:
  "place_scores ranks scores seen = Inr out \<Longrightarrow> length seen = length scores \<Longrightarrow>
    (\<forall>(i, s) \<in> set ranks. out ! nat i = s) \<and> (\<forall>k < length scores. seen ! k \<longrightarrow> out ! k = scores ! k)"
proof (induction ranks scores seen rule: place_scores.induct)
  case (2 i s rs scores seen)
  have ok: "\<not> (i < 0 \<or> int (length scores) \<le> i \<or> seen ! nat i)" using 2(2) by (auto split: if_splits)
  then have n: "nat i < length scores" "0 \<le> i" "\<not> seen ! nat i" by auto
  have "place_scores rs (scores[nat i := s]) (seen[nat i := True]) = Inr out" using 2(2) ok by simp
  from 2(1) [OF ok this] have IH: "\<forall>(i, s) \<in> set rs. out ! nat i = s"
    "\<And>k. k < length scores \<Longrightarrow> seen[nat i := True] ! k \<Longrightarrow> out ! k = scores[nat i := s] ! k" using 2(3) by auto
  have "out ! nat i = s" using IH(2) [of "nat i"] n(1) 2(3) by simp
  moreover have "out ! k = scores ! k" if "k < length scores" "seen ! k" for k
    using IH(2) [of k] that n 2(3) by (cases "k = nat i") auto
  ultimately show ?case using IH(1) by auto
qed simp

text \<open>C37. The scores of a reranker stay with their documents: an answer is accepted exactly when it names
  every document's index once, and the score returned for a document is then the one the answer gives for
  its index.\<close>

theorem rerank_scores_align:
  "(\<exists>scores. aligned_scores ranks n = Inr scores)
      = (mset (map fst ranks) = mset (map int [0..<n]))
    \<and> (case aligned_scores ranks n of Inl e \<Rightarrow> True
       | Inr scores \<Rightarrow> length scores = n \<and> list_all (\<lambda>(i, s). 0 \<le> i \<and> i < int n \<and> scores ! nat i = s) ranks)"
proof -
  have perm: "length ranks = n \<and> distinct (map fst ranks) \<and> (\<forall>i \<in> fst ` set ranks. 0 \<le> i \<and> i < int n)
      \<longleftrightarrow> mset (map fst ranks) = mset (map int [0..<n])" (is "?l = ?r")
  proof
    assume l: ?l
    have "fst ` set ranks \<subseteq> int ` {0..<n}" using l by (auto intro!: image_eqI [of _ int "nat _"])
    moreover have "card (fst ` set ranks) = n" using l distinct_card [of "map fst ranks"] by simp
    moreover have "card (int ` {0..<n}) = n" by (simp add: card_image)
    ultimately have "fst ` set ranks = int ` {0..<n}" by (intro card_subset_eq) auto
    then show ?r using l set_eq_iff_mset_eq_distinct [of "map fst ranks" "map int [0..<n]"]
      by (simp add: distinct_map atLeast_upt)
  next
    assume r: ?r
    have "distinct (map int [0..<n])" by (simp add: distinct_map)
    then have "distinct (map fst ranks)" using r mset_eq_imp_distinct_iff by metis
    moreover have "length ranks = n" using mset_eq_length [OF r] by simp
    moreover have "fst ` set ranks = int ` {0..<n}" using mset_eq_setD [OF r] by simp
    ultimately show ?l by auto
  qed
  show ?thesis
  proof (cases "length ranks = n")
    case True
    have start: "length (replicate n False) = length (replicate n (Fin 0))" by simp
    have "(\<exists>scores. aligned_scores ranks n = Inr scores) \<longleftrightarrow> distinct (map fst ranks) \<and> (\<forall>i \<in> fst ` set ranks. 0 \<le> i \<and> i < int n)"
      using place_scores_ok [OF start, of ranks] True by (auto simp: aligned_scores_def)
    moreover have "length scores = n \<and> list_all (\<lambda>(i, s). 0 \<le> i \<and> i < int n \<and> scores ! nat i = s) ranks"
      if "aligned_scores ranks n = Inr scores" for scores
      using that calculation place_scores_length [of ranks _ _ scores] place_scores_nth [OF _ start, of ranks scores]
      by (fastforce simp: aligned_scores_def list_all_iff split: if_splits)
    ultimately show ?thesis using perm True by (auto split: sum.split)
  next
    case False
    then have "mset (map fst ranks) \<noteq> mset (map int [0..<n])" using perm by blast
    with False show ?thesis by (simp add: aligned_scores_def)
  qed
qed

section \<open>Qdrant\<close>

text \<open>
  The operations of the Qdrant client library. A point has a UUID, a vector and string values as payload;
  a page of a scroll ends with the offset of the next one. A payload that a point does not have is \<open>None\<close>.
\<close>

record qdrant_point =
  qp_Id :: string
  qp_Vector :: vec
  qp_Payload :: "string \<rightharpoonup> string"

record 'w qdrant_client =
  qc_CollectionExists :: "ctx \<Rightarrow> string \<Rightarrow> 'w \<Rightarrow> (gerror + bool) \<times> 'w"
  qc_CreateCollection :: "ctx \<Rightarrow> string \<Rightarrow> 64 word \<Rightarrow> 'w \<Rightarrow> gerror option \<times> 'w"
  qc_Upsert :: "ctx \<Rightarrow> string \<Rightarrow> qdrant_point list \<Rightarrow> 'w \<Rightarrow> gerror option \<times> 'w"
  qc_Query :: "ctx \<Rightarrow> string \<Rightarrow> vec \<Rightarrow> 64 word \<Rightarrow> 'w \<Rightarrow> (gerror + ((string \<rightharpoonup> string) option \<times> float64) list) \<times> 'w"
  qc_Scroll :: "ctx \<Rightarrow> string \<Rightarrow> nat \<Rightarrow> string option \<Rightarrow> 'w
    \<Rightarrow> (gerror + (string \<rightharpoonup> string) option list \<times> string option) \<times> 'w"

record 'w qdrant =
  qd_client :: "'w qdrant_client"
  qd_collection :: string
  qd_dim :: "64 word"

text \<open>The point id: MD5 of the chunk id, with the version and variant bits of a UUID.\<close>

definition uuidFromString :: "string \<Rightarrow> string" where
  "uuidFromString s =
     (let h0 = md5_Sum s;
          h1 = h0[6 := (h0 ! 6) mod 16 + 0x30];
          h = h1[8 := (h1 ! 8) mod 64 + 0x80];
          hex = (\<lambda>i j. hex_EncodeToString (take (j - i) (drop i h)))
      in join_with ''-'' [hex 0 4, hex 4 6, hex 6 8, hex 8 10, hex 10 16])"

definition EnsureCollection :: "'w qdrant \<Rightarrow> ctx \<Rightarrow> 'w \<Rightarrow> gerror option \<times> 'w" where
  "EnsureCollection q c w =
     (case qc_CollectionExists (qd_client q) c (qd_collection q) w of
        (Inl e, w) \<Rightarrow> (Some e, w)
      | (Inr True, w) \<Rightarrow> (None, w)
      | (Inr False, w) \<Rightarrow> qc_CreateCollection (qd_client q) c (qd_collection q) (qd_dim q) w)"

definition string_values :: "payload \<Rightarrow> string \<rightharpoonup> string" where
  "string_values p = (\<lambda>k. case p k of Some (VStr s) \<Rightarrow> Some s | _ \<Rightarrow> None)"

definition qdrant_point_of :: "Point \<Rightarrow> qdrant_point" where
  "qdrant_point_of p =
     \<lparr> qp_Id = uuidFromString (pt_ID p), qp_Vector = pt_Vector p,
       qp_Payload = [''chunk_id'' \<mapsto> pt_ID p] ++ string_values (pt_Payload p) \<rparr>"

definition qdrant_Upsert :: "'w qdrant \<Rightarrow> ctx \<Rightarrow> Point list \<Rightarrow> 'w \<Rightarrow> gerror option \<times> 'w" where
  "qdrant_Upsert q c ps w = qc_Upsert (qd_client q) c (qd_collection q) (map qdrant_point_of ps) w"

definition payload_string :: "(string \<rightharpoonup> string) option \<Rightarrow> string \<Rightarrow> string" where
  "payload_string p k = (case p of None \<Rightarrow> [] | Some m \<Rightarrow> (case m k of None \<Rightarrow> [] | Some s \<Rightarrow> s))"

definition qdrant_Search :: "'w qdrant \<Rightarrow> ctx \<Rightarrow> vec \<Rightarrow> int \<Rightarrow> 'w \<Rightarrow> (gerror + SearchResult list) \<times> 'w" where
  "qdrant_Search q c v topK w =
     (case qc_Query (qd_client q) c (qd_collection q) v (word_of_int topK) w of
        (Inl e, w) \<Rightarrow> (Inl e, w)
      | (Inr res, w) \<Rightarrow>
          (Inr (map (\<lambda>(p, s). \<lparr> sr_ID = payload_string p ''chunk_id'', sr_Score = s, sr_Payload = Map.empty \<rparr>) res), w))"

text \<open>One page of a scroll, and the loop over the pages. The loop ends where the service ends it, so it may
  have no result at all.\<close>

definition page_hashes :: "(string \<rightharpoonup> string) option list \<Rightarrow> (string \<rightharpoonup> string) \<Rightarrow> string \<rightharpoonup> string" where
  "page_hashes points out =
     fold (\<lambda>p m. let i = payload_string p ''chunk_id''; h = payload_string p ''chunk_hash'' in
             if i \<noteq> [] \<and> h \<noteq> [] then m(i \<mapsto> h) else m) points out"

partial_function (option) qdrant_scroll ::
  "'w qdrant \<Rightarrow> ctx \<Rightarrow> string option \<Rightarrow> (string \<rightharpoonup> string) \<Rightarrow> 'w \<Rightarrow> ((gerror + (string \<rightharpoonup> string)) \<times> 'w) option" where
  "qdrant_scroll q c offset out w =
     (case qc_Scroll (qd_client q) c (qd_collection q) 1000 offset w of
        (Inl e, w) \<Rightarrow> Some (Inl e, w)
      | (Inr (points, following), w) \<Rightarrow>
          (case following of
             None \<Rightarrow> Some (Inr (page_hashes points out), w)
           | Some o' \<Rightarrow> qdrant_scroll q c (Some o') (page_hashes points out) w))"

definition qdrant_Hashes :: "'w qdrant \<Rightarrow> ctx \<Rightarrow> 'w \<Rightarrow> ((gerror + (string \<rightharpoonup> string)) \<times> 'w) option" where
  "qdrant_Hashes q c w = qdrant_scroll q c None Map.empty w"

text \<open>The store as an implementation of the interface. Indexing runs under a deadline, so a scroll the service
  never ends is ended by the deadline of its context.\<close>

definition qdrant_store :: "'w qdrant \<Rightarrow> 'w VectorStore" where
  "qdrant_store q =
     \<lparr> vs_Upsert = qdrant_Upsert q,
       vs_Search = (\<lambda>c v k w. case qdrant_Search q c v k w of (r, w) \<Rightarrow> (Some r, w)),
       vs_Hashes = (\<lambda>c w. case qdrant_Hashes q c w of Some r \<Rightarrow> r | None \<Rightarrow> (Inl (sentinel_err CtxDeadlineExceeded), w)) \<rparr>"

section \<open>Scrolling\<close>

text \<open>A service that answers the scroll with these pages, one after the other, the last without an offset.\<close>

fun serves_pages ::
  "'w qdrant \<Rightarrow> ctx \<Rightarrow> string option \<Rightarrow> 'w \<Rightarrow> (string \<rightharpoonup> string) option list list \<Rightarrow> 'w \<Rightarrow> bool" where
  "serves_pages q c offset w [] w' = False"
| "serves_pages q c offset w [page] w' =
     (qc_Scroll (qd_client q) c (qd_collection q) 1000 offset w = (Inr (page, None), w'))"
| "serves_pages q c offset w (page # more_pages) w' =
     (case qc_Scroll (qd_client q) c (qd_collection q) 1000 offset w of
        (Inr (points, Some o'), w1) \<Rightarrow> points = page \<and> serves_pages q c (Some o') w1 more_pages w'
      | _ \<Rightarrow> False)"

lemma page_hashes_append: "page_hashes (ps @ qs) out = page_hashes qs (page_hashes ps out)"
  by (simp add: page_hashes_def)

text \<open>Reading the hashes of the vector store ends with the service's last page, however many pages there
  are, and returns what all pages together hold, a later point of the same chunk winning.\<close>

theorem scroll_reads_all_pages:
  assumes "serves_pages q c None w pages w'"
  shows "qdrant_Hashes q c w = Some (Inr (page_hashes (concat pages) Map.empty), w')"
proof -
  have "qdrant_scroll q c offset out w = Some (Inr (page_hashes (concat pages) out), w')"
    if "serves_pages q c offset w pages w'" for offset out w
    using that
  proof (induction pages arbitrary: offset out w rule: induct_list012)
    case (2 page)
    then show ?case by (simp add: qdrant_scroll.simps [of q])
  next
    case (3 page page2 rest)
    from 3(3) show ?case
      by (subst qdrant_scroll.simps)
         (auto simp: 3(2) page_hashes_append split: prod.splits sum.splits option.splits)
  qed simp
  from this [OF assms] show ?thesis by (simp add: qdrant_Hashes_def)
qed

text \<open>An example: a service with two pages.\<close>

definition demo_pages_client :: "'w qdrant_client" where
  "demo_pages_client =
     \<lparr> qc_CollectionExists = (\<lambda>c n w. (Inr True, w)), qc_CreateCollection = (\<lambda>c n d w. (None, w)),
       qc_Upsert = (\<lambda>c n ps w. (None, w)), qc_Query = (\<lambda>c n v k w. (Inr [], w)),
       qc_Scroll = (\<lambda>c n k offset w.
         (Inr (if offset = None then ([Some [''chunk_id'' \<mapsto> ''a'', ''chunk_hash'' \<mapsto> ''1'']], Some ''p2'')
               else ([Some [''chunk_id'' \<mapsto> ''b'', ''chunk_hash'' \<mapsto> ''2''], None], None)), w)) \<rparr>"

definition demo_qdrant :: "nat qdrant" where
  "demo_qdrant = \<lparr> qd_client = demo_pages_client, qd_collection = ''kb'', qd_dim = 3 \<rparr>"

lemma scroll_reads_all_pages_witness:
  "\<exists>h. qdrant_Hashes demo_qdrant background 0 = Some (Inr h, 0) \<and> h ''a'' = Some ''1'' \<and> h ''b'' = Some ''2''"
proof -
  have "serves_pages demo_qdrant background None 0
      [[Some [''chunk_id'' \<mapsto> ''a'', ''chunk_hash'' \<mapsto> ''1'']],
       [Some [''chunk_id'' \<mapsto> ''b'', ''chunk_hash'' \<mapsto> ''2''], None]] 0"
    by (simp add: demo_qdrant_def demo_pages_client_def)
  from scroll_reads_all_pages [OF this] show ?thesis by (simp add: page_hashes_def payload_string_def)
qed

section \<open>Points of chunks\<close>

lemma uuid_length: "length (uuidFromString s) = 36"
  by (simp add: uuidFromString_def Let_def)

text \<open>What an upserted chunk is read back as.\<close>

lemma upserted_chunk:
  "page_hashes [Some (qp_Payload (qdrant_point_of (chunk_point ch v)))] out =
     (if ck_ID ch = [] then out else out(ck_ID ch \<mapsto> chunkHash ch))"
proof -
  have "payload_string (Some (qp_Payload (qdrant_point_of (chunk_point ch v)))) ''chunk_id'' = ck_ID ch"
    "payload_string (Some (qp_Payload (qdrant_point_of (chunk_point ch v)))) ''chunk_hash'' = chunkHash ch"
    by (simp_all add: payload_string_def qdrant_point_of_def chunk_point_def string_values_def map_add_def)
  then show ?thesis by (simp add: page_hashes_def)
qed

end
