(* ===== verification/Runbook_Tool.thy ===== *)
theory Runbook_Tool
  imports Retriever
begin

text \<open>
  The runbook search tool (\<open>src/internal/tool/runbook/runbook.go\<close>): hybrid retrieval where a retriever is
  given, and a lexical search over the Markdown files otherwise. The directory is the list of what the
  walk visits, as in \<open>Loader\<close>; the wrapper that makes it a tool of the eino library is left out.
\<close>

section \<open>Lexical search\<close>

text \<open>\<open>strings.Fields\<close> and \<open>strings.Contains\<close>.\<close>

fun fields_from :: "string list \<Rightarrow> string \<Rightarrow> string list" where
  "fields_from [] cur = flush_word cur"
| "fields_from (r # rs) cur = (if is_space r then flush_word cur @ fields_from rs [] else fields_from rs (cur @ r))"

fun str_contains :: "string \<Rightarrow> string \<Rightarrow> bool" where
  "str_contains sub [] = (sub = [])"
| "str_contains sub (c # s) = (prefix sub (c # s) \<or> str_contains sub s)"

definition rb_tokenize :: "(string \<Rightarrow> string) \<Rightarrow> string \<Rightarrow> string list" where
  "rb_tokenize lower s = filter (\<lambda>f. 2 \<le> length f) (fields_from (runes (lower s)) [])"

definition scoreDoc :: "(string \<Rightarrow> string) \<Rightarrow> string list \<Rightarrow> string \<Rightarrow> float64" where
  "scoreDoc lower tokens content =
     (if tokens = [] then Fin 0
      else f64_div (f64_int (length (filter (\<lambda>tok. str_contains tok (lower content)) tokens))) (f64_int (length tokens)))"

definition truncate_bytes :: "string \<Rightarrow> nat \<Rightarrow> string" where
  "truncate_bytes s n = (if length s \<le> n then s else take n s)"

text \<open>The files the walk found, with what reading them gives; an error of the walk ends the search.\<close>

fun listMarkdown :: "walk_entry list \<Rightarrow> gerror + (string \<times> (gerror + string)) list" where
  "listMarkdown [] = Inr []"
| "listMarkdown (WalkError e # rest) = Inl e"
| "listMarkdown (WalkDirectory d # rest) = listMarkdown rest"
| "listMarkdown (WalkFile path rel content # rest) =
     (case listMarkdown rest of
        Inl e \<Rightarrow> Inl e
      | Inr files \<Rightarrow> Inr (if suffix ''.md'' path then (path, content) # files else files))"

record runbook_result =
  rbr_Source :: string
  rbr_Heading :: string
  rbr_Content :: string
  rbr_Score :: float64

definition score_file ::
  "(string \<Rightarrow> string) \<Rightarrow> string list \<Rightarrow> string \<times> (gerror + string) \<Rightarrow> (runbook_result \<times> float64) option" where
  "score_file lower tokens file =
     (case file of (path, content) \<Rightarrow>
      (case content of
         Inl e \<Rightarrow> None
       | Inr doc \<Rightarrow>
           (let score = scoreDoc lower tokens doc in
            if f64_le score (Fin 0) then None
            else Some (\<lparr> rbr_Source = path_base path, rbr_Heading = extractHeading doc,
                         rbr_Content = truncate_bytes doc 2000, rbr_Score = score \<rparr>, score))))"

definition lexicalSearch :: "(string \<Rightarrow> string) \<Rightarrow> int \<Rightarrow> walk_entry list \<Rightarrow> string \<Rightarrow> gerror + runbook_result list" where
  "lexicalSearch lower topK entries query =
     (case listMarkdown entries of
        Inl e \<Rightarrow> Inl e
      | Inr files \<Rightarrow>
          (let docs = sort_slice score_first (List.map_filter (score_file lower (rb_tokenize lower query)) files)
           in Inr (map fst (if topK < int (length docs) then take (nat topK) docs else docs))))"

section \<open>The tool\<close>

record 'w runbook_tool =
  rt_entries :: "walk_entry list"
  rt_retriever :: "'w Hybrid option"
  rt_topK :: int

definition runbook_New :: "walk_entry list \<Rightarrow> 'w runbook_tool" where
  "runbook_New entries = \<lparr> rt_entries = entries, rt_retriever = None, rt_topK = 5 \<rparr>"

definition NewWithRetriever :: "'w Hybrid \<Rightarrow> int \<Rightarrow> 'w runbook_tool" where
  "NewWithRetriever r topK = \<lparr> rt_entries = [], rt_retriever = Some r, rt_topK = (if topK \<le> 0 then 5 else topK) \<rparr>"

definition runbook_result_of :: "result \<Rightarrow> runbook_result" where
  "runbook_result_of r =
     \<lparr> rbr_Source = ck_Source (fst r), rbr_Heading = ck_Title (fst r), rbr_Content = ck_Content (fst r), rbr_Score = snd r \<rparr>"

definition runbook_search ::
  "unicode \<Rightarrow> (float64 \<Rightarrow> float64) \<Rightarrow> 'w runbook_tool \<Rightarrow> ctx \<Rightarrow> string \<Rightarrow> 'w
    \<Rightarrow> (gerror + runbook_result list) option \<times> 'w" where
  "runbook_search u logf t c query w =
     (case rt_retriever t of
        None \<Rightarrow> (Some (lexicalSearch (u_lower u) (rt_topK t) (rt_entries t) query), w)
      | Some h \<Rightarrow>
          (case Retrieve u logf h c query (rt_topK t) w of
             (Some (Inr rs), w) \<Rightarrow> (Some (Inr (map runbook_result_of rs)), w)
           | (Some (Inl e), w) \<Rightarrow> (Some (Inl e), w)
           | (None, w) \<Rightarrow> (None, w)))"

section \<open>What a search returns\<close>

lemma scoreDoc_within: "length tokens < 2 ^ 53 \<Longrightarrow> f_within 1 (scoreDoc lower tokens content)"
  using f_within_div [of "length tokens" _ "length tokens"] f_within_int [of _ "length tokens"]
  by (auto simp: scoreDoc_def le_less_trans [OF length_filter_le])

lemma scoreDoc_zero:
  "\<forall>tok \<in> set tokens. \<not> str_contains tok (lower content) \<Longrightarrow> length tokens < 2 ^ 53 \<Longrightarrow> scoreDoc lower tokens content = Fin 0"
  by (auto simp: scoreDoc_def f64_int_exact f_div_def fl_def fround_def binary64_def Let_def)

lemma listMarkdown_file:
  "listMarkdown entries = Inr files \<Longrightarrow> (path, content) \<in> set files \<Longrightarrow>
    suffix ''.md'' path \<and> (\<exists>rel. WalkFile path rel content \<in> set entries)"
proof (induction entries arbitrary: files rule: listMarkdown.induct)
  case (4 p rel cont rest)
  then obtain fs where fs: "listMarkdown rest = Inr fs" and files: "files = (if suffix ''.md'' p then (p, cont) # fs else fs)"
    by (auto split: sum.splits)
  show ?case
  proof (cases "suffix ''.md'' p \<and> (path, content) = (p, cont)")
    case False
    then have "(path, content) \<in> set fs" using 4(3) files by (auto split: if_splits)
    from 4(1) [OF fs this] show ?thesis by auto
  qed auto
qed auto

text \<open>The lexical search returns at most \<open>topK\<close> results, the best first; each comes from a Markdown file
  of the directory that could be read, holds at most its first 2000 bytes, and its score lies between 0 and
  1, above 0 because the file contains a word of the query.\<close>

theorem lexical_search_is_sound:
  assumes "lexicalSearch lower topK entries query = Inr rs" and "0 \<le> topK"
    and "length (rb_tokenize lower query) < 2 ^ 53"
  shows "int (length rs) \<le> topK
    \<and> sorted_wrt (\<lambda>x y. \<not> f64_lt (rbr_Score x) (rbr_Score y)) rs
    \<and> list_all (\<lambda>r. \<exists>path rel doc. WalkFile path rel (Inr doc) \<in> set entries \<and> suffix ''.md'' path
        \<and> rbr_Source r = path_base path \<and> prefix (rbr_Content r) doc \<and> length (rbr_Content r) \<le> 2000
        \<and> f_within 1 (rbr_Score r)
        \<and> (\<exists>tok \<in> set (rb_tokenize lower query). str_contains tok (lower doc))) rs"
proof -
  let ?tokens = "rb_tokenize lower query"
  obtain files where files: "listMarkdown entries = Inr files"
    using assms(1) by (auto simp: lexicalSearch_def split: sum.splits)
  let ?found = "List.map_filter (score_file lower ?tokens) files"
  let ?docs = "sort_slice score_first ?found"
  have rs: "rs = map fst (take (nat topK) ?docs)"
    using assms(1,2) files by (auto simp: lexicalSearch_def Let_def)
  have shape: "snd x = rbr_Score (fst x) \<and> f_within 1 (snd x) \<and> (\<exists>path rel doc. WalkFile path rel (Inr doc) \<in> set entries
      \<and> suffix ''.md'' path \<and> rbr_Source (fst x) = path_base path \<and> prefix (rbr_Content (fst x)) doc
      \<and> length (rbr_Content (fst x)) \<le> 2000 \<and> (\<exists>tok \<in> set ?tokens. str_contains tok (lower doc)))"
    if x: "x \<in> set ?found" for x
  proof -
    obtain path content where f: "(path, content) \<in> set files" and s: "score_file lower ?tokens (path, content) = Some x"
      using map_filter_member [OF x] by auto
    obtain doc where doc: "content = Inr doc" and pos: "\<not> f64_le (scoreDoc lower ?tokens doc) (Fin 0)"
      and x: "x = (\<lparr> rbr_Source = path_base path, rbr_Heading = extractHeading doc,
                     rbr_Content = truncate_bytes doc 2000, rbr_Score = scoreDoc lower ?tokens doc \<rparr>, scoreDoc lower ?tokens doc)"
      using s by (auto simp: score_file_def Let_def split: sum.splits if_splits)
    have "\<exists>tok \<in> set ?tokens. str_contains tok (lower doc)" 
      using scoreDoc_zero [of ?tokens lower doc] assms(3) pos
      by (cases "\<exists>tok \<in> set ?tokens. str_contains tok (lower doc)") auto
    moreover have "prefix (truncate_bytes doc 2000) doc \<and> length (truncate_bytes doc 2000) \<le> 2000"
      by (auto simp: truncate_bytes_def take_is_prefix)
    ultimately show ?thesis using listMarkdown_file [OF files f] scoreDoc_within [OF assms(3)] by (auto simp: x doc)
  qed
  have "list_all numeric ?found" using shape by (fastforce simp: list_all_iff numeric_def f_within_Fin)
  then have sorted: "sorted_wrt (\<lambda>x y. \<not> score_first y x) (take (nat topK) ?docs)"
    by (intro sorted_wrt_take by_score.sort_slice_sorted)
  have taken: "x \<in> set ?found" if "x \<in> set (take (nat topK) ?docs)" for x using in_set_takeD [OF that] by simp
  have score: "snd x = rbr_Score (fst x)" if "x \<in> set (take (nat topK) ?docs)" for x
    using shape [OF taken [OF that]] by blast
  have "sorted_wrt (\<lambda>x y. \<not> f64_lt (rbr_Score (fst x)) (rbr_Score (fst y))) (take (nat topK) ?docs)"
    by (rule sorted_wrt_mono_rel [OF _ sorted]) (simp add: score_first_def score)
  moreover have "int (length rs) \<le> topK" using assms(2) by (simp add: rs)
  moreover have "list_all (\<lambda>r. \<exists>path rel doc. WalkFile path rel (Inr doc) \<in> set entries \<and> suffix ''.md'' path
        \<and> rbr_Source r = path_base path \<and> prefix (rbr_Content r) doc \<and> length (rbr_Content r) \<le> 2000
        \<and> f_within 1 (rbr_Score r)
        \<and> (\<exists>tok \<in> set ?tokens. str_contains tok (lower doc))) rs"
    unfolding rs list_all_iff set_map
  proof
    fix r assume "r \<in> fst ` set (take (nat topK) ?docs)"
    then obtain x where "x \<in> set (take (nat topK) ?docs)" "r = fst x" by blast
    with shape [OF taken [OF this(1)]] show "\<exists>path rel doc. WalkFile path rel (Inr doc) \<in> set entries
        \<and> suffix ''.md'' path \<and> rbr_Source r = path_base path \<and> prefix (rbr_Content r) doc
        \<and> length (rbr_Content r) \<le> 2000 \<and> f_within 1 (rbr_Score r)
        \<and> (\<exists>tok \<in> set ?tokens. str_contains tok (lower doc))" by metis
  qed
  ultimately show ?thesis by (simp add: rs sorted_wrt_map)
qed

lemma lexical_search_is_sound_witness:
  "\<exists>rs. lexicalSearch (\<lambda>s. s) 5 [WalkDirectory ''docs'', WalkFile ''docs/a.md'' ''a.md'' (Inr ''ab'')] ''ab'' = Inr rs
    \<and> int (length rs) \<le> 5"
proof -
  let ?entries = "[WalkDirectory ''docs'', WalkFile ''docs/a.md'' ''a.md'' (Inr ''ab'')]"
  have "listMarkdown ?entries = Inr [(''docs/a.md'', Inr ''ab'')]" by (simp add: suffix_to_prefix)
  then obtain rs where rs: "lexicalSearch (\<lambda>s. s) 5 ?entries ''ab'' = Inr rs"
    unfolding lexicalSearch_def Let_def by (metis sum.simps(6))
  have "length (fields_from xs cur) \<le> Suc (length xs)" for xs cur
    by (induction xs cur rule: fields_from.induct) (auto simp: flush_word_def)
  from le_trans [OF length_filter_le this] have "length (rb_tokenize (\<lambda>s. s) ''ab'') \<le> Suc (length (runes ''ab''))"
    unfolding rb_tokenize_def .
  also have "length (runes ''ab'') \<le> 2" using rune_count_length [of "''ab''"] by (simp add: rune_count_def)
  finally have "length (rb_tokenize (\<lambda>s. s) ''ab'') < 2 ^ 53" by simp
  with lexical_search_is_sound [OF rs] rs show ?thesis by auto
qed

end
