(* ===== verification/Evaluation.thy ===== *)
theory Evaluation
  imports Go_Sort
begin

text \<open>
  Scoring a retriever against reviewed queries (\<open>src/internal/knowledge/evaluation/metrics.go\<close>, and
  the reading of the queries in \<open>src/cmd/rageval/main.go\<close>): recall at \<open>k\<close>, mean reciprocal rank and
  binary NDCG over the documents a run returned. Go maps are partial functions; the cut-offs \<open>k\<close> the
  program passes are positive. \<open>math.Log2\<close> is the argument \<open>log2\<close>.
\<close>

record Qrel =
  qr_ID :: string
  qr_Query :: string
  qr_Component :: string
  qr_RelevantDocIDs :: "string list"
  qr_Reviewed :: bool

record Report =
  rp_Queries :: nat
  rp_RecallAt :: "string \<rightharpoonup> float64"
  rp_MRR :: float64
  rp_NDCGAt5 :: float64
  rp_ComponentRecallAt5 :: "string \<rightharpoonup> float64"
  rp_MissesAt5 :: "string list"

section \<open>The metrics of one query\<close>

definition stringSet :: "string list \<Rightarrow> string set" where
  "stringSet values = set values"

definition unique :: "string list \<Rightarrow> string list" where
  "unique values = keep_first {} values"

definition recallAt :: "string list \<Rightarrow> string set \<Rightarrow> nat \<Rightarrow> float64" where
  "recallAt ranked relevant k =
     (if card relevant = 0 then Fin 0
      else f64_div (f64_int (length (filter (\<lambda>doc. doc \<in> relevant) (take k ranked)))) (f64_int (card relevant)))"

fun reciprocal_from :: "nat \<Rightarrow> string list \<Rightarrow> string set \<Rightarrow> float64" where
  "reciprocal_from i [] relevant = Fin 0"
| "reciprocal_from i (doc # docs) relevant =
     (if doc \<in> relevant then f64_div (Fin 1) (f64_int (i + 1)) else reciprocal_from (i + 1) docs relevant)"

definition reciprocalRank :: "string list \<Rightarrow> string set \<Rightarrow> float64" where
  "reciprocalRank ranked relevant = reciprocal_from 0 ranked relevant"

definition ndcgAt :: "(float64 \<Rightarrow> float64) \<Rightarrow> string list \<Rightarrow> string set \<Rightarrow> nat \<Rightarrow> float64" where
  "ndcgAt log2 ranked relevant k =
     (if card relevant = 0 then Fin 0
      else let k = min k (length ranked);
               gain = (\<lambda>i. f64_div (Fin 1) (log2 (f64_int (i + 2))));
               dcg = fold (\<lambda>(i, doc) sum. if doc \<in> relevant then f64_add sum (gain i) else sum)
                       (enumerate 0 (take k ranked)) (Fin 0);
               idcg = fold (\<lambda>i sum. f64_add sum (gain i)) [0..<min (card relevant) k] (Fin 0)
           in f64_div dcg idcg)"

section \<open>The report\<close>

text \<open>The loop over the queries keeps the report and, for every component, the sum and the number of its
  recalls. A missing map entry reads as zero.\<close>

definition add_at :: "string \<Rightarrow> float64 \<Rightarrow> (string \<rightharpoonup> float64) \<Rightarrow> string \<rightharpoonup> float64" where
  "add_at key x m = m(key \<mapsto> f64_add (case m key of None \<Rightarrow> Fin 0 | Some y \<Rightarrow> y) x)"

definition div_at :: "float64 \<Rightarrow> string \<Rightarrow> (string \<rightharpoonup> float64) \<Rightarrow> string \<rightharpoonup> float64" where
  "div_at n key m = m(key \<mapsto> f64_div (case m key of None \<Rightarrow> Fin 0 | Some y \<Rightarrow> y) n)"

definition run_of :: "(string \<rightharpoonup> string list) \<Rightarrow> string \<Rightarrow> string list" where
  "run_of runs qid = (case runs qid of None \<Rightarrow> [] | Some docs \<Rightarrow> docs)"

type_synonym recall_sums = "(string \<rightharpoonup> float64) \<times> (string \<rightharpoonup> nat)"

definition score_query ::
  "(float64 \<Rightarrow> float64) \<Rightarrow> (string \<rightharpoonup> string list) \<Rightarrow> nat list \<Rightarrow> Qrel \<Rightarrow> Report \<times> recall_sums \<Rightarrow> Report \<times> recall_sums" where
  "score_query log2 runs ks qrel st =
     (case st of (report, componentSum, componentCount) \<Rightarrow>
      let relevant = stringSet (qr_RelevantDocIDs qrel);
          ranked = unique (run_of runs (qr_ID qrel));
          recall5 = recallAt ranked relevant 5;
          component = qr_Component qrel
      in (report\<lparr> rp_RecallAt := fold (\<lambda>k. add_at (dec_nat k) (recallAt ranked relevant k)) ks (rp_RecallAt report),
                  rp_MissesAt5 := rp_MissesAt5 report @ (if f64_lt recall5 (Fin 1) then [qr_ID qrel] else []),
                  rp_MRR := f64_add (rp_MRR report) (reciprocalRank ranked relevant),
                  rp_NDCGAt5 := f64_add (rp_NDCGAt5 report) (ndcgAt log2 ranked relevant 5) \<rparr>,
          add_at component recall5 componentSum,
          componentCount(component \<mapsto> Suc (case componentCount component of None \<Rightarrow> 0 | Some n \<Rightarrow> n))))"

definition empty_report :: "nat \<Rightarrow> Report" where
  "empty_report n =
     \<lparr> rp_Queries = n, rp_RecallAt = Map.empty, rp_MRR = Fin 0, rp_NDCGAt5 = Fin 0,
       rp_ComponentRecallAt5 = Map.empty, rp_MissesAt5 = [] \<rparr>"

definition Evaluate_runs ::
  "(float64 \<Rightarrow> float64) \<Rightarrow> Qrel list \<Rightarrow> (string \<rightharpoonup> string list) \<Rightarrow> nat list \<Rightarrow> Report" where
  "Evaluate_runs log2 qrels runs ks0 =
     (let ks = (if ks0 = [] then [3, 5, 8] else ks0); n = length qrels in
      if qrels = [] then empty_report 0
      else case fold (score_query log2 runs ks) qrels (empty_report n, Map.empty, Map.empty) of
        (report, componentSum, componentCount) \<Rightarrow>
          report\<lparr> rp_RecallAt := fold (\<lambda>k. div_at (f64_int n) (dec_nat k)) ks (rp_RecallAt report),
                  rp_MRR := f64_div (rp_MRR report) (f64_int n),
                  rp_NDCGAt5 := f64_div (rp_NDCGAt5 report) (f64_int n),
                  rp_ComponentRecallAt5 := (\<lambda>c. map_option
                    (\<lambda>sum. f64_div sum (f64_int (case componentCount c of None \<Rightarrow> 0 | Some m \<Rightarrow> m))) (componentSum c)),
                  rp_MissesAt5 := sort_slice str_less (rp_MissesAt5 report) \<rparr>)"

section \<open>The reviewed queries\<close>

text \<open>
  \<open>loadQrels\<close>: a line of the file is given with what \<open>json.Unmarshal\<close> makes of it; the file is the
  error of opening it, or its lines with the error that ended the scan.
\<close>

fun load_lines :: "nat \<Rightarrow> (gerror + Qrel) list \<Rightarrow> string set \<Rightarrow> Qrel list \<Rightarrow> gerror + Qrel list" where
  "load_lines n [] seen qrels = Inr qrels"
| "load_lines n (Inl e # rest) seen qrels =
     Inl (wrap_err (''decode qrels line '' @ dec_nat n @ '': '') e)"
| "load_lines n (Inr q # rest) seen qrels =
     (if TrimSpace (qr_ID q) = [] \<or> TrimSpace (qr_Query q) = [] \<or> TrimSpace (qr_Component q) = []
         \<or> qr_RelevantDocIDs q = []
      then Inl (plain_err (''qrels line '' @ dec_nat n @ '' has empty required fields''))
      else if \<not> qr_Reviewed q
      then Inl (plain_err (''qrels line '' @ dec_nat n @ '' ('' @ qr_ID q @ '') requires human review''))
      else if qr_ID q \<in> seen then Inl (plain_err (''duplicate query_id '' @ go_quote (qr_ID q)))
      else load_lines (Suc n) rest (insert (qr_ID q) seen) (qrels @ [q]))"

definition loadQrels :: "gerror + (gerror + Qrel) list \<times> gerror option \<Rightarrow> gerror + Qrel list" where
  "loadQrels file =
     (case file of
        Inl e \<Rightarrow> Inl (wrap_err ''open qrels: '' e)
      | Inr (rows, scan_err) \<Rightarrow>
          (case load_lines 1 rows {} [] of
             Inl e \<Rightarrow> Inl e
           | Inr qrels \<Rightarrow>
               (case scan_err of
                  Some e \<Rightarrow> Inl (wrap_err ''read qrels: '' e)
                | None \<Rightarrow> if qrels = [] then Inl (plain_err ''qrels is empty'') else Inr qrels)))"

section \<open>Ranges\<close>

lemma filter_within: "distinct ranked \<Longrightarrow> finite R \<Longrightarrow> length (filter (\<lambda>d. d \<in> R) (take k ranked)) \<le> card R"
proof -
  assume d: "distinct ranked" and R: "finite R"
  let ?hits = "filter (\<lambda>d. d \<in> R) (take k ranked)"
  have "length ?hits = card (set ?hits)" using d by (intro distinct_card [symmetric] distinct_filter distinct_take)
  also have "\<dots> \<le> card R" using R by (intro card_mono) auto
  finally show ?thesis .
qed

lemma recallAt_within:
  assumes "distinct ranked" and "finite R" and "card R < 2 ^ 53"
  shows "f_within 1 (recallAt ranked R k)"
proof (cases "card R = 0")
  case False
  let ?h = "length (filter (\<lambda>d. d \<in> R) (take k ranked))"
  have "?h \<le> card R" using filter_within assms by blast
  then show ?thesis
    using False assms(3) f_within_div [of ?h "f64_int ?h" "card R"] f_within_int [of ?h ?h]
    by (simp add: recallAt_def)
qed (simp add: recallAt_def)

lemma f_within_one: "f_within 1 (Fin 1)"
  by (simp add: f_within_def)

lemma reciprocal_within: "i + length ranked < 2 ^ 53 \<Longrightarrow> f_within 1 (reciprocal_from i ranked R)"
proof (induction i ranked R rule: reciprocal_from.induct)
  case (2 i d ds R)
  then show ?case using f_within_div [of 1 "Fin 1" "i + 1"] f_within_one by simp
qed simp

text \<open>Recall is 1 exactly when every relevant document is among the first \<open>k\<close>.\<close>

lemma below_one: "fround binary64 (1 - 1 / 2 ^ 53) = 1 - 1 / 2 ^ 53"
proof -
  let ?q = "1 - 1 / 2 ^ 53 :: rat"
  have "log2_floor ?q = - 1"
  proof (rule log2_floor_eqI)
    have "(2::rat) powi - 1 = 1 / 2" by (simp add: power_int_def)
    then show "2 powi - 1 \<le> ?q" "?q < 2 powi (- 1 + 1)" by simp_all
  qed
  then have ulp: "ulp binary64 \<bar>?q\<bar> = 1 / 2 ^ 53"
    by (simp add: ulp_def binary64_def power_int_def power_divide)
  have "?q / (1 / 2 ^ 53) = of_int (2 ^ 53 - 1)" by simp
  then have rounded: "round_half_even (?q / (1 / 2 ^ 53)) = 2 ^ 53 - 1" by (simp only: round_half_even_int)
  have "fround binary64 ?q = of_int (2 ^ 53 - 1) * (1 / 2 ^ 53)"
    unfolding fround_def using ulp rounded by (simp only:) simp
  then show ?thesis by simp
qed

lemma proper_fraction:
  assumes "h < r" and "r < 2 ^ 53"
  shows "f64_lt (f64_div (f64_int h) (f64_int r)) (Fin 1)"
proof -
  have r: "(0::rat) < of_nat r" using assms by simp
  have "of_nat h / of_nat r \<le> (of_nat r - 1 :: rat) / of_nat r"
    using assms(1) by (intro divide_right_mono) (simp_all flip: of_nat_Suc add: le_diff_eq of_nat_le_iff)
  also have "\<dots> = 1 - 1 / of_nat r" using r by (simp add: diff_divide_distrib)
  also have "\<dots> \<le> 1 - 1 / 2 ^ 53"
  proof -
    have "(of_nat r :: rat) \<le> of_nat (2 ^ 53)" using assms(2) by (simp only: of_nat_le_iff)
    then have "1 / (2 ^ 53 :: rat) \<le> 1 / of_nat r" using r by (intro divide_left_mono) auto
    then show ?thesis by simp
  qed
  finally have "fround binary64 (of_nat h / of_nat r) \<le> 1 - 1 / 2 ^ 53"
    using fround_mono [of "of_nat h / of_nat r" "1 - 1 / 2 ^ 53" binary64] r below_one by (simp add: binary64_def)
  moreover have "fl binary64 (of_nat h / of_nat r) = Fin (fround binary64 (of_nat h / of_nat r))"
    using assms r by (intro fl_within(2) [of _ 1]) auto
  ultimately show ?thesis using assms by (simp add: f64_int_exact f_div_def)
qed

lemma recallAt_complete:
  assumes "distinct ranked" and "finite R" and "card R < 2 ^ 53" and "R \<noteq> {}"
  shows "f64_lt (recallAt ranked R k) (Fin 1) \<longleftrightarrow> \<not> R \<subseteq> set (take k ranked)"
proof -
  let ?hits = "filter (\<lambda>d. d \<in> R) (take k ranked)"
  have n: "card R \<noteq> 0" using assms(2,4) by simp
  have len: "length ?hits = card (R \<inter> set (take k ranked))"
    using assms(1) by (subst distinct_card [symmetric]) (auto simp: Int_def conj_commute intro: arg_cong [where f = card])
  show ?thesis
  proof (cases "R \<subseteq> set (take k ranked)")
    case True
    then have "length ?hits = card R" using len by (simp add: Int_absorb2)
    then have "recallAt ranked R k = fl binary64 1" using n assms(3) by (simp add: recallAt_def f64_int_exact f_div_def)
    moreover have "fl binary64 1 = Fin 1" using f64_int_exact [of 1] by (simp add: f64_int_def)
    ultimately show ?thesis using True by simp
  next
    case False
    then have "length ?hits < card R" using len assms(2) by (auto intro!: psubset_card_mono)
    then show ?thesis using False n proper_fraction assms(3) by (simp add: recallAt_def)
  qed
qed

section \<open>What a report says\<close>

text \<open>The lists of a query and of its run are shorter than the integers a \<open>float64\<close> keeps.\<close>

definition scorable :: "(string \<rightharpoonup> string list) \<Rightarrow> Qrel \<Rightarrow> bool" where
  "scorable runs q = (length (qr_RelevantDocIDs q) < 2 ^ 53 \<and> length (run_of runs (qr_ID q)) < 2 ^ 53)"

lemma card_stringSet: "card (stringSet xs) \<le> length xs"
  by (simp add: stringSet_def card_length)

lemma unique_ok [simp]: "distinct (unique xs)" "set (unique xs) = set xs" "length (unique xs) \<le> length xs"
  by (simp_all add: unique_def length_keep_first)

definition recall_of :: "(string \<rightharpoonup> string list) \<Rightarrow> nat \<Rightarrow> Qrel \<Rightarrow> float64" where
  "recall_of runs k q = recallAt (unique (run_of runs (qr_ID q))) (stringSet (qr_RelevantDocIDs q)) k"

lemma recall_of_within: "scorable runs q \<Longrightarrow> f_within 1 (recall_of runs k q)"
  unfolding recall_of_def
  using card_stringSet [of "qr_RelevantDocIDs q"]
  by (intro recallAt_within) (auto simp: scorable_def stringSet_def)

lemma reciprocalRank_within: "scorable runs q \<Longrightarrow> f_within 1 (reciprocalRank (unique (run_of runs (qr_ID q))) R)"
  unfolding reciprocalRank_def
  using le_less_trans [OF unique_ok(3) [of "run_of runs (qr_ID q)"]] by (intro reciprocal_within) (auto simp: scorable_def)

lemma fold_at_key:
  assumes "distinct ks" and "k \<in> set ks"
    and "\<And>j m. j \<noteq> k \<Longrightarrow> g j m key = m key" and "\<And>m m'. m key = m' key \<Longrightarrow> g k m key = g k m' key"
  shows "fold g ks m key = g k m key"
  using assms(1,2)
proof (induction ks arbitrary: m)
  case (Cons j ks)
  have other: "k \<notin> set us \<Longrightarrow> fold g us m key = m key" for us m
    using assms(3) by (induction us arbitrary: m) auto
  show ?case
  proof (cases "j = k")
    case False
    with Cons show ?thesis using assms(4) [of "g j m" m, OF assms(3) [OF False]] by simp
  qed (use Cons.prems other in auto)
qed simp

lemma fold_add_at:
  "distinct ks \<Longrightarrow> k \<in> set ks \<Longrightarrow> fold (\<lambda>k. add_at (dec_nat k) (f k)) ks m (dec_nat k)
    = Some (f64_add (case m (dec_nat k) of None \<Rightarrow> Fin 0 | Some y \<Rightarrow> y) (f k))"
  by (subst fold_at_key [of _ k]) (auto simp: add_at_def)

lemma fold_div_at:
  "distinct ks \<Longrightarrow> k \<in> set ks \<Longrightarrow> fold (\<lambda>k. div_at n (dec_nat k)) ks m (dec_nat k)
    = Some (f64_div (case m (dec_nat k) of None \<Rightarrow> Fin 0 | Some y \<Rightarrow> y) n)"
  by (subst fold_at_key [of _ k]) (auto simp: div_at_def)

text \<open>The state of the loop after the queries \<open>qs\<close>.\<close>

definition scored_ok :: "(string \<rightharpoonup> string list) \<Rightarrow> nat list \<Rightarrow> Qrel list \<Rightarrow> Report \<Rightarrow> bool" where
  "scored_ok runs ks qs report =
     ((\<forall>k \<in> set ks. f_within (length qs) (case rp_RecallAt report (dec_nat k) of None \<Rightarrow> Fin 0 | Some y \<Rightarrow> y))
      \<and> f_within (length qs) (rp_MRR report)
      \<and> rp_MissesAt5 report = map qr_ID (filter (\<lambda>q. f64_lt (recall_of runs 5 q) (Fin 1)) qs))"

lemma score_query_ok:
  assumes "scored_ok runs ks qs (fst st)" and "scorable runs q" and "distinct ks" and "Suc (length qs) < 2 ^ 53"
  shows "scored_ok runs ks (qs @ [q]) (fst (score_query log2 runs ks q st))"
proof -
  obtain report s c where st: "st = (report, s, c)" by (metis prod_cases3)
  let ?r = "fst (score_query log2 runs ks q st)"
  let ?f = "\<lambda>k. recall_of runs k q"
  have recalls: "rp_RecallAt ?r = fold (\<lambda>k. add_at (dec_nat k) (?f k)) ks (rp_RecallAt report)"
    and mrr: "rp_MRR ?r = f64_add (rp_MRR report) (reciprocalRank (unique (run_of runs (qr_ID q))) (stringSet (qr_RelevantDocIDs q)))"
    and misses: "rp_MissesAt5 ?r = rp_MissesAt5 report @ (if f64_lt (?f 5) (Fin 1) then [qr_ID q] else [])"
    by (simp_all add: st score_query_def Let_def recall_of_def)
  have "f_within (length qs + 1) (case rp_RecallAt ?r (dec_nat k) of None \<Rightarrow> Fin 0 | Some y \<Rightarrow> y)" if k: "k \<in> set ks" for k
  proof -
    have "f_within (length qs + 1) (f64_add (case rp_RecallAt report (dec_nat k) of None \<Rightarrow> Fin 0 | Some y \<Rightarrow> y) (?f k))"
      using assms(1,2,4) k by (intro f_within_add recall_of_within) (auto simp: scored_ok_def st)
    then show ?thesis by (simp add: recalls fold_add_at [OF assms(3) k])
  qed
  moreover have "f_within (length qs + 1) (rp_MRR ?r)"
    unfolding mrr using assms(1,2,4) by (intro f_within_add reciprocalRank_within) (auto simp: scored_ok_def st)
  ultimately show ?thesis using assms(1) misses by (simp add: scored_ok_def st)
qed

lemma score_all_ok:
  assumes "distinct ks" and "list_all (scorable runs) qs" and "scored_ok runs ks ps (fst st)"
    and "length ps + length qs < 2 ^ 53"
  shows "scored_ok runs ks (ps @ qs) (fst (fold (score_query log2 runs ks) qs st))"
  using assms(2-4)
proof (induction qs arbitrary: ps st)
  case (Cons q qs)
  have "scored_ok runs ks (ps @ [q]) (fst (score_query log2 runs ks q st))"
    using Cons.prems by (intro score_query_ok assms(1)) auto
  with Cons.IH [of "ps @ [q]" "score_query log2 runs ks q st"] Cons.prems show ?case by simp
qed simp

lemma Evaluate_scored:
  assumes "distinct ks" and "ks \<noteq> []" and "list_all (scorable runs) qs" and "length qs < 2 ^ 53" and "qs \<noteq> []"
  obtains report where "scored_ok runs ks qs report"
    and "rp_RecallAt (Evaluate_runs log2 qs runs ks) = fold (\<lambda>k. div_at (f64_int (length qs)) (dec_nat k)) ks (rp_RecallAt report)"
    and "rp_MRR (Evaluate_runs log2 qs runs ks) = f64_div (rp_MRR report) (f64_int (length qs))"
    and "rp_MissesAt5 (Evaluate_runs log2 qs runs ks) = sort_slice str_less (rp_MissesAt5 report)"
proof -
  let ?st = "fold (score_query log2 runs ks) qs (empty_report (length qs), Map.empty, Map.empty)"
  have "scored_ok runs ks ([] @ qs) (fst ?st)"
    using assms by (intro score_all_ok) (auto simp: scored_ok_def empty_report_def)
  moreover obtain report s c where "?st = (report, s, c)" by (metis prod_cases3)
  ultimately show ?thesis using assms(2,5) by (intro that [of report]) (simp_all add: Evaluate_runs_def Let_def)
qed

section \<open>The evaluation\<close>

text \<open>A query with two relevant documents, and a run that finds one of them.\<close>

definition demo_qrel :: Qrel where
  "demo_qrel = \<lparr> qr_ID = ''q1'', qr_Query = ''pool exhausted'', qr_Component = ''mysql'',
     qr_RelevantDocIDs = [''a'', ''b''], qr_Reviewed = True \<rparr>"

definition demo_ranked :: "string \<rightharpoonup> string list" where
  "demo_ranked = [''q1'' \<mapsto> [''c'', ''a'', ''a'']]"

lemma demo_scorable: "scorable demo_ranked demo_qrel"
  by (simp add: scorable_def demo_ranked_def demo_qrel_def run_of_def)

text \<open>The scores of a report are proper: for distinct cut-offs, the recall at each of them and the mean
  reciprocal rank lie between 0 and 1, with every intermediate sum and quotient rounded as \<open>float64\<close> rounds.\<close>

theorem evaluation_in_range:
  assumes "distinct ks" and "ks \<noteq> []" and "list_all (scorable runs) qs" and "length qs < 2 ^ 53" and "qs \<noteq> []"
  shows "list_all (\<lambda>k. \<exists>x. rp_RecallAt (Evaluate_runs log2 qs runs ks) (dec_nat k) = Some x \<and> f_within 1 x) ks
    \<and> f_within 1 (rp_MRR (Evaluate_runs log2 qs runs ks))"
proof -
  obtain report where ok: "scored_ok runs ks qs report"
    and recalls: "rp_RecallAt (Evaluate_runs log2 qs runs ks) = fold (\<lambda>k. div_at (f64_int (length qs)) (dec_nat k)) ks (rp_RecallAt report)"
    and mrr: "rp_MRR (Evaluate_runs log2 qs runs ks) = f64_div (rp_MRR report) (f64_int (length qs))"
    using assms by (rule Evaluate_scored)
  have "f_within 1 (f64_div x (f64_int (length qs)))" if "f_within (length qs) x" for x
    using f_within_div [OF that order_refl] assms(4,5) by simp
  with ok show ?thesis
    unfolding mrr recalls by (auto simp: scored_ok_def list_all_iff fold_div_at [OF assms(1)])
qed

lemma evaluation_in_range_witness:
  "list_all (\<lambda>k. \<exists>x. rp_RecallAt (Evaluate_runs (\<lambda>x. x) [demo_qrel] demo_ranked [3, 5]) (dec_nat k) = Some x \<and> f_within 1 x) [3, 5]
    \<and> f_within 1 (rp_MRR (Evaluate_runs (\<lambda>x. x) [demo_qrel] demo_ranked [3, 5]))"
  by (rule evaluation_in_range) (simp_all add: demo_scorable)

text \<open>The misses of a report are exact: its list names, in order, the queries that have a relevant
  document outside the first five of their run.\<close>

theorem misses_are_the_incomplete:
  assumes "distinct ks" and "ks \<noteq> []" and "list_all (scorable runs) qs" and "length qs < 2 ^ 53" and "qs \<noteq> []"
    and "list_all (\<lambda>q. qr_RelevantDocIDs q \<noteq> []) qs"
  shows "rp_MissesAt5 (Evaluate_runs log2 qs runs ks) =
    sort_slice str_less (map qr_ID (filter
      (\<lambda>q. \<not> set (qr_RelevantDocIDs q) \<subseteq> set (take 5 (unique (run_of runs (qr_ID q))))) qs))"
proof -
  obtain report where ok: "scored_ok runs ks qs report"
    and misses: "rp_MissesAt5 (Evaluate_runs log2 qs runs ks) = sort_slice str_less (rp_MissesAt5 report)"
    using assms(1-5) by (rule Evaluate_scored)
  have "f64_lt (recall_of runs 5 q) (Fin 1) \<longleftrightarrow> \<not> set (qr_RelevantDocIDs q) \<subseteq> set (take 5 (unique (run_of runs (qr_ID q))))"
    if q: "q \<in> set qs" for q
  proof -
    have "card (stringSet (qr_RelevantDocIDs q)) < 2 ^ 53" "stringSet (qr_RelevantDocIDs q) \<noteq> {}"
      using assms(3,6) q card_stringSet [of "qr_RelevantDocIDs q"]
      by (auto simp: list_all_iff scorable_def stringSet_def)
    from recallAt_complete [OF unique_ok(1) _ this] show ?thesis by (simp add: recall_of_def stringSet_def)
  qed
  with ok show ?thesis unfolding misses by (simp add: scored_ok_def cong: filter_cong)
qed

lemma NaN_add [simp]: "f64_add NaN y = NaN" "f64_add x NaN = NaN"
  by (cases y) (auto intro: f_add.cases [of "(binary64, x, NaN)"])

lemma NaN_div: "f64_div NaN y = NaN"
  by (cases y) (simp_all add: f_div_def)

lemma ndcg_stays_NaN: "rp_NDCGAt5 (fst st) = NaN \<Longrightarrow> rp_NDCGAt5 (fst (fold (score_query log2 runs ks) qs st)) = NaN"
proof (induction qs arbitrary: st)
  case (Cons q qs)
  have "rp_NDCGAt5 (fst (score_query log2 runs ks q st)) = NaN"
    using Cons.prems by (cases st) (simp add: score_query_def Let_def)
  with Cons.IH show ?case by simp
qed simp

lemma ndcg_of_no_results: "card R \<noteq> 0 \<Longrightarrow> ndcgAt log2 [] R k = NaN"
  by (simp add: ndcgAt_def f_div_def)

lemma misses_are_the_incomplete_witness:
  "rp_MissesAt5 (Evaluate_runs (\<lambda>x. x) [demo_qrel] demo_ranked [5]) = [''q1'']"
  by (subst misses_are_the_incomplete)
     (simp_all add: demo_scorable, simp_all add: demo_qrel_def demo_ranked_def run_of_def unique_def sort_slice_def)

text \<open>A query whose run is empty spoils NDCG: the ideal gain is cut to the length of the run as well, so
  the quotient is 0/0, which is not a number, and so is the mean over all queries.\<close>

theorem an_empty_run_spoils_ndcg:
  assumes "q \<in> set qs" and "qr_RelevantDocIDs q \<noteq> []" and "runs (qr_ID q) = None"
  shows "rp_NDCGAt5 (Evaluate_runs log2 qs runs ks) = NaN"
proof -
  let ?ks = "if ks = [] then [3, 5, 8] else ks" and ?st = "(empty_report (length qs), Map.empty, Map.empty)"
  obtain ps rs where qs: "qs = ps @ q # rs" using assms(1) by (meson split_list)
  have "card (stringSet (qr_RelevantDocIDs q)) \<noteq> 0" using assms(2) by (simp add: stringSet_def)
  then have "rp_NDCGAt5 (fst (score_query log2 runs ?ks q st)) = NaN" for st
    using assms(3) by (cases st) (simp add: score_query_def Let_def run_of_def unique_def ndcg_of_no_results)
  then have "rp_NDCGAt5 (fst (fold (score_query log2 runs ?ks) qs ?st)) = NaN"
    unfolding qs by (simp add: ndcg_stays_NaN)
  moreover obtain report sum n where "fold (score_query log2 runs ?ks) qs ?st = (report, sum, n)" by (metis prod_cases3)
  moreover have "qs \<noteq> []" using assms(1) by auto
  ultimately show ?thesis by (simp add: Evaluate_runs_def Let_def NaN_div)
qed

lemma an_empty_run_spoils_ndcg_witness: "rp_NDCGAt5 (Evaluate_runs (\<lambda>x. x) [demo_qrel] Map.empty []) = NaN"
  by (rule an_empty_run_spoils_ndcg [of demo_qrel]) (simp_all add: demo_qrel_def)

end
