(* ===== verification/Knowledge_Setup.thy ===== *)
theory Knowledge_Setup
  imports Knowledge_Clients Runbook_Tool Evaluation Config
begin

text \<open>
  The assembly of the retriever (\<open>src/internal/bootstrap/knowledge.go\<close>) and the evaluation program
  (\<open>src/cmd/rageval/main.go\<close>). Whatever is missing or refused keeps the process from starting. What the
  program finds outside is one record: the documents, the HTTP client and the JSON and YAML decoders, the
  Qdrant library, \<open>url.Parse\<close>, the Unicode tables and the logarithms.
\<close>

section \<open>Addresses\<close>

record url =
  url_Scheme :: string
  url_Hostname :: string
  url_Port :: string
  url_HasUser :: bool
  url_Path :: string
  url_RawQuery :: string
  url_Fragment :: string

definition address_error :: gerror where
  "address_error = plain_err ''qdrant.url must be a gRPC endpoint: host[:port] or http://host[:port]''"

definition qdrantAddress :: "(string \<Rightarrow> gerror + url) \<Rightarrow> string \<Rightarrow> gerror + string \<times> int" where
  "qdrantAddress parse rawURL0 =
     (let raw = TrimSpace rawURL0 in
      if raw = [] then Inl (plain_err ''qdrant.url (QDRANT_URL) is required for RAG'')
      else case parse (if str_contains ''://'' raw then raw else ''http://'' @ raw) of
        Inl e \<Rightarrow> Inl address_error
      | Inr u \<Rightarrow>
          if url_Scheme u \<noteq> ''http'' \<or> url_Hostname u = [] \<or> url_HasUser u
             \<or> (url_Path u \<noteq> [] \<and> url_Path u \<noteq> ''/'') \<or> url_RawQuery u \<noteq> [] \<or> url_Fragment u \<noteq> []
          then Inl address_error
          else if url_Port u = [] then Inr (url_Hostname u, 6334)
          else (case Atoi (url_Port u) of
                  Inl e \<Rightarrow> Inl (plain_err ''qdrant.url port must be between 1 and 65535'')
                | Inr p \<Rightarrow> if p < 1 \<or> 65535 < p then Inl (plain_err ''qdrant.url port must be between 1 and 65535'')
                           else Inr (url_Hostname u, p)))"

section \<open>Building the retriever\<close>

record 'w outside =
  os_docs :: "walk_entry list"
  os_yaml :: "string \<Rightarrow> frontmatter"
  os_http :: "'w http_client"
  os_embeddings :: "string \<Rightarrow> gerror + (vec \<times> int) list"
  os_tei_ranks :: "string \<Rightarrow> gerror + (int \<times> float64) list"
  os_qwen_ranks :: "string \<Rightarrow> gerror + (int \<times> float64) list"
  os_qdrant :: "string \<Rightarrow> int \<Rightarrow> gerror + 'w qdrant_client"
  os_url :: "string \<Rightarrow> gerror + url"
  os_unicode :: unicode
  os_log :: "float64 \<Rightarrow> float64"
  os_log2 :: "float64 \<Rightarrow> float64"

definition newConfiguredReranker :: "'w outside \<Rightarrow> reranker_config \<Rightarrow> gerror + 'w Reranker" where
  "newConfiguredReranker os r =
     (if TrimSpace (rk_BaseURL r) = []
      then Inl (plain_err ''rag.reranker.base_url (RERANK_BASE_URL) is required when reranker is enabled'')
      else let p = ToLower (TrimSpace (rk_Provider r)) in
        if p = [] \<or> p = ''tei''
        then Inr \<lparr> re_Rerank = tei_Rerank (os_http os) (os_tei_ranks os) (NewTEI (rk_BaseURL r) (rk_APIKey r)) \<rparr>
        else if p = ''qwen''
        then if TrimSpace (rk_APIKey r) = []
             then Inl (plain_err ''rag.reranker.api_key (RERANK_API_KEY) is required when RERANK_PROVIDER=qwen'')
             else if TrimSpace (rk_Model r) = []
             then Inl (plain_err ''rag.reranker.model (RERANK_MODEL) is required when RERANK_PROVIDER=qwen'')
             else Inr \<lparr> re_Rerank = qwen_Rerank (os_http os) (os_qwen_ranks os)
                          (NewQwen (rk_BaseURL r) (rk_APIKey r) (rk_Model r)) \<rparr>
        else Inl (plain_err ''rag.reranker.provider (RERANK_PROVIDER) must be tei or qwen''))"

definition buildVectorStore :: "'w outside \<Rightarrow> ctx \<Rightarrow> config \<Rightarrow> 'w \<Rightarrow> (gerror + 'w VectorStore) \<times> 'w" where
  "buildVectorStore os c cfg w =
     (if cf_VectorStoreProvider cfg \<noteq> ''qdrant'' then (Inl (plain_err ''vector_store.provider must be qdrant''), w)
      else case qdrantAddress (os_url os) (qd_URL (cf_Qdrant cfg)) of
        Inl e \<Rightarrow> (Inl e, w)
      | Inr (host, port) \<Rightarrow>
          (case os_qdrant os host port of
             Inl e \<Rightarrow> (Inl (wrap_err ''create qdrant store: '' e), w)
           | Inr client \<Rightarrow>
               (let q = \<lparr> qd_client = client, qd_collection = qd_Collection (cf_Qdrant cfg),
                          qd_dim = word_of_int (qd_Dim (cf_Qdrant cfg)) \<rparr> in
                case EnsureCollection q c w of
                  (Some e, w) \<Rightarrow> (Inl (wrap_err ''ensure qdrant collection: '' e), w)
                | (None, w) \<Rightarrow> (Inr (qdrant_store q), w))))"

definition optional_reranker :: "'w outside \<Rightarrow> config \<Rightarrow> gerror + 'w Reranker option" where
  "optional_reranker os cfg =
     (if \<not> rk_Enabled (rg_Reranker (cf_RAG cfg)) then Inr None
      else map_sum id Some (newConfiguredReranker os (rg_Reranker (cf_RAG cfg))))"

definition BuildRunbookRetriever :: "'w outside \<Rightarrow> ctx \<Rightarrow> config \<Rightarrow> 'w \<Rightarrow> (gerror + 'w Hybrid) \<times> 'w" where
  "BuildRunbookRetriever os c cfg w =
     (if TrimSpace (lc_BaseURL (cf_Embedding cfg)) = []
      then (Inl (plain_err ''embedding.base_url (EMBEDDING_BASE_URL) is required for RAG''), w)
      else if TrimSpace (lc_Model (cf_Embedding cfg)) = []
      then (Inl (plain_err ''embedding.model (EMBEDDING_MODEL) is required for RAG''), w)
      else case optional_reranker os cfg of
        Inl e \<Rightarrow> (Inl e, w)
      | Inr reranker \<Rightarrow>
     (let embedder = openai_Embedder (os_http os) (os_embeddings os)
            (NewOpenAIEmbedder (lc_BaseURL (cf_Embedding cfg)) (lc_APIKey (cf_Embedding cfg)) (lc_Model (cf_Embedding cfg)))
      in case buildVectorStore os c cfg w of
        (Inl e, w) \<Rightarrow> (Inl e, w)
      | (Inr store, w) \<Rightarrow>
     (case Load (loader_splitter (Some (splitter_New 1000))) (os_yaml os) (os_docs os) of
        (chunks, Some e) \<Rightarrow> (Inl (wrap_err ''load knowledge docs: '' e), w)
      | (chunks, None) \<Rightarrow>
          if chunks = [] then (Inl (plain_err ''no knowledge docs found under docs/''), w)
          else let runbooks = filter (\<lambda>ch. ck_DocType ch = ''runbook'') chunks in
            if runbooks = [] then (Inl (plain_err ''no runbook docs found under docs/runbooks/''), w)
            else let h0 = NewHybrid runbooks embedder store (rg_CandidateK (cf_RAG cfg));
                     h = (case reranker of None \<Rightarrow> h0 | Some r \<Rightarrow> WithReranker h0 r (rg_CandidateK (cf_RAG cfg)))
                 in (case Index h c w of
                       (Some e, w) \<Rightarrow> (Inl (wrap_err ''index knowledge: '' e), w)
                     | (None, w) \<Rightarrow> (Inr h, w)))))"

section \<open>The evaluation program\<close>

text \<open>The document ids a query's run returns; a panic of the retriever ends the program.\<close>

fun run_queries ::
  "'w outside \<Rightarrow> 'w Hybrid \<Rightarrow> ctx \<Rightarrow> Qrel list \<Rightarrow> (string \<rightharpoonup> string list) \<Rightarrow> 'w
    \<Rightarrow> (gerror + (string \<rightharpoonup> string list)) option \<times> 'w" where
  "run_queries os h c [] runs w = (Some (Inr runs), w)"
| "run_queries os h c (q # qs) runs w =
     (case Retrieve (os_unicode os) (os_log os) h c (qr_Query q) 8 w of
        (None, w) \<Rightarrow> (None, w)
      | (Some (Inl e), w) \<Rightarrow> (Some (Inl (wrap_err (''retrieve '' @ qr_ID q @ '': '') e)), w)
      | (Some (Inr rs), w) \<Rightarrow>
          run_queries os h c qs
            (if rs = [] then runs else runs(qr_ID q \<mapsto> run_of runs (qr_ID q) @ map (ck_DocID \<circ> fst) rs)) w)"

definition rageval_run ::
  "'w outside \<Rightarrow> ctx \<Rightarrow> gerror + (gerror + Qrel) list \<times> gerror option \<Rightarrow> gerror + config \<Rightarrow> 'w
    \<Rightarrow> (gerror + Report) option \<times> 'w" where
  "rageval_run os c file loaded w =
     (case loadQrels file of
        Inl e \<Rightarrow> (Some (Inl e), w)
      | Inr qrels \<Rightarrow>
          (case loaded of
             Inl e \<Rightarrow> (Some (Inl e), w)
           | Inr cfg \<Rightarrow>
               (case BuildRunbookRetriever os c cfg w of
                  (Inl e, w) \<Rightarrow> (Some (Inl e), w)
                | (Inr h, w) \<Rightarrow>
                    (case run_queries os h c qrels Map.empty w of
                       (None, w) \<Rightarrow> (None, w)
                     | (Some (Inl e), w) \<Rightarrow> (Some (Inl e), w)
                     | (Some (Inr runs), w) \<Rightarrow> (Some (Inr (Evaluate_runs (os_log2 os) qrels runs [3, 5, 8])), w)))))"

section \<open>What is built\<close>

text \<open>A retriever that is built is ready: it holds at least one chunk, every chunk is of a runbook and has
  at most 1000 runes, it asks for a positive number of candidates, has a reranker exactly when one is
  enabled, and its index has run without an error.\<close>

theorem retriever_is_ready:
  assumes "BuildRunbookRetriever os c cfg w = (Inr h, w')"
  shows "hy_chunks h \<noteq> []
    \<and> list_all (\<lambda>ch. ck_DocType ch = ''runbook'' \<and> rune_count (ck_Content ch) \<le> 1000) (hy_chunks h)
    \<and> 0 < hy_candidateK h
    \<and> (hy_reranker h = None) = (\<not> rk_Enabled (rg_Reranker (cf_RAG cfg)))
    \<and> (\<exists>w1. Index h c w1 = (None, w'))"
proof -
  let ?k = "rg_CandidateK (cf_RAG cfg)"
  obtain reranker where re: "optional_reranker os cfg = Inr reranker"
    using assms by (auto simp: BuildRunbookRetriever_def split: if_splits sum.splits)
  obtain embedder store chunks w1 where
    load: "Load (loader_splitter (Some (splitter_New 1000))) (os_yaml os) (os_docs os) = (chunks, None)"
    and h: "h = (case reranker of None \<Rightarrow> NewHybrid (filter (\<lambda>ch. ck_DocType ch = ''runbook'') chunks) embedder store ?k
        | Some r \<Rightarrow> WithReranker (NewHybrid (filter (\<lambda>ch. ck_DocType ch = ''runbook'') chunks) embedder store ?k) r ?k)"
    and ne: "filter (\<lambda>ch. ck_DocType ch = ''runbook'') chunks \<noteq> []" and run: "Index h c w1 = (None, w')"
    using assms re
    by (auto simp: BuildRunbookRetriever_def Let_def split: if_splits sum.splits prod.splits option.splits)
  have "rune_count (ck_Content ch) \<le> 1000" if "ch \<in> set chunks" for ch
    using Load_content [of ch "splitter_New 1000" "os_yaml os" "os_docs os"] Split_count [of _ 1000] load that
    by (fastforce simp: loader_splitter_def)
  moreover have "hy_chunks h = filter (\<lambda>ch. ck_DocType ch = ''runbook'') chunks" "0 < hy_candidateK h"
    "hy_reranker h = reranker"
    by (auto simp: h NewHybrid_def WithReranker_def split: option.split)
  moreover have "(reranker = None) = (\<not> rk_Enabled (rg_Reranker (cf_RAG cfg)))"
    using re by (auto simp: optional_reranker_def map_sum_def split: if_splits sum.splits)
  ultimately show ?thesis using ne run by (auto simp: list_all_iff)
qed

text \<open>An outside in which everything answers, with one runbook.\<close>

definition demo_outside :: "'w outside" where
  "demo_outside =
     \<lparr> os_docs = [WalkFile ''docs/runbooks/a.md'' ''runbooks/a.md'' (Inr ''x'')],
       os_yaml = (\<lambda>_. no_frontmatter),
       os_http = (\<lambda>c r w. (Answer 200 (Inr ''''), w)),
       os_embeddings = (\<lambda>_. Inr [([Fin 1], 0)]), os_tei_ranks = (\<lambda>_. Inr []), os_qwen_ranks = (\<lambda>_. Inr []),
       os_qdrant = (\<lambda>host port. Inr demo_pages_client),
       os_url = (\<lambda>_. Inr \<lparr> url_Scheme = ''http'', url_Hostname = ''q'', url_Port = '''', url_HasUser = False,
                       url_Path = '''', url_RawQuery = '''', url_Fragment = '''' \<rparr>),
       os_unicode = demo_unicode, os_log = (\<lambda>x. x), os_log2 = (\<lambda>x. x) \<rparr>"

definition demo_rag_config :: config where
  "demo_rag_config = config_Default\<lparr> cf_Embedding := \<lparr> lc_Provider = '''', lc_BaseURL = ''http://e'', lc_APIKey = '''',
     lc_Model = ''m'' \<rparr>, cf_Qdrant := \<lparr> qd_URL = ''q'', qd_Collection = ''kb'', qd_Dim = 1 \<rparr> \<rparr>"

lemma demo_runbook_trim: "TrimSpace ''x'' = ''x''" "TrimSpace ''q'' = ''q''" "TrimSpace ''m'' = ''m''" "TrimSpace ''http://e'' = ''http://e''"
  by (rule TrimSpace_graphic; code_simp)+

lemma demo_split: "Split (splitter_New 1000) ''x'' = [''x'']"
proof -
  have "rune_count ''x'' \<le> 1000" using rune_count_length [of "''x''"] by simp
  then show ?thesis by (simp add: Split_def splitter_New_def Let_def demo_runbook_trim split_at.simps [of 1000])
qed

lemma demo_chunks:
  "\<exists>ch. Load (splitter_New 1000) (\<lambda>_. no_frontmatter) (os_docs demo_outside) = ([ch], None) \<and> ck_DocType ch = ''runbook''"
proof -
  have "parseFrontmatter (\<lambda>_. no_frontmatter) ''x'' = (no_frontmatter, ''x'')"
    by (simp add: parseFrontmatter_def Let_def demo_runbook_trim)
  moreover have "docTypeFromPath ''runbooks/a.md'' = ''runbook''" by code_simp
  ultimately show ?thesis
    by (simp add: demo_outside_def suffix_to_prefix document_chunks_def demo_split Let_def)
qed

lemma demo_store_builds:
  fixes w :: 'w
  shows "\<exists>store. buildVectorStore demo_outside c demo_rag_config w = (Inr store, w)
    \<and> (\<forall>w. vs_Hashes store c w = (Inr [''a'' \<mapsto> ''1'', ''b'' \<mapsto> ''2''], w)) \<and> (\<forall>ps w. vs_Upsert store c ps w = (None, w))"
proof -
  have "qdrant_Hashes q c w = Some (Inr [''a'' \<mapsto> ''1'', ''b'' \<mapsto> ''2''], w)" if "qd_client q = demo_pages_client" for q :: "'w qdrant" and c w
    unfolding qdrant_Hashes_def
    by (subst qdrant_scroll.simps, simp add: that demo_pages_client_def,
        subst qdrant_scroll.simps, simp add: that demo_pages_client_def page_hashes_def payload_string_def)
  then show ?thesis
    by (simp add: buildVectorStore_def demo_rag_config_def config_Default_def qdrantAddress_def demo_outside_def
        EnsureCollection_def demo_pages_client_def qdrant_store_def qdrant_Upsert_def Let_def demo_runbook_trim)
qed

lemma demo_retriever_builds:
  fixes w :: 'w
  assumes "cf_Embedding cfg = cf_Embedding demo_rag_config" and "cf_Qdrant cfg = cf_Qdrant demo_rag_config"
    and "cf_RAG cfg = cf_RAG demo_rag_config" and "cf_VectorStoreProvider cfg = cf_VectorStoreProvider demo_rag_config"
  shows "\<exists>h w'. BuildRunbookRetriever demo_outside background cfg w = (Inr h, w')"
proof -
  obtain ch where ch: "Load (splitter_New 1000) (\<lambda>_. no_frontmatter) (os_docs (demo_outside :: 'w outside)) = ([ch], None)"
    "ck_DocType ch = ''runbook''" using demo_chunks by blast
  have same: "buildVectorStore demo_outside background cfg w = buildVectorStore demo_outside background demo_rag_config w"
    unfolding buildVectorStore_def assms ..
  obtain store where store: "buildVectorStore demo_outside background cfg w = (Inr store, w)"
    "\<forall>w. vs_Hashes store background w = (Inr [''a'' \<mapsto> ''1'', ''b'' \<mapsto> ''2''], w)" "\<forall>ps w. vs_Upsert store background ps w = (None, w)"
    using demo_store_builds [of background w] unfolding same by blast
  define h where "h = NewHybrid [ch] (openai_Embedder (os_http demo_outside) (os_embeddings (demo_outside :: 'w outside))
      (NewOpenAIEmbedder ''http://e'' '''' ''m'')) store 20"
  have parts: "hy_chunks h = [ch]" "hy_vector h = store" by (simp_all add: h_def NewHybrid_def)
  have embed: "em_Embed (hy_embedder h) c ts w = (Inr [[Fin 1]], w)" for c ts w
    by (simp add: h_def NewHybrid_def openai_Embedder_def Embed_def demo_outside_def)
  have "\<exists>w'. index_chunks h background e [ch] w = (None, w')" for e
    using store(3)
    by (cases "e (ck_ID ch) = Some (chunkHash ch)") (simp_all add: existing_hash embed one_vector_def parts)
  then obtain w' where "index_chunks h background [''a'' \<mapsto> ''1'', ''b'' \<mapsto> ''2''] [ch] w = (None, w')" by blast
  then have run: "Index h background w = (None, w')" using store(2) by (simp add: Index_def parts del: index_chunks.simps)
  have cfg: "lc_BaseURL (cf_Embedding cfg) = ''http://e''" "lc_Model (cf_Embedding cfg) = ''m''"
    "lc_APIKey (cf_Embedding cfg) = ''''" "\<not> rk_Enabled (rg_Reranker (cf_RAG cfg))" "rg_CandidateK (cf_RAG cfg) = 20"
    unfolding assms by (simp_all add: demo_rag_config_def config_Default_def)
  have "os_yaml (demo_outside :: 'w outside) = (\<lambda>_. no_frontmatter)" by (simp add: demo_outside_def)
  then have "BuildRunbookRetriever demo_outside background cfg w = (Inr h, w')"
    using ch store(1) run [unfolded h_def]
    by (simp add: BuildRunbookRetriever_def cfg demo_runbook_trim optional_reranker_def loader_splitter_def h_def)
  then show ?thesis by blast
qed

lemma retriever_is_ready_witness:
  "\<exists>h w'. BuildRunbookRetriever demo_outside background demo_rag_config (0::nat) = (Inr h, w')
    \<and> list_all (\<lambda>ch. ck_DocType ch = ''runbook'' \<and> rune_count (ck_Content ch) \<le> 1000) (hy_chunks h)"
proof -
  obtain h and w' :: nat where "BuildRunbookRetriever demo_outside background demo_rag_config (0::nat) = (Inr h, w')"
    using demo_retriever_builds [OF refl refl refl refl, of 0] by blast
  from retriever_is_ready [OF this] this show ?thesis by blast
qed

text \<open>The validation of the configuration and the construction of the reranker agree on what they accept.\<close>

lemma validated_reranker_builds:
  "rk_Enabled r \<Longrightarrow> validate_reranker r = None \<longleftrightarrow> (\<exists>x. newConfiguredReranker os r = Inr x)"
  by (simp add: validate_reranker_def newConfiguredReranker_def Let_def)

text \<open>An address that is accepted has a host and a port between 1 and 65535.\<close>

lemma qdrantAddress_ok: "qdrantAddress parse raw = Inr (host, port) \<Longrightarrow> host \<noteq> [] \<and> 1 \<le> port \<and> port \<le> 65535"
  by (auto simp: qdrantAddress_def Let_def split: if_splits sum.splits)

end
