(* ===== verification/Readers.thy ===== *)
theory Readers
  imports Gatherer Knowledge_Clients Worker
begin

text \<open>
  The read-only tools of the agent: PromQL queries, alerts and ranges
  (\<open>src/internal/tool/prometheus/prometheus.go\<close>, \<open>alerts.go\<close>, \<open>range.go\<close>) and the state of a queue
  (\<open>src/internal/tool/rabbitmq/rabbitmq.go\<close>). The HTTP client, what \<open>json.Unmarshal\<close> makes of a reply
  and \<open>time.Parse\<close> are arguments; the URL that is asked for, which replies are accepted and what is kept
  of them is modelled. The last section puts the tools in the place the worker has for its readers.
\<close>

section \<open>Escaping\<close>

text \<open>\<open>url.QueryUnescape\<close> and \<open>url.PathUnescape\<close>: a query writes a space as a plus sign.\<close>

fun unescape :: "bool \<Rightarrow> string \<Rightarrow> string option" where
  "unescape q [] = Some []"
| "unescape q (c # s) =
     (if c \<noteq> CHR ''%'' then map_option ((#) (if q \<and> c = CHR ''+'' then CHR '' '' else c)) (unescape q s)
      else (case s of
          a # b # t \<Rightarrow>
            (case (hex_val a, hex_val b) of
               (Some x, Some y) \<Rightarrow> map_option ((#) (char_of (16 * x + y))) (unescape q t)
             | _ \<Rightarrow> None)
        | _ \<Rightarrow> None))"

definition path_escape_char :: "char \<Rightarrow> string" where
  "path_escape_char c =
     (let n = (of_char c :: nat)
      in if (0x30 \<le> n \<and> n \<le> 0x39) \<or> (0x41 \<le> n \<and> n \<le> 0x5A) \<or> (0x61 \<le> n \<and> n \<le> 0x7A) \<or> c \<in> set ''-_.~$&+:=@''
         then [c] else [CHR ''%'', upper_hex (n div 16), upper_hex (n mod 16)])"

definition PathEscape :: "string \<Rightarrow> string" where
  "PathEscape s = concat (map path_escape_char s)"

lemma hex_val_upper: "n < 16 \<Longrightarrow> hex_val (upper_hex n) = Some n"
  by (auto simp: hex_val_def upper_hex_def Let_def)

lemma byte_parts: "char_of (16 * (byte c div 16) + byte c mod 16) = c" "byte c div 16 < 16" "byte c mod 16 < 16"
  using byte_less [of c] less_mult_imp_div_less [of "byte c" 16 16] by (simp_all add: byte_def)

lemma unescape_hex: "unescape q (CHR ''%'' # upper_hex (byte c div 16) # upper_hex (byte c mod 16) # t)
    = map_option ((#) c) (unescape q t)"
  using byte_parts [of c] by (simp add: hex_val_upper)

lemma unescape_char: "unescape True (escape_char c @ t) = map_option ((#) c) (unescape True t)"
proof (cases "escape_char c = [CHR ''%'', upper_hex (byte c div 16), upper_hex (byte c mod 16)]")
  case True
  then show ?thesis using unescape_hex [of True c t] by simp
next
  case False
  then have "escape_char c = [c] \<and> c \<noteq> CHR ''%'' \<and> c \<noteq> CHR ''+'' \<or> escape_char c = ''+'' \<and> c = CHR '' ''"
    by (auto simp: escape_char_def byte_def Let_def split: if_splits)
  then show ?thesis by auto
qed

lemma unescape_QueryEscape [simp]: "unescape True (QueryEscape s) = Some s"
  by (induction s) (simp_all add: QueryEscape_def unescape_char)

lemma unescape_path_char: "unescape False (path_escape_char c @ t) = map_option ((#) c) (unescape False t)"
proof (cases "path_escape_char c = [CHR ''%'', upper_hex (byte c div 16), upper_hex (byte c mod 16)]")
  case True
  then show ?thesis using unescape_hex [of False c t] by simp
next
  case False
  then have "path_escape_char c = [c] \<and> c \<noteq> CHR ''%''"
    by (auto simp: path_escape_char_def byte_def Let_def split: if_splits)
  then show ?thesis by auto
qed

lemma unescape_PathEscape [simp]: "unescape False (PathEscape s) = Some s"
  by (induction s) (simp_all add: PathEscape_def unescape_path_char)

lemma upper_hex_plain: "n < 16 \<Longrightarrow> upper_hex n \<notin> set ''/?#&;=+%''"
  by (auto dest!: hex_val_upper simp: hex_val_def byte_def)

lemma escape_char_plain: "x \<in> set (escape_char c) \<Longrightarrow> x \<notin> set ''&=;#''"
  using upper_hex_plain [OF byte_parts(2) [of c]] upper_hex_plain [OF byte_parts(3) [of c]]
  by (auto simp: escape_char_def byte_def Let_def split: if_splits)

lemma path_escape_plain: "x \<in> set (path_escape_char c) \<Longrightarrow> x \<notin> set ''/?#''"
  using upper_hex_plain [OF byte_parts(2) [of c]] upper_hex_plain [OF byte_parts(3) [of c]]
  by (auto simp: path_escape_char_def byte_def Let_def split: if_splits)

section \<open>Query strings\<close>

definition cut_at :: "char \<Rightarrow> string \<Rightarrow> string \<times> string" where
  "cut_at c s = (takeWhile (\<lambda>x. x \<noteq> c) s, drop 1 (dropWhile (\<lambda>x. x \<noteq> c) s))"

text \<open>\<open>url.ParseQuery\<close>; a pair that does not parse is left out.\<close>

definition parse_pair :: "string \<Rightarrow> (string \<times> string) list" where
  "parse_pair p =
     (if p = [] \<or> CHR '';'' \<in> set p then []
      else case (unescape True (fst (cut_at (CHR ''='') p)), unescape True (snd (cut_at (CHR ''='') p))) of
          (Some k, Some v) \<Rightarrow> [(k, v)]
        | _ \<Rightarrow> [])"

definition ParseQuery :: "string \<Rightarrow> (string \<times> string) list" where
  "ParseQuery s = concat (map parse_pair (split_on (CHR ''&'') s))"

text \<open>\<open>url.Values.Set\<close> and \<open>Encode\<close>, which sorts by key.\<close>

definition set_value :: "string \<times> string \<Rightarrow> (string \<times> string) list \<Rightarrow> (string \<times> string) list" where
  "set_value kv kvs = filter (\<lambda>p. fst p \<noteq> fst kv) kvs @ [kv]"

definition pair_text :: "string \<times> string \<Rightarrow> string" where
  "pair_text kv = QueryEscape (fst kv) @ ''='' @ QueryEscape (snd kv)"

definition by_key :: "(string \<times> string) list \<Rightarrow> (string \<times> string) list" where
  "by_key = sort_slice (\<lambda>x y. str_less (fst x) (fst y))"

definition Encode :: "(string \<times> string) list \<Rightarrow> string" where
  "Encode kvs = join_with ''&'' (map pair_text (by_key kvs))"

text \<open>The URL that is asked for when parameters are set on \<open>u\<close>: those of \<open>u\<close> are kept, its fragment is not
  sent.\<close>

definition before_query :: "string \<Rightarrow> string" where
  "before_query u = fst (cut_at (CHR ''?'') (fst (cut_at (CHR ''#'') u)))"

definition raw_query :: "string \<Rightarrow> string" where
  "raw_query u = snd (cut_at (CHR ''?'') (fst (cut_at (CHR ''#'') u)))"

definition with_query :: "string \<Rightarrow> (string \<times> string) list \<Rightarrow> string" where
  "with_query u kvs = before_query u @ ''?'' @ Encode (fold set_value kvs (ParseQuery (raw_query u)))"

lemma QueryEscape_plain: "x \<in> set (QueryEscape s) \<Longrightarrow> x \<notin> set ''&=;#''"
  by (auto simp: QueryEscape_def dest: escape_char_plain)

lemma split_on_append: "c \<notin> set p \<Longrightarrow> split_on c (p @ c # s) = p # split_on c s"
  by (induction p) auto

lemma split_on_plain: "c \<notin> set p \<Longrightarrow> split_on c p = [p]"
  by (induction p) auto

lemma split_join: "xs \<noteq> [] \<Longrightarrow> \<forall>x \<in> set xs. c \<notin> set x \<Longrightarrow> split_on c (join_with [c] xs) = xs"
proof (induction xs)
  case (Cons x xs)
  then show ?case by (cases xs) (simp_all add: split_on_append split_on_plain)
qed simp

lemma cut_at_append: "c \<notin> set p \<Longrightarrow> cut_at c (p @ c # s) = (p, s)"
  by (induction p) (auto simp: cut_at_def)

lemma cut_at_plain: "c \<notin> set p \<Longrightarrow> cut_at c p = (p, [])"
  by (induction p) (auto simp: cut_at_def)

lemma parse_pair_text: "parse_pair (pair_text kv) = [kv]"
  using cut_at_append [of "CHR ''=''" "QueryEscape (fst kv)" "QueryEscape (snd kv)"] QueryEscape_plain
  by (force simp: parse_pair_def pair_text_def)

lemma pair_text_plain: "x \<in> set (pair_text kv) \<Longrightarrow> x \<notin> set ''&#''"
  by (auto simp: pair_text_def dest: QueryEscape_plain)

lemma ParseQuery_Encode: "ParseQuery (Encode kvs) = by_key kvs"
proof (cases "by_key kvs = []")
  case False
  have "ParseQuery (Encode kvs) = concat (map parse_pair (map pair_text (by_key kvs)))"
    using split_join [of "map pair_text (by_key kvs)" "CHR ''&''"] False pair_text_plain
    by (fastforce simp: ParseQuery_def Encode_def)
  then show ?thesis by (simp add: comp_def parse_pair_text)
qed (simp add: ParseQuery_def Encode_def parse_pair_def)

lemma Encode_plain: "x \<in> set (Encode kvs) \<Longrightarrow> x \<noteq> CHR ''#''"
proof -
  have join: "CHR ''#'' \<notin> set (join_with ''&'' xs)" if "\<forall>x \<in> set xs. CHR ''#'' \<notin> set x" for xs
    using that by (induction xs rule: induct_list012) auto
  have "CHR ''#'' \<notin> set (Encode kvs)" unfolding Encode_def by (rule join) (auto dest: pair_text_plain)
  then show "x \<in> set (Encode kvs) \<Longrightarrow> x \<noteq> CHR ''#''" by blast
qed

text \<open>The server reads the parameters that were set, and none but those and the ones of \<open>u\<close>.\<close>

lemma with_query_read:
  "raw_query (with_query u kvs) = Encode (fold set_value kvs (ParseQuery (raw_query u)))"
  "before_query (with_query u kvs) = before_query u"
proof -
  have b: "CHR ''?'' \<notin> set (before_query u)" "CHR ''#'' \<notin> set (before_query u)"
    by (auto simp: before_query_def cut_at_def dest!: set_takeWhileD)
  then have "CHR ''#'' \<notin> set (with_query u kvs)" using Encode_plain by (auto simp: with_query_def)
  then have "cut_at (CHR ''?'') (fst (cut_at (CHR ''#'') (with_query u kvs)))
      = (before_query u, Encode (fold set_value kvs (ParseQuery (raw_query u))))"
    using b(1) by (simp add: cut_at_plain) (simp add: with_query_def cut_at_append)
  then show "raw_query (with_query u kvs) = Encode (fold set_value kvs (ParseQuery (raw_query u)))"
    "before_query (with_query u kvs) = before_query u"
    by (simp_all add: raw_query_def before_query_def)
qed

section \<open>Requests\<close>

text \<open>A GET request, with the user and password of basic authentication where the code sets them.\<close>

record http_get =
  hg_URL :: string
  hg_Auth :: "(string \<times> string) option"

type_synonym http_getter = "ctx \<Rightarrow> http_get \<Rightarrow> http_answer"

text \<open>The part all four share: the body of an answer with status 200.\<close>

definition read_body :: "string \<Rightarrow> string \<Rightarrow> http_answer \<Rightarrow> gerror + string" where
  "read_body service what ans =
     (case ans of
        BadRequest err \<Rightarrow> Inl err
      | NoAnswer err \<Rightarrow> Inl (wrap_err (what @ '' request: '') err)
      | Answer status (Inl err) \<Rightarrow> Inl err
      | Answer status (Inr body) \<Rightarrow>
          if status \<noteq> 200 then Inl (plain_err (service @ '' status '' @ dec_nat status @ '': '' @ body)) else Inr body)"

lemma read_body_Inr: "read_body service what ans = Inr body \<longleftrightarrow> ans = Answer 200 (Inr body)"
  by (cases ans) (auto simp: read_body_def split: sum.splits)

section \<open>Instant queries\<close>

record prometheus_tool = pt_baseURL :: string

definition prometheus_New :: "string \<Rightarrow> prometheus_tool" where
  "prometheus_New baseURL = \<lparr> pt_baseURL = trim_slashes baseURL \<rparr>"

record prometheus_response =
  pr_Status :: string
  pr_Data :: "(string \<times> json) list option"
  pr_ErrorType :: string
  pr_Error :: string

definition query_request :: "prometheus_tool \<Rightarrow> string \<Rightarrow> http_get" where
  "query_request t promql =
     \<lparr> hg_URL = with_query (pt_baseURL t @ ''/api/v1/query'') [(''query'', promql)], hg_Auth = None \<rparr>"

definition prometheus_query ::
  "http_getter \<Rightarrow> (string \<Rightarrow> gerror + prometheus_response) \<Rightarrow> prometheus_tool \<Rightarrow> ctx \<Rightarrow> string
    \<Rightarrow> gerror + (string \<times> json) list option" where
  "prometheus_query http decode t c promql =
     (case read_body ''prometheus'' ''prometheus'' (http c (query_request t promql)) of
        Inl err \<Rightarrow> Inl err
      | Inr body \<Rightarrow>
          (case decode body of
             Inl err \<Rightarrow> Inl (wrap_err ''decode prometheus response: '' err)
           | Inr pr \<Rightarrow>
               if pr_Status pr \<noteq> ''success''
               then Inl (plain_err (''prometheus query failed: '' @ pr_ErrorType pr @ '' '' @ pr_Error pr))
               else Inr (pr_Data pr)))"

section \<open>Alerts\<close>

type_synonym labels = "string \<rightharpoonup> string"

definition label :: "labels \<Rightarrow> string \<Rightarrow> string" where
  "label m k = (case m k of None \<Rightarrow> '''' | Some v \<Rightarrow> v)"

record alert_reply =
  al_Labels :: labels
  al_Annotations :: labels
  al_State :: string
  al_Value :: string
  al_ActiveAt :: string

record alerts_response =
  as_Status :: string
  as_Alerts :: "alert_reply list"
  as_ErrorType :: string
  as_Error :: string

record AlertInfo =
  ai_AlertName :: string
  ai_Severity :: string
  ai_Service :: string
  ai_State :: string
  ai_Value :: string
  ai_StartsAt :: string
  ai_Summary :: string
  ai_Description :: string
  ai_Labels :: labels

definition alert_info :: "alert_reply \<Rightarrow> AlertInfo" where
  "alert_info a =
     \<lparr> ai_AlertName = label (al_Labels a) ''alertname'', ai_Severity = label (al_Labels a) ''severity'',
       ai_Service = (if label (al_Labels a) ''service'' = '''' then label (al_Labels a) ''job''
                     else label (al_Labels a) ''service''),
       ai_State = al_State a, ai_Value = al_Value a, ai_StartsAt = al_ActiveAt a,
       ai_Summary = label (al_Annotations a) ''summary'', ai_Description = label (al_Annotations a) ''description'',
       ai_Labels = al_Labels a \<rparr>"

definition alerts_request :: "prometheus_tool \<Rightarrow> http_get" where
  "alerts_request t = \<lparr> hg_URL = pt_baseURL t @ ''/api/v1/alerts'', hg_Auth = None \<rparr>"

definition queryAlerts ::
  "http_getter \<Rightarrow> (string \<Rightarrow> gerror + alerts_response) \<Rightarrow> prometheus_tool \<Rightarrow> ctx \<Rightarrow> bool \<Rightarrow> gerror + AlertInfo list" where
  "queryAlerts http decode t c includeInactive =
     (case read_body ''prometheus'' ''prometheus alerts'' (http c (alerts_request t)) of
        Inl err \<Rightarrow> Inl err
      | Inr body \<Rightarrow>
          (case decode body of
             Inl err \<Rightarrow> Inl (wrap_err ''decode prometheus alerts response: '' err)
           | Inr ar \<Rightarrow>
               if as_Status ar \<noteq> ''success''
               then Inl (plain_err (''prometheus alerts query failed: '' @ as_ErrorType ar @ '' '' @ as_Error ar))
               else Inr (map alert_info (filter (\<lambda>a. \<not> (\<not> includeInactive \<and> al_State a \<noteq> ''firing'')) (as_Alerts ar)))))"

lemma only_firing_alerts:
  "queryAlerts http decode t c False = Inr out \<Longrightarrow> list_all (\<lambda>a. ai_State a = ''firing'') out"
  by (auto simp: queryAlerts_def list_all_iff alert_info_def split: sum.splits if_splits)

section \<open>Ranges\<close>

record RangeInput =
  ri_Query :: string
  ri_Start :: string
  ri_End :: string
  ri_Step :: string

record RangePoint =
  rp_Timestamp :: int
  rp_Value :: float64

record series_reply =
  sr_Metric :: labels
  sr_Values :: "prom_value list list"

record range_response =
  rr_Status :: string
  rr_Result :: "series_reply list"
  rr_ErrorType :: string
  rr_Error :: string

record RangeSeries =
  rs_Metric :: labels
  rs_Points :: "RangePoint list"
  rs_Truncated :: bool

text \<open>Seconds, from a time in nanoseconds; \<open>strconv.ParseInt\<close> in base 10 reads what \<open>Atoi\<close> reads, and its
  error is dropped. \<open>rfc3339\<close> is \<open>time.Parse\<close>.\<close>

definition unix :: "time \<Rightarrow> int" where "unix t = t div 1000000000"

definition parseTime :: "(string \<Rightarrow> gerror + time) \<Rightarrow> string \<Rightarrow> time \<Rightarrow> gerror + int" where
  "parseTime rfc3339 s fallback =
     (if s = '''' then Inr (unix fallback)
      else case Atoi s of
          Inr ts \<Rightarrow> Inr ts
        | Inl _ \<Rightarrow>
            (case rfc3339 s of
               Inl err \<Rightarrow> Inl (wrap_err (''invalid time '' @ go_quote s @ '': '') err)
             | Inr ts \<Rightarrow> Inr (unix ts)))"

definition range_request :: "prometheus_tool \<Rightarrow> string \<Rightarrow> int \<Rightarrow> int \<Rightarrow> string \<Rightarrow> http_get" where
  "range_request t promql start stop step =
     \<lparr> hg_URL = with_query (pt_baseURL t @ ''/api/v1/query_range'')
         [(''query'', promql), (''start'', dec_int start), (''end'', dec_int stop), (''step'', step)],
       hg_Auth = None \<rparr>"

text \<open>The conversion of a \<open>float64\<close> to \<open>int64\<close>; \<open>ovf\<close> is what the platform makes of one out of range.\<close>

definition sample_time :: "(float64 \<Rightarrow> int) \<Rightarrow> float64 \<Rightarrow> int" where
  "sample_time ovf x = (case x of Fin q \<Rightarrow> f64_to_int (\<lambda>q. ovf (Fin q)) q | _ \<Rightarrow> ovf x)"

definition range_point :: "(float64 \<Rightarrow> int) \<Rightarrow> prom_value list \<Rightarrow> RangePoint option" where
  "range_point ovf v =
     (case v of
        SampleNumber ts # SampleText s (Inr x) # _ \<Rightarrow> Some \<lparr> rp_Timestamp = sample_time ovf ts, rp_Value = x \<rparr>
      | _ \<Rightarrow> None)"

definition maxPoints :: nat where "maxPoints = 100"

definition range_series :: "(float64 \<Rightarrow> int) \<Rightarrow> series_reply \<Rightarrow> RangeSeries option" where
  "range_series ovf r =
     (let truncated = maxPoints < length (sr_Values r);
          vals = (if truncated then drop (length (sr_Values r) - maxPoints) (sr_Values r) else sr_Values r)
      in case List.map_filter (range_point ovf) vals of
           [] \<Rightarrow> None
         | ps \<Rightarrow> Some \<lparr> rs_Metric = sr_Metric r, rs_Points = ps, rs_Truncated = truncated \<rparr>)"

definition queryRange ::
  "http_getter \<Rightarrow> (string \<Rightarrow> gerror + range_response) \<Rightarrow> (string \<Rightarrow> gerror + time) \<Rightarrow> (float64 \<Rightarrow> int)
    \<Rightarrow> prometheus_tool \<Rightarrow> ctx \<Rightarrow> RangeInput \<Rightarrow> fresh \<Rightarrow> gerror + RangeSeries list" where
  "queryRange http decode rfc3339 ovf t c inp f =
     (if ri_Query inp = '''' then Inl (plain_err ''query is required'')
      else case parseTime rfc3339 (ri_Start inp) (clk f 0 - 30 * 60 * 1000000000) of
          Inl err \<Rightarrow> Inl err
        | Inr start \<Rightarrow>
      (case parseTime rfc3339 (ri_End inp) (clk f 0) of
          Inl err \<Rightarrow> Inl err
        | Inr stop \<Rightarrow>
      (case read_body ''prometheus'' ''prometheus range''
              (http c (range_request t (ri_Query inp) start stop (if ri_Step inp = '''' then ''60s'' else ri_Step inp))) of
          Inl err \<Rightarrow> Inl err
        | Inr body \<Rightarrow>
      (case decode body of
          Inl err \<Rightarrow> Inl (wrap_err ''decode prometheus range response: '' err)
        | Inr pr \<Rightarrow>
            if rr_Status pr \<noteq> ''success''
            then Inl (plain_err (''prometheus range query failed: '' @ rr_ErrorType pr @ '' '' @ rr_Error pr))
            else Inr (List.map_filter (range_series ovf) (rr_Result pr))))))"

section \<open>Queues\<close>

record rabbitmq_tool =
  rq_baseURL :: string
  rq_username :: string
  rq_password :: string

definition rabbitmq_New :: "string \<Rightarrow> string \<Rightarrow> string \<Rightarrow> rabbitmq_tool" where
  "rabbitmq_New baseURL username password =
     \<lparr> rq_baseURL = trim_slashes baseURL, rq_username = username, rq_password = password \<rparr>"

definition inspect_request :: "rabbitmq_tool \<Rightarrow> string \<Rightarrow> string \<Rightarrow> http_get" where
  "inspect_request t queue vhost =
     \<lparr> hg_URL = rq_baseURL t @ ''/api/queues/'' @ (if vhost = '''' then ''%2F'' else PathEscape vhost) @ ''/'' @ PathEscape queue,
       hg_Auth = Some (rq_username t, rq_password t) \<rparr>"

definition inspect ::
  "http_getter \<Rightarrow> (string \<Rightarrow> gerror + (string \<times> json) list) \<Rightarrow> rabbitmq_tool \<Rightarrow> ctx \<Rightarrow> string \<Rightarrow> string
    \<Rightarrow> gerror + (string \<times> json) list" where
  "inspect http decode t c queue vhost =
     (case read_body ''rabbitmq'' ''rabbitmq'' (http c (inspect_request t queue vhost)) of
        Inl err \<Rightarrow> Inl err
      | Inr body \<Rightarrow>
          (case decode body of Inl err \<Rightarrow> Inl (wrap_err ''decode rabbitmq response: '' err) | Inr q \<Rightarrow> Inr q))"

section \<open>What the services are asked\<close>

lemma no_query:
  assumes "CHR ''?'' \<notin> set u" and "CHR ''#'' \<notin> set u"
  shows "raw_query u = []" "before_query u = u"
  using assms by (simp_all add: raw_query_def before_query_def cut_at_plain)

lemma ParseQuery_Nil [simp]: "ParseQuery [] = []"
  by (simp add: ParseQuery_def parse_pair_def)

lemma range_keys: "by_key [(''query'', q), (''start'', a), (''end'', b), (''step'', s)]
    = [(''end'', b), (''query'', q), (''start'', a), (''step'', s)]"
  by (simp add: by_key_def sort_slice_def byte_def)

lemma PathEscape_plain: "x \<in> set (PathEscape s) \<Longrightarrow> x \<notin> set ''/?#''"
  unfolding PathEscape_def using path_escape_plain by fastforce

lemma queue_segments:
  assumes "CHR ''/'' \<notin> set v" and "CHR ''/'' \<notin> set q"
  shows "split_on (CHR ''/'') (''/api/queues/'' @ v @ ''/'' @ q) = [[], ''api'', ''queues'', v, q]"
  using assms split_on_append [of "CHR ''/''" v q] split_on_plain [of "CHR ''/''" q] by simp



section \<open>What is kept of a range\<close>

text \<open>A series has between one and a hundred points, the latest ones that parse; it is marked as truncated
  exactly when it had more than a hundred samples, and is complete otherwise.\<close>

lemma range_series_latest:
  assumes "range_series ovf r = Some s"
  shows "rs_Metric s = sr_Metric r" and "rs_Points s \<noteq> []" and "length (rs_Points s) \<le> 100"
    and "suffix (rs_Points s) (List.map_filter (range_point ovf) (sr_Values r))"
    and "rs_Truncated s \<longleftrightarrow> 100 < length (sr_Values r)"
    and "\<not> rs_Truncated s \<Longrightarrow> rs_Points s = List.map_filter (range_point ovf) (sr_Values r)"
proof -
  let ?n = "length (sr_Values r)"
  let ?vals = "if maxPoints < ?n then drop (?n - maxPoints) (sr_Values r) else sr_Values r"
  have points: "rs_Points s = List.map_filter (range_point ovf) ?vals" "rs_Points s \<noteq> []"
    and rest: "rs_Metric s = sr_Metric r" "rs_Truncated s = (maxPoints < ?n)"
    using assms by (auto simp: range_series_def Let_def split: list.splits)
  have "sr_Values r = take (?n - length ?vals) (sr_Values r) @ ?vals" by (simp add: maxPoints_def)
  then have "List.map_filter (range_point ovf) (sr_Values r)
      = List.map_filter (range_point ovf) (take (?n - length ?vals) (sr_Values r)) @ rs_Points s"
    unfolding points(1) by (metis map_filter_def map_append filter_append)
  then show "suffix (rs_Points s) (List.map_filter (range_point ovf) (sr_Values r))" by (simp add: suffixI)
  have "length (rs_Points s) \<le> length ?vals" unfolding points(1) by (simp add: map_filter_def le_trans [OF length_filter_le])
  then show "length (rs_Points s) \<le> 100" by (auto simp: maxPoints_def split: if_splits)
  show "rs_Metric s = sr_Metric r" "rs_Points s \<noteq> []" "rs_Truncated s \<longleftrightarrow> 100 < ?n"
    "\<not> rs_Truncated s \<Longrightarrow> rs_Points s = List.map_filter (range_point ovf) (sr_Values r)"
    using points rest by (auto simp: maxPoints_def)
qed

lemma queryRange_Inr:
  "queryRange http decode rfc3339 ovf t c inp f = Inr out
    \<Longrightarrow> \<exists>q body pr. http c q = Answer 200 (Inr body) \<and> decode body = Inr pr \<and> rr_Status pr = ''success''
      \<and> out = List.map_filter (range_series ovf) (rr_Result pr)"
  by (auto simp: queryRange_def read_body_Inr split: sum.splits if_splits)

section \<open>The readers of the worker\<close>

text \<open>The tool library decodes the arguments of a call and encodes what a tool returns; an HTTP client under
  the timeout of a call answers each request.\<close>

record reader_library =
  rl_query :: "string \<Rightarrow> gerror + string"
  rl_query_out :: "(string \<times> json) list option \<Rightarrow> gerror + string"
  rl_alerts :: "string \<Rightarrow> gerror + bool"
  rl_alerts_out :: "AlertInfo list \<Rightarrow> gerror + string"
  rl_range :: "string \<Rightarrow> gerror + RangeInput"
  rl_range_out :: "RangeSeries list \<Rightarrow> gerror + string"
  rl_inspect :: "string \<Rightarrow> gerror + string \<times> string"
  rl_inspect_out :: "(string \<times> json) list \<Rightarrow> gerror + string"

record reader_services =
  sv_http :: "int \<Rightarrow> fresh \<Rightarrow> http_getter"
  sv_query :: "string \<Rightarrow> gerror + prometheus_response"
  sv_alerts :: "string \<Rightarrow> gerror + alerts_response"
  sv_range :: "string \<Rightarrow> gerror + range_response"
  sv_queue :: "string \<Rightarrow> gerror + (string \<times> json) list"
  sv_rfc3339 :: "string \<Rightarrow> gerror + time"
  sv_ovf :: "float64 \<Rightarrow> int"

definition reader_tool ::
  "(string \<Rightarrow> gerror + 'a) \<Rightarrow> ('b \<Rightarrow> gerror + string) \<Rightarrow> (int \<Rightarrow> ctx \<Rightarrow> 'a \<Rightarrow> fresh \<Rightarrow> gerror + 'b) \<Rightarrow> reader" where
  "reader_tool inp out run =
     (\<lambda>tmo c args f. case inp args of Inl err \<Rightarrow> ('''', Some err) | Inr x \<Rightarrow> tool_answer out (run tmo c x f))"

definition query_EinoTool :: "reader_library \<Rightarrow> reader_services \<Rightarrow> prometheus_tool \<Rightarrow> reader" where
  "query_EinoTool lib sv t = reader_tool (rl_query lib) (rl_query_out lib)
     (\<lambda>tmo c promql f. prometheus_query (sv_http sv tmo f) (sv_query sv) t c promql)"

definition AlertsEinoTool :: "reader_library \<Rightarrow> reader_services \<Rightarrow> prometheus_tool \<Rightarrow> reader" where
  "AlertsEinoTool lib sv t = reader_tool (rl_alerts lib) (rl_alerts_out lib)
     (\<lambda>tmo c inactive f. queryAlerts (sv_http sv tmo f) (sv_alerts sv) t c inactive)"

definition RangeEinoTool :: "reader_library \<Rightarrow> reader_services \<Rightarrow> prometheus_tool \<Rightarrow> reader" where
  "RangeEinoTool lib sv t = reader_tool (rl_range lib) (rl_range_out lib)
     (\<lambda>tmo c inp f. queryRange (sv_http sv tmo f) (sv_range sv) (sv_rfc3339 sv) (sv_ovf sv) t c inp f)"

definition inspect_EinoTool :: "reader_library \<Rightarrow> reader_services \<Rightarrow> rabbitmq_tool \<Rightarrow> reader" where
  "inspect_EinoTool lib sv t = reader_tool (rl_inspect lib) (rl_inspect_out lib)
     (\<lambda>tmo c (queue, vhost) f. inspect (sv_http sv tmo f) (sv_queue sv) t c queue vhost)"

text \<open>The readers \<open>buildToolRegistry\<close> installs, for the addresses of the configuration; the run books are
  searched by the reader \<open>runbook\<close>.\<close>

definition configured_readers :: "reader \<Rightarrow> reader_library \<Rightarrow> reader_services \<Rightarrow> config \<Rightarrow> readers" where
  "configured_readers runbook lib sv cfg =
     (let pt = prometheus_New (cf_PrometheusURL cfg);
          rq = rabbitmq_New (mq_ManagementURL (cf_RabbitMQ cfg)) (mq_Username (cf_RabbitMQ cfg)) (mq_Password (cf_RabbitMQ cfg))
      in \<lparr> tr_runbook = runbook, tr_query = query_EinoTool lib sv pt, tr_alerts = AlertsEinoTool lib sv pt,
           tr_range = RangeEinoTool lib sv pt, tr_inspect = inspect_EinoTool lib sv rq \<rparr>)"

end
