(* ===== verification/Chat_Model.thy ===== *)
theory Chat_Model
  imports Knowledge_Clients
begin

text \<open>
  The client of the language model, \<open>src/internal/agent/runtime/openai_model.go\<close>: the messages and tools of
  the agent library are translated into a \<open>chat/completions\<close> request, the first choice of the answer back
  into a message. The HTTP client and what \<open>json.Unmarshal\<close> makes of the answer are arguments. Of the
  library's types the model has the fields the code reads; a pointer that may be nil is an \<open>option\<close>.
\<close>

section \<open>Messages and tools of the agent library\<close>

record tool_call_part =
  tcp_ID :: string
  tcp_Type :: string
  tcp_Name :: string
  tcp_Arguments :: string

record message =
  msg_Role :: string
  msg_Content :: string
  msg_ToolCalls :: "tool_call_part list"
  msg_ToolCallID :: string

text \<open>The parameters of a tool: absent, or what \<open>ToJSONSchema\<close> returns (an error, nil or a schema) with what
  \<open>json.Marshal\<close> makes of the schema.\<close>

record tool_info =
  tin_Name :: string
  tin_Desc :: string
  tin_Params :: "(gerror + (gerror + json) option) option"

text \<open>The temperature is a pointer to a number, given as what \<open>json.Marshal\<close> makes of it.\<close>

record model_options =
  mo_Model :: "string option"
  mo_Temperature :: "(gerror + string) option"
  mo_MaxTokens :: "int option"

record chat_model =
  cm_baseURL :: string
  cm_apiKey :: string
  cm_model :: string
  cm_tools :: "tool_info option list"

definition NewOpenAIChatModel :: "string \<Rightarrow> string \<Rightarrow> string \<Rightarrow> chat_model" where
  "NewOpenAIChatModel baseURL apiKey modelName =
     \<lparr> cm_baseURL = trim_slashes baseURL, cm_apiKey = apiKey, cm_model = modelName, cm_tools = [] \<rparr>"

definition WithTools :: "tool_info option list \<Rightarrow> chat_model \<Rightarrow> gerror + chat_model" where
  "WithTools tools m = Inr (m\<lparr>cm_tools := tools\<rparr>)"

section \<open>The wire format\<close>

record openAIToolCall =
  oc_ID :: string
  oc_Type :: string
  oc_Name :: string
  oc_Arguments :: string

record openAIMessage =
  om_Role :: string
  om_Content :: string
  om_ToolCalls :: "openAIToolCall list"
  om_ToolCallID :: string

record openAITool =
  ot_Type :: string
  ot_Name :: string
  ot_Description :: string
  ot_Parameters :: "json option"

record openAIRequest =
  oq_Model :: string
  oq_Messages :: "openAIMessage list"
  oq_Temperature :: "(gerror + string) option"
  oq_MaxTokens :: "int option"
  oq_Tools :: "openAITool list"

record openAIResponse =
  os_Choices :: "openAIMessage list"
  os_Error :: "string option"

definition call_json :: "openAIToolCall \<Rightarrow> json" where
  "call_json tc = JObj [(''id'', JStr (oc_ID tc)), (''type'', JStr (oc_Type tc)),
     (''function'', JObj [(''name'', JStr (oc_Name tc)), (''arguments'', JStr (oc_Arguments tc))])]"

definition message_json :: "openAIMessage \<Rightarrow> json" where
  "message_json m = JObj ([(''role'', JStr (om_Role m))]
     @ field_if (om_Content m \<noteq> '''') ''content'' (JStr (om_Content m))
     @ field_if (om_ToolCalls m \<noteq> []) ''tool_calls'' (JArr (map call_json (om_ToolCalls m)))
     @ field_if (om_ToolCallID m \<noteq> '''') ''tool_call_id'' (JStr (om_ToolCallID m)))"

definition tool_json :: "openAITool \<Rightarrow> json" where
  "tool_json t = JObj [(''type'', JStr (ot_Type t)),
     (''function'', JObj ([(''name'', JStr (ot_Name t)), (''description'', JStr (ot_Description t))]
        @ (case ot_Parameters t of None \<Rightarrow> [] | Some p \<Rightarrow> [(''parameters'', p)])))]"

definition request_json :: "openAIRequest \<Rightarrow> gerror + json" where
  "request_json r =
     (let body = (\<lambda>temp. JObj ([(''model'', JStr (oq_Model r)), (''messages'', JArr (map message_json (oq_Messages r)))]
            @ temp @ (case oq_MaxTokens r of None \<Rightarrow> [] | Some n \<Rightarrow> [(''max_tokens'', JNum (dec_int n))])
            @ field_if (oq_Tools r \<noteq> []) ''tools'' (JArr (map tool_json (oq_Tools r)))))
      in case oq_Temperature r of
          None \<Rightarrow> Inr (body [])
        | Some (Inl err) \<Rightarrow> Inl err
        | Some (Inr num) \<Rightarrow> Inr (body [(''temperature'', JNum num)]))"

section \<open>Translation\<close>

definition toOpenAICall :: "tool_call_part \<Rightarrow> openAIToolCall" where
  "toOpenAICall tc =
     \<lparr> oc_ID = tcp_ID tc, oc_Type = tcp_Type tc, oc_Name = tcp_Name tc, oc_Arguments = tcp_Arguments tc \<rparr>"

definition toOpenAIMessages :: "message list \<Rightarrow> openAIMessage list" where
  "toOpenAIMessages msgs = map (\<lambda>m.
     \<lparr> om_Role = msg_Role m, om_Content = msg_Content m, om_ToolCalls = map toOpenAICall (msg_ToolCalls m),
       om_ToolCallID = (if msg_Role m = ''tool'' then msg_ToolCallID m else '''') \<rparr>) msgs"

definition schema_json :: "tool_info \<Rightarrow> json option" where
  "schema_json ti = (case tin_Params ti of Some (Inr (Some (Inr params))) \<Rightarrow> Some params | _ \<Rightarrow> None)"

text \<open>The check for a nil entry does not cover its name: such an entry panics.\<close>

fun toOpenAITools :: "tool_info option list \<Rightarrow> openAITool list option" where
  "toOpenAITools [] = Some []"
| "toOpenAITools (None # infos) = None"
| "toOpenAITools (Some ti # infos) =
     map_option ((#) \<lparr> ot_Type = ''function'', ot_Name = tin_Name ti, ot_Description = tin_Desc ti,
                       ot_Parameters = schema_json ti \<rparr>) (toOpenAITools infos)"

definition toSchemaMessage :: "openAIMessage \<Rightarrow> message" where
  "toSchemaMessage om =
     \<lparr> msg_Role = om_Role om, msg_Content = om_Content om,
       msg_ToolCalls = map (\<lambda>tc. \<lparr> tcp_ID = oc_ID tc, tcp_Type = oc_Type tc, tcp_Name = oc_Name tc,
                                   tcp_Arguments = oc_Arguments tc \<rparr>) (om_ToolCalls om),
       msg_ToolCallID = '''' \<rparr>"

section \<open>Calls\<close>

definition model_name :: "chat_model \<Rightarrow> model_options \<Rightarrow> string" where
  "model_name m opts = (case mo_Model opts of Some n \<Rightarrow> if n \<noteq> '''' then n else cm_model m | None \<Rightarrow> cm_model m)"

definition chat_request :: "chat_model \<Rightarrow> message list \<Rightarrow> model_options \<Rightarrow> openAITool list \<Rightarrow> openAIRequest" where
  "chat_request m input opts tools =
     \<lparr> oq_Model = model_name m opts, oq_Messages = toOpenAIMessages input, oq_Temperature = mo_Temperature opts,
       oq_MaxTokens = mo_MaxTokens opts, oq_Tools = tools \<rparr>"

definition chat_post :: "chat_model \<Rightarrow> json \<Rightarrow> http_post" where
  "chat_post m body =
     \<lparr> hp_URL = cm_baseURL m @ ''/chat/completions'', hp_Bearer = bearer_if (cm_apiKey m), hp_Body = json_encode body \<rparr>"

definition chat_answer :: "(string \<Rightarrow> gerror + openAIResponse) \<Rightarrow> http_answer \<Rightarrow> gerror + message" where
  "chat_answer decode ans =
     (case ans of
        BadRequest err \<Rightarrow> Inl err
      | NoAnswer err \<Rightarrow> Inl (wrap_err ''openai request: '' err)
      | Answer status (Inl err) \<Rightarrow> Inl err
      | Answer status (Inr body) \<Rightarrow>
          if status \<noteq> 200 then Inl (plain_err (''openai status '' @ dec_nat status @ '': '' @ body))
          else (case decode body of
                  Inl err \<Rightarrow> Inl (wrap_err ''decode openai response: '' err)
                | Inr r \<Rightarrow>
                    (case os_Error r of
                       Some text \<Rightarrow> Inl (plain_err (''openai error: '' @ text))
                     | None \<Rightarrow>
                         (case os_Choices r of
                            [] \<Rightarrow> Inl (plain_err ''openai returned no choices'')
                          | choice # _ \<Rightarrow> Inr (toSchemaMessage choice)))))"

text \<open>\<open>None\<close> is a panic.\<close>

definition chat_Generate ::
  "'w http_client \<Rightarrow> (string \<Rightarrow> gerror + openAIResponse) \<Rightarrow> chat_model \<Rightarrow> ctx \<Rightarrow> message list \<Rightarrow> model_options \<Rightarrow> 'w
    \<Rightarrow> ((gerror + message) \<times> 'w) option" where
  "chat_Generate http decode m c input opts w =
     (case toOpenAITools (cm_tools m) of
        None \<Rightarrow> None
      | Some tools \<Rightarrow>
          (case request_json (chat_request m input opts tools) of
             Inl err \<Rightarrow> Some (Inl (wrap_err ''marshal openai request: '' err), w)
           | Inr body \<Rightarrow>
               (case http c (chat_post m body) w of (ans, w1) \<Rightarrow> Some (chat_answer decode ans, w1))))"

text \<open>A stream is the one message \<open>Generate\<close> returns.\<close>

definition chat_Stream ::
  "'w http_client \<Rightarrow> (string \<Rightarrow> gerror + openAIResponse) \<Rightarrow> chat_model \<Rightarrow> ctx \<Rightarrow> message list \<Rightarrow> model_options \<Rightarrow> 'w
    \<Rightarrow> ((gerror + message list) \<times> 'w) option" where
  "chat_Stream http decode m c input opts w =
     map_option (\<lambda>(r, w1). (case r of Inl err \<Rightarrow> Inl err | Inr msg \<Rightarrow> Inr [msg], w1)) (chat_Generate http decode m c input opts w)"

section \<open>What the endpoint reads\<close>

text \<open>The specification of the wire format: the message a JSON object stands for, absent fields empty.\<close>

definition text_at :: "(string \<times> json) list \<Rightarrow> string \<Rightarrow> string" where
  "text_at kvs k = (case map_of kvs k of Some (JStr s) \<Rightarrow> s | _ \<Rightarrow> '''')"

definition list_at :: "(string \<times> json) list \<Rightarrow> string \<Rightarrow> json list" where
  "list_at kvs k = (case map_of kvs k of Some (JArr xs) \<Rightarrow> xs | _ \<Rightarrow> [])"

definition members_of :: "json \<Rightarrow> (string \<times> json) list" where
  "members_of j = (case j of JObj kvs \<Rightarrow> kvs | _ \<Rightarrow> [])"

definition read_call :: "json \<Rightarrow> openAIToolCall" where
  "read_call j =
     (let f = (case map_of (members_of j) ''function'' of Some g \<Rightarrow> members_of g | None \<Rightarrow> [])
      in \<lparr> oc_ID = text_at (members_of j) ''id'', oc_Type = text_at (members_of j) ''type'',
           oc_Name = text_at f ''name'', oc_Arguments = text_at f ''arguments'' \<rparr>)"

definition read_message :: "json \<Rightarrow> openAIMessage" where
  "read_message j =
     \<lparr> om_Role = text_at (members_of j) ''role'', om_Content = text_at (members_of j) ''content'',
       om_ToolCalls = map read_call (list_at (members_of j) ''tool_calls''),
       om_ToolCallID = text_at (members_of j) ''tool_call_id'' \<rparr>"

definition read_messages :: "json \<Rightarrow> openAIMessage list" where
  "read_messages j = map read_message (list_at (members_of j) ''messages'')"

lemma read_call_json [simp]: "read_call (call_json tc) = tc"
  by (simp add: read_call_def call_json_def members_of_def text_at_def)

lemma read_message_json [simp]: "read_message (message_json m) = m"
  by (cases m) (simp add: read_message_def message_json_def members_of_def text_at_def list_at_def field_if_def comp_def)

text \<open>The body of a request whose strings are UTF-8 parses back to it.\<close>

definition valid_call :: "tool_call_part \<Rightarrow> bool" where
  "valid_call tc = list_all valid_utf8 [tcp_ID tc, tcp_Type tc, tcp_Name tc, tcp_Arguments tc]"

definition valid_message :: "message \<Rightarrow> bool" where
  "valid_message m = (list_all valid_utf8 [msg_Role m, msg_Content m, msg_ToolCallID m] \<and> list_all valid_call (msg_ToolCalls m))"

definition valid_tool :: "openAITool \<Rightarrow> bool" where
  "valid_tool t = (list_all valid_utf8 [ot_Type t, ot_Name t, ot_Description t]
     \<and> (case ot_Parameters t of None \<Rightarrow> True | Some p \<Rightarrow> plain_json p))"

lemma valid_keys: "valid_utf8 k" if "k \<in> set [''id'', ''type'', ''function'', ''name'', ''arguments'', ''role'',
    ''content'', ''tool_calls'', ''tool_call_id'', ''description'', ''parameters'', ''model'', ''messages'', ''tools'']"
  using that by (auto intro!: valid_ascii simp: byte_def)

lemma plain_call: "valid_call tc \<Longrightarrow> plain_json (call_json (toOpenAICall tc))"
  by (simp add: valid_call_def call_json_def toOpenAICall_def valid_keys)

lemma plain_message: "valid_message m \<Longrightarrow> list_all (plain_json \<circ> message_json) (toOpenAIMessages [m])"
  using plain_call by (auto simp: valid_message_def message_json_def toOpenAIMessages_def field_if_def valid_keys list_all_iff)

lemma plain_tool: "valid_tool t \<Longrightarrow> plain_json (tool_json t)"
  by (auto simp: valid_tool_def tool_json_def valid_keys split: option.splits)

lemma call_unchanged:
  "map (\<lambda>tc. \<lparr> tcp_ID = oc_ID tc, tcp_Type = oc_Type tc, tcp_Name = oc_Name tc, tcp_Arguments = oc_Arguments tc \<rparr>)
    (map toOpenAICall tcs) = tcs"
  by (induction tcs) (simp_all add: toOpenAICall_def)

lemma request_read:
  assumes "request_json r = Inr body"
  shows "read_messages body = oq_Messages r" and "text_at (members_of body) ''model'' = oq_Model r"
  using assms
  by (auto simp: request_json_def Let_def read_messages_def members_of_def list_at_def text_at_def comp_def split: option.splits sum.splits)

lemma request_plain:
  assumes "request_json (chat_request m input opts tools) = Inr body" and "mo_Temperature opts = None" and "mo_MaxTokens opts = None"
    and "valid_utf8 (model_name m opts)" and "list_all valid_message input" and "list_all valid_tool tools"
  shows "plain_json body"
proof -
  have "list_all (plain_json \<circ> message_json) (toOpenAIMessages input)"
    using assms(5) plain_message by (induction input) (auto simp: toOpenAIMessages_def)
  moreover have "list_all (plain_json \<circ> tool_json) tools" using assms(6) plain_tool by (auto simp: list_all_iff)
  ultimately show ?thesis using assms(1-4)
    by (auto simp: request_json_def chat_request_def Let_def valid_keys field_if_def list.pred_map)
qed



end
