(* ===== verification/Topology.thy ===== *)
theory Topology
  imports Worker_Steps
begin

text \<open>
  The exchange, queues and bindings the program declares on the broker
  (\<open>src/internal/messaging/exchange.go\<close>, the first half of \<open>Subscribe\<close> in \<open>consumer.go\<close>, \<open>NewProducer\<close>), and
  the start of producer and worker (\<open>src/internal/bootstrap/messaging.go\<close>, \<open>RunWorker\<close>). A channel of the
  AMQP library is a record of operations on the world; \<open>broker_laws\<close> is what AMQP promises of them. The
  lemmas show that the declarations of API and worker never conflict and make the routes on which
  \<open>route_to\<close> and \<open>retry_due\<close> of the delivery model rest.
\<close>

section \<open>Channels\<close>

text \<open>Queues and exchanges are always durable, not deleted, not exclusive and confirmed by the broker;
  the arguments of a queue are those of the retry queue or none.\<close>

record queue_args =
  qa_MessageTTL :: int
  qa_DeadLetterExchange :: string
  qa_DeadLetterRoutingKey :: string

record 'w amqp_channel =
  ch_Confirm :: "'w \<Rightarrow> gerror option \<times> 'w"
  ch_ExchangeDeclare :: "string \<Rightarrow> string \<Rightarrow> 'w \<Rightarrow> gerror option \<times> 'w"
  ch_QueueDeclare :: "string \<Rightarrow> queue_args option \<Rightarrow> 'w \<Rightarrow> (gerror + string) \<times> 'w"
  ch_QueueBind :: "string \<Rightarrow> string \<Rightarrow> string \<Rightarrow> 'w \<Rightarrow> gerror option \<times> 'w"
  ch_Consume :: "string \<Rightarrow> 'w \<Rightarrow> gerror option \<times> 'w"

text \<open>A connection opens channels.\<close>

type_synonym 'w connection = "'w \<Rightarrow> (gerror + 'w amqp_channel) \<times> 'w"

definition after :: "gerror option \<times> 'w \<Rightarrow> ('w \<Rightarrow> (gerror + 'a) \<times> 'w) \<Rightarrow> (gerror + 'a) \<times> 'w" where
  "after r k = (case r of (Some err, w) \<Rightarrow> (Inl err, w) | (None, w) \<Rightarrow> k w)"

definition after_value :: "(gerror + 'b) \<times> 'w \<Rightarrow> ('b \<Rightarrow> 'w \<Rightarrow> (gerror + 'a) \<times> 'w) \<Rightarrow> (gerror + 'a) \<times> 'w" where
  "after_value r k = (case r of (Inl err, w) \<Rightarrow> (Inl err, w) | (Inr x, w) \<Rightarrow> k x w)"

section \<open>Declarations\<close>

definition DeclareExchange :: "'w connection \<Rightarrow> 'w \<Rightarrow> (gerror + unit) \<times> 'w" where
  "DeclareExchange conn w =
     after_value (conn w) (\<lambda>ch w. after (ch_ExchangeDeclare ch ExchangeAgent ''topic'' w) (\<lambda>w. (Inr (), w)))"

definition EnsureRoute :: "'w connection \<Rightarrow> string \<Rightarrow> string \<Rightarrow> 'w \<Rightarrow> (gerror + unit) \<times> 'w" where
  "EnsureRoute conn queue key w =
     after_value (conn w) (\<lambda>ch w.
     after (ch_ExchangeDeclare ch ExchangeAgent ''topic'' w) (\<lambda>w.
     after_value (ch_QueueDeclare ch queue None w) (\<lambda>name w.
     after (ch_QueueBind ch name key ExchangeAgent w) (\<lambda>w. (Inr (), w)))))"

text \<open>\<open>RetryTTL\<close> in milliseconds.\<close>

definition RetryTTL :: int where "RetryTTL = 5 * 1000"

definition retryArgs :: "string \<Rightarrow> queue_args" where
  "retryArgs routingKey =
     \<lparr> qa_MessageTTL = RetryTTL, qa_DeadLetterExchange = ExchangeAgent, qa_DeadLetterRoutingKey = routingKey \<rparr>"

text \<open>\<open>Subscribe\<close> up to its loop.\<close>

definition wrap_confirm :: "gerror option \<times> 'w \<Rightarrow> gerror option \<times> 'w" where
  "wrap_confirm r = (map_option (wrap_err ''enable publisher confirm: '') (fst r), snd r)"

definition subscribe_setup :: "'w connection \<Rightarrow> string \<Rightarrow> string \<Rightarrow> 'w \<Rightarrow> (gerror + string) \<times> 'w" where
  "subscribe_setup conn queue key w =
     after_value (conn w) (\<lambda>ch w.
     after (wrap_confirm (ch_Confirm ch w)) (\<lambda>w.
     after (ch_ExchangeDeclare ch ExchangeAgent ''topic'' w) (\<lambda>w.
     after_value (ch_QueueDeclare ch queue None w) (\<lambda>name w.
     after_value (ch_QueueDeclare ch (retryQueueName queue) (Some (retryArgs key)) w) (\<lambda>_ w.
     after_value (ch_QueueDeclare ch (dlqQueueName queue) None w) (\<lambda>_ w.
     after (ch_QueueBind ch name key ExchangeAgent w) (\<lambda>w.
     after (ch_QueueBind ch (retryQueueName queue) retryRoutingKey ExchangeAgent w) (\<lambda>w.
     after (ch_QueueBind ch (dlqQueueName queue) dlqRoutingKey ExchangeAgent w) (\<lambda>w.
     after (ch_Consume ch name w) (\<lambda>w. (Inr name, w)))))))))))"

section \<open>Producer and worker\<close>

definition NewProducer :: "'w connection \<Rightarrow> 'w \<Rightarrow> (gerror + 'w connection) \<times> 'w" where
  "NewProducer conn w = after_value (EnsureRoute conn QueueAgent AgentRequested w) (\<lambda>_ w. (Inr conn, w))"

definition wrap_result :: "string \<Rightarrow> (gerror + 'a) \<times> 'w \<Rightarrow> (gerror + 'a) \<times> 'w" where
  "wrap_result p r = (case r of (Inl err, w) \<Rightarrow> (Inl (wrap_err p err), w) | (Inr x, w) \<Rightarrow> (Inr x, w))"

type_synonym 'w dial = "string \<Rightarrow> 'w \<Rightarrow> (gerror + 'w connection) \<times> 'w"

definition buildProducer :: "'w dial \<Rightarrow> config \<Rightarrow> 'w \<Rightarrow> (gerror + ('w connection \<times> 'w connection) option) \<times> 'w" where
  "buildProducer connect cfg w =
     (if mq_URL (cf_RabbitMQ cfg) = '''' then (Inr None, w)
      else after_value (wrap_result ''connect rabbitmq: '' (connect (mq_URL (cf_RabbitMQ cfg)) w)) (\<lambda>conn w.
           after_value (wrap_result ''declare agent queue: '' (NewProducer conn w)) (\<lambda>producer w.
             (Inr (Some (producer, conn)), w))))"

record 'w consumer =
  cs_conn :: "'w mq connection"
  cs_queue :: string
  cs_terminal :: "'w terminal_handler option"

definition NewConsumer :: "'w mq connection \<Rightarrow> string \<Rightarrow> 'w consumer" where
  "NewConsumer conn queue = \<lparr> cs_conn = conn, cs_queue = queue, cs_terminal = None \<rparr>"

definition WithTerminalHandler :: "'w terminal_handler \<Rightarrow> 'w consumer \<Rightarrow> 'w consumer" where
  "WithTerminalHandler h cs = cs\<lparr>cs_terminal := Some h\<rparr>"

text \<open>\<open>Subscribe\<close> with the deliveries of its loop, which ends with the error of the context (\<open>stop\<close>) or
  without one when the deliveries end.\<close>

definition consumer_Subscribe ::
  "(metric \<Rightarrow> 'w \<Rightarrow> 'w) \<Rightarrow> (float64 \<Rightarrow> 64 word) \<Rightarrow> 'w consumer \<Rightarrow> string \<Rightarrow> 'w handler \<Rightarrow> delivery list \<Rightarrow> gerror option
     \<Rightarrow> 'w mq \<Rightarrow> gerror option \<times> 'w mq" where
  "consumer_Subscribe inc fint cs key handler ds stop q =
     (case subscribe_setup (cs_conn cs) (cs_queue cs) key q of
        (Inl err, q) \<Rightarrow> (Some err, q)
      | (Inr _, q) \<Rightarrow> (stop, snd (run_consumer inc fint handler (cs_terminal cs) ds q)))"

definition RunWorker ::
  "world mq dial \<Rightarrow> config \<Rightarrow> (float64 \<Rightarrow> 64 word) \<Rightarrow> world run_repo option \<Rightarrow> world agent_runtime option \<Rightarrow> react_agent
     \<Rightarrow> string \<Rightarrow> delivery list \<Rightarrow> gerror option \<Rightarrow> world mq \<Rightarrow> gerror option \<times> world mq" where
  "RunWorker connect cfg fint repo rt agent prompt ds stop q =
     (if mq_URL (cf_RabbitMQ cfg) = '''' then (Some (plain_err ''RABBITMQ_URL is empty, worker cannot start''), q)
      else case connect (mq_URL (cf_RabbitMQ cfg)) q of
          (Inl err, q) \<Rightarrow> (Some (wrap_err ''connect rabbitmq: '' err), q)
        | (Inr conn, q) \<Rightarrow>
            consumer_Subscribe count_metric fint (WithTerminalHandler (failIncidentOnDeadLetter world_incidents) (NewConsumer conn QueueAgent))
              AgentRequested (handleAgentRequested world_incidents repo rt agent prompt) ds stop q)"

section \<open>What the broker promises\<close>

text \<open>What is declared: kinds of exchanges, arguments of queues, bindings (exchange, key, queue).\<close>

record topology =
  tp_exchanges :: "string \<rightharpoonup> string"
  tp_queues :: "string \<rightharpoonup> queue_args option"
  tp_bindings :: "(string \<times> string \<times> string) set"

definition routes :: "topology \<Rightarrow> string \<Rightarrow> string \<Rightarrow> string set" where
  "routes t exchange key = {queue. (exchange, key, queue) \<in> tp_bindings t}"

text \<open>AMQP: an operation that fails changes nothing; a declaration is refused where the name stands for
  something else, and otherwise makes what is declared exist; the name of a declared queue is the one
  asked for; a binding needs its exchange and queue. A broker that \<open>answers\<close> refuses nothing else.\<close>

definition broker_laws :: "('w \<Rightarrow> topology) \<Rightarrow> 'w amqp_channel \<Rightarrow> bool" where
  "broker_laws view ch \<longleftrightarrow>
     (\<forall>w. view (snd (ch_Confirm ch w)) = view w)
   \<and> (\<forall>n w. view (snd (ch_Consume ch n w)) = view w)
   \<and> (\<forall>n k w err w'. ch_ExchangeDeclare ch n k w = (Some err, w') \<longrightarrow> view w' = view w)
   \<and> (\<forall>n k w w'. ch_ExchangeDeclare ch n k w = (None, w') \<longrightarrow> tp_exchanges (view w) n \<in> {None, Some k}
        \<and> view w' = (view w)\<lparr>tp_exchanges := (tp_exchanges (view w))(n \<mapsto> k)\<rparr>)
   \<and> (\<forall>n a w err w'. ch_QueueDeclare ch n a w = (Inl err, w') \<longrightarrow> view w' = view w)
   \<and> (\<forall>n a w m w'. ch_QueueDeclare ch n a w = (Inr m, w') \<longrightarrow> m = n \<and> tp_queues (view w) n \<in> {None, Some a}
        \<and> view w' = (view w)\<lparr>tp_queues := (tp_queues (view w))(n \<mapsto> a)\<rparr>)
   \<and> (\<forall>n k x w err w'. ch_QueueBind ch n k x w = (Some err, w') \<longrightarrow> view w' = view w)
   \<and> (\<forall>n k x w w'. ch_QueueBind ch n k x w = (None, w')
        \<longrightarrow> view w' = (view w)\<lparr>tp_bindings := insert (x, k, n) (tp_bindings (view w))\<rparr>)"

definition answers :: "('w \<Rightarrow> topology) \<Rightarrow> 'w amqp_channel \<Rightarrow> bool" where
  "answers view ch \<longleftrightarrow>
     (\<forall>w. fst (ch_Confirm ch w) = None)
   \<and> (\<forall>n k w. tp_exchanges (view w) n \<in> {None, Some k} \<longrightarrow> fst (ch_ExchangeDeclare ch n k w) = None)
   \<and> (\<forall>n a w. tp_queues (view w) n \<in> {None, Some a} \<longrightarrow> fst (ch_QueueDeclare ch n a w) = Inr n)
   \<and> (\<forall>n k x w. tp_exchanges (view w) x \<noteq> None \<and> tp_queues (view w) n \<noteq> None \<longrightarrow> fst (ch_QueueBind ch n k x w) = None)
   \<and> (\<forall>n w. tp_queues (view w) n \<noteq> None \<longrightarrow> fst (ch_Consume ch n w) = None)"

text \<open>What the program means to declare.\<close>

definition intended :: topology where
  "intended =
     \<lparr> tp_exchanges = [ExchangeAgent \<mapsto> ''topic''],
       tp_queues = [QueueAgent \<mapsto> None, retryQueueName QueueAgent \<mapsto> Some (retryArgs AgentRequested), dlqQueueName QueueAgent \<mapsto> None],
       tp_bindings = {(ExchangeAgent, AgentRequested, QueueAgent), (ExchangeAgent, retryRoutingKey, retryQueueName QueueAgent),
         (ExchangeAgent, dlqRoutingKey, dlqQueueName QueueAgent)} \<rparr>"

definition within_topology :: "topology \<Rightarrow> topology \<Rightarrow> bool" where
  "within_topology t u \<longleftrightarrow> tp_exchanges t \<subseteq>\<^sub>m tp_exchanges u \<and> tp_queues t \<subseteq>\<^sub>m tp_queues u \<and> tp_bindings t \<subseteq> tp_bindings u"

lemma names [simp]: "retryQueueName QueueAgent \<noteq> QueueAgent" "dlqQueueName QueueAgent \<noteq> QueueAgent"
  "QueueAgent \<noteq> retryQueueName QueueAgent" "QueueAgent \<noteq> dlqQueueName QueueAgent"
  "retryQueueName QueueAgent \<noteq> dlqQueueName QueueAgent" "dlqQueueName QueueAgent \<noteq> retryQueueName QueueAgent"
  "AgentRequested \<noteq> retryRoutingKey" "AgentRequested \<noteq> dlqRoutingKey" "retryRoutingKey \<noteq> AgentRequested" "dlqRoutingKey \<noteq> AgentRequested"
  by (simp_all add: retryQueueName_def dlqQueueName_def QueueAgent_def AgentRequested_def retryRoutingKey_def dlqRoutingKey_def)

text \<open>The routes of the delivery model.\<close>

lemma intended_routes:
  "routes intended ExchangeAgent AgentRequested = {QueueAgent}"
  "routes intended ExchangeAgent retryRoutingKey = {retryQueueName QueueAgent}"
  "routes intended ExchangeAgent dlqRoutingKey = {dlqQueueName QueueAgent}"
  by (auto simp: routes_def intended_def)

text \<open>The operations of a broker that answers.\<close>

lemma exchange_step:
  assumes "broker_laws view ch" and "answers view ch" and "tp_exchanges (view w) n \<in> {None, Some k}"
  obtains w' where "ch_ExchangeDeclare ch n k w = (None, w')" and "view w' = (view w)\<lparr>tp_exchanges := (tp_exchanges (view w))(n \<mapsto> k)\<rparr>"
proof -
  obtain r w' where step: "ch_ExchangeDeclare ch n k w = (r, w')" by force
  then have "r = None" using assms(2-) unfolding answers_def by (metis fst_conv)
  with step that assms(1) show thesis unfolding broker_laws_def by metis
qed

lemma queue_step:
  assumes "broker_laws view ch" and "answers view ch" and "tp_queues (view w) n \<in> {None, Some a}"
  obtains w' where "ch_QueueDeclare ch n a w = (Inr n, w')" and "view w' = (view w)\<lparr>tp_queues := (tp_queues (view w))(n \<mapsto> a)\<rparr>"
proof -
  obtain r w' where step: "ch_QueueDeclare ch n a w = (r, w')" by force
  then have "r = Inr n" using assms(2-) unfolding answers_def by (metis fst_conv)
  with step that assms(1) show thesis unfolding broker_laws_def by metis
qed

lemma bind_step:
  assumes "broker_laws view ch" and "answers view ch" and "tp_exchanges (view w) x \<noteq> None" and "tp_queues (view w) n \<noteq> None"
  obtains w' where "ch_QueueBind ch n k x w = (None, w')" and "view w' = (view w)\<lparr>tp_bindings := insert (x, k, n) (tp_bindings (view w))\<rparr>"
proof -
  obtain r w' where step: "ch_QueueBind ch n k x w = (r, w')" by force
  then have "r = None" using assms(2-) unfolding answers_def by (metis fst_conv)
  with step that assms(1) show thesis unfolding broker_laws_def by metis
qed

lemma quiet_steps:
  assumes "broker_laws view ch" and "answers view ch"
  obtains w' where "ch_Confirm ch w = (None, w')" and "view w' = view w"
    and "tp_queues (view u) n \<noteq> None \<Longrightarrow> \<exists>u'. ch_Consume ch n u = (None, u') \<and> view u' = view u"
  using assms unfolding answers_def broker_laws_def by (metis prod.collapse)

section \<open>Declarations never conflict\<close>

lemma compatible:
  assumes "within_topology t u"
  shows "tp_exchanges u n = Some k \<Longrightarrow> tp_exchanges t n \<in> {None, Some k}"
    and "tp_queues u m = Some a \<Longrightarrow> tp_queues t m \<in> {None, Some a}"
  using assms unfolding within_topology_def map_le_def by (cases "tp_exchanges t n"; cases "tp_queues t m"; force)+

text \<open>Declaring what is intended stays within it.\<close>

lemma within_declare:
  assumes "within_topology t u"
  shows "tp_exchanges u n = Some k \<Longrightarrow> within_topology (t\<lparr>tp_exchanges := (tp_exchanges t)(n \<mapsto> k)\<rparr>) u"
    and "tp_queues u m = Some a \<Longrightarrow> within_topology (t\<lparr>tp_queues := (tp_queues t)(m \<mapsto> a)\<rparr>) u"
    and "b \<in> tp_bindings u \<Longrightarrow> within_topology (t\<lparr>tp_bindings := insert b (tp_bindings t)\<rparr>) u"
  using assms by (auto simp: within_topology_def map_le_def)

lemma intended_simps [simp]:
  "tp_exchanges intended ExchangeAgent = Some ''topic''" "tp_queues intended QueueAgent = Some None"
  "tp_queues intended (retryQueueName QueueAgent) = Some (Some (retryArgs AgentRequested))"
  "tp_queues intended (dlqQueueName QueueAgent) = Some None"
  "(ExchangeAgent, AgentRequested, QueueAgent) \<in> tp_bindings intended"
  "(ExchangeAgent, retryRoutingKey, retryQueueName QueueAgent) \<in> tp_bindings intended"
  "(ExchangeAgent, dlqRoutingKey, dlqQueueName QueueAgent) \<in> tp_bindings intended"
  by (simp_all add: intended_def)

text \<open>Where everything intended is declared, nothing else is.\<close>

lemma all_intended:
  assumes "within_topology t intended" and "tp_exchanges t ExchangeAgent = Some ''topic''"
    and "tp_queues t QueueAgent = Some None" and "tp_queues t (retryQueueName QueueAgent) = Some (Some (retryArgs AgentRequested))"
    and "tp_queues t (dlqQueueName QueueAgent) = Some None" and "tp_bindings intended \<subseteq> tp_bindings t"
  shows "t = intended"
proof -
  have "tp_exchanges t = tp_exchanges intended" "tp_queues t = tp_queues intended"
    using assms(1-5) unfolding within_topology_def
    by (auto simp: intended_def intro!: map_le_antisym) (auto simp: map_le_def)
  then show ?thesis using assms(1,6) by (cases t) (auto simp: intended_def within_topology_def)
qed

lemma EnsureRoute_declares:
  assumes "broker_laws view ch" and "answers view ch" and "\<And>w. conn w = (Inr ch, w)" and "within_topology (view w) intended"
  obtains w' where "EnsureRoute conn QueueAgent AgentRequested w = (Inr (), w')" and "within_topology (view w') intended"
    and "(ExchangeAgent, AgentRequested, QueueAgent) \<in> tp_bindings (view w')"
proof -
  note broker = assms(1,2)
  obtain w1 where 1: "ch_ExchangeDeclare ch ExchangeAgent ''topic'' w = (None, w1)"
    "view w1 = (view w)\<lparr>tp_exchanges := (tp_exchanges (view w))(ExchangeAgent \<mapsto> ''topic'')\<rparr>"
    using exchange_step [OF broker compatible(1) [OF assms(4) intended_simps(1)]] .
  then have in1: "within_topology (view w1) intended" using within_declare(1) [OF assms(4) intended_simps(1)] by simp
  obtain w2 where 2: "ch_QueueDeclare ch QueueAgent None w1 = (Inr QueueAgent, w2)"
    "view w2 = (view w1)\<lparr>tp_queues := (tp_queues (view w1))(QueueAgent \<mapsto> None)\<rparr>"
    using queue_step [OF broker compatible(2) [OF in1 intended_simps(2)]] .
  then have in2: "within_topology (view w2) intended" using within_declare(2) [OF in1 intended_simps(2)] by simp
  obtain w3 where 3: "ch_QueueBind ch QueueAgent AgentRequested ExchangeAgent w2 = (None, w3)"
    "view w3 = (view w2)\<lparr>tp_bindings := insert (ExchangeAgent, AgentRequested, QueueAgent) (tp_bindings (view w2))\<rparr>"
    using bind_step [OF broker, of w2 ExchangeAgent QueueAgent AgentRequested] 1(2) 2(2) by auto
  have "EnsureRoute conn QueueAgent AgentRequested w = (Inr (), w3)"
    by (simp add: EnsureRoute_def after_def after_value_def assms(3) 1 2 3)
  with that [of w3] within_declare(3) [OF in2 intended_simps(5)] 3(2) show thesis by simp
qed

text \<open>The three queues are declared first, then bound.\<close>

lemma queues_declared:
  assumes "broker_laws view ch" and "answers view ch" and "within_topology (view w) intended"
  obtains w1 w2 w3 where "ch_QueueDeclare ch QueueAgent None w = (Inr QueueAgent, w1)"
    and "ch_QueueDeclare ch (retryQueueName QueueAgent) (Some (retryArgs AgentRequested)) w1 = (Inr (retryQueueName QueueAgent), w2)"
    and "ch_QueueDeclare ch (dlqQueueName QueueAgent) None w2 = (Inr (dlqQueueName QueueAgent), w3)"
    and "within_topology (view w3) intended" and "view w3 = (view w)\<lparr>tp_queues := tp_queues (view w3)\<rparr>"
    and "tp_queues (view w3) QueueAgent = Some None" and "tp_queues (view w3) (dlqQueueName QueueAgent) = Some None"
    and "tp_queues (view w3) (retryQueueName QueueAgent) = Some (Some (retryArgs AgentRequested))"
proof -
  note broker = assms(1,2)
  obtain w1 where 1: "ch_QueueDeclare ch QueueAgent None w = (Inr QueueAgent, w1)"
    "view w1 = (view w)\<lparr>tp_queues := (tp_queues (view w))(QueueAgent \<mapsto> None)\<rparr>"
    using queue_step [OF broker compatible(2) [OF assms(3) intended_simps(2)]] .
  then have in1: "within_topology (view w1) intended" using within_declare(2) [OF assms(3) intended_simps(2)] by simp
  obtain w2 where 2: "ch_QueueDeclare ch (retryQueueName QueueAgent) (Some (retryArgs AgentRequested)) w1 = (Inr (retryQueueName QueueAgent), w2)"
    "view w2 = (view w1)\<lparr>tp_queues := (tp_queues (view w1))(retryQueueName QueueAgent \<mapsto> Some (retryArgs AgentRequested))\<rparr>"
    using queue_step [OF broker compatible(2) [OF in1 intended_simps(3)]] .
  then have in2: "within_topology (view w2) intended" using within_declare(2) [OF in1 intended_simps(3)] by simp
  obtain w3 where 3: "ch_QueueDeclare ch (dlqQueueName QueueAgent) None w2 = (Inr (dlqQueueName QueueAgent), w3)"
    "view w3 = (view w2)\<lparr>tp_queues := (tp_queues (view w2))(dlqQueueName QueueAgent \<mapsto> None)\<rparr>"
    using queue_step [OF broker compatible(2) [OF in2 intended_simps(4)]] .
  then have "within_topology (view w3) intended" using within_declare(2) [OF in2 intended_simps(4)] by simp
  with 1 2 3 show thesis by (intro that [of w1 w2 w3]) simp_all
qed

lemma queues_bound:
  assumes "broker_laws view ch" and "answers view ch" and "tp_exchanges (view w) ExchangeAgent \<noteq> None"
    and "\<And>n. n \<in> {QueueAgent, retryQueueName QueueAgent, dlqQueueName QueueAgent} \<Longrightarrow> tp_queues (view w) n \<noteq> None"
  obtains w1 w2 w3 where "ch_QueueBind ch QueueAgent AgentRequested ExchangeAgent w = (None, w1)"
    and "ch_QueueBind ch (retryQueueName QueueAgent) retryRoutingKey ExchangeAgent w1 = (None, w2)"
    and "ch_QueueBind ch (dlqQueueName QueueAgent) dlqRoutingKey ExchangeAgent w2 = (None, w3)"
    and "view w3 = (view w)\<lparr>tp_bindings := tp_bindings (view w) \<union> tp_bindings intended\<rparr>"
proof -
  note broker = assms(1,2)
  obtain w1 where 1: "ch_QueueBind ch QueueAgent AgentRequested ExchangeAgent w = (None, w1)"
    "view w1 = (view w)\<lparr>tp_bindings := insert (ExchangeAgent, AgentRequested, QueueAgent) (tp_bindings (view w))\<rparr>"
    using bind_step [OF broker assms(3), of QueueAgent AgentRequested] assms(4) by auto
  obtain w2 where 2: "ch_QueueBind ch (retryQueueName QueueAgent) retryRoutingKey ExchangeAgent w1 = (None, w2)"
    "view w2 = (view w1)\<lparr>tp_bindings := insert (ExchangeAgent, retryRoutingKey, retryQueueName QueueAgent) (tp_bindings (view w1))\<rparr>"
    using bind_step [OF broker, of w1 ExchangeAgent "retryQueueName QueueAgent" retryRoutingKey] assms(3,4) 1 by auto
  obtain w3 where 3: "ch_QueueBind ch (dlqQueueName QueueAgent) dlqRoutingKey ExchangeAgent w2 = (None, w3)"
    "view w3 = (view w2)\<lparr>tp_bindings := insert (ExchangeAgent, dlqRoutingKey, dlqQueueName QueueAgent) (tp_bindings (view w2))\<rparr>"
    using bind_step [OF broker, of w2 ExchangeAgent "dlqQueueName QueueAgent" dlqRoutingKey] assms(3,4) 1 2 by auto
  have "view w3 = (view w)\<lparr>tp_bindings := tp_bindings (view w) \<union> tp_bindings intended\<rparr>"
    unfolding 1 2 3 by (simp add: intended_def insert_commute)
  with 1 2 3 show thesis by (intro that [of w1 w2 w3]) simp_all
qed

lemma subscribe_declares:
  assumes "broker_laws view ch" and "answers view ch" and "\<And>w. conn w = (Inr ch, w)" and "within_topology (view w) intended"
  obtains w' where "subscribe_setup conn QueueAgent AgentRequested w = (Inr QueueAgent, w')" and "view w' = intended"
proof -
  note broker = assms(1,2)
  obtain w0 where 0: "ch_Confirm ch w = (None, w0)" "view w0 = view w" using quiet_steps [OF broker] by metis
  obtain w1 where 1: "ch_ExchangeDeclare ch ExchangeAgent ''topic'' w0 = (None, w1)"
    "view w1 = (view w0)\<lparr>tp_exchanges := (tp_exchanges (view w0))(ExchangeAgent \<mapsto> ''topic'')\<rparr>"
    using exchange_step [OF broker, of w0 ExchangeAgent "''topic''"] compatible(1) [OF assms(4) intended_simps(1)] 0 by auto
  then have in1: "within_topology (view w1) intended" using within_declare(1) [OF assms(4) intended_simps(1)] 0 by simp
  obtain w2 w3 w4 where q: "ch_QueueDeclare ch QueueAgent None w1 = (Inr QueueAgent, w2)"
      "ch_QueueDeclare ch (retryQueueName QueueAgent) (Some (retryArgs AgentRequested)) w2 = (Inr (retryQueueName QueueAgent), w3)"
      "ch_QueueDeclare ch (dlqQueueName QueueAgent) None w3 = (Inr (dlqQueueName QueueAgent), w4)"
    and in4: "within_topology (view w4) intended" and v4: "view w4 = (view w1)\<lparr>tp_queues := tp_queues (view w4)\<rparr>"
    and qs: "tp_queues (view w4) QueueAgent = Some None" "tp_queues (view w4) (dlqQueueName QueueAgent) = Some None"
      "tp_queues (view w4) (retryQueueName QueueAgent) = Some (Some (retryArgs AgentRequested))"
    by (rule queues_declared [OF broker in1])
  have x4: "tp_exchanges (view w4) ExchangeAgent = Some ''topic''" using arg_cong [OF v4, of tp_exchanges] 1(2) by simp
  obtain w5 w6 w7 where b: "ch_QueueBind ch QueueAgent AgentRequested ExchangeAgent w4 = (None, w5)"
      "ch_QueueBind ch (retryQueueName QueueAgent) retryRoutingKey ExchangeAgent w5 = (None, w6)"
      "ch_QueueBind ch (dlqQueueName QueueAgent) dlqRoutingKey ExchangeAgent w6 = (None, w7)"
    and v7: "view w7 = (view w4)\<lparr>tp_bindings := tp_bindings (view w4) \<union> tp_bindings intended\<rparr>"
    by (rule queues_bound [OF broker, of w4]) (use x4 qs in auto)
  obtain w8 where 8: "ch_Consume ch QueueAgent w7 = (None, w8)" "view w8 = view w7"
    using quiet_steps [OF broker, where u = w7 and n = QueueAgent] v7 qs(1) by (metis option.distinct(1) topology.select_convs(2) topology.surjective topology.update_convs(3))
  have "view w8 = intended"
    by (rule all_intended) (use in4 x4 qs v7 8(2) in \<open>auto simp: within_topology_def\<close>)
  moreover have "subscribe_setup conn QueueAgent AgentRequested w = (Inr QueueAgent, w8)"
    by (simp add: subscribe_setup_def after_def after_value_def wrap_confirm_def assms(3) 0 1 q b 8)
  ultimately show thesis using that by blast
qed

text \<open>C40. API and worker can start in either order and any number of times: on a broker that answers, and on
  which nothing else than these programs declare exists, the declarations of both succeed; after those of
  the producer its events are routed to the main queue, and after those of the consumer exactly the intended
  topology exists, in which each of the three routing keys leads to its own queue and the retry queue hands
  expired messages back to the main queue.\<close>

theorem declarations_never_conflict:
  assumes "broker_laws view ch" and "answers view ch" and "\<And>w. conn w = (Inr ch, w)" and "within_topology (view w) intended"
  shows "(\<exists>w'. EnsureRoute conn QueueAgent AgentRequested w = (Inr (), w') \<and> within_topology (view w') intended
        \<and> routes (view w') ExchangeAgent AgentRequested = {QueueAgent})
    \<and> (\<exists>w'. subscribe_setup conn QueueAgent AgentRequested w = (Inr QueueAgent, w') \<and> view w' = intended)
    \<and> routes intended ExchangeAgent AgentRequested = {QueueAgent}
    \<and> routes intended ExchangeAgent retryRoutingKey = {retryQueueName QueueAgent}
    \<and> routes intended ExchangeAgent dlqRoutingKey = {dlqQueueName QueueAgent}
    \<and> tp_queues intended (retryQueueName QueueAgent)
        = Some (Some \<lparr> qa_MessageTTL = 5000, qa_DeadLetterExchange = ExchangeAgent, qa_DeadLetterRoutingKey = AgentRequested \<rparr>)"
proof (intro conjI)
  obtain w' where w': "EnsureRoute conn QueueAgent AgentRequested w = (Inr (), w')" "within_topology (view w') intended"
    "(ExchangeAgent, AgentRequested, QueueAgent) \<in> tp_bindings (view w')"
    by (rule EnsureRoute_declares [OF assms])
  then have "routes (view w') ExchangeAgent AgentRequested = {QueueAgent}"
    using intended_routes(1) unfolding within_topology_def routes_def by blast
  with w' show "\<exists>w'. EnsureRoute conn QueueAgent AgentRequested w = (Inr (), w') \<and> within_topology (view w') intended
      \<and> routes (view w') ExchangeAgent AgentRequested = {QueueAgent}" by blast
  show "\<exists>w'. subscribe_setup conn QueueAgent AgentRequested w = (Inr QueueAgent, w') \<and> view w' = intended"
    by (rule subscribe_declares [OF assms]) blast
qed (simp_all add: intended_routes retryArgs_def RetryTTL_def)

text \<open>A broker that keeps what is declared.\<close>

definition demo_channel :: "topology amqp_channel" where
  "demo_channel =
     \<lparr> ch_Confirm = (\<lambda>t. (None, t)),
       ch_ExchangeDeclare = (\<lambda>n k t. if tp_exchanges t n \<in> {None, Some k} then (None, t\<lparr>tp_exchanges := (tp_exchanges t)(n \<mapsto> k)\<rparr>)
         else (Some (plain_err ''PRECONDITION_FAILED''), t)),
       ch_QueueDeclare = (\<lambda>n a t. if tp_queues t n \<in> {None, Some a} then (Inr n, t\<lparr>tp_queues := (tp_queues t)(n \<mapsto> a)\<rparr>)
         else (Inl (plain_err ''PRECONDITION_FAILED''), t)),
       ch_QueueBind = (\<lambda>n k x t. if tp_exchanges t x \<noteq> None \<and> tp_queues t n \<noteq> None
         then (None, t\<lparr>tp_bindings := insert (x, k, n) (tp_bindings t)\<rparr>) else (Some (plain_err ''NOT_FOUND''), t)),
       ch_Consume = (\<lambda>n t. (if tp_queues t n \<noteq> None then None else Some (plain_err ''NOT_FOUND''), t)) \<rparr>"

lemma demo_broker: "broker_laws (\<lambda>t. t) demo_channel" "answers (\<lambda>t. t) demo_channel"
  by (auto simp: broker_laws_def answers_def demo_channel_def split: if_splits)

lemma declarations_never_conflict_witness:
  "\<exists>t u. EnsureRoute (\<lambda>t. (Inr demo_channel, t)) QueueAgent AgentRequested
        \<lparr> tp_exchanges = Map.empty, tp_queues = Map.empty, tp_bindings = {} \<rparr> = (Inr (), t)
    \<and> subscribe_setup (\<lambda>t. (Inr demo_channel, t)) QueueAgent AgentRequested t = (Inr QueueAgent, u) \<and> u = intended"
proof -
  let ?conn = "\<lambda>t :: topology. (Inr demo_channel :: gerror + topology amqp_channel, t)"
  let ?empty = "\<lparr> tp_exchanges = Map.empty, tp_queues = Map.empty, tp_bindings = {} \<rparr> :: topology"
  have "within_topology ?empty intended" by (simp add: within_topology_def)
  from declarations_never_conflict [OF demo_broker, of ?conn, OF refl this, THEN conjunct1]
  obtain t where t: "EnsureRoute ?conn QueueAgent AgentRequested ?empty = (Inr (), t)" "within_topology t intended" by fast
  from declarations_never_conflict [OF demo_broker, of ?conn, OF refl t(2), THEN conjunct2, THEN conjunct1]
  obtain u where "subscribe_setup ?conn QueueAgent AgentRequested t = (Inr QueueAgent, u)" "u = intended" by fast
  with t(1) show ?thesis by fast
qed

section \<open>The worker as a process\<close>

text \<open>A connection that leaves the application alone.\<close>

definition channel_beside :: "world mq amqp_channel \<Rightarrow> bool" where
  "channel_beside ch \<longleftrightarrow> (\<forall>q. mq_app (snd (ch_Confirm ch q)) = mq_app q)
     \<and> (\<forall>n k q. mq_app (snd (ch_ExchangeDeclare ch n k q)) = mq_app q)
     \<and> (\<forall>n a q. mq_app (snd (ch_QueueDeclare ch n a q)) = mq_app q)
     \<and> (\<forall>n k x q. mq_app (snd (ch_QueueBind ch n k x q)) = mq_app q)
     \<and> (\<forall>n q. mq_app (snd (ch_Consume ch n q)) = mq_app q)"

definition dial_beside :: "world mq dial \<Rightarrow> bool" where
  "dial_beside connect \<longleftrightarrow> (\<forall>url q r q'. connect url q = (r, q') \<longrightarrow> mq_app q' = mq_app q
     \<and> (\<forall>conn p s p'. r = Inr conn \<and> conn p = (s, p') \<longrightarrow> mq_app p' = mq_app p \<and> (\<forall>ch. s = Inr ch \<longrightarrow> channel_beside ch)))"

lemma app_after:
  "mq_app (snd r) = a \<Longrightarrow> (\<And>p. mq_app p = a \<Longrightarrow> mq_app (snd (k p)) = a) \<Longrightarrow> mq_app (snd (after r k)) = a"
  by (auto simp: after_def split: prod.split option.split)

lemma app_after_value:
  "mq_app (snd r) = a \<Longrightarrow> (\<And>x p. fst r = Inr x \<Longrightarrow> mq_app p = a \<Longrightarrow> mq_app (snd (k x p)) = a)
    \<Longrightarrow> mq_app (snd (after_value r k)) = a"
  by (auto simp: after_value_def split: prod.split sum.split)

lemma setup_app:
  assumes "\<And>p. mq_app (snd (conn p)) = mq_app p" and "\<And>p ch. fst (conn p) = Inr ch \<Longrightarrow> channel_beside ch"
  shows "mq_app (snd (subscribe_setup conn queue key q)) = mq_app q"
  unfolding subscribe_setup_def
  by (intro app_after app_after_value) (use assms in \<open>auto simp: wrap_confirm_def channel_beside_def\<close>)

text \<open>So what a worker process does to the application are steps of the system, however its connection and
  its deliveries go, and it ends with an error when it cannot start.\<close>

lemma RunWorker_run:
  assumes "agent_of rt cfg" and "dial_beside connect" and "RunWorker connect cfg fint repo rt agent prompt ds stop q = (e, q')"
  shows "system_run cfg (mq_app q) (mq_app q')"
proof (cases "mq_URL (cf_RabbitMQ cfg) = ''''")
  case False
  obtain r q1 where dial: "connect (mq_URL (cf_RabbitMQ cfg)) q = (r, q1)" by force
  then have app1: "mq_app q1 = mq_app q" using assms(2) unfolding dial_beside_def by blast
  show ?thesis
  proof (cases r)
    case (Inr conn)
    have "mq_app (snd (subscribe_setup conn QueueAgent AgentRequested q1)) = mq_app q1"
      using assms(2) dial Inr unfolding dial_beside_def by (intro setup_app) (metis prod.collapse)+
    moreover obtain s q2 where start: "subscribe_setup conn QueueAgent AgentRequested q1 = (s, q2)" by force
    ultimately have app2: "mq_app q2 = mq_app q" using app1 by simp
    show ?thesis
    proof (cases s)
      case (Inr name)
      with \<open>r = Inr conn\<close> start dial False assms(3) have "q' = snd (run_consumer count_metric fint
          (handleAgentRequested world_incidents repo rt agent prompt) (Some (failIncidentOnDeadLetter world_incidents)) ds q2)"
        by (auto simp: RunWorker_def consumer_Subscribe_def NewConsumer_def WithTerminalHandler_def)
      with consumer_run [OF assms(1) prod.collapse [symmetric]] app2 show ?thesis by metis
    qed (use Inr start dial False assms(3) app2 in \<open>auto simp: RunWorker_def consumer_Subscribe_def NewConsumer_def WithTerminalHandler_def\<close>)
  qed (use dial False assms(3) app1 in \<open>auto simp: RunWorker_def\<close>)
qed (use assms(3) in \<open>auto simp: RunWorker_def\<close>)

end
