(* ===== verification/Postgres_Repo.thy ===== *)
theory Postgres_Repo
  imports Memory_Repo Approval_Repo Run_Repo
begin

text \<open>
  The PostgreSQL repositories (\<open>postgres.go\<close>, \<open>event_postgres.go\<close>, \<open>approval_postgres.go\<close> and
  \<open>run_postgres.go\<close> of \<open>src/internal/incident/repository\<close>). GORM is a record of operations on the world, one
  set for each table; a \<open>WHERE\<close> clause is a predicate on rows, an \<open>ORDER BY\<close> clause a comparison, the column
  map of \<open>Updates\<close> a function on rows. What GORM and PostgreSQL promise of a statement and of a transaction is
  \<open>db_laws\<close>, a hypothesis of the theorems. A statement whose error carries no code of the server may have been
  executed nevertheless (the connection broke before the answer came), and the laws allow for it.
\<close>

section \<open>The database library\<close>

text \<open>A Go error with what the code asks of it besides the sentinels: the SQLSTATE of a \<open>*pgconn.PgError\<close> in its
  chain, and whether \<open>gorm.ErrRecordNotFound\<close> is in it.\<close>

record dberr =
  de_err :: gerror
  de_code :: "string option"
  de_not_found :: bool

definition go_error :: "gerror \<Rightarrow> dberr" where
  "go_error e = \<lparr> de_err = e, de_code = None, de_not_found = False \<rparr>"

record 'r query =
  qy_where :: "'r \<Rightarrow> bool"
  qy_before :: "'r \<Rightarrow> 'r \<Rightarrow> bool"
  qy_limit :: "int option"
  qy_offset :: "int option"

text \<open>\<open>tb_Create\<close> takes the pointers of a slice, of which one may be nil; \<open>tb_Updates\<close> answers with
  \<open>RowsAffected\<close>.\<close>

record ('r, 'w) table =
  tb_Create :: "ctx \<Rightarrow> 'r option list \<Rightarrow> 'w \<Rightarrow> dberr option \<times> 'w"
  tb_First :: "ctx \<Rightarrow> 'r query \<Rightarrow> 'w \<Rightarrow> dberr + 'r"
  tb_Find :: "ctx \<Rightarrow> 'r query \<Rightarrow> 'w \<Rightarrow> dberr + 'r list"
  tb_Updates :: "ctx \<Rightarrow> ('r \<Rightarrow> bool) \<Rightarrow> ('r \<Rightarrow> 'r) \<Rightarrow> 'w \<Rightarrow> (dberr + nat) \<times> 'w"

text \<open>The function given to \<open>Transaction\<close> returns an error and leaves one in a variable it captures; both are
  in the answer. \<open>db_id_before\<close> is the order of the database's collation on ids.\<close>

record 'w gorm_db =
  db_incidents :: "(incident, 'w) table"
  db_events :: "(incident_event, 'w) table"
  db_approvals :: "(approval, 'w) table"
  db_runs :: "(agent_run, 'w) table"
  db_steps :: "(agent_step, 'w) table"
  db_calls :: "(tool_call, 'w) table"
  db_evidences :: "(evidence, 'w) table"
  db_Transaction :: "ctx \<Rightarrow> ('w \<Rightarrow> (dberr option \<times> dberr option) \<times> 'w) \<Rightarrow> 'w \<Rightarrow> (dberr option \<times> dberr option) \<times> 'w"
  db_id_before :: "string \<Rightarrow> string \<Rightarrow> bool"

definition isUniqueViolation :: "dberr option \<Rightarrow> bool" where
  "isUniqueViolation err = (case err of None \<Rightarrow> False | Some e \<Rightarrow> de_code e = Some ''23505'')"

definition conflict_or :: "dberr option \<Rightarrow> gerror option" where
  "conflict_or err = (if isUniqueViolation err then Some (sentinel_err ErrConflict) else map_option de_err err)"

text \<open>The three \<open>if\<close>s after a \<open>First\<close>.\<close>

definition first_or_not_found :: "dberr + 'r \<Rightarrow> gerror + 'r" where
  "first_or_not_found ans =
     (case ans of
        Inr r \<Rightarrow> Inr r
      | Inl e \<Rightarrow> if de_not_found e then Inl (sentinel_err ErrNotFound) else Inl (de_err e))"

definition found_rows :: "dberr + 'r list \<Rightarrow> gerror + 'r list" where
  "found_rows ans = (case ans of Inr rs \<Rightarrow> Inr rs | Inl e \<Rightarrow> Inl (de_err e))"

definition any_order :: "'r \<Rightarrow> 'r \<Rightarrow> bool" where
  "any_order a b = False"

definition rows_where :: "('r \<Rightarrow> bool) \<Rightarrow> ('r \<Rightarrow> 'r \<Rightarrow> bool) \<Rightarrow> 'r query" where
  "rows_where p before = \<lparr> qy_where = p, qy_before = before, qy_limit = None, qy_offset = None \<rparr>"

section \<open>Incidents\<close>

definition pg_Create :: "'w gorm_db \<Rightarrow> ctx \<Rightarrow> incident \<Rightarrow> 'w \<Rightarrow> gerror option \<times> 'w" where
  "pg_Create db c inc w =
     (case tb_Create (db_incidents db) c [Some inc] w of (err, w1) \<Rightarrow> (conflict_or err, w1))"

definition pg_GetByID :: "'w gorm_db \<Rightarrow> ctx \<Rightarrow> string \<Rightarrow> 'w \<Rightarrow> gerror + incident" where
  "pg_GetByID db c i w = first_or_not_found (tb_First (db_incidents db) c (rows_where (\<lambda>r. inc_ID r = i) any_order) w)"

definition newest_incident :: "incident \<Rightarrow> incident \<Rightarrow> bool" where
  "newest_incident a b = (inc_CreatedAt a > inc_CreatedAt b)"

definition pg_GetByFingerprint :: "'w gorm_db \<Rightarrow> ctx \<Rightarrow> string \<Rightarrow> 'w \<Rightarrow> gerror + incident" where
  "pg_GetByFingerprint db c fp w =
     first_or_not_found (tb_First (db_incidents db) c (rows_where (\<lambda>r. inc_Fingerprint r = fp) newest_incident) w)"

definition activeIncidentPredicate :: "incident \<Rightarrow> bool" where
  "activeIncidentPredicate r =
     (status_string (inc_Status r) \<noteq> ''RESOLVED'' \<and> status_string (inc_Status r) \<noteq> ''FAILED''
      \<and> status_string (inc_Status r) \<noteq> ''CANCELLED'')"

definition pg_GetActiveByFingerprint :: "'w gorm_db \<Rightarrow> ctx \<Rightarrow> string \<Rightarrow> 'w \<Rightarrow> gerror + incident" where
  "pg_GetActiveByFingerprint db c fp w =
     first_or_not_found (tb_First (db_incidents db) c
       (rows_where (\<lambda>r. inc_Fingerprint r = fp \<and> activeIncidentPredicate r) newest_incident) w)"

definition pg_List :: "'w gorm_db \<Rightarrow> ctx \<Rightarrow> list_filter \<Rightarrow> 'w \<Rightarrow> gerror + incident list" where
  "pg_List db c flt w =
     found_rows (tb_Find (db_incidents db) c
       \<lparr> qy_where = (\<lambda>r. (lf_Service flt \<noteq> '''' \<longrightarrow> inc_Service r = lf_Service flt)
                        \<and> (lf_Status flt \<noteq> '''' \<longrightarrow> status_string (inc_Status r) = lf_Status flt)),
         qy_before = newest_incident,
         qy_limit = (if lf_Limit flt > 0 then Some (lf_Limit flt) else None),
         qy_offset = (if lf_Offset flt > 0 then Some (lf_Offset flt) else None) \<rparr> w)"

text \<open>The columns that \<open>Updates\<close> writes, and the update with its check of the version.\<close>

definition write_incident :: "incident \<Rightarrow> incident \<Rightarrow> incident" where
  "write_incident inc r =
     r\<lparr>inc_Status := inc_Status inc, inc_ResolvedAt := inc_ResolvedAt inc, inc_UpdatedAt := inc_UpdatedAt inc,
       inc_Version := inc_Version r + 1\<rparr>"

definition pg_updateIncident :: "'w gorm_db \<Rightarrow> ctx \<Rightarrow> incident \<Rightarrow> 'w \<Rightarrow> dberr option \<times> 'w" where
  "pg_updateIncident db c inc w =
     (case tb_Updates (db_incidents db) c (\<lambda>r. inc_ID r = inc_ID inc \<and> inc_Version r = inc_Version inc)
             (write_incident inc) w of
        (Inl e, w1) \<Rightarrow> (Some e, w1)
      | (Inr n, w1) \<Rightarrow> (if n = 0 then Some (go_error (sentinel_err ErrConcurrentModification)) else None, w1))"

definition pg_Update :: "'w gorm_db \<Rightarrow> ctx \<Rightarrow> incident \<Rightarrow> 'w \<Rightarrow> (gerror + incident) \<times> 'w" where
  "pg_Update db c inc w =
     (case pg_updateIncident db c inc w of
        (Some e, w1) \<Rightarrow> (Inl (de_err e), w1)
      | (None, w1) \<Rightarrow> (Inr (bump_version inc), w1))"

section \<open>Incidents with their audit events\<close>

definition create_body :: "'w gorm_db \<Rightarrow> ctx \<Rightarrow> incident \<Rightarrow> incident_event \<Rightarrow> 'w \<Rightarrow> (dberr option \<times> dberr option) \<times> 'w" where
  "create_body db c inc ev w =
     (case tb_Create (db_incidents db) c [Some inc] w of
        (Some e, w1) \<Rightarrow> ((Some e, Some e), w1)
      | (None, w1) \<Rightarrow> (case tb_Create (db_events db) c [Some ev] w1 of (r, w2) \<Rightarrow> ((r, None), w2)))"

definition pg_CreateWithEvent :: "'w gorm_db \<Rightarrow> ctx \<Rightarrow> incident \<Rightarrow> incident_event option \<Rightarrow> 'w \<Rightarrow> gerror option \<times> 'w" where
  "pg_CreateWithEvent db c inc ev w =
     (case ev of
        None \<Rightarrow> pg_Create db c inc w
      | Some e \<Rightarrow>
          (case db_Transaction db c (create_body db c inc e) w of
             ((err, incErr), w1) \<Rightarrow>
               (if incErr \<noteq> None \<and> isUniqueViolation incErr then Some (sentinel_err ErrConflict)
                else case incErr of
                       Some ie \<Rightarrow> Some (de_err ie)
                     | None \<Rightarrow> map_option (\<lambda>x. wrap_err (''write incident event for '' @ inc_ID inc @ '': '') (de_err x)) err,
                w1)))"

definition update_body :: "'w gorm_db \<Rightarrow> ctx \<Rightarrow> incident \<Rightarrow> ('w \<Rightarrow> dberr option \<times> 'w) \<Rightarrow> 'w \<Rightarrow> (dberr option \<times> dberr option) \<times> 'w" where
  "update_body db c inc add w =
     (case pg_updateIncident db c inc w of
        (Some e, w1) \<Rightarrow> ((Some e, Some e), w1)
      | (None, w1) \<Rightarrow> (case add w1 of (r, w2) \<Rightarrow> ((r, None), w2)))"

definition after_update :: "string \<Rightarrow> incident \<Rightarrow> (dberr option \<times> dberr option) \<times> 'w \<Rightarrow> (gerror + incident) \<times> 'w" where
  "after_update what inc ans =
     (case ans of
        ((err, Some ue), w1) \<Rightarrow> (Inl (de_err ue), w1)
      | ((Some e, None), w1) \<Rightarrow> (Inl (wrap_err (what @ inc_ID inc @ '': '') (de_err e)), w1)
      | ((None, None), w1) \<Rightarrow> (Inr (bump_version inc), w1))"

definition pg_UpdateWithEvent ::
  "'w gorm_db \<Rightarrow> ctx \<Rightarrow> incident \<Rightarrow> incident_event option \<Rightarrow> 'w \<Rightarrow> (gerror + incident) \<times> 'w" where
  "pg_UpdateWithEvent db c inc ev w =
     (case ev of
        None \<Rightarrow> pg_Update db c inc w
      | Some e \<Rightarrow> after_update ''write incident event for '' inc
          (db_Transaction db c (update_body db c inc (tb_Create (db_events db) c [Some e])) w))"

definition pg_UpdateWithEvents ::
  "'w gorm_db \<Rightarrow> ctx \<Rightarrow> incident \<Rightarrow> incident_event option list \<Rightarrow> 'w \<Rightarrow> (gerror + incident) \<times> 'w" where
  "pg_UpdateWithEvents db c inc evs w =
     after_update ''write incident events for '' inc
       (db_Transaction db c
         (update_body db c inc (if evs = [] then Pair None else tb_Create (db_events db) c evs)) w)"

definition event_order :: "'w gorm_db \<Rightarrow> incident_event \<Rightarrow> incident_event \<Rightarrow> bool" where
  "event_order db a b =
     (ev_CreatedAt a < ev_CreatedAt b \<or> ev_CreatedAt a = ev_CreatedAt b \<and> db_id_before db (ev_ID a) (ev_ID b))"

definition pg_ListEvents :: "'w gorm_db \<Rightarrow> ctx \<Rightarrow> string \<Rightarrow> 'w \<Rightarrow> gerror + incident_event list" where
  "pg_ListEvents db c i w =
     found_rows (tb_Find (db_events db) c (rows_where (\<lambda>e. ev_IncidentID e = i) (event_order db)) w)"

definition postgres_incident_repo :: "'w gorm_db \<Rightarrow> 'w incident_repo" where
  "postgres_incident_repo db = \<lparr>
     ir_CreateWithEvent = pg_CreateWithEvent db, ir_GetByID = pg_GetByID db,
     ir_GetByFingerprint = pg_GetByFingerprint db, ir_GetActiveByFingerprint = pg_GetActiveByFingerprint db,
     ir_List = pg_List db, ir_UpdateWithEvent = pg_UpdateWithEvent db, ir_UpdateWithEvents = pg_UpdateWithEvents db,
     ir_ListEvents = pg_ListEvents db \<rparr>"

section \<open>Approvals\<close>

definition pga_Create :: "'w gorm_db \<Rightarrow> ctx \<Rightarrow> approval \<Rightarrow> 'w \<Rightarrow> gerror option \<times> 'w" where
  "pga_Create db c a w = (case tb_Create (db_approvals db) c [Some a] w of (err, w1) \<Rightarrow> (map_option de_err err, w1))"

definition pga_Get :: "'w gorm_db \<Rightarrow> ctx \<Rightarrow> string \<Rightarrow> 'w \<Rightarrow> gerror + approval" where
  "pga_Get db c i w = first_or_not_found (tb_First (db_approvals db) c (rows_where (\<lambda>a. ap_ID a = i) any_order) w)"

definition approval_order :: "'w gorm_db \<Rightarrow> approval \<Rightarrow> approval \<Rightarrow> bool" where
  "approval_order db a b =
     (ap_CreatedAt a < ap_CreatedAt b \<or> ap_CreatedAt a = ap_CreatedAt b \<and> db_id_before db (ap_ID a) (ap_ID b))"

definition pga_ListByRun :: "'w gorm_db \<Rightarrow> ctx \<Rightarrow> string \<Rightarrow> 'w \<Rightarrow> gerror + approval list" where
  "pga_ListByRun db c runID w =
     found_rows (tb_Find (db_approvals db) c (rows_where (\<lambda>a. ap_RunID a = runID) (approval_order db)) w)"

definition pga_ListPending :: "'w gorm_db \<Rightarrow> ctx \<Rightarrow> 'w \<Rightarrow> gerror + approval list" where
  "pga_ListPending db c w =
     found_rows (tb_Find (db_approvals db) c (rows_where (\<lambda>a. ap_Status a = ApprovalPending) (approval_order db)) w)"

text \<open>The columns of the transition, from the snapshot as the caller's function left it.\<close>

definition write_approval :: "approval \<Rightarrow> approval \<Rightarrow> approval" where
  "write_approval a r =
     r\<lparr>ap_Status := ap_Status a, ap_ApprovedBy := ap_ApprovedBy a, ap_ApprovedAt := ap_ApprovedAt a,
       ap_Result := ap_Result a, ap_Error := ap_Error a, ap_OperationID := ap_OperationID a,
       ap_UpdatedAt := ap_UpdatedAt a\<rparr>"

text \<open>Between the read and the write other clients of the database run: \<open>others\<close> is what they did.\<close>

definition pga_TransitionStatus ::
  "'w gorm_db \<Rightarrow> ('w \<Rightarrow> 'w) \<Rightarrow> ctx \<Rightarrow> string \<Rightarrow> approval_status \<Rightarrow> approval_status \<Rightarrow> (approval \<Rightarrow> approval) \<Rightarrow> time
     \<Rightarrow> 'w \<Rightarrow> (gerror + approval) \<times> 'w" where
  "pga_TransitionStatus db others c i frm to mutate now w =
     (case pga_Get db c i w of
        Inl e \<Rightarrow> (Inl e, w)
      | Inr a0 \<Rightarrow>
          if ap_Status a0 \<noteq> frm then (Inl (sentinel_err ErrConflict), w)
          else
            (let a = mutate (a0\<lparr>ap_Status := to, ap_UpdatedAt := now\<rparr>)
             in case tb_Updates (db_approvals db) c (\<lambda>r. ap_ID r = i \<and> ap_Status r = frm) (write_approval a) (others w) of
                  (Inl e, w1) \<Rightarrow> (Inl (de_err e), w1)
                | (Inr n, w1) \<Rightarrow> if n = 0 then (Inl (sentinel_err ErrConflict), w1) else (Inr a, w1)))"

definition pga_ExpirePendingByIncident :: "'w gorm_db \<Rightarrow> ctx \<Rightarrow> string \<Rightarrow> fresh \<Rightarrow> 'w \<Rightarrow> (gerror + int) \<times> 'w" where
  "pga_ExpirePendingByIncident db c i f w =
     (if i = '''' then (Inr 0, w)
      else
        (case tb_Updates (db_approvals db) c (\<lambda>a. ap_IncidentID a = i \<and> ap_Status a = ApprovalPending)
                (expire_one (clk f 0)) w of
           (Inl e, w1) \<Rightarrow> (Inl (de_err e), w1)
         | (Inr n, w1) \<Rightarrow> (Inr (int n), w1)))"

definition postgres_approval_repo :: "'w gorm_db \<Rightarrow> 'w approval_repo" where
  "postgres_approval_repo db = \<lparr>ar_Create = pga_Create db, ar_Get = pga_Get db, ar_ListByRun = pga_ListByRun db,
     ar_ListPending = pga_ListPending db, ar_TransitionStatus = pga_TransitionStatus db (\<lambda>w. w),
     ar_ExpirePendingByIncident = pga_ExpirePendingByIncident db\<rparr>"

section \<open>Agent runs\<close>

definition pgr_CreateRun :: "'w gorm_db \<Rightarrow> ctx \<Rightarrow> agent_run \<Rightarrow> 'w \<Rightarrow> gerror option \<times> 'w" where
  "pgr_CreateRun db c run w =
     (case tb_Create (db_runs db) c [Some run] w of (err, w1) \<Rightarrow> (conflict_or err, w1))"

definition write_run :: "agent_run \<Rightarrow> agent_run \<Rightarrow> agent_run" where
  "write_run run r =
     r\<lparr>run_IncidentID := run_IncidentID run, run_AgentType := run_AgentType run, run_Status := run_Status run,
       run_Goal := run_Goal run, run_CurrentStep := run_CurrentStep run, run_StartedAt := run_StartedAt run,
       run_FinishedAt := run_FinishedAt run, run_Error := run_Error run\<rparr>"

definition pgr_UpdateRun :: "'w gorm_db \<Rightarrow> ctx \<Rightarrow> agent_run \<Rightarrow> 'w \<Rightarrow> gerror option \<times> 'w" where
  "pgr_UpdateRun db c run w =
     (case tb_Updates (db_runs db) c (\<lambda>r. run_ID r = run_ID run) (write_run run) w of
        (Inl e, w1) \<Rightarrow> (conflict_or (Some e), w1)
      | (Inr n, w1) \<Rightarrow> (if n = 0 then Some (sentinel_err ErrNotFound) else None, w1))"

definition pgr_GetRun :: "'w gorm_db \<Rightarrow> ctx \<Rightarrow> string \<Rightarrow> 'w \<Rightarrow> gerror + agent_run" where
  "pgr_GetRun db c i w = first_or_not_found (tb_First (db_runs db) c (rows_where (\<lambda>r. run_ID r = i) any_order) w)"

definition pgr_ListRunsByIncident :: "'w gorm_db \<Rightarrow> ctx \<Rightarrow> string \<Rightarrow> 'w \<Rightarrow> gerror + agent_run list" where
  "pgr_ListRunsByIncident db c i w =
     found_rows (tb_Find (db_runs db) c
       (rows_where (\<lambda>r. run_IncidentID r = i)
         (\<lambda>a b. run_StartedAt a > run_StartedAt b \<or> run_StartedAt a = run_StartedAt b \<and> db_id_before db (run_ID a) (run_ID b))) w)"

definition pgr_AddStep :: "'w gorm_db \<Rightarrow> ctx \<Rightarrow> agent_step \<Rightarrow> 'w \<Rightarrow> gerror option \<times> 'w" where
  "pgr_AddStep db c s w = (case tb_Create (db_steps db) c [Some s] w of (err, w1) \<Rightarrow> (map_option de_err err, w1))"

definition pgr_ListSteps :: "'w gorm_db \<Rightarrow> ctx \<Rightarrow> string \<Rightarrow> 'w \<Rightarrow> gerror + agent_step list" where
  "pgr_ListSteps db c runID w =
     found_rows (tb_Find (db_steps db) c
       (rows_where (\<lambda>s. step_RunID s = runID) (\<lambda>a b. step_StepIndex a < step_StepIndex b)) w)"

definition pgr_AddToolCall :: "'w gorm_db \<Rightarrow> ctx \<Rightarrow> tool_call \<Rightarrow> 'w \<Rightarrow> gerror option \<times> 'w" where
  "pgr_AddToolCall db c call w =
     (case tb_Create (db_calls db) c [Some call] w of (err, w1) \<Rightarrow> (map_option de_err err, w1))"

definition write_call :: "tool_call \<Rightarrow> tool_call \<Rightarrow> tool_call" where
  "write_call call r =
     r\<lparr>call_Result := call_Result call, call_Status := call_Status call, call_DurationMs := call_DurationMs call\<rparr>"

definition pgr_UpdateToolCall :: "'w gorm_db \<Rightarrow> ctx \<Rightarrow> tool_call \<Rightarrow> 'w \<Rightarrow> gerror option \<times> 'w" where
  "pgr_UpdateToolCall db c call w =
     (case tb_Updates (db_calls db) c (\<lambda>r. call_ID r = call_ID call) (write_call call) w of
        (Inl e, w1) \<Rightarrow> (Some (de_err e), w1)
      | (Inr n, w1) \<Rightarrow> (if n = 0 then Some (sentinel_err ErrNotFound) else None, w1))"

definition pgr_ListToolCalls :: "'w gorm_db \<Rightarrow> ctx \<Rightarrow> string \<Rightarrow> 'w \<Rightarrow> gerror + tool_call list" where
  "pgr_ListToolCalls db c runID w =
     found_rows (tb_Find (db_calls db) c
       (rows_where (\<lambda>x. call_RunID x = runID)
         (\<lambda>a b. call_CreatedAt a < call_CreatedAt b
            \<or> call_CreatedAt a = call_CreatedAt b \<and> db_id_before db (call_ID a) (call_ID b))) w)"

definition pgr_AddEvidence :: "'w gorm_db \<Rightarrow> ctx \<Rightarrow> evidence \<Rightarrow> 'w \<Rightarrow> gerror option \<times> 'w" where
  "pgr_AddEvidence db c e w =
     (case tb_Create (db_evidences db) c [Some e] w of (err, w1) \<Rightarrow> (map_option de_err err, w1))"

definition pgr_ListEvidences :: "'w gorm_db \<Rightarrow> ctx \<Rightarrow> string \<Rightarrow> 'w \<Rightarrow> gerror + evidence list" where
  "pgr_ListEvidences db c runID w =
     found_rows (tb_Find (db_evidences db) c
       (rows_where (\<lambda>e. evd_RunID e = runID) (\<lambda>a b. evd_CreatedAt a < evd_CreatedAt b)) w)"

definition postgres_run_repo :: "'w gorm_db \<Rightarrow> 'w run_repo" where
  "postgres_run_repo db = \<lparr>rr_CreateRun = pgr_CreateRun db, rr_UpdateRun = pgr_UpdateRun db, rr_GetRun = pgr_GetRun db,
     rr_ListRunsByIncident = pgr_ListRunsByIncident db, rr_AddStep = pgr_AddStep db, rr_ListSteps = pgr_ListSteps db,
     rr_AddToolCall = pgr_AddToolCall db, rr_UpdateToolCall = pgr_UpdateToolCall db,
     rr_ListToolCalls = pgr_ListToolCalls db, rr_AddEvidence = pgr_AddEvidence db,
     rr_ListEvidences = pgr_ListEvidences db\<rparr>"

section \<open>What the database promises\<close>

text \<open>The tables, each with its rows by primary key.\<close>

type_synonym 'r rows = "string \<Rightarrow> 'r option"

record db_view =
  dv_incidents :: "incident rows"
  dv_events :: "incident_event rows"
  dv_approvals :: "approval rows"
  dv_runs :: "agent_run rows"
  dv_steps :: "agent_step rows"
  dv_calls :: "tool_call rows"
  dv_evidences :: "evidence rows"

definition inserted :: "('r \<Rightarrow> string) \<Rightarrow> ('r \<Rightarrow> 'r) \<Rightarrow> 'r list \<Rightarrow> 'r rows \<Rightarrow> 'r rows" where
  "inserted key kept rs rows = rows ++ map_of (map (\<lambda>r. (key r, kept r)) rs)"

definition fresh_keys :: "('r \<Rightarrow> string) \<Rightarrow> 'r list \<Rightarrow> 'r rows \<Rightarrow> bool" where
  "fresh_keys key rs rows \<longleftrightarrow> distinct (map key rs) \<and> (\<forall>r \<in> set rs. rows (key r) = None)"

definition assigned :: "('r \<Rightarrow> bool) \<Rightarrow> ('r \<Rightarrow> 'r) \<Rightarrow> 'r rows \<Rightarrow> 'r rows" where
  "assigned p g rows = (\<lambda>i. case rows i of None \<Rightarrow> None | Some r \<Rightarrow> Some (if p r then g r else r))"

definition row_hits :: "('r \<Rightarrow> bool) \<Rightarrow> 'r rows \<Rightarrow> nat" where
  "row_hits p rows = card {i. \<exists>r. rows i = Some r \<and> p r}"

definition page_of :: "int option \<Rightarrow> int option \<Rightarrow> 'r list \<Rightarrow> 'r list" where
  "page_of limit offset rs =
     (let ys = (case offset of None \<Rightarrow> rs | Some k \<Rightarrow> drop (nat k) rs)
      in case limit of None \<Rightarrow> ys | Some k \<Rightarrow> take (nat k) ys)"

definition answers_query :: "'r query \<Rightarrow> 'r rows \<Rightarrow> 'r list \<Rightarrow> bool" where
  "answers_query q rows rs \<longleftrightarrow>
     (\<exists>all. distinct all \<and> set all = {r \<in> ran rows. qy_where q r}
        \<and> sorted_wrt (\<lambda>a b. \<not> qy_before q b a) all \<and> rs = page_of (qy_limit q) (qy_offset q) all)"

text \<open>Errors of the library carry none of the sentinels of the program; an error without a code of the server
  leaves open whether the server executed the statement.\<close>

definition foreign :: "dberr \<Rightarrow> bool" where
  "foreign e \<longleftrightarrow> (\<forall>s \<in> {ErrNotFound, ErrConflict, ErrConcurrentModification}. \<not> errIs (de_err e) s)"

definition lost :: "dberr \<Rightarrow> bool" where
  "lost e \<longleftrightarrow> de_code e = None"

definition settled :: "'v \<Rightarrow> 'v \<Rightarrow> dberr \<Rightarrow> 'v \<Rightarrow> bool" where
  "settled before after e v \<longleftrightarrow> foreign e \<and> (v = before \<or> lost e \<and> v = after)"

text \<open>A table: \<open>get\<close> reads its rows, \<open>put\<close> replaces them, \<open>kept\<close> is what the columns keep of a row (a
  \<open>timestamptz\<close> has microseconds), \<open>stamped\<close> says that GORM has no time stamp to fill in, \<open>ok\<close> are its unique
  indexes.\<close>

definition row_law :: "('w \<Rightarrow> db_view) \<Rightarrow> (db_view \<Rightarrow> 'r rows) \<Rightarrow> ('r \<Rightarrow> string) \<Rightarrow> ('r \<Rightarrow> 'r) \<Rightarrow> ('r rows \<Rightarrow> bool) \<Rightarrow> bool" where
  "row_law view get key kept ok \<longleftrightarrow>
     (\<forall>w. finite (dom (get (view w))) \<and> ok (get (view w))
        \<and> (\<forall>i r. get (view w) i = Some r \<longrightarrow> key r = i \<and> kept r = r))"

definition query_law :: "('w \<Rightarrow> db_view) \<Rightarrow> ('r, 'w) table \<Rightarrow> (db_view \<Rightarrow> 'r rows) \<Rightarrow> bool" where
  "query_law view t get \<longleftrightarrow>
     (\<forall>c q w.
        (case tb_First t c q w of
           Inr r \<Rightarrow> r \<in> ran (get (view w)) \<and> qy_where q r
             \<and> (\<forall>x \<in> ran (get (view w)). qy_where q x \<longrightarrow> \<not> qy_before q x r)
         | Inl e \<Rightarrow> foreign e \<and> (de_not_found e \<longrightarrow> (\<forall>r \<in> ran (get (view w)). \<not> qy_where q r)))
      \<and> (case tb_Find t c q w of Inr rs \<Rightarrow> answers_query q (get (view w)) rs | Inl e \<Rightarrow> foreign e))"

definition create_law ::
  "('w \<Rightarrow> db_view) \<Rightarrow> ('r, 'w) table \<Rightarrow> (db_view \<Rightarrow> 'r rows) \<Rightarrow> ('r rows \<Rightarrow> db_view \<Rightarrow> db_view) \<Rightarrow> ('r \<Rightarrow> string)
     \<Rightarrow> ('r \<Rightarrow> 'r) \<Rightarrow> ('r \<Rightarrow> bool) \<Rightarrow> ('r rows \<Rightarrow> bool) \<Rightarrow> bool" where
  "create_law view t get put key kept stamped ok \<longleftrightarrow>
     (\<forall>c rs w r w'. rs \<noteq> [] \<longrightarrow> list_all stamped rs \<longrightarrow> tb_Create t c (map Some rs) w = (r, w') \<longrightarrow>
        (let rows' = inserted key kept rs (get (view w)); after = put rows' (view w)
         in case r of
              None \<Rightarrow> fresh_keys key rs (get (view w)) \<and> view w' = after
            | Some e \<Rightarrow> settled (view w) after e (view w') \<and> (view w' \<noteq> view w \<longrightarrow> fresh_keys key rs (get (view w)))
                \<and> (de_code e = Some ''23505'' \<longrightarrow> \<not> (fresh_keys key rs (get (view w)) \<and> ok rows'))))"

definition update_law ::
  "('w \<Rightarrow> db_view) \<Rightarrow> ('r, 'w) table \<Rightarrow> (db_view \<Rightarrow> 'r rows) \<Rightarrow> ('r rows \<Rightarrow> db_view \<Rightarrow> db_view)
     \<Rightarrow> ('r \<Rightarrow> 'r) \<Rightarrow> ('r rows \<Rightarrow> bool) \<Rightarrow> bool" where
  "update_law view t get put kept ok \<longleftrightarrow>
     (\<forall>c p g w r w'. tb_Updates t c p g w = (r, w') \<longrightarrow>
        (let rows' = assigned p (\<lambda>x. kept (g x)) (get (view w)); after = put rows' (view w)
         in case r of
              Inr n \<Rightarrow> n = row_hits p (get (view w)) \<and> view w' = after
            | Inl e \<Rightarrow> settled (view w) after e (view w') \<and> (de_code e = Some ''23505'' \<longrightarrow> \<not> ok rows')))"

definition table_laws ::
  "('w \<Rightarrow> db_view) \<Rightarrow> ('r, 'w) table \<Rightarrow> (db_view \<Rightarrow> 'r rows) \<Rightarrow> ('r rows \<Rightarrow> db_view \<Rightarrow> db_view) \<Rightarrow> ('r \<Rightarrow> string)
     \<Rightarrow> ('r \<Rightarrow> 'r) \<Rightarrow> ('r \<Rightarrow> bool) \<Rightarrow> ('r rows \<Rightarrow> bool) \<Rightarrow> bool" where
  "table_laws view t get put key kept stamped ok \<longleftrightarrow>
     row_law view get key kept ok \<and> query_law view t get \<and> create_law view t get put key kept stamped ok
     \<and> update_law view t get put kept ok"

text \<open>A transaction runs the function once or not at all; an error of the function rolls back and is what
  \<open>Transaction\<close> returns; otherwise the changes are committed, or an error of the commit is returned.\<close>

definition transaction_law ::
  "('w \<Rightarrow> db_view) \<Rightarrow> (ctx \<Rightarrow> ('w \<Rightarrow> (dberr option \<times> dberr option) \<times> 'w) \<Rightarrow> 'w \<Rightarrow> (dberr option \<times> dberr option) \<times> 'w) \<Rightarrow> bool"
where
  "transaction_law view transaction \<longleftrightarrow>
     (\<forall>c body w r x w'. transaction c body w = ((r, x), w') \<longrightarrow>
        (\<exists>e. r = Some e \<and> x = None \<and> foreign e \<and> view w' = view w)
        \<or> (\<exists>w0 b y w1. view w0 = view w \<and> body w0 = ((b, y), w1) \<and> x = y
             \<and> (case b of
                  Some e \<Rightarrow> r = Some e \<and> view w' = view w
                | None \<Rightarrow> r = None \<and> view w' = view w1 \<or> (\<exists>e. r = Some e \<and> settled (view w) (view w1) e (view w')))))"

text \<open>What the columns keep, with \<open>tr\<close> the precision of the time stamps and \<open>js\<close> what a \<open>jsonb\<close> column makes
  of a payload; and which rows have their time stamps.\<close>

definition zero_instant :: time where "zero_instant = - 62135596800 * 1000000000"

definition keep_incident :: "(time \<Rightarrow> time) \<Rightarrow> incident \<Rightarrow> incident" where
  "keep_incident tr inc = inc\<lparr>inc_StartedAt := tr (inc_StartedAt inc), inc_ResolvedAt := map_option tr (inc_ResolvedAt inc),
     inc_CreatedAt := tr (inc_CreatedAt inc), inc_UpdatedAt := tr (inc_UpdatedAt inc)\<rparr>"

definition keep_event :: "(time \<Rightarrow> time) \<Rightarrow> (payload \<Rightarrow> payload) \<Rightarrow> incident_event \<Rightarrow> incident_event" where
  "keep_event tr js e = e\<lparr>ev_Payload := js (ev_Payload e), ev_CreatedAt := tr (ev_CreatedAt e)\<rparr>"

definition keep_approval :: "(time \<Rightarrow> time) \<Rightarrow> approval \<Rightarrow> approval" where
  "keep_approval tr a = a\<lparr>ap_CreatedAt := tr (ap_CreatedAt a), ap_UpdatedAt := tr (ap_UpdatedAt a),
     ap_ApprovedAt := map_option tr (ap_ApprovedAt a)\<rparr>"

definition keep_run :: "(time \<Rightarrow> time) \<Rightarrow> agent_run \<Rightarrow> agent_run" where
  "keep_run tr r = r\<lparr>run_StartedAt := tr (run_StartedAt r), run_FinishedAt := map_option tr (run_FinishedAt r)\<rparr>"

definition keep_call :: "(time \<Rightarrow> time) \<Rightarrow> tool_call \<Rightarrow> tool_call" where
  "keep_call tr x = x\<lparr>call_CreatedAt := tr (call_CreatedAt x)\<rparr>"

definition keep_evidence :: "(time \<Rightarrow> time) \<Rightarrow> (payload \<Rightarrow> payload) \<Rightarrow> evidence \<Rightarrow> evidence" where
  "keep_evidence tr js e = e\<lparr>evd_Metadata := js (evd_Metadata e), evd_CreatedAt := tr (evd_CreatedAt e)\<rparr>"

definition stamped_incident :: "incident \<Rightarrow> bool" where
  "stamped_incident inc \<longleftrightarrow> inc_CreatedAt inc \<noteq> zero_instant \<and> inc_UpdatedAt inc \<noteq> zero_instant"

definition stamped_approval :: "approval \<Rightarrow> bool" where
  "stamped_approval a \<longleftrightarrow> ap_CreatedAt a \<noteq> zero_instant \<and> ap_UpdatedAt a \<noteq> zero_instant"

text \<open>The partial unique indexes of \<open>migrations/000004\<close>.\<close>

definition one_active_incident :: "incident rows \<Rightarrow> bool" where
  "one_active_incident rows \<longleftrightarrow>
     (\<forall>i j a b. rows i = Some a \<and> rows j = Some b \<and> inc_Fingerprint a = inc_Fingerprint b
        \<and> activeIncidentPredicate a \<and> activeIncidentPredicate b \<longrightarrow> i = j)"

definition one_live_run :: "agent_run rows \<Rightarrow> bool" where
  "one_live_run rows \<longleftrightarrow>
     (\<forall>i j a b. rows i = Some a \<and> rows j = Some b \<and> run_IncidentID a = run_IncidentID b
        \<and> run_Status a \<notin> {RunFailed, RunInterrupted} \<and> run_Status b \<notin> {RunFailed, RunInterrupted} \<longrightarrow> i = j)"

definition db_laws :: "('w \<Rightarrow> db_view) \<Rightarrow> (time \<Rightarrow> time) \<Rightarrow> (payload \<Rightarrow> payload) \<Rightarrow> 'w gorm_db \<Rightarrow> bool" where
  "db_laws view tr js db \<longleftrightarrow>
     table_laws view (db_incidents db) dv_incidents (\<lambda>x. dv_incidents_update (\<lambda>_. x)) inc_ID (keep_incident tr)
       stamped_incident one_active_incident
   \<and> table_laws view (db_events db) dv_events (\<lambda>x. dv_events_update (\<lambda>_. x)) ev_ID (keep_event tr js) (\<lambda>_. True) (\<lambda>_. True)
   \<and> table_laws view (db_approvals db) dv_approvals (\<lambda>x. dv_approvals_update (\<lambda>_. x)) ap_ID (keep_approval tr)
       stamped_approval (\<lambda>_. True)
   \<and> table_laws view (db_runs db) dv_runs (\<lambda>x. dv_runs_update (\<lambda>_. x)) run_ID (keep_run tr) (\<lambda>_. True) one_live_run
   \<and> table_laws view (db_steps db) dv_steps (\<lambda>x. dv_steps_update (\<lambda>_. x)) step_ID (\<lambda>s. s) (\<lambda>_. True) (\<lambda>_. True)
   \<and> table_laws view (db_calls db) dv_calls (\<lambda>x. dv_calls_update (\<lambda>_. x)) call_ID (keep_call tr)
       (\<lambda>x. call_CreatedAt x \<noteq> zero_instant) (\<lambda>_. True)
   \<and> table_laws view (db_evidences db) dv_evidences (\<lambda>x. dv_evidences_update (\<lambda>_. x)) evd_ID (keep_evidence tr js)
       (\<lambda>e. evd_CreatedAt e \<noteq> zero_instant) (\<lambda>_. True)
   \<and> transaction_law view (db_Transaction db)"

section \<open>Single statements\<close>

lemma activeIncidentPredicate_iff: "activeIncidentPredicate r \<longleftrightarrow> \<not> IsTerminal (inc_Status r)"
  by (cases "inc_Status r") (simp_all add: activeIncidentPredicate_def)

lemma db_tables:
  assumes "db_laws view tr js db"
  shows "table_laws view (db_incidents db) dv_incidents (\<lambda>x. dv_incidents_update (\<lambda>_. x)) inc_ID (keep_incident tr)
       stamped_incident one_active_incident"
    and "table_laws view (db_events db) dv_events (\<lambda>x. dv_events_update (\<lambda>_. x)) ev_ID (keep_event tr js) (\<lambda>_. True) (\<lambda>_. True)"
    and "table_laws view (db_approvals db) dv_approvals (\<lambda>x. dv_approvals_update (\<lambda>_. x)) ap_ID (keep_approval tr)
       stamped_approval (\<lambda>_. True)"
    and "table_laws view (db_runs db) dv_runs (\<lambda>x. dv_runs_update (\<lambda>_. x)) run_ID (keep_run tr) (\<lambda>_. True) one_live_run"
    and "table_laws view (db_calls db) dv_calls (\<lambda>x. dv_calls_update (\<lambda>_. x)) call_ID (keep_call tr)
       (\<lambda>x. call_CreatedAt x \<noteq> zero_instant) (\<lambda>_. True)"
    and "transaction_law view (db_Transaction db)"
  using assms unfolding db_laws_def by blast+

lemma table_rows:
  assumes "table_laws view t get put key kept stamped ok"
  shows "ok (get (view w))" and "get (view w) i = Some r \<Longrightarrow> key r = i" and "get (view w) i = Some r \<Longrightarrow> kept r = r"
    and "finite (dom (get (view w)))"
  using assms unfolding table_laws_def row_law_def by blast+

lemma table_created:
  assumes "table_laws view t get put key kept stamped ok" and "tb_Create t c (map Some rs) w = (r, w')"
    and "rs \<noteq> []" and "list_all stamped rs"
  shows "case r of
      None \<Rightarrow> fresh_keys key rs (get (view w)) \<and> view w' = put (inserted key kept rs (get (view w))) (view w)
    | Some e \<Rightarrow> settled (view w) (put (inserted key kept rs (get (view w))) (view w)) e (view w')
        \<and> (view w' \<noteq> view w \<longrightarrow> fresh_keys key rs (get (view w)))
        \<and> (de_code e = Some ''23505'' \<longrightarrow> \<not> (fresh_keys key rs (get (view w)) \<and> ok (inserted key kept rs (get (view w)))))"
  using assms unfolding table_laws_def create_law_def Let_def by blast

lemma table_updated:
  assumes "table_laws view t get put key kept stamped ok" and "tb_Updates t c p g w = (r, w')"
  shows "case r of
      Inr n \<Rightarrow> n = row_hits p (get (view w)) \<and> view w' = put (assigned p (\<lambda>x. kept (g x)) (get (view w))) (view w)
    | Inl e \<Rightarrow> settled (view w) (put (assigned p (\<lambda>x. kept (g x)) (get (view w))) (view w)) e (view w')
        \<and> (de_code e = Some ''23505'' \<longrightarrow> \<not> ok (assigned p (\<lambda>x. kept (g x)) (get (view w))))"
  using assms unfolding table_laws_def update_law_def Let_def by blast

lemma table_first:
  assumes "table_laws view t get put key kept stamped ok"
  shows "case tb_First t c q w of
       Inr r \<Rightarrow> r \<in> ran (get (view w)) \<and> qy_where q r \<and> (\<forall>x \<in> ran (get (view w)). qy_where q x \<longrightarrow> \<not> qy_before q x r)
     | Inl e \<Rightarrow> foreign e \<and> (de_not_found e \<longrightarrow> (\<forall>r \<in> ran (get (view w)). \<not> qy_where q r))"
  using assms unfolding table_laws_def query_law_def by blast

text \<open>A clause that fixes the primary key meets at most one row.\<close>

lemma assigned_key:
  assumes "\<And>i r. rows i = Some r \<Longrightarrow> key r = i"
  shows "assigned (\<lambda>r. key r = k \<and> q r) g rows = (case rows k of Some r \<Rightarrow> if q r then rows(k \<mapsto> g r) else rows | None \<Rightarrow> rows)"
  using assms by (auto simp: assigned_def fun_eq_iff split: option.splits)

lemma row_hits_key:
  assumes "\<And>i r. rows i = Some r \<Longrightarrow> key r = i"
  shows "row_hits (\<lambda>r. key r = k \<and> q r) rows = (case rows k of Some r \<Rightarrow> if q r then 1 else 0 | None \<Rightarrow> 0)"
proof -
  have "{i. \<exists>r. rows i = Some r \<and> key r = k \<and> q r} = (case rows k of Some r \<Rightarrow> if q r then {k} else {} | None \<Rightarrow> {})"
    using assms by (auto split: option.splits)
  then show ?thesis by (simp add: row_hits_def split: option.splits)
qed

lemmas keyed_update = assigned_key row_hits_key

lemma row_hits_zero:
  "finite (dom rows) \<Longrightarrow> row_hits p rows = 0 \<longleftrightarrow> (\<forall>i r. rows i = Some r \<longrightarrow> \<not> p r)"
  unfolding row_hits_def by (subst card_0_eq) (auto intro: finite_subset [of _ "dom rows"])

lemma assigned_none: "(\<And>i r. rows i = Some r \<Longrightarrow> \<not> p r) \<Longrightarrow> assigned p g rows = rows"
  by (auto simp: assigned_def fun_eq_iff split: option.splits)

lemma inserted_one: "inserted key kept [r] rows = rows(key r \<mapsto> kept r)"
  by (simp add: inserted_def)

lemma settled_same: "settled v v e v' \<longleftrightarrow> foreign e \<and> v' = v"
  by (auto simp: settled_def)

section \<open>An update of an incident is whole, and from the version it read\<close>

definition current :: "db_view \<Rightarrow> incident \<Rightarrow> bool" where
  "current v inc \<longleftrightarrow> (\<exists>cur. dv_incidents v (inc_ID inc) = Some cur \<and> inc_Version cur = inc_Version inc)"

definition incident_written :: "(time \<Rightarrow> time) \<Rightarrow> incident \<Rightarrow> db_view \<Rightarrow> db_view" where
  "incident_written tr inc v =
     v\<lparr>dv_incidents := (dv_incidents v)(inc_ID inc \<mapsto> keep_incident tr (write_incident inc (the (dv_incidents v (inc_ID inc)))))\<rparr>"

definition events_written :: "(time \<Rightarrow> time) \<Rightarrow> (payload \<Rightarrow> payload) \<Rightarrow> incident_event list \<Rightarrow> db_view \<Rightarrow> db_view" where
  "events_written tr js es v = v\<lparr>dv_events := inserted ev_ID (keep_event tr js) es (dv_events v)\<rparr>"

lemma events_written_none [simp]: "events_written tr js [] v = v"
  by (simp add: events_written_def inserted_def)

lemma pg_updateIncident_cases:
  assumes "db_laws view tr js db" and "pg_updateIncident db c inc w = (r, w')"
  shows "case r of
      None \<Rightarrow> current (view w) inc \<and> view w' = incident_written tr inc (view w)
    | Some e \<Rightarrow> if current (view w) inc then settled (view w) (incident_written tr inc (view w)) e (view w')
        else view w' = view w \<and> (foreign e \<or> e = go_error (sentinel_err ErrConcurrentModification))"
proof -
  note tb = db_tables(1) [OF assms(1)]
  let ?p = "\<lambda>r. inc_ID r = inc_ID inc \<and> inc_Version r = inc_Version inc"
  obtain a w1 where u: "tb_Updates (db_incidents db) c ?p (write_incident inc) w = (a, w1)" by fastforce
  have keyed: "\<And>i r. dv_incidents (view w) i = Some r \<Longrightarrow> inc_ID r = i" by (rule table_rows(2) [OF tb])
  show ?thesis
  proof (cases "current (view w) inc")
    case True
    then obtain cur where cur: "dv_incidents (view w) (inc_ID inc) = Some cur" "inc_Version cur = inc_Version inc"
      by (auto simp: current_def)
    then have "row_hits ?p (dv_incidents (view w)) = 1"
      "(view w)\<lparr>dv_incidents := assigned ?p (\<lambda>x. keep_incident tr (write_incident inc x)) (dv_incidents (view w))\<rparr>
        = incident_written tr inc (view w)"
      using keyed by (simp_all add: keyed_update [where key = inc_ID] incident_written_def)
    then show ?thesis
      using table_updated [OF tb u] assms(2) True u by (auto simp: pg_updateIncident_def split: sum.splits)
  next
    case False
    then have none: "\<And>i r. dv_incidents (view w) i = Some r \<Longrightarrow> \<not> ?p r"
      using keyed by (auto simp: current_def)
    then have "row_hits ?p (dv_incidents (view w)) = 0"
      using row_hits_zero [OF table_rows(4) [OF tb]] by blast
    then show ?thesis
      using table_updated [OF tb u] assms(2) False u none
      by (auto simp: pg_updateIncident_def assigned_none settled_same split: sum.splits)
  qed
qed

lemma foreign_sentinels:
  assumes "foreign e"
  shows "\<not> errIs (de_err e) ErrNotFound" and "\<not> errIs (de_err e) ErrConflict" and "\<not> errIs (de_err e) ErrConcurrentModification"
  using assms by (simp_all add: foreign_def)

lemma settledE:
  assumes "settled v v1 e v'"
  obtains "foreign e" "v' = v" | "foreign e" "v' = v1"
  using assms unfolding settled_def by blast

lemma transaction_cases:
  assumes "transaction_law view transaction" and "transaction c body w = ((r, x), w')"
  obtains (not_run) e where "r = Some e" "x = None" "foreign e" "view w' = view w"
  | (failed) w0 e w1 where "view w0 = view w" "body w0 = ((Some e, x), w1)" "r = Some e" "view w' = view w"
  | (committed) w0 w1 where "view w0 = view w" "body w0 = ((None, x), w1)" "r = None" "view w' = view w1"
  | (commit_failed) w0 w1 e where "view w0 = view w" "body w0 = ((None, x), w1)" "r = Some e"
      "settled (view w) (view w1) e (view w')"
  using assms unfolding transaction_law_def by (smt (verit) option.case_eq_if option.collapse)

definition adds_events ::
  "('w \<Rightarrow> db_view) \<Rightarrow> (time \<Rightarrow> time) \<Rightarrow> (payload \<Rightarrow> payload) \<Rightarrow> incident_event list \<Rightarrow> ('w \<Rightarrow> dberr option \<times> 'w) \<Rightarrow> bool" where
  "adds_events view tr js es add \<longleftrightarrow> (\<forall>w r w'. add w = (r, w') \<longrightarrow>
     (case r of None \<Rightarrow> fresh_keys ev_ID es (dv_events (view w)) \<and> view w' = events_written tr js es (view w)
      | Some e \<Rightarrow> foreign e))"

lemma events_inserted:
  assumes "db_laws view tr js db" and "es \<noteq> []"
  shows "adds_events view tr js es (tb_Create (db_events db) c (map Some es))"
  unfolding adds_events_def
proof (intro allI impI)
  fix w r w'
  assume "tb_Create (db_events db) c (map Some es) w = (r, w')"
  from table_created [OF db_tables(2) [OF assms(1)] this assms(2)]
  show "case r of None \<Rightarrow> fresh_keys ev_ID es (dv_events (view w)) \<and> view w' = events_written tr js es (view w)
    | Some e \<Rightarrow> foreign e"
    by (auto simp: events_written_def settled_def list_all_iff split: option.splits)
qed

lemma no_events: "adds_events view tr js [] (Pair None)"
  by (auto simp: adds_events_def fresh_keys_def)

lemma update_body_cases:
  assumes laws: "db_laws view tr js db" and body: "update_body db c inc add w = ((r, x), w')"
    and add: "adds_events view tr js es add"
  shows "case x of
      Some e \<Rightarrow> r = Some e \<and> (foreign e \<or> \<not> current (view w) inc \<and> e = go_error (sentinel_err ErrConcurrentModification))
    | None \<Rightarrow> current (view w) inc \<and> (case r of Some e \<Rightarrow> foreign e
        | None \<Rightarrow> fresh_keys ev_ID es (dv_events (view w)) \<and> view w' = events_written tr js es (incident_written tr inc (view w)))"
proof -
  obtain a w1 where u: "pg_updateIncident db c inc w = (a, w1)" by fastforce
  note c = pg_updateIncident_cases [OF laws u]
  show ?thesis
  proof (cases a)
    case (Some e)
    with c u body show ?thesis by (auto simp: update_body_def settled_def split: if_splits)
  next
    case None
    obtain b w2 where b: "add w1 = (b, w2)" by fastforce
    have w1: "current (view w) inc" "view w1 = incident_written tr inc (view w)" using c None by simp_all
    have "dv_events (view w1) = dv_events (view w)" by (simp add: w1 incident_written_def)
    with add b have "case b of None \<Rightarrow> fresh_keys ev_ID es (dv_events (view w1)) \<and> view w2 = events_written tr js es (view w1)
      | Some e \<Rightarrow> foreign e" by (simp add: adds_events_def)
    with \<open>dv_events _ = _\<close> w1 None u b body show ?thesis by (auto simp: update_body_def split: option.splits)
  qed
qed

lemma after_update_cases:
  assumes laws: "db_laws view tr js db"
    and add: "adds_events view tr js es add"
    and run: "after_update what inc (db_Transaction db c (update_body db c inc add) w) = (res, w')"
  shows "case res of
      Inr inc' \<Rightarrow> current (view w) inc \<and> inc' = bump_version inc \<and> fresh_keys ev_ID es (dv_events (view w))
        \<and> view w' = events_written tr js es (incident_written tr inc (view w))
    | Inl e \<Rightarrow> (view w' = view w \<or> current (view w) inc \<and> view w' = events_written tr js es (incident_written tr inc (view w)))
        \<and> (errIs e ErrConcurrentModification \<longrightarrow> \<not> current (view w) inc) \<and> \<not> errIs e ErrNotFound \<and> \<not> errIs e ErrConflict"
proof -
  obtain r x w1 where t: "db_Transaction db c (update_body db c inc add) w = ((r, x), w1)" by (metis surj_pair)
  from db_tables(6) [OF laws] t show ?thesis
  proof (cases rule: transaction_cases)
    case (not_run e)
    with run t show ?thesis by (auto simp: after_update_def foreign_def)
  next
    case (failed w0 e wa)
    note b = update_body_cases [OF laws failed(2) add]
    with run t failed show ?thesis
      by (cases x) (auto simp: after_update_def foreign_def go_error_def)
  next
    case (committed w0 wa)
    note b = update_body_cases [OF laws committed(2) add]
    with run t committed show ?thesis by (cases x) (auto simp: after_update_def)
  next
    case (commit_failed w0 wa e)
    note b = update_body_cases [OF laws commit_failed(2) add]
    with run t commit_failed show ?thesis
      by (cases x) (auto simp: after_update_def settled_def foreign_def)
  qed
qed

lemma pg_UpdateWithEvents_cases:
  assumes "db_laws view tr js db" and "pg_UpdateWithEvents db c inc (map Some es) w = (res, w')"
  shows "case res of
      Inr inc' \<Rightarrow> current (view w) inc \<and> inc' = bump_version inc \<and> fresh_keys ev_ID es (dv_events (view w))
        \<and> view w' = events_written tr js es (incident_written tr inc (view w))
    | Inl e \<Rightarrow> (view w' = view w \<or> current (view w) inc \<and> view w' = events_written tr js es (incident_written tr inc (view w)))
        \<and> (errIs e ErrConcurrentModification \<longrightarrow> \<not> current (view w) inc) \<and> \<not> errIs e ErrNotFound \<and> \<not> errIs e ErrConflict"
proof -
  have "adds_events view tr js es (if map Some es = [] then Pair None else tb_Create (db_events db) c (map Some es))"
    by (cases "es = []") (simp_all add: no_events events_inserted [OF assms(1)])
  from after_update_cases [OF assms(1) this] assms(2) show ?thesis by (simp add: pg_UpdateWithEvents_def)
qed

lemma pg_UpdateWithEvent_cases:
  assumes "db_laws view tr js db" and "pg_UpdateWithEvent db c inc (Some e) w = (res, w')"
  shows "case res of
      Inr inc' \<Rightarrow> current (view w) inc \<and> inc' = bump_version inc \<and> fresh_keys ev_ID [e] (dv_events (view w))
        \<and> view w' = events_written tr js [e] (incident_written tr inc (view w))
    | Inl err \<Rightarrow> (view w' = view w \<or> current (view w) inc \<and> view w' = events_written tr js [e] (incident_written tr inc (view w)))
        \<and> (errIs err ErrConcurrentModification \<longrightarrow> \<not> current (view w) inc) \<and> \<not> errIs err ErrNotFound \<and> \<not> errIs err ErrConflict"
  using after_update_cases [OF assms(1) events_inserted [OF assms(1), of "[e]" c]] assms(2)
  by (simp add: pg_UpdateWithEvent_def)

lemma written_not_current:
  assumes "inc_ID inc2 = inc_ID inc" and "inc_Version inc2 = inc_Version inc" and "current v inc"
  shows "\<not> current (events_written tr js es (incident_written tr inc v)) inc2"
  using assms by (auto simp: current_def events_written_def incident_written_def keep_incident_def write_incident_def)

section \<open>An incident is created with its event or not at all\<close>

definition incident_created :: "(time \<Rightarrow> time) \<Rightarrow> incident \<Rightarrow> db_view \<Rightarrow> db_view" where
  "incident_created tr inc v = v\<lparr>dv_incidents := (dv_incidents v)(inc_ID inc \<mapsto> keep_incident tr inc)\<rparr>"

text \<open>What keeps an incident from being inserted: its id, or the partial unique index.\<close>

definition insertable :: "(time \<Rightarrow> time) \<Rightarrow> incident \<Rightarrow> db_view \<Rightarrow> bool" where
  "insertable tr inc v \<longleftrightarrow> dv_incidents v (inc_ID inc) = None \<and> one_active_incident (dv_incidents (incident_created tr inc v))"

lemma incident_inserted:
  assumes laws: "db_laws view tr js db" and "stamped_incident inc" and "tb_Create (db_incidents db) c [Some inc] w = (r, w')"
  shows "case r of
      None \<Rightarrow> insertable tr inc (view w) \<and> view w' = incident_created tr inc (view w)
    | Some e \<Rightarrow> foreign e \<and> (view w' = view w \<or> dv_incidents (view w) (inc_ID inc) = None \<and> view w' = incident_created tr inc (view w))
        \<and> (isUniqueViolation r \<longrightarrow> view w' = view w \<and> \<not> insertable tr inc (view w))"
proof -
  note tb = db_tables(1) [OF laws]
  have c: "tb_Create (db_incidents db) c (map Some [inc]) w = (r, w')" using assms(3) by simp
  have rows: "inserted inc_ID (keep_incident tr) [inc] (dv_incidents (view w)) = dv_incidents (incident_created tr inc (view w))"
    "(view w)\<lparr>dv_incidents := dv_incidents (incident_created tr inc (view w))\<rparr> = incident_created tr inc (view w)"
    by (simp_all add: inserted_one incident_created_def)
  have "one_active_incident (dv_incidents (view w'))" by (rule table_rows(1) [OF tb])
  with table_created [OF tb c] assms(2) show ?thesis
    unfolding rows
    by (auto simp: insertable_def fresh_keys_def settled_def lost_def isUniqueViolation_def split: option.splits)
qed

lemma create_body_cases:
  assumes laws: "db_laws view tr js db" and "stamped_incident inc" and body: "create_body db c inc ev w = ((r, x), w')"
  shows "case x of
      Some e \<Rightarrow> r = Some e \<and> foreign e \<and> (isUniqueViolation x \<longrightarrow> \<not> insertable tr inc (view w))
    | None \<Rightarrow> insertable tr inc (view w) \<and> (case r of Some e \<Rightarrow> foreign e
        | None \<Rightarrow> fresh_keys ev_ID [ev] (dv_events (view w)) \<and> view w' = events_written tr js [ev] (incident_created tr inc (view w)))"
proof -
  obtain a w1 where a: "tb_Create (db_incidents db) c [Some inc] w = (a, w1)" by fastforce
  note c = incident_inserted [OF laws assms(2) a]
  show ?thesis
  proof (cases a)
    case (Some e)
    with c a body show ?thesis by (auto simp: create_body_def)
  next
    case None
    obtain b w2 where b: "tb_Create (db_events db) c [Some ev] w1 = (b, w2)" by fastforce
    have w1: "insertable tr inc (view w)" "view w1 = incident_created tr inc (view w)" using c None by simp_all
    have "dv_events (view w1) = dv_events (view w)" by (simp add: w1 incident_created_def)
    moreover have "case b of None \<Rightarrow> fresh_keys ev_ID [ev] (dv_events (view w1)) \<and> view w2 = events_written tr js [ev] (view w1)
      | Some e \<Rightarrow> foreign e"
      using events_inserted [OF laws, of "[ev]" c] b by (simp add: adds_events_def)
    ultimately show ?thesis using w1 None a b body by (auto simp: create_body_def split: option.splits)
  qed
qed

lemma pg_CreateWithEvent_cases:
  assumes laws: "db_laws view tr js db" and "stamped_incident inc" and run: "pg_CreateWithEvent db c inc (Some ev) w = (r, w')"
  defines "after \<equiv> events_written tr js [ev] (incident_created tr inc (view w))"
  shows "case r of
      None \<Rightarrow> insertable tr inc (view w) \<and> fresh_keys ev_ID [ev] (dv_events (view w)) \<and> view w' = after
    | Some e \<Rightarrow> (view w' = view w \<or> insertable tr inc (view w) \<and> view w' = after)
        \<and> (errIs e ErrConflict \<longrightarrow> view w' = view w \<and> \<not> insertable tr inc (view w))"
proof -
  obtain q x w1 where t: "db_Transaction db c (create_body db c inc ev) w = ((q, x), w1)" by (metis surj_pair)
  have w1: "w' = w1" using run t by (simp add: pg_CreateWithEvent_def)
  from db_tables(6) [OF laws] t show ?thesis
  proof (cases rule: transaction_cases)
    case (not_run e)
    with run t show ?thesis by (auto simp: pg_CreateWithEvent_def foreign_def)
  next
    case (failed w0 e wa)
    note b = create_body_cases [OF laws assms(2) failed(2)]
    with run t failed show ?thesis
      by (cases x) (auto simp: pg_CreateWithEvent_def foreign_def)
  next
    case (committed w0 wa)
    note b = create_body_cases [OF laws assms(2) committed(2)]
    with run t committed show ?thesis by (cases x) (auto simp: pg_CreateWithEvent_def after_def)
  next
    case (commit_failed w0 wa e)
    note b = create_body_cases [OF laws assms(2) commit_failed(2)]
    with run t commit_failed show ?thesis
      by (cases x) (auto simp: pg_CreateWithEvent_def settled_def foreign_def after_def)
  qed
qed

section \<open>The right to execute, with other clients between the read and the write\<close>

definition approval_written :: "(time \<Rightarrow> time) \<Rightarrow> string \<Rightarrow> approval \<Rightarrow> db_view \<Rightarrow> db_view" where
  "approval_written tr i a v =
     v\<lparr>dv_approvals := (dv_approvals v)(i \<mapsto> keep_approval tr (write_approval a (the (dv_approvals v i))))\<rparr>"

definition has_status :: "db_view \<Rightarrow> string \<Rightarrow> approval_status \<Rightarrow> bool" where
  "has_status v i s \<longleftrightarrow> (\<exists>a. dv_approvals v i = Some a \<and> ap_Status a = s)"

lemma pga_Get_cases:
  assumes "db_laws view tr js db"
  shows "case pga_Get db c i w of
      Inr a \<Rightarrow> dv_approvals (view w) i = Some a
    | Inl e \<Rightarrow> \<not> errIs e ErrConflict \<and> (errIs e ErrNotFound \<longrightarrow> dv_approvals (view w) i = None)"
proof -
  note tb = db_tables(3) [OF assms]
  have keyed: "\<And>j r. dv_approvals (view w) j = Some r \<Longrightarrow> ap_ID r = j" by (rule table_rows(2) [OF tb])
  then have none: "dv_approvals (view w) i = None" if "\<forall>r \<in> ran (dv_approvals (view w)). ap_ID r \<noteq> i"
    using that by (metis not_None_eq ranI)
  show ?thesis
    using table_first [OF tb, where c = c and q = "rows_where (\<lambda>a. ap_ID a = i) any_order" and w = w] keyed none
    by (auto simp: pga_Get_def first_or_not_found_def rows_where_def foreign_def ran_def split: sum.splits)
qed

lemma approval_updated:
  assumes laws: "db_laws view tr js db"
    and u: "tb_Updates (db_approvals db) c (\<lambda>r. ap_ID r = i \<and> ap_Status r = frm) (write_approval a) w = (r, w')"
  shows "case r of
      Inr n \<Rightarrow> if has_status (view w) i frm then n = 1 \<and> view w' = approval_written tr i a (view w) else n = 0 \<and> view w' = view w
    | Inl e \<Rightarrow> foreign e \<and> (view w' = view w \<or> has_status (view w) i frm \<and> view w' = approval_written tr i a (view w))"
proof -
  note tb = db_tables(3) [OF laws]
  let ?p = "\<lambda>r. ap_ID r = i \<and> ap_Status r = frm" and ?g = "\<lambda>x. keep_approval tr (write_approval a x)"
  have keyed: "\<And>i r. dv_approvals (view w) i = Some r \<Longrightarrow> ap_ID r = i" by (rule table_rows(2) [OF tb])
  show ?thesis
  proof (cases "has_status (view w) i frm")
    case True
    then obtain cur where "dv_approvals (view w) i = Some cur" "ap_Status cur = frm" by (auto simp: has_status_def)
    then have "row_hits ?p (dv_approvals (view w)) = 1"
      "(view w)\<lparr>dv_approvals := assigned ?p ?g (dv_approvals (view w))\<rparr> = approval_written tr i a (view w)"
      using keyed by (simp_all add: keyed_update [where key = ap_ID] approval_written_def)
    then show ?thesis using table_updated [OF tb u] True by (auto simp: settled_def split: sum.splits)
  next
    case False
    then have none: "\<And>j r. dv_approvals (view w) j = Some r \<Longrightarrow> \<not> ?p r" using keyed by (auto simp: has_status_def)
    then have "row_hits ?p (dv_approvals (view w)) = 0" using row_hits_zero [OF table_rows(4) [OF tb]] by blast
    then show ?thesis
      using table_updated [OF tb u] False none by (auto simp: assigned_none settled_same split: sum.splits)
  qed
qed

lemma pga_TransitionStatus_cases:
  assumes laws: "db_laws view tr js db" and run: "pga_TransitionStatus db others c i frm to m now w = (r, w')"
  shows "case r of
      Inr a \<Rightarrow> (\<exists>snap. dv_approvals (view w) i = Some snap \<and> ap_Status snap = frm \<and> a = m (snap\<lparr>ap_Status := to, ap_UpdatedAt := now\<rparr>))
        \<and> has_status (view (others w)) i frm \<and> view w' = approval_written tr i a (view (others w))
    | Inl e \<Rightarrow> (view w' = view w \<or> view w' = view (others w)
          \<or> (\<exists>a. has_status (view (others w)) i frm \<and> view w' = approval_written tr i a (view (others w))))
        \<and> (errIs e ErrConflict \<longrightarrow> view w' = view w \<and> \<not> has_status (view w) i frm
             \<or> view w' = view (others w) \<and> \<not> has_status (view (others w)) i frm)
        \<and> (errIs e ErrNotFound \<longrightarrow> view w' = view w \<and> dv_approvals (view w) i = None)"
proof (cases "pga_Get db c i w")
  case (Inl e)
  with run have "r = Inl e" "w' = w" by (simp_all add: pga_TransitionStatus_def)
  with Inl pga_Get_cases [OF laws, where c = c and i = i and w = w] show ?thesis by simp
next
  case (Inr snap)
  with pga_Get_cases [OF laws, where c = c and i = i and w = w] have snap: "dv_approvals (view w) i = Some snap" by simp
  show ?thesis
  proof (cases "ap_Status snap = frm")
    case False
    with run Inr snap show ?thesis by (auto simp: pga_TransitionStatus_def has_status_def)
  next
    case True
    let ?a = "m (snap\<lparr>ap_Status := to, ap_UpdatedAt := now\<rparr>)"
    obtain q w1 where u: "tb_Updates (db_approvals db) c (\<lambda>r. ap_ID r = i \<and> ap_Status r = frm) (write_approval ?a) (others w) = (q, w1)"
      by fastforce
    show ?thesis
      using run Inr snap True u approval_updated [OF laws u]
      by (auto simp: pga_TransitionStatus_def foreign_def split: sum.splits if_splits)
  qed
qed

section \<open>Expiry and runs\<close>

lemma pga_Expire_cases:
  assumes laws: "db_laws view tr js db" and run: "pga_ExpirePendingByIncident db c i f w = (r, w')" and "i \<noteq> ''''"
  defines "hit \<equiv> \<lambda>a. ap_IncidentID a = i \<and> ap_Status a = ApprovalPending"
  defines "after \<equiv> (view w)\<lparr>dv_approvals := assigned hit (expire_one (tr (clk f 0))) (dv_approvals (view w))\<rparr>"
  shows "case r of
      Inr n \<Rightarrow> n = int (row_hits hit (dv_approvals (view w))) \<and> view w' = after
    | Inl e \<Rightarrow> view w' = view w \<or> view w' = after"
proof -
  note tb = db_tables(3) [OF laws]
  obtain q w1 where u: "tb_Updates (db_approvals db) c hit (expire_one (clk f 0)) w = (q, w1)" by fastforce
  have "keep_approval tr (expire_one (clk f 0) a) = expire_one (tr (clk f 0)) a" if "keep_approval tr a = a" for a
    using that by (cases a) (simp add: keep_approval_def expire_one_def)
  then have "assigned hit (\<lambda>x. keep_approval tr (expire_one (clk f 0) x)) (dv_approvals (view w))
      = assigned hit (expire_one (tr (clk f 0))) (dv_approvals (view w))"
    using table_rows(3) [OF tb] by (auto simp: assigned_def fun_eq_iff split: option.splits)
  with table_updated [OF tb u] run u assms(3) show ?thesis
    by (auto simp: pga_ExpirePendingByIncident_def settled_def after_def hit_def split: sum.splits)
qed

definition run_written :: "(time \<Rightarrow> time) \<Rightarrow> agent_run \<Rightarrow> db_view \<Rightarrow> db_view" where
  "run_written tr run v = v\<lparr>dv_runs := (dv_runs v)(run_ID run \<mapsto> keep_run tr run)\<rparr>"

lemma write_run_same: "run_ID r = run_ID run \<Longrightarrow> write_run run r = run"
  by (cases r; cases run) (simp add: write_run_def)

lemma pgr_CreateRun_cases:
  assumes laws: "db_laws view tr js db" and run: "pgr_CreateRun db c run w = (r, w')"
  shows "case r of
      None \<Rightarrow> dv_runs (view w) (run_ID run) = None \<and> view w' = run_written tr run (view w)
    | Some e \<Rightarrow> view w' = view w \<or> dv_runs (view w) (run_ID run) = None \<and> view w' = run_written tr run (view w)"
proof -
  note tb = db_tables(4) [OF laws]
  obtain q w1 where u: "tb_Create (db_runs db) c (map Some [run]) w = (q, w1)" by fastforce
  from table_created [OF tb u] run u show ?thesis
    by (auto simp: pgr_CreateRun_def conflict_or_def run_written_def inserted_one settled_def fresh_keys_def list_all_iff
        split: option.splits if_splits)
qed

lemma pgr_UpdateRun_cases:
  assumes laws: "db_laws view tr js db" and run: "pgr_UpdateRun db c run w = (r, w')"
  shows "case r of
      None \<Rightarrow> dv_runs (view w) (run_ID run) \<noteq> None \<and> view w' = run_written tr run (view w)
    | Some e \<Rightarrow> (view w' = view w \<or> dv_runs (view w) (run_ID run) \<noteq> None \<and> view w' = run_written tr run (view w))
        \<and> (errIs e ErrNotFound \<longrightarrow> dv_runs (view w) (run_ID run) = None)"
proof -
  note tb = db_tables(4) [OF laws]
  let ?p = "\<lambda>r. run_ID r = run_ID run" and ?g = "\<lambda>x. keep_run tr (write_run run x)"
  obtain q w1 where u: "tb_Updates (db_runs db) c ?p (write_run run) w = (q, w1)" by fastforce
  have keyed: "\<And>i r. dv_runs (view w) i = Some r \<Longrightarrow> run_ID r = i" by (rule table_rows(2) [OF tb])
  have rows: "assigned ?p ?g (dv_runs (view w)) = (if dv_runs (view w) (run_ID run) = None then dv_runs (view w)
      else (dv_runs (view w))(run_ID run \<mapsto> keep_run tr run))"
    using assigned_key [where key = run_ID and k = "run_ID run" and q = "\<lambda>_. True" and g = ?g, OF keyed]
    by (auto simp: write_run_same keyed split: option.splits)
  have "row_hits ?p (dv_runs (view w)) = (if dv_runs (view w) (run_ID run) = None then 0 else 1)"
    using row_hits_key [where key = run_ID and k = "run_ID run" and q = "\<lambda>_. True", OF keyed] by (auto split: option.splits)
  with table_updated [OF tb u] run u show ?thesis
    unfolding rows
    by (auto simp: pgr_UpdateRun_def conflict_or_def run_written_def settled_def foreign_def split: sum.splits if_splits)
qed

end
