(* ===== verification/Postgres_Refinement.thy ===== *)
theory Postgres_Refinement
  imports Postgres_Repo Approval_Service
begin

text \<open>
  The two implementations of each repository interface side by side: what a PostgreSQL repository does when it
  succeeds is what the in-memory repository with the same rows does, up to the precision of the time stamps. So
  what is proved of the application on the in-memory repositories is not an artefact of them. A reference database
  at the end satisfies the laws that are assumed of PostgreSQL.
\<close>

section \<open>Incidents\<close>

definition same_events :: "incident_event rows \<Rightarrow> mem_incidents \<Rightarrow> bool" where
  "same_events rows m \<longleftrightarrow> (\<forall>k e. e \<in> set (stored_events m k) \<longleftrightarrow> rows (ev_ID e) = Some e \<and> ev_IncidentID e = k)"

definition same_incidents :: "db_view \<Rightarrow> mem_incidents \<Rightarrow> bool" where
  "same_incidents v m \<longleftrightarrow> mem_inv m \<and> mem_stored m = dv_incidents v \<and> same_events (dv_events v) m"

lemma keep_event_simps [simp]:
  "ev_ID (keep_event tr js e) = ev_ID e" "ev_IncidentID (keep_event tr js e) = ev_IncidentID e"
  by (simp_all add: keep_event_def)

lemma keep_incident_simps [simp]:
  "inc_ID (keep_incident tr inc) = inc_ID inc" "inc_Version (keep_incident tr inc) = inc_Version inc"
  "inc_Fingerprint (keep_incident tr inc) = inc_Fingerprint inc" "inc_Status (keep_incident tr inc) = inc_Status inc"
  by (simp_all add: keep_incident_def)

lemma no_event_conflict:
  assumes "same_events rows m" and "distinct (map fst (mi_events m))" and "rows (ev_ID e) = None"
  shows "checkEventConflict m (Some e) = None"
proof -
  have "ev_ID x \<noteq> ev_ID e" if "(k, evs) \<in> set (mi_events m)" "x \<in> set evs" for k evs x
  proof -
    from assms(2) that(1) have "stored_events m k = evs" by (simp add: stored_events_def)
    with assms(1) that(2) have "rows (ev_ID x) = Some x" unfolding same_events_def by metis
    with assms(3) show ?thesis by auto
  qed
  then show ?thesis by (auto simp: checkEventConflict_def list_ex_iff)
qed

lemma no_new_conflict:
  assumes "same_events rows m" and "distinct (map fst (mi_events m))"
  shows "distinct (map ev_ID es) \<Longrightarrow> \<forall>e \<in> set es. rows (ev_ID e) = None \<and> ev_ID e \<notin> set seen
    \<Longrightarrow> check_new_events m seen (map Some es) = None"
proof (induction es arbitrary: seen)
  case (Cons e es)
  have "ev_ID x \<noteq> ev_ID e" if "x \<in> set es" for x
    using Cons.prems(1) imageI [OF that, of ev_ID] by auto
  with Cons.prems have "check_new_events m (ev_ID e # seen) (map Some es) = None"
    by (intro Cons.IH) simp_all
  with Cons.prems show ?case by (simp add: no_event_conflict [OF assms])
qed simp

lemma some_events_map [simp]: "some_events (map Some es) = es"
  by (induction es) simp_all

lemma some_events_comp [simp]: "some_events (map (Some \<circ> g) es) = map g es"
  by (induction es) simp_all

lemma inserted_lookup:
  assumes "fresh_keys ev_ID es rows"
  shows "inserted ev_ID (keep_event tr js) es rows (ev_ID x) = Some x
    \<longleftrightarrow> rows (ev_ID x) = Some x \<or> x \<in> keep_event tr js ` set es"
proof -
  let ?l = "map (\<lambda>e. (ev_ID e, keep_event tr js e)) es"
  have dist: "distinct (map fst ?l)" using assms by (simp add: fresh_keys_def comp_def)
  have new: "map_of ?l (ev_ID x) = Some x \<longleftrightarrow> x \<in> keep_event tr js ` set es"
    using dist by (auto simp: map_of_eq_Some_iff)
  show ?thesis
  proof (cases "map_of ?l (ev_ID x)")
    case None
    with new show ?thesis by (auto simp: inserted_def map_add_def)
  next
    case (Some y)
    then have "rows (ev_ID x) = None" using assms by (auto simp: fresh_keys_def dest!: map_of_SomeD)
    with Some new show ?thesis by (auto simp: inserted_def map_add_def)
  qed
qed

lemma same_events_added:
  assumes "same_events rows m" and "fresh_keys ev_ID es rows"
    and "\<And>k. stored_events m' k = stored_events m k @ events_of k (map (keep_event tr js) es)"
  shows "same_events (inserted ev_ID (keep_event tr js) es rows) m'"
  unfolding same_events_def inserted_lookup [OF assms(2)]
  using assms(1) by (auto simp: assms(3) events_of_def same_events_def)

lemma one_active_incidentD:
  "one_active_incident rows \<Longrightarrow> rows i = Some a \<Longrightarrow> rows j = Some b \<Longrightarrow> inc_Fingerprint a = inc_Fingerprint b
    \<Longrightarrow> \<not> IsTerminal (inc_Status a) \<Longrightarrow> \<not> IsTerminal (inc_Status b) \<Longrightarrow> i = j"
  unfolding one_active_incident_def activeIncidentPredicate_iff by blast

lemma mem_inv_rows:
  assumes laws: "db_laws view tr js db" and "mem_stored m = dv_incidents (view w)"
    and "distinct (map fst (mi_items m))" and "distinct (map fst (mi_events m))"
  shows "mem_inv m"
proof -
  note tb = db_tables(1) [OF laws]
  show ?thesis
    using assms(2-) table_rows(1,2) [OF tb, of w]
    unfolding mem_inv_def unique_open_def open_with_def one_active_incident_def activeIncidentPredicate_iff by (metis (mono_tags))
qed

lemma written_row:
  assumes "keep_incident tr cur = cur" and "same_identity cur (keep_incident tr inc)" and "inc_Version cur = inc_Version inc"
  shows "keep_incident tr (write_incident inc cur) = bump_version (keep_incident tr inc)"
  using assms
  by (cases cur; cases inc) (simp add: keep_incident_def write_incident_def same_identity_def bump_version_def)

lemma update_refines:
  assumes laws: "db_laws view tr js db" and same: "same_incidents (view w) m"
    and id: "\<And>cur. dv_incidents (view w) (inc_ID inc) = Some cur \<Longrightarrow> same_identity cur (keep_incident tr inc)"
    and run: "pg_UpdateWithEvents db c inc (map Some es) w = (Inr inc', w')"
  shows "\<exists>m'. mem_UpdateWithEvents c (keep_incident tr inc) (map Some (map (keep_event tr js) es)) m
      = (Inr (keep_incident tr inc'), m') \<and> same_incidents (view w') m'"
proof -
  from pg_UpdateWithEvents_cases [OF laws run] obtain cur where
    cur: "dv_incidents (view w) (inc_ID inc) = Some cur" "inc_Version cur = inc_Version inc"
    and w': "inc' = bump_version inc" "fresh_keys ev_ID es (dv_events (view w))"
      "view w' = events_written tr js es (incident_written tr inc (view w))"
    by (auto simp: current_def)
  let ?inc = "keep_incident tr inc" and ?es = "map (keep_event tr js) es"
  let ?m' = "fold addEventLocked (map Some ?es) (m\<lparr>mi_items := AList.update (inc_ID inc) (bump_version ?inc) (mi_items m)\<rparr>)"
  have inv: "mem_inv m" "mem_stored m = dv_incidents (view w)" "same_events (dv_events (view w)) m"
    using same by (simp_all add: same_incidents_def)
  have dist: "distinct (map fst (mi_items m))" "distinct (map fst (mi_events m))" using inv(1) by (simp_all add: mem_inv_def)
  have "check_new_events m [] (map Some ?es) = None"
    using no_new_conflict [OF inv(3) dist(2), of ?es "[]"] w'(2) by (auto simp: fresh_keys_def comp_def)
  moreover have item: "map_of (mi_items m) (inc_ID inc) = Some cur" using inv(2) cur(1) by (simp add: mem_stored_def)
  ultimately have "mem_UpdateWithEvents c ?inc (map Some ?es) m = (Inr (keep_incident tr inc'), ?m')"
    using cur(2) w'(1) by (simp add: mem_ops bump_version_def keep_incident_def)
  moreover have "mem_stored ?m' = dv_incidents (view w')"
  proof -
    have "bump_version ?inc = keep_incident tr (write_incident inc cur)"
      by (rule written_row [OF table_rows(3) [OF db_tables(1) [OF laws] cur(1)] id [OF cur(1)] cur(2), symmetric])
    then show ?thesis
      using inv(2) cur(1) w'(3) by (simp add: mem_stored_def events_written_def incident_written_def)
  qed
  moreover have "same_events (dv_events (view w')) ?m'"
    using same_events_added [OF inv(3) w'(2), where m' = ?m' and tr = tr and js = js] w'(3)
    by (simp add: events_written_def incident_written_def stored_events_def)
  moreover have "distinct (map fst (mi_items ?m'))" "distinct (map fst (mi_events ?m'))"
    using dist fold_addEvent [of "map Some ?es" "m\<lparr>mi_items := AList.update (inc_ID inc) (bump_version ?inc) (mi_items m)\<rparr>"]
    by (simp_all add: distinct_update)
  ultimately show ?thesis using mem_inv_rows [OF laws, of ?m' w'] by (simp add: same_incidents_def)
qed

lemma create_refines:
  assumes laws: "db_laws view tr js db" and same: "same_incidents (view w) m"
    and "stamped_incident inc" and "\<not> IsTerminal (inc_Status inc)"
    and run: "pg_CreateWithEvent db c inc (Some ev) w = (None, w')"
  shows "\<exists>m'. mem_CreateWithEvent c (keep_incident tr inc) (Some (keep_event tr js ev)) m = (None, m') \<and> same_incidents (view w') m'"
proof -
  from pg_CreateWithEvent_cases [OF laws assms(3) run] have
    w': "insertable tr inc (view w)" "fresh_keys ev_ID [ev] (dv_events (view w))"
      "view w' = events_written tr js [ev] (incident_created tr inc (view w))" by auto
  let ?inc = "keep_incident tr inc" and ?ev = "keep_event tr js ev"
  let ?m' = "addEventLocked (Some ?ev) (m\<lparr>mi_items := AList.update (inc_ID inc) ?inc (mi_items m)\<rparr>)"
  have inv: "mem_inv m" "mem_stored m = dv_incidents (view w)" "same_events (dv_events (view w)) m"
    using same by (simp_all add: same_incidents_def)
  have dist: "distinct (map fst (mi_items m))" "distinct (map fst (mi_events m))" using inv(1) by (simp_all add: mem_inv_def)
  have fresh: "map_of (mi_items m) (inc_ID inc) = None" using inv(2) w'(1) by (simp add: mem_stored_def insertable_def)
  have clash: "\<not> active_clash ?inc (mi_items m)"
  proof
    assume "active_clash ?inc (mi_items m)"
    then obtain k x where x: "(k, x) \<in> set (mi_items m)" "open_with (inc_Fingerprint inc) x" by (auto simp: active_clash_iff)
    from x(1) dist(1) have "mem_stored m k = Some x" unfolding mem_stored_def by (rule map_of_is_SomeI [rotated])
    with inv(2) have "dv_incidents (view w) k = Some x" by simp
    have k: "k \<noteq> inc_ID inc" using \<open>dv_incidents _ k = _\<close> w'(1) by (auto simp: insertable_def)
    have "one_active_incident ((dv_incidents (view w))(inc_ID inc \<mapsto> ?inc))"
      using w'(1) by (simp add: insertable_def incident_created_def)
    then have "k = inc_ID inc"
      by (rule one_active_incidentD [where a = x and b = ?inc])
        (use k x(2) assms(4) \<open>dv_incidents _ k = _\<close> in \<open>simp_all add: open_with_def\<close>)
    with k show False by contradiction
  qed
  have "checkEventConflict m (Some ?ev) = None"
    using no_event_conflict [OF inv(3) dist(2), of ?ev] w'(2) by (simp add: fresh_keys_def)
  with fresh clash have "mem_CreateWithEvent c ?inc (Some ?ev) m = (None, ?m')" by (simp add: mem_ops)
  moreover have "mem_stored ?m' = dv_incidents (view w')"
    using inv(2) w'(3) by (simp add: mem_stored_def events_written_def incident_created_def)
  moreover have "same_events (dv_events (view w')) ?m'"
    using same_events_added [OF inv(3) w'(2), where m' = ?m' and tr = tr and js = js] w'(3)
    by (simp add: events_written_def incident_created_def stored_events_add)
  moreover have "distinct (map fst (mi_items ?m'))" "distinct (map fst (mi_events ?m'))"
    using dist addEventLocked_distinct [of "m\<lparr>mi_items := AList.update (inc_ID inc) ?inc (mi_items m)\<rparr>" "Some ?ev"]
    by (simp_all add: distinct_update)
  ultimately show ?thesis using mem_inv_rows [OF laws, of ?m' w'] by (simp add: same_incidents_def)
qed

lemma get_refines:
  assumes laws: "db_laws view tr js db" and same: "same_incidents (view w) m"
  shows "pg_GetByID db c i w = Inr inc \<Longrightarrow> mem_GetByID c i m = Inr inc"
    and "pg_GetByID db c i w = Inl e \<Longrightarrow> errIs e ErrNotFound \<Longrightarrow> mem_GetByID c i m = Inl (sentinel_err ErrNotFound)"
proof -
  note tb = db_tables(1) [OF laws]
  have keyed: "\<And>j r. map_of (mi_items m) j = Some r \<Longrightarrow> inc_ID r = j"
    using same by (simp add: same_incidents_def mem_inv_def mem_stored_def)
  have rows: "dv_incidents (view w) = map_of (mi_items m)" using same by (simp add: same_incidents_def mem_stored_def)
  have none: "map_of (mi_items m) i = None" if "\<forall>r \<in> ran (map_of (mi_items m)). inc_ID r \<noteq> i"
    using that keyed by (metis not_None_eq ranI)
  note first = table_first [OF tb, where c = c and q = "rows_where (\<lambda>r. inc_ID r = i) any_order" and w = w, unfolded rows]
  show "pg_GetByID db c i w = Inr inc \<Longrightarrow> mem_GetByID c i m = Inr inc"
    using first keyed
    by (auto simp: pg_GetByID_def first_or_not_found_def mem_GetByID_def rows_where_def ran_def split: sum.splits if_splits)
  show "pg_GetByID db c i w = Inl e \<Longrightarrow> errIs e ErrNotFound \<Longrightarrow> mem_GetByID c i m = Inl (sentinel_err ErrNotFound)"
    using first none
    by (auto simp: pg_GetByID_def first_or_not_found_def mem_GetByID_def rows_where_def foreign_def split: sum.splits if_splits)
qed

lemma active_refines:
  assumes laws: "db_laws view tr js db" and same: "same_incidents (view w) m"
    and get: "pg_GetActiveByFingerprint db c fp w = Inr inc"
  shows "mem_GetActiveByFingerprint c fp m = Inr inc"
proof -
  note tb = db_tables(1) [OF laws]
  let ?p = "\<lambda>r. inc_Fingerprint r = fp \<and> \<not> IsTerminal (inc_Status r)"
  have inv: "mem_inv m" and rows: "mem_stored m = dv_incidents (view w)" using same by (simp_all add: same_incidents_def)
  have "inc \<in> ran (dv_incidents (view w)) \<and> ?p inc"
    using table_first [OF tb, where c = c and w = w
        and q = "rows_where (\<lambda>r. inc_Fingerprint r = fp \<and> activeIncidentPredicate r) newest_incident"] get
    by (auto simp: pg_GetActiveByFingerprint_def first_or_not_found_def rows_where_def activeIncidentPredicate_iff
        split: sum.splits if_splits)
  then obtain i where i: "mem_stored m i = Some inc" "?p inc" by (auto simp: ran_def rows)
  then obtain x where x: "latest_loop ?p None (mi_items m) = Some x"
    using mem_latest_none [OF inv _ i(1), of ?p] by (cases "latest_loop ?p None (mi_items m)") simp_all
  have "mem_stored m (inc_ID x) = Some x" "?p x" using mem_latest_stored [OF inv x] by simp_all
  then have "i = inc_ID x"
    by (intro one_active_incidentD [OF table_rows(1) [OF tb, of w], of i inc _ x]) (use i in \<open>simp_all flip: rows\<close>)
  with \<open>mem_stored m (inc_ID x) = Some x\<close> i(1) x show ?thesis
    by (simp add: mem_GetActiveByFingerprint_def found_or_err_def)
qed

section \<open>Approvals and runs\<close>

definition same_approvals :: "db_view \<Rightarrow> mem_approvals \<Rightarrow> bool" where
  "same_approvals v m \<longleftrightarrow> mema_inv m \<and> mema_stored m = dv_approvals v"

definition same_runs :: "db_view \<Rightarrow> mem_runs \<Rightarrow> bool" where
  "same_runs v m \<longleftrightarrow> distinct (map fst (mr_runs m)) \<and> map_of (mr_runs m) = dv_runs v"

text \<open>What the functions given to \<open>TransitionStatus\<close> may change: the columns that are written.\<close>

definition decides_only :: "(approval \<Rightarrow> approval) \<Rightarrow> bool" where
  "decides_only m \<longleftrightarrow> (\<forall>x. write_approval (m x) x = m x)"

lemma decides_onlyI:
  assumes "\<And>x. ap_ID (m x) = ap_ID x \<and> ap_IncidentID (m x) = ap_IncidentID x \<and> ap_RunID (m x) = ap_RunID x
    \<and> ap_ToolCallID (m x) = ap_ToolCallID x \<and> ap_Action (m x) = ap_Action x \<and> ap_Arguments (m x) = ap_Arguments x
    \<and> ap_Reason (m x) = ap_Reason x \<and> ap_CreatedAt (m x) = ap_CreatedAt x"
  shows "decides_only m"
  unfolding decides_only_def
proof
  fix x
  show "write_approval (m x) x = m x" using assms [of x] by (cases x; cases "m x") (simp add: write_approval_def)
qed

lemma keep_approval_simps [simp]: "ap_ID (keep_approval tr a) = ap_ID a" "ap_Status (keep_approval tr a) = ap_Status a"
  by (simp_all add: keep_approval_def)

lemma mema_inv_rows:
  assumes "db_laws view tr js db" and "mema_stored m = dv_approvals (view w)" and "distinct (map fst (ma_items m))"
  shows "mema_inv m"
  using assms(2-) table_rows(2) [OF db_tables(3) [OF assms(1)]] by (auto simp: mema_inv_def)

lemma transition_refines:
  assumes laws: "db_laws view tr js db" and same: "same_approvals (view w) m" and "decides_only g"
    and run: "pga_TransitionStatus db (\<lambda>w. w) c i frm to g now w = (Inr a, w')"
  shows "\<exists>m'. mema_TransitionStatus c i frm to (\<lambda>x. keep_approval tr (g x)) now m = (Inr (keep_approval tr a), m')
    \<and> same_approvals (view w') m'"
proof -
  from pga_TransitionStatus_cases [OF laws run] obtain snap where
    snap: "dv_approvals (view w) i = Some snap" "ap_Status snap = frm" "a = g (snap\<lparr>ap_Status := to, ap_UpdatedAt := now\<rparr>)"
    and w': "view w' = approval_written tr i a (view w)" by auto
  let ?m' = "m\<lparr>ma_items := AList.update i (keep_approval tr a) (ma_items m)\<rparr>"
  have inv: "mema_stored m = dv_approvals (view w)" "distinct (map fst (ma_items m))"
    using same by (simp_all add: same_approvals_def mema_inv_def)
  have "write_approval a snap = write_approval a (snap\<lparr>ap_Status := to, ap_UpdatedAt := now\<rparr>)" by (simp add: write_approval_def)
  also have "\<dots> = a" using assms(3) snap(3) by (simp add: decides_only_def)
  finally have "mema_stored ?m' = dv_approvals (view w')"
    using inv(1) snap(1) w' by (simp add: mema_stored_def approval_written_def)
  moreover have "mema_TransitionStatus c i frm to (\<lambda>x. keep_approval tr (g x)) now m = (Inr (keep_approval tr a), ?m')"
    using inv(1) snap by (simp add: mema_TransitionStatus_def mema_stored_def Let_def)
  ultimately show ?thesis
    using mema_inv_rows [OF laws, of ?m' w'] inv(2) by (auto simp: same_approvals_def distinct_update)
qed

lemma expire_loop_at_once:
  "expire_loop i \<lparr>clk = (\<lambda>_. t), uid = u\<rparr> n al =
     (n + length (filter (\<lambda>a. i \<noteq> '''' \<and> ap_IncidentID a = i \<and> ap_Status a = ApprovalPending) (map snd al)),
      map (\<lambda>(k, a). (k, if i \<noteq> '''' \<and> ap_IncidentID a = i \<and> ap_Status a = ApprovalPending then expire_one t a else a)) al)"
  by (induction al arbitrary: n) (auto split: prod.splits)

lemma map_of_rewritten:
  "map_of (map (\<lambda>(k, a). (k, if p a then g a else a)) al) = assigned p g (map_of al)"
  by (induction al) (auto simp: assigned_def fun_eq_iff)

lemma row_hits_list:
  "distinct (map fst al) \<Longrightarrow> row_hits p (map_of al) = length (filter p (map snd al))"
proof -
  assume d: "distinct (map fst al)"
  have "{i. \<exists>r. map_of al i = Some r \<and> p r} = fst ` set (filter (p \<circ> snd) al)"
    using d by (force dest: map_of_SomeD)
  moreover have "distinct (map fst (filter (p \<circ> snd) al))" using d by (rule distinct_map_filter)
  ultimately show ?thesis
    unfolding row_hits_def by (metis distinct_card filter_map length_map list.set_map)
qed

lemma expire_refines:
  assumes laws: "db_laws view tr js db" and same: "same_approvals (view w) m" and "i \<noteq> ''''"
    and run: "pga_ExpirePendingByIncident db c i f w = (Inr n, w')"
  shows "\<exists>m'. mema_ExpirePendingByIncident c i \<lparr>clk = (\<lambda>_. tr (clk f 0)), uid = uid f\<rparr> m = (Inr n, m') \<and> same_approvals (view w') m'"
proof -
  let ?hit = "\<lambda>a. ap_IncidentID a = i \<and> ap_Status a = ApprovalPending" and ?t = "tr (clk f 0)"
  let ?m' = "m\<lparr>ma_items := map (\<lambda>(k, a). (k, if ?hit a then expire_one ?t a else a)) (ma_items m)\<rparr>"
  have inv: "map_of (ma_items m) = dv_approvals (view w)" "distinct (map fst (ma_items m))"
    using same by (simp_all add: same_approvals_def mema_inv_def mema_stored_def)
  have w': "n = int (row_hits ?hit (dv_approvals (view w)))"
    "view w' = (view w)\<lparr>dv_approvals := assigned ?hit (expire_one ?t) (dv_approvals (view w))\<rparr>"
    using pga_Expire_cases [OF laws run assms(3)] by simp_all
  have "mema_ExpirePendingByIncident c i \<lparr>clk = (\<lambda>_. ?t), uid = uid f\<rparr> m = (Inr n, ?m')"
    using assms(3) w'(1) row_hits_list [OF inv(2), of ?hit]
    by (simp add: mema_ExpirePendingByIncident_def expire_loop_at_once flip: inv(1))
  moreover have "mema_stored ?m' = dv_approvals (view w')"
    by (simp add: mema_stored_def map_of_rewritten inv(1) w'(2))
  moreover have "distinct (map fst (ma_items ?m'))" using inv(2) by (simp add: comp_def case_prod_beta)
  ultimately show ?thesis using mema_inv_rows [OF laws, of ?m' w'] by (simp add: same_approvals_def)
qed

lemma keep_run_simps [simp]: "run_ID (keep_run tr r) = run_ID r" "run_Status (keep_run tr r) = run_Status r"
  "run_IncidentID (keep_run tr r) = run_IncidentID r"
  by (simp_all add: keep_run_def)

lemma one_live_runD:
  assumes "one_live_run rows" and "rows i = Some a" and "rows j = Some b"
    and "run_IncidentID a = run_IncidentID b" and "IsActive (run_Status a)" and "IsActive (run_Status b)"
  shows "i = j"
proof -
  have "s \<notin> {RunFailed, RunInterrupted}" if "IsActive s" for s using that by (cases s) auto
  with assms(5,6) have "run_Status a \<notin> {RunFailed, RunInterrupted}" "run_Status b \<notin> {RunFailed, RunInterrupted}" by blast+
  with assms(1-4) show ?thesis unfolding one_live_run_def by blast
qed

lemma no_other_active:
  assumes laws: "db_laws view tr js db" and same: "same_runs (view w) m"
    and "view w' = run_written tr run (view w)" and "IsActive (run_Status run)" and "(k, r) \<in> set (mr_runs m)"
    and "k \<noteq> run_ID run" and "run_IncidentID r = run_IncidentID run"
  shows "\<not> IsActive (run_Status r)"
proof
  assume act: "IsActive (run_Status r)"
  have "dv_runs (view w) k = Some r"
    using same assms(5) unfolding same_runs_def by (metis map_of_is_SomeI)
  then have "dv_runs (view w') k = Some r" using assms(3,6) by (simp add: run_written_def)
  moreover have "dv_runs (view w') (run_ID run) = Some (keep_run tr run)" using assms(3) by (simp add: run_written_def)
  ultimately have "k = run_ID run"
    by (rule one_live_runD [OF table_rows(1) [OF db_tables(4) [OF laws]]]) (use act assms(4,7) in simp_all)
  with assms(6) show False by contradiction
qed

lemma same_runs_written:
  assumes "same_runs v m"
  shows "same_runs (run_written tr run v) (m\<lparr>mr_runs := AList.update (run_ID run) (keep_run tr run) (mr_runs m)\<rparr>)"
  using assms by (simp add: same_runs_def run_written_def distinct_update)

lemma create_run_refines:
  assumes laws: "db_laws view tr js db" and same: "same_runs (view w) m" and act: "IsActive (run_Status run)"
    and run: "pgr_CreateRun db c run w = (None, w')"
  shows "\<exists>m'. memr_CreateRun c (keep_run tr run) m = (None, m') \<and> same_runs (view w') m'"
proof -
  from pgr_CreateRun_cases [OF laws run] have w': "dv_runs (view w) (run_ID run) = None" "view w' = run_written tr run (view w)"
    by simp_all
  have rows: "map_of (mr_runs m) = dv_runs (view w)" using same by (simp add: same_runs_def)
  have "k \<noteq> run_ID run" if "(k, r) \<in> set (mr_runs m)" for k r
    using that w'(1) by (metis map_of_eq_None_iff rows fst_conv image_eqI)
  then have "\<not> list_ex (\<lambda>(_, r). run_IncidentID r = run_IncidentID (keep_run tr run) \<and> IsActive (run_Status r)) (mr_runs m)"
    using no_other_active [OF laws same w'(2) act] by (auto simp: list_ex_iff)
  then show ?thesis
    using same_runs_written [OF same, of tr run] w' rows by (simp add: memr_CreateRun_def)
qed

lemma update_run_refines:
  assumes laws: "db_laws view tr js db" and same: "same_runs (view w) m"
    and run: "pgr_UpdateRun db c run w = (None, w')"
  shows "\<exists>m'. memr_UpdateRun c (keep_run tr run) m = (None, m') \<and> same_runs (view w') m'"
proof -
  from pgr_UpdateRun_cases [OF laws run] have w': "dv_runs (view w) (run_ID run) \<noteq> None" "view w' = run_written tr run (view w)"
    by simp_all
  have rows: "map_of (mr_runs m) = dv_runs (view w)" using same by (simp add: same_runs_def)
  have keyed: "run_ID r = k" if "(k, r) \<in> set (mr_runs m)" for k r
    using that same table_rows(2) [OF db_tables(4) [OF laws], of w k r] unfolding same_runs_def by (metis map_of_is_SomeI)
  have "\<not> (IsActive (run_Status run) \<and> list_ex (\<lambda>(_, r). run_ID r \<noteq> run_ID run
      \<and> run_IncidentID r = run_IncidentID run \<and> IsActive (run_Status r)) (mr_runs m))"
    using no_other_active [OF laws same w'(2)] keyed by (fastforce simp: list_ex_iff)
  then show ?thesis
    using same_runs_written [OF same, of tr run] w' rows by (auto simp: memr_UpdateRun_def)
qed

section \<open>A reference database\<close>

text \<open>The laws are those of a database: this one keeps its tables as maps, refuses what violates a key or an index
  with the code of the server, and rolls back by forgetting. Time stamps have microseconds.\<close>

definition good_rows :: "('r \<Rightarrow> string) \<Rightarrow> ('r \<Rightarrow> 'r) \<Rightarrow> ('r rows \<Rightarrow> bool) \<Rightarrow> 'r rows \<Rightarrow> bool" where
  "good_rows key kept ok rows \<longleftrightarrow> finite (dom rows) \<and> ok rows \<and> (\<forall>i r. rows i = Some r \<longrightarrow> key r = i \<and> kept r = r)"

definition micros :: "time \<Rightarrow> time" where
  "micros t = t - t mod 1000"

abbreviation good_incidents :: "incident rows \<Rightarrow> bool" where
  "good_incidents \<equiv> good_rows inc_ID (keep_incident micros) one_active_incident"

abbreviation good_runs :: "agent_run rows \<Rightarrow> bool" where
  "good_runs \<equiv> good_rows run_ID (keep_run micros) one_live_run"

definition good_view :: "db_view \<Rightarrow> bool" where
  "good_view v \<longleftrightarrow> good_incidents (dv_incidents v) \<and> good_rows ev_ID (keep_event micros (\<lambda>p. p)) (\<lambda>_. True) (dv_events v)
     \<and> good_rows ap_ID (keep_approval micros) (\<lambda>_. True) (dv_approvals v) \<and> good_runs (dv_runs v)
     \<and> good_rows step_ID (\<lambda>s. s) (\<lambda>_. True) (dv_steps v) \<and> good_rows call_ID (keep_call micros) (\<lambda>_. True) (dv_calls v)
     \<and> good_rows evd_ID (keep_evidence micros (\<lambda>p. p)) (\<lambda>_. True) (dv_evidences v)"

definition empty_view :: db_view where
  "empty_view = \<lparr> dv_incidents = Map.empty, dv_events = Map.empty, dv_approvals = Map.empty, dv_runs = Map.empty,
     dv_steps = Map.empty, dv_calls = Map.empty, dv_evidences = Map.empty \<rparr>"

definition ref_view :: "db_view \<Rightarrow> db_view" where
  "ref_view v = (if good_view v then v else empty_view)"

definition server_error :: "bool \<Rightarrow> dberr" where
  "server_error unique = \<lparr> de_err = plain_err ''refused'', de_code = Some (if unique then ''23505'' else ''22000''), de_not_found = False \<rparr>"

definition ref_Create ::
  "(db_view \<Rightarrow> 'r rows) \<Rightarrow> ('r rows \<Rightarrow> db_view \<Rightarrow> db_view) \<Rightarrow> ('r \<Rightarrow> string) \<Rightarrow> ('r \<Rightarrow> 'r) \<Rightarrow> ('r rows \<Rightarrow> bool)
     \<Rightarrow> ctx \<Rightarrow> 'r option list \<Rightarrow> db_view \<Rightarrow> dberr option \<times> db_view" where
  "ref_Create get put key kept ok c rs v =
     (let v0 = ref_view v; xs = map the rs; rows' = inserted key kept xs (get v0)
      in if None \<in> set rs then (Some (server_error False), v)
         else if fresh_keys key xs (get v0) \<and> good_rows key kept ok rows' then (None, put rows' v0)
         else (Some (server_error (\<not> (fresh_keys key xs (get v0) \<and> ok rows'))), v))"

definition ref_First :: "(db_view \<Rightarrow> 'r rows) \<Rightarrow> ctx \<Rightarrow> 'r query \<Rightarrow> db_view \<Rightarrow> dberr + 'r" where
  "ref_First get c q v =
     (let rows = get (ref_view v);
          best = (\<lambda>r. r \<in> ran rows \<and> qy_where q r \<and> (\<forall>x \<in> ran rows. qy_where q x \<longrightarrow> \<not> qy_before q x r))
      in if \<exists>r. best r then Inr (SOME r. best r)
         else Inl ((server_error False)\<lparr>de_not_found := \<forall>r \<in> ran rows. \<not> qy_where q r\<rparr>))"

definition ref_Find :: "(db_view \<Rightarrow> 'r rows) \<Rightarrow> ctx \<Rightarrow> 'r query \<Rightarrow> db_view \<Rightarrow> dberr + 'r list" where
  "ref_Find get c q v =
     (if \<exists>rs. answers_query q (get (ref_view v)) rs then Inr (SOME rs. answers_query q (get (ref_view v)) rs)
      else Inl (server_error False))"

definition ref_Updates ::
  "(db_view \<Rightarrow> 'r rows) \<Rightarrow> ('r rows \<Rightarrow> db_view \<Rightarrow> db_view) \<Rightarrow> ('r \<Rightarrow> string) \<Rightarrow> ('r \<Rightarrow> 'r) \<Rightarrow> ('r rows \<Rightarrow> bool)
     \<Rightarrow> ctx \<Rightarrow> ('r \<Rightarrow> bool) \<Rightarrow> ('r \<Rightarrow> 'r) \<Rightarrow> db_view \<Rightarrow> (dberr + nat) \<times> db_view" where
  "ref_Updates get put key kept ok c p g v =
     (let v0 = ref_view v; rows' = assigned p (\<lambda>x. kept (g x)) (get v0)
      in if good_rows key kept ok rows' then (Inr (row_hits p (get v0)), put rows' v0)
         else (Inl (server_error (\<not> ok rows')), v))"

definition ref_table ::
  "(db_view \<Rightarrow> 'r rows) \<Rightarrow> ('r rows \<Rightarrow> db_view \<Rightarrow> db_view) \<Rightarrow> ('r \<Rightarrow> string) \<Rightarrow> ('r \<Rightarrow> 'r) \<Rightarrow> ('r rows \<Rightarrow> bool) \<Rightarrow> ('r, db_view) table"
where
  "ref_table get put key kept ok =
     \<lparr> tb_Create = ref_Create get put key kept ok, tb_First = ref_First get, tb_Find = ref_Find get,
       tb_Updates = ref_Updates get put key kept ok \<rparr>"

definition ref_Transaction ::
  "ctx \<Rightarrow> (db_view \<Rightarrow> (dberr option \<times> dberr option) \<times> db_view) \<Rightarrow> db_view \<Rightarrow> (dberr option \<times> dberr option) \<times> db_view" where
  "ref_Transaction c body v = (case body v of ((r, x), v1) \<Rightarrow> ((r, x), if r = None then v1 else v))"

definition ref_db :: "db_view gorm_db" where
  "ref_db = \<lparr>
     db_incidents = ref_table dv_incidents (\<lambda>x. dv_incidents_update (\<lambda>_. x)) inc_ID (keep_incident micros) one_active_incident,
     db_events = ref_table dv_events (\<lambda>x. dv_events_update (\<lambda>_. x)) ev_ID (keep_event micros (\<lambda>p. p)) (\<lambda>_. True),
     db_approvals = ref_table dv_approvals (\<lambda>x. dv_approvals_update (\<lambda>_. x)) ap_ID (keep_approval micros) (\<lambda>_. True),
     db_runs = ref_table dv_runs (\<lambda>x. dv_runs_update (\<lambda>_. x)) run_ID (keep_run micros) one_live_run,
     db_steps = ref_table dv_steps (\<lambda>x. dv_steps_update (\<lambda>_. x)) step_ID (\<lambda>s. s) (\<lambda>_. True),
     db_calls = ref_table dv_calls (\<lambda>x. dv_calls_update (\<lambda>_. x)) call_ID (keep_call micros) (\<lambda>_. True),
     db_evidences = ref_table dv_evidences (\<lambda>x. dv_evidences_update (\<lambda>_. x)) evd_ID (keep_evidence micros (\<lambda>p. p)) (\<lambda>_. True),
     db_Transaction = ref_Transaction, db_id_before = (<) \<rparr>"

lemma good_empty [simp]: "good_rows key kept (\<lambda>_. True) Map.empty" "good_incidents Map.empty" "good_runs Map.empty"
  "good_view empty_view"
  by (simp_all add: good_rows_def one_active_incident_def one_live_run_def good_view_def empty_view_def)

lemma good_ref_view [simp]: "good_view (ref_view v)"
  by (simp add: ref_view_def)

lemma ref_view_good: "good_view v \<Longrightarrow> ref_view v = v"
  by (simp add: ref_view_def)

lemma server_error_simps [simp]:
  "foreign (server_error u)" "\<not> lost (server_error u)" "de_code (server_error u) = Some ''23505'' \<longleftrightarrow> u"
  "\<not> de_not_found (server_error u)" "foreign ((server_error u)\<lparr>de_not_found := b\<rparr>)"
  by (simp_all add: server_error_def foreign_def lost_def)

lemma ref_table_laws:
  assumes get: "\<And>v. good_view v \<Longrightarrow> good_rows key kept ok (get v)"
    and put: "\<And>v rows. good_view v \<Longrightarrow> good_rows key kept ok rows \<Longrightarrow> good_view (put rows v)"
  shows "table_laws ref_view (ref_table get put key kept ok) get put key kept stamped ok"
  unfolding table_laws_def
proof (intro conjI)
  show "row_law ref_view get key kept ok"
    using get [OF good_ref_view] unfolding row_law_def good_rows_def by blast
  show "query_law ref_view (ref_table get put key kept ok) get"
    unfolding query_law_def
  proof (intro allI conjI)
    fix c w and q :: "'a query"
    let ?best = "\<lambda>r. r \<in> ran (get (ref_view w)) \<and> qy_where q r
      \<and> (\<forall>x \<in> ran (get (ref_view w)). qy_where q x \<longrightarrow> \<not> qy_before q x r)"
    show "case tb_First (ref_table get put key kept ok) c q w of Inr r \<Rightarrow> ?best r
      | Inl e \<Rightarrow> foreign e \<and> (de_not_found e \<longrightarrow> (\<forall>r \<in> ran (get (ref_view w)). \<not> qy_where q r))"
    proof (cases "\<exists>r. ?best r")
      case True
      then have "?best (SOME r. ?best r)" by (rule someI_ex)
      then show ?thesis unfolding ref_table_def table.simps ref_First_def Let_def if_P [OF True] sum.case .
    next
      case False
      then show ?thesis unfolding ref_table_def table.simps ref_First_def Let_def if_not_P [OF False] sum.case by simp
    qed
    show "case tb_Find (ref_table get put key kept ok) c q w of Inr rs \<Rightarrow> answers_query q (get (ref_view w)) rs | Inl e \<Rightarrow> foreign e"
      by (auto simp: ref_table_def ref_Find_def intro: someI_ex)
  qed
  show "create_law ref_view (ref_table get put key kept ok) get put key kept stamped ok"
    by (auto simp: create_law_def ref_table_def ref_Create_def Let_def comp_def settled_def ref_view_good put
        split: option.splits if_splits)
  show "update_law ref_view (ref_table get put key kept ok) get put kept ok"
    by (auto simp: update_law_def ref_table_def ref_Updates_def Let_def settled_def ref_view_good put
        split: sum.splits if_splits)
qed

lemma ref_transaction_law: "transaction_law ref_view ref_Transaction"
  unfolding transaction_law_def
proof (intro allI impI disjI2)
  fix c body w r x w'
  assume t: "ref_Transaction c body w = ((r, x), w')"
  obtain b y w1 where b: "body w = ((b, y), w1)" by (metis surj_pair)
  with t show "\<exists>w0 b y w1. ref_view w0 = ref_view w \<and> body w0 = ((b, y), w1) \<and> x = y \<and>
      (case b of Some e \<Rightarrow> r = Some e \<and> ref_view w' = ref_view w
       | None \<Rightarrow> r = None \<and> ref_view w' = ref_view w1 \<or> (\<exists>e. r = Some e \<and> settled (ref_view w) (ref_view w1) e (ref_view w')))"
    by (intro exI [of _ w] exI [of _ b] exI [of _ y] exI [of _ w1])
       (auto simp: ref_Transaction_def split: option.splits if_splits)
qed

lemma ref_db_laws: "db_laws ref_view micros (\<lambda>p. p) ref_db"
  unfolding db_laws_def ref_db_def gorm_db.simps
  by (intro conjI ref_table_laws ref_transaction_law) (simp_all add: good_view_def)

section \<open>What the repositories promise\<close>

text \<open>C28. In PostgreSQL an incident and its audit events are written together or not at all, even where an error
  leaves open whether the transaction was committed. An update lands only on the version it read, bumps the
  version, and keeps every column the state machine does not own; after it, every other update from the same
  version is refused without a trace. \<open>ErrConflict\<close> and \<open>ErrConcurrentModification\<close> are reported only where an
  index or a version says so, and then nothing was written.\<close>

theorem postgres_all_or_nothing:
  assumes "db_laws view tr js db" and "stamped_incident inc"
  shows "(\<forall>w r w'. pg_CreateWithEvent db c inc (Some ev) w = (r, w') \<longrightarrow>
        (case r of
           None \<Rightarrow> insertable tr inc (view w) \<and> view w' = events_written tr js [ev] (incident_created tr inc (view w))
         | Some e \<Rightarrow> (view w' = view w \<or> insertable tr inc (view w) \<and> view w' = events_written tr js [ev] (incident_created tr inc (view w)))
             \<and> (errIs e ErrConflict \<longrightarrow> view w' = view w \<and> \<not> insertable tr inc (view w))))
    \<and> (\<forall>w r w'. pg_UpdateWithEvents db c inc (map Some es) w = (r, w') \<longrightarrow>
        (case r of
           Inr inc' \<Rightarrow> current (view w) inc \<and> inc' = bump_version inc \<and> view w' = events_written tr js es (incident_written tr inc (view w))
             \<and> (\<forall>inc2 c2 es2 w2 w3 r2. inc_ID inc2 = inc_ID inc \<longrightarrow> inc_Version inc2 = inc_Version inc \<longrightarrow> view w2 = view w' \<longrightarrow>
                  pg_UpdateWithEvents db c2 inc2 (map Some es2) w2 = (r2, w3) \<longrightarrow> view w3 = view w' \<and> (\<exists>e. r2 = Inl e))
         | Inl e \<Rightarrow> (view w' = view w \<or> current (view w) inc \<and> view w' = events_written tr js es (incident_written tr inc (view w)))
             \<and> (errIs e ErrConcurrentModification \<longrightarrow> view w' = view w \<and> \<not> current (view w) inc)))"
proof (intro conjI allI impI)
  fix w r w'
  assume "pg_CreateWithEvent db c inc (Some ev) w = (r, w')"
  from pg_CreateWithEvent_cases [OF assms(1,2) this]
  show "case r of
      None \<Rightarrow> insertable tr inc (view w) \<and> view w' = events_written tr js [ev] (incident_created tr inc (view w))
    | Some e \<Rightarrow> (view w' = view w \<or> insertable tr inc (view w) \<and> view w' = events_written tr js [ev] (incident_created tr inc (view w)))
        \<and> (errIs e ErrConflict \<longrightarrow> view w' = view w \<and> \<not> insertable tr inc (view w))"
    by (simp split: option.splits)
next
  fix w r w'
  assume "pg_UpdateWithEvents db c inc (map Some es) w = (r, w')"
  note up = pg_UpdateWithEvents_cases [OF assms(1) this]
  have second: "view w3 = view w' \<and> (\<exists>e. r2 = Inl e)"
    if "current (view w) inc" "view w' = events_written tr js es (incident_written tr inc (view w))" "inc_ID inc2 = inc_ID inc" "inc_Version inc2 = inc_Version inc"
      "view w2 = view w'" "pg_UpdateWithEvents db c2 inc2 (map Some es2) w2 = (r2, w3)" for inc2 c2 es2 w2 w3 r2
  proof -
    have "\<not> current (view w2) inc2" unfolding that(5,2) by (rule written_not_current [OF that(3,4,1)])
    with pg_UpdateWithEvents_cases [OF assms(1) that(6)] that(5) show ?thesis by (cases r2) simp_all
  qed
  show "case r of
      Inr inc' \<Rightarrow> current (view w) inc \<and> inc' = bump_version inc \<and> view w' = events_written tr js es (incident_written tr inc (view w))
        \<and> (\<forall>inc2 c2 es2 w2 w3 r2. inc_ID inc2 = inc_ID inc \<longrightarrow> inc_Version inc2 = inc_Version inc \<longrightarrow> view w2 = view w' \<longrightarrow>
             pg_UpdateWithEvents db c2 inc2 (map Some es2) w2 = (r2, w3) \<longrightarrow> view w3 = view w' \<and> (\<exists>e. r2 = Inl e))
    | Inl e \<Rightarrow> (view w' = view w \<or> current (view w) inc \<and> view w' = events_written tr js es (incident_written tr inc (view w)))
        \<and> (errIs e ErrConcurrentModification \<longrightarrow> view w' = view w \<and> \<not> current (view w) inc)"
  proof (cases r)
    case (Inl e)
    with up show ?thesis by auto
  next
    case (Inr inc')
    with up have now: "current (view w) inc" "inc' = bump_version inc"
      "view w' = events_written tr js es (incident_written tr inc (view w))" by simp_all
    show ?thesis unfolding Inr sum.case
    proof (intro conjI now allI impI)
      fix inc2 c2 es2 w2 w3 r2
      assume "inc_ID inc2 = inc_ID inc" and "inc_Version inc2 = inc_Version inc" and "view w2 = view w'"
        and "pg_UpdateWithEvents db c2 inc2 (map Some es2) w2 = (r2, w3)"
      note later = second [OF now(1,3) this]
      show "view w3 = view w'" and "\<exists>e. r2 = Inl e" using later by simp_all
    qed
  qed
qed

definition pg_incident :: "status \<Rightarrow> 64 word \<Rightarrow> incident" where
  "pg_incident s v = \<lparr> inc_ID = ''i1'', inc_Service = ''api'', inc_Severity = ''HIGH'', inc_Title = ''t'', inc_Description = '''',
     inc_AlertName = ''a'', inc_Fingerprint = ''fp'', inc_Status = s, inc_StartedAt = 1000, inc_ResolvedAt = None,
     inc_CreatedAt = 1234, inc_UpdatedAt = 1234, inc_Version = v \<rparr>"

definition pg_event :: incident_event where
  "pg_event = \<lparr> ev_ID = ''e1'', ev_IncidentID = ''i1'', ev_EventType = EventIncidentCreated, ev_Payload = Map.empty, ev_CreatedAt = 1234 \<rparr>"

lemma ref_Create_one:
  "good_view v \<Longrightarrow> get v (key r) = None \<Longrightarrow> good_rows key kept ok ((get v)(key r \<mapsto> kept r)) \<Longrightarrow>
     tb_Create (ref_table get put key kept ok) c [Some r] v = (None, put ((get v)(key r \<mapsto> kept r)) v)"
  by (simp add: ref_table_def ref_Create_def ref_view_good inserted_one fresh_keys_def)

lemma ref_transaction: "db_Transaction ref_db = ref_Transaction"
  by (simp add: ref_db_def)

lemma pg_demo_created:
  "pg_CreateWithEvent ref_db background (pg_incident StatusOpen 0) (Some pg_event) empty_view
     = (None, events_written micros (\<lambda>p. p) [pg_event] (incident_created micros (pg_incident StatusOpen 0) empty_view))"
proof -
  let ?inc = "pg_incident StatusOpen 0"
  let ?i = "keep_incident micros ?inc" and ?e = "keep_event micros (\<lambda>p. p) pg_event"
  have rows: "good_incidents [''i1'' \<mapsto> ?i]" "good_rows ev_ID (keep_event micros (\<lambda>p. p)) (\<lambda>_. True) [''e1'' \<mapsto> ?e]"
    by (auto simp: good_rows_def one_active_incident_def pg_incident_def pg_event_def keep_incident_def keep_event_def
        micros_def split: if_splits)
  have empty: "dv_incidents empty_view = Map.empty" "dv_events (incident_created micros ?inc empty_view) = Map.empty"
    by (simp_all add: empty_view_def incident_created_def)
  have ids: "inc_ID ?inc = ''i1''" "ev_ID pg_event = ''e1''" by (simp_all add: pg_incident_def pg_event_def)
  have good: "good_view (incident_created micros ?inc empty_view)"
    using rows(1) by (simp add: good_view_def incident_created_def empty_view_def ids)
  have "tb_Create (db_incidents ref_db) background [Some ?inc] empty_view = (None, incident_created micros ?inc empty_view)"
    unfolding ref_db_def gorm_db.simps
    by (subst ref_Create_one) (use rows(1) in \<open>simp_all add: empty ids incident_created_def\<close>)
  moreover have "tb_Create (db_events ref_db) background [Some pg_event] (incident_created micros ?inc empty_view)
      = (None, events_written micros (\<lambda>p. p) [pg_event] (incident_created micros ?inc empty_view))"
    unfolding ref_db_def gorm_db.simps
    by (subst ref_Create_one) (use rows(2) good in \<open>simp_all add: empty ids events_written_def inserted_one\<close>)
  ultimately show ?thesis
    by (simp add: pg_CreateWithEvent_def create_body_def isUniqueViolation_def ref_transaction ref_Transaction_def)
qed

lemma postgres_all_or_nothing_witness:
  "\<exists>w'. pg_CreateWithEvent ref_db background (pg_incident StatusOpen 0) (Some pg_event) empty_view = (None, w')
    \<and> insertable micros (pg_incident StatusOpen 0) (ref_view empty_view)"
proof -
  have "stamped_incident (pg_incident StatusOpen 0)"
    by (simp add: stamped_incident_def pg_incident_def zero_instant_def)
  from postgres_all_or_nothing [OF ref_db_laws this] pg_demo_created show ?thesis by fastforce
qed

text \<open>C29. The right to execute an action is given once, also in PostgreSQL and also when two requests both read
  the approval before either wrote: a transition succeeds only when the row still has the status it expects at the
  moment of the write, whatever other clients did since the read, and then the row has the new status, so the
  transition that comes second fails and writes nothing.\<close>

theorem second_claim_loses:
  assumes laws: "db_laws view tr js db"
    and first: "pga_TransitionStatus db others1 c1 i frm to m1 t1 w = (Inr a, w1)"
    and "to \<noteq> frm" and "\<And>x. ap_Status (m1 x) = ap_Status x" and "view (others2 w2) = view w1"
    and second: "pga_TransitionStatus db others2 c2 i frm to2 m2 t2 w2 = (r, w3)"
  shows "has_status (view (others1 w)) i frm \<and> has_status (view w1) i to
    \<and> (\<exists>e. r = Inl e) \<and> (view w3 = view w1 \<or> view w3 = view w2)"
proof -
  note c1 = pga_TransitionStatus_cases [OF laws first, simplified]
  then have w1: "view w1 = approval_written tr i a (view (others1 w))" "ap_Status a = to" using assms(4) by auto
  then have "has_status (view w1) i to"
    by (simp add: has_status_def approval_written_def keep_approval_def write_approval_def)
  moreover from this have "\<not> has_status (view (others2 w2)) i frm" using assms(3,5) by (auto simp: has_status_def)
  ultimately show ?thesis
    using c1 pga_TransitionStatus_cases [OF laws second] assms(5) by (auto split: sum.splits)
qed

definition pg_approval :: "approval_status \<Rightarrow> approval" where
  "pg_approval s = \<lparr> ap_ID = ''a1'', ap_IncidentID = ''i1'', ap_RunID = ''r1'', ap_ToolCallID = ''t1'', ap_Action = ''worker.restart'',
     ap_Arguments = '''', ap_Reason = '''', ap_Status = s, ap_ApprovedBy = '''', ap_Result = '''', ap_Error = '''',
     ap_OperationID = '''', ap_CreatedAt = 1000, ap_UpdatedAt = 1000, ap_ApprovedAt = None \<rparr>"

definition approval_view :: "approval_status \<Rightarrow> db_view" where
  "approval_view s = empty_view\<lparr>dv_approvals := [''a1'' \<mapsto> pg_approval s]\<rparr>"

lemma approval_view_good: "good_view (approval_view s)" "good_rows ap_ID (keep_approval micros) (\<lambda>_. True) [''a1'' \<mapsto> pg_approval s]"
proof -
  show "good_rows ap_ID (keep_approval micros) (\<lambda>_. True) [''a1'' \<mapsto> pg_approval s]"
    by (auto simp: good_rows_def pg_approval_def keep_approval_def micros_def split: if_splits)
  then show "good_view (approval_view s)" by (simp add: good_view_def approval_view_def empty_view_def)
qed

lemma ref_Get: "pga_Get ref_db c ''a1'' (approval_view s) = Inr (pg_approval s)"
proof -
  have "dv_approvals (approval_view s) = [''a1'' \<mapsto> pg_approval s]" by (simp add: approval_view_def)
  moreover have "ap_ID (pg_approval s) = ''a1''" by (simp add: pg_approval_def)
  ultimately show ?thesis
    by (simp add: pga_Get_def ref_db_def ref_table_def ref_First_def rows_where_def any_order_def first_or_not_found_def
        ref_view_good approval_view_good Let_def conj_commute [of "_ = _"] cong: conj_cong)
qed

lemma ref_claim:
  "pga_TransitionStatus ref_db (\<lambda>w. w) c ''a1'' ApprovalPending ApprovalApproved (\<lambda>x. x) 1000 (approval_view ApprovalPending)
     = (Inr (pg_approval ApprovalApproved), approval_view ApprovalApproved)"
proof -
  let ?a = "pg_approval ApprovalApproved" and ?p = "\<lambda>r. ap_ID r = ''a1'' \<and> ap_Status r = ApprovalPending"
  have a: "(pg_approval ApprovalPending)\<lparr>ap_Status := ApprovalApproved, ap_UpdatedAt := 1000\<rparr> = ?a" by (simp add: pg_approval_def)
  have rows: "dv_approvals (approval_view ApprovalPending) = [''a1'' \<mapsto> pg_approval ApprovalPending]" by (simp add: approval_view_def)
  have "{i. \<exists>r. [''a1'' \<mapsto> pg_approval ApprovalPending] i = Some r \<and> ?p r} = {''a1''}"
    by (auto simp: pg_approval_def split: if_splits)
  then have hits: "row_hits ?p [''a1'' \<mapsto> pg_approval ApprovalPending] = 1" by (simp add: row_hits_def)
  have assigned: "assigned ?p (\<lambda>x. keep_approval micros (write_approval ?a x)) [''a1'' \<mapsto> pg_approval ApprovalPending] = [''a1'' \<mapsto> ?a]"
    by (rule ext) (simp add: assigned_def pg_approval_def keep_approval_def write_approval_def micros_def)
  have "tb_Updates (db_approvals ref_db) c ?p (write_approval ?a) (approval_view ApprovalPending) = (Inr 1, approval_view ApprovalApproved)"
    by (simp add: ref_db_def ref_table_def ref_Updates_def ref_view_good approval_view_good rows hits assigned Let_def)
       (simp add: approval_view_def)
  then show ?thesis
    by (simp add: pga_TransitionStatus_def ref_Get a Let_def) (simp add: pg_approval_def)
qed

lemma second_claim_loses_witness:
  "\<exists>e. fst (pga_TransitionStatus ref_db (\<lambda>_. approval_view ApprovalApproved) background ''a1'' ApprovalPending ApprovalRejected (\<lambda>x. x) 2000
       (approval_view ApprovalPending)) = Inl e"
proof -
  obtain r w3 where r: "pga_TransitionStatus ref_db (\<lambda>_. approval_view ApprovalApproved) background ''a1'' ApprovalPending
      ApprovalRejected (\<lambda>x. x) 2000 (approval_view ApprovalPending) = (r, w3)" by fastforce
  from second_claim_loses [OF ref_db_laws ref_claim _ _ _ r] show ?thesis by (simp add: r)
qed

section \<open>PostgreSQL refines the in-memory repositories\<close>

text \<open>What the services hand to the repositories meets the conditions of the refinement.\<close>

lemma callers_decide_only:
  "decides_only (\<lambda>x. x)" "decides_only (set_decider actor now)" "decides_only (set_outcome res)" "decides_only (set_error cause)"
  by (rule decides_onlyI, simp add: set_decider_def set_outcome_def set_error_def split: sum.splits)+

lemma callers_keep_identity:
  assumes "keep_incident tr cur = cur"
  shows "same_identity cur (keep_incident tr (moved_incident cur to f))"
    and "same_identity cur (keep_incident tr (externally_resolved cur f))"
  using assms
  by (cases cur; simp add: keep_incident_def same_identity_def moved_incident_def externally_resolved_def Let_def)+


lemma same_demo:
  "same_incidents (ref_view empty_view) NewMemory" "same_approvals (ref_view empty_view) NewMemoryApproval"
  "same_runs (ref_view empty_view) NewMemoryRun"
proof -
  have "ref_view empty_view = empty_view" by (simp add: ref_view_good)
  then show "same_incidents (ref_view empty_view) NewMemory" "same_approvals (ref_view empty_view) NewMemoryApproval"
    "same_runs (ref_view empty_view) NewMemoryRun"
    using NewMemory_inv NewMemoryApproval_inv
    by (simp_all add: same_incidents_def same_approvals_def same_runs_def same_events_def empty_view_def NewMemory_def
        NewMemoryApproval_def NewMemoryRun_def mem_stored_def mema_stored_def stored_events_def)
qed


end
