(* ===== verification/Startup.thy ===== *)
theory Startup
  imports Knowledge_Setup Topology Postgres_Refinement Scenario Server
begin

text \<open>
  The start of a process (\<open>src/internal/bootstrap/bootstrap.go\<close>, \<open>config.go\<close>, \<open>database.go\<close>,
  \<open>src/internal/storage/postgres/postgres.go\<close>) and the gauges it registers
  (\<open>StatusCollector\<close> of \<open>src/internal/observability/metrics/metrics.go\<close>). \<open>App_New\<close> is \<open>New\<close> on any repositories:
  what may fail, in the order it is tried, and what the finished application is made of. On the in-memory
  repositories its services are those of \<open>World\<close>. The HTTP engine, which cannot fail, is that of
  \<open>Api\<close>. Drivers and libraries are arguments.
\<close>

section \<open>Configuration and database\<close>

definition loadConfig ::
  "(string \<Rightarrow> string) \<Rightarrow> (string \<Rightarrow> gerror + string) \<Rightarrow> (string \<Rightarrow> config \<Rightarrow> gerror + config)
     \<Rightarrow> (string \<Rightarrow> gerror + string option) \<Rightarrow> gerror + config" where
  "loadConfig env read_file decode explicit_mode =
     (let p = env ''CONFIG_PATH'';
          cfgPath = (if p = '''' then ''configs/config.local.yaml'' else p)
      in config_Load (read_file cfgPath) env decode explicit_mode)"

text \<open>A handle of GORM and the pool behind it, which \<open>db.DB()\<close> may refuse to give.\<close>

record 'w pg_handle =
  ph_gorm :: "'w gorm_db"
  ph_pool :: "gerror + (ctx \<Rightarrow> 'w \<Rightarrow> gerror option)"

definition postgres_Connect :: "(string \<Rightarrow> 'w \<Rightarrow> (gerror + 'w pg_handle) \<times> 'w) \<Rightarrow> string \<Rightarrow> 'w \<Rightarrow> (gerror + 'w pg_handle) \<times> 'w" where
  "postgres_Connect open_db dsn w =
     (case open_db dsn w of
        (Inl err, w1) \<Rightarrow> (Inl err, w1)
      | (Inr db, w1) \<Rightarrow>
          (case ph_pool db of
             Inl err \<Rightarrow> (Inl err, w1)
           | Inr ping \<Rightarrow> (case ping background w1 of Some err \<Rightarrow> (Inl err, w1) | None \<Rightarrow> (Inr db, w1))))"

record 'w databases =
  dbs_incidentRepo :: "'w incident_repo"
  dbs_runRepo :: "'w run_repo"
  dbs_approvalRepo :: "'w approval_repo"
  dbs_db :: "'w pg_handle option"

text \<open>\<open>memory\<close> are fresh in-memory repositories.\<close>

definition buildDatabases ::
  "'w databases \<Rightarrow> (string \<Rightarrow> 'w \<Rightarrow> (gerror + 'w pg_handle) \<times> 'w) \<Rightarrow> config \<Rightarrow> 'w \<Rightarrow> (gerror + 'w databases) \<times> 'w" where
  "buildDatabases memory open_db cfg w =
     (if cf_PostgresDSN cfg = '''' then (Inr (memory\<lparr>dbs_db := None\<rparr>), w)
      else
        (case postgres_Connect open_db (cf_PostgresDSN cfg) w of
           (Inl err, w1) \<Rightarrow> (Inl (wrap_err ''connect postgres: '' err), w1)
         | (Inr db, w1) \<Rightarrow>
             (Inr \<lparr> dbs_incidentRepo = postgres_incident_repo (ph_gorm db), dbs_runRepo = postgres_run_repo (ph_gorm db),
                    dbs_approvalRepo = postgres_approval_repo (ph_gorm db), dbs_db = Some db \<rparr>, w1)))"

definition pingPostgres :: "'w pg_handle \<Rightarrow> ctx \<Rightarrow> 'w \<Rightarrow> gerror option" where
  "pingPostgres db c w = (case ph_pool db of Inl err \<Rightarrow> Some err | Inr ping \<Rightarrow> ping c w)"

section \<open>The execution chain on any repositories\<close>

text \<open>What the chain uses besides the repositories: the HTTP client for a timeout, the stream broker, the
  counters, and what the environment answers.\<close>

record 'w platform =
  pf_client :: "int \<Rightarrow> ctx \<Rightarrow> http_request \<Rightarrow> 'w \<Rightarrow> http_outcome \<times> 'w"
  pf_publish :: "string \<Rightarrow> stream_event \<Rightarrow> 'w \<Rightarrow> 'w"
  pf_count :: "metric \<Rightarrow> 'w \<Rightarrow> 'w"
  pf_env :: environment

definition app_store_only :: "'w platform \<Rightarrow> 'w databases \<Rightarrow> 'w approval_service" where
  "app_store_only pf dbs = \<lparr>as_repo = dbs_approvalRepo dbs, as_broker = Some (pf_publish pf), as_executor = None,
     as_incidents = None, as_runs = None, as_count = pf_count pf\<rparr>"

definition app_incidents :: "'w platform \<Rightarrow> 'w databases \<Rightarrow> 'w incident_service" where
  "app_incidents pf dbs = \<lparr>is_repo = dbs_incidentRepo dbs, is_expirer = Some (ExpirePending (app_store_only pf dbs)),
     is_count = pf_count pf\<rparr>"

definition app_http :: "'w platform \<Rightarrow> config \<Rightarrow> gerror + 'w http_executor" where
  "app_http pf cfg =
     NewHTTPExecutor (pf_client pf) (en_url_err (pf_env pf))
       \<lparr>hc_URL = ex_RestartURL (cf_Execution cfg), hc_Token = ex_Token (cf_Execution cfg),
        hc_Timeout = ex_TimeoutSeconds (cf_Execution cfg) * 1000000000\<rparr>"

definition app_tool :: "'w platform \<Rightarrow> config \<Rightarrow> 'w deployment_tool" where
  "app_tool pf cfg =
     (let tool = deployment_New None (Some (policy_New (cf_ApprovalEnabled cfg)));
          targets = ex_AllowedTargets (cf_Execution cfg)
      in if ex_Mode (cf_Execution cfg) = ExecutionModeHTTP
         then (case app_http pf cfg of
                 Inl _ \<Rightarrow> tool
               | Inr e \<Rightarrow> WithAllowedTargets (if targets = [] then None else Some targets) (WithHTTPExecutor e tool))
         else tool)"

definition app_remediation :: "'w platform \<Rightarrow> 'w databases \<Rightarrow> config \<Rightarrow> 'w remediation" where
  "app_remediation pf dbs cfg =
     \<lparr>rm_restart = app_tool pf cfg, rm_verifier = verifier_New DefaultConfig,
      rm_gatherer = (case buildGatherer cfg (pf_env pf) of Inl _ \<Rightarrow> None | Inr p \<Rightarrow> Some p),
      rm_incidents = Some (app_incidents pf dbs), rm_runs = Some (dbs_runRepo dbs), rm_postmortem = True,
      rm_broker = Some (pf_publish pf),
      rm_verifyCfg = \<lparr>rc_Attempts = ve_Attempts (cf_Verification cfg),
        rc_Interval = ve_IntervalSeconds (cf_Verification cfg) * 1000000000,
        rc_RequiredSuccesses = ve_RequiredSuccesses (cf_Verification cfg)\<rparr>\<rparr>"

definition app_approvals :: "'w platform \<Rightarrow> 'w databases \<Rightarrow> config \<Rightarrow> 'w approval_service" where
  "app_approvals pf dbs cfg =
     \<lparr>as_repo = dbs_approvalRepo dbs, as_broker = Some (pf_publish pf),
      as_executor = Some (observed_Execute (pf_count pf) (Some (app_incidents pf dbs)) (remediation_Execute (app_remediation pf dbs cfg))),
      as_incidents = Some (app_incidents pf dbs), as_runs = Some (dbs_runRepo dbs), as_count = pf_count pf\<rparr>"

definition app_buildExecution :: "'w platform \<Rightarrow> 'w databases \<Rightarrow> config \<Rightarrow> gerror + 'w deployment_tool" where
  "app_buildExecution pf dbs cfg =
     (case (if ex_Mode (cf_Execution cfg) = ExecutionModeHTTP
            then (case app_http pf cfg of Inl err \<Rightarrow> Some err | Inr _ \<Rightarrow> None) else None) of
        Some err \<Rightarrow> Inl (wrap_err ''build http executor: '' err)
      | None \<Rightarrow>
          (case buildGatherer cfg (pf_env pf) of
             Inl err \<Rightarrow> Inl err
           | Inr _ \<Rightarrow> Inr (SetApproval (app_approvals pf dbs cfg) (app_tool pf cfg))))"

section \<open>The agent on any repositories\<close>

text \<open>The run book tool over a retriever and its number of results is an argument: its search is that of
  \<open>Runbook_Tool\<close>, around which the tool library decodes and encodes.\<close>

definition app_history_tool :: "'w incident_repo \<Rightarrow> tool_library \<Rightarrow> 'w tool" where
  "app_history_tool repo lib = (\<lambda>tmo c args f w.
     (case tl_history_in lib args of
        Inl err \<Rightarrow> (('''', Some err), w)
      | Inr inp \<Rightarrow> (tool_answer (tl_history_out lib) (history_search repo c inp w), w)))"

definition app_restart_tool :: "'w deployment_tool \<Rightarrow> tool_library \<Rightarrow> 'w tool" where
  "app_restart_tool tool lib = (\<lambda>tmo c args f w.
     (case tl_restart_in lib args of
        Inl err \<Rightarrow> (('''', Some err), w)
      | Inr inp \<Rightarrow> (case restart_request tool c inp f w of (r, w1) \<Rightarrow> (tool_answer (tl_restart_out lib) r, w1))))"

definition app_buildToolRegistry ::
  "config \<Rightarrow> tool_library \<Rightarrow> readers \<Rightarrow> 'w incident_repo \<Rightarrow> 'w tool \<Rightarrow> 'w tool registry" where
  "app_buildToolRegistry cfg lib rs repo runbook =
     (let r1 = register_tool ''runbook_search'' runbook RiskLow
                 (register_tool ''incident_history'' (app_history_tool repo lib) RiskLow registry_New);
          r2 = (if cf_PrometheusURL cfg \<noteq> ''''
                then register_tool ''prometheus_range_query'' (read_tool (tr_range rs)) RiskLow
                       (register_tool ''prometheus_alerts'' (read_tool (tr_alerts rs)) RiskLow
                          (register_tool ''prometheus_query'' (read_tool (tr_query rs)) RiskLow r1))
                else r1)
      in if mq_ManagementURL (cf_RabbitMQ cfg) \<noteq> ''''
         then register_tool ''rabbitmq_inspect'' (read_tool (tr_inspect rs)) RiskLow r2 else r2)"

definition app_registry ::
  "config \<Rightarrow> tool_library \<Rightarrow> readers \<Rightarrow> 'w incident_repo \<Rightarrow> 'w tool \<Rightarrow> 'w deployment_tool \<Rightarrow> 'w tool registry" where
  "app_registry cfg lib rs repo runbook tool =
     register_tool ''worker_restart'' (app_restart_tool tool lib) RiskMedium (app_buildToolRegistry cfg lib rs repo runbook)"

definition app_buildAgent ::
  "'w platform \<Rightarrow> 'w run_repo \<Rightarrow> config \<Rightarrow> 'w tool registry \<Rightarrow> gerror + string \<Rightarrow> 'w agent_runtime option \<times> string" where
  "app_buildAgent pf runs cfg reg file =
     (if lc_BaseURL (cf_LLM cfg) = '''' \<or> lc_Model (cf_LLM cfg) = '''' then (None, '''')
      else (Some (WithRunTimeout (ag_TimeoutSeconds (cf_Agent cfg) * 1000000000)
              (WithToolLimits (cf_ToolTimeoutSeconds cfg * 1000000000) (ag_MaxToolCalls (cf_Agent cfg))
                 (WithRunRecording runs (Some (pf_publish pf))
                    (runtime_New (pf_count pf) reg (ag_MaxSteps (cf_Agent cfg)))))), loadPrompt file))"

lemma register_tool_get:
  "registry_Get n (register_tool name t risk reg) =
    (if n = name \<and> name \<noteq> [] \<and> registry_Get name reg = None
     then Some \<lparr>rt_Name = name, rt_Tool = t, rt_RiskLevel = risk\<rparr> else registry_Get n reg)"
  by (auto simp: registry_Get_def register_tool_def Register_def update_conv' split: option.splits)

lemma registry_Get_New: "registry_Get n registry_New = None"
  by (simp add: registry_Get_def registry_New_def)

lemma readers_are_low:
  "registry_Get n (app_buildToolRegistry cfg lib rs repo runbook) = Some t \<Longrightarrow>
    rt_RiskLevel t = RiskLow \<and> n \<noteq> ''worker_restart''"
  by (auto simp: app_buildToolRegistry_def Let_def register_tool_get registry_Get_New
      split: if_split_asm)

lemma app_registry_risk:
  "registry_Get n (app_registry cfg lib rs repo runbook tool) = Some t \<Longrightarrow>
    rt_RiskLevel t = (if n = ''worker_restart'' then RiskMedium else RiskLow)"
  by (auto simp: app_registry_def register_tool_get dest: readers_are_low split: if_split_asm)

lemma buildAgent_records:
  "fst (app_buildAgent pf runs cfg reg file) = Some rt \<Longrightarrow> rt_registry rt = reg \<and> rt_runRepo rt = Some runs"
  by (auto simp: app_buildAgent_def WithRunTimeout_def WithToolLimits_def WithRunRecording_def runtime_New_def Let_def
      split: if_splits)

section \<open>Gauges by status\<close>

text \<open>\<open>map[string]int\<close> is an association list with distinct keys.\<close>

type_synonym status_counts = "(string \<times> int) list"

record 'w status_collector =
  co_name :: string
  co_label :: string
  co_count :: "ctx \<Rightarrow> 'w \<Rightarrow> gerror + status_counts"

definition NewStatusCollector :: "string \<Rightarrow> string \<Rightarrow> (ctx \<Rightarrow> 'w \<Rightarrow> gerror + status_counts) \<Rightarrow> 'w status_collector" where
  "NewStatusCollector name lbl counting = \<lparr> co_name = name, co_label = lbl, co_count = counting \<rparr>"

text \<open>The samples of one scrape: metric, label value, value. An error gives no sample at all.\<close>

definition Collect :: "'w status_collector \<Rightarrow> 'w \<Rightarrow> (string \<times> string \<times> float64) list" where
  "Collect co w =
     (case co_count co background w of
        Inl _ \<Rightarrow> []
      | Inr counts \<Rightarrow> map (\<lambda>(s, n). (co_name co, s, f64_int (nat n))) counts)"

datatype register_answer = Registered | AlreadyRegistered | RegisterFailed gerror

definition metrics_Register :: "register_answer \<Rightarrow> gerror option" where
  "metrics_Register ans = (case ans of RegisterFailed err \<Rightarrow> Some err | _ \<Rightarrow> None)"

fun count_by_status :: "incident list \<Rightarrow> status_counts \<Rightarrow> status_counts" where
  "count_by_status [] counts = counts"
| "count_by_status (inc # items) counts =
     (let s = status_string (inc_Status inc)
      in count_by_status items (AList.update s ((case map_of counts s of None \<Rightarrow> 0 | Some n \<Rightarrow> n) + 1) counts))"

definition incident_counts :: "'w incident_service \<Rightarrow> ctx \<Rightarrow> 'w \<Rightarrow> gerror + status_counts" where
  "incident_counts svc c w =
     (case svc_List svc c \<lparr>lf_Service = '''', lf_Status = '''', lf_Limit = 0, lf_Offset = 0\<rparr> w of
        Inl err \<Rightarrow> Inl err
      | Inr items \<Rightarrow> Inr (count_by_status items []))"

definition approval_counts :: "'w approval_service option \<Rightarrow> ctx \<Rightarrow> 'w \<Rightarrow> gerror + status_counts" where
  "approval_counts svc c w =
     (case svc of
        None \<Rightarrow> Inr []
      | Some s \<Rightarrow>
          (case as_ListPending s c w of
             Inl err \<Rightarrow> Inl err
           | Inr pending \<Rightarrow> Inr [(approval_status_string ApprovalPending, int (length pending))]))"

definition incident_collector :: "'w incident_service \<Rightarrow> 'w status_collector" where
  "incident_collector svc = NewStatusCollector ''gooncall_incidents'' ''status'' (incident_counts svc)"

definition approval_collector :: "'w approval_service option \<Rightarrow> 'w status_collector" where
  "approval_collector svc = NewStatusCollector ''gooncall_approvals'' ''status'' (approval_counts svc)"

definition registerStatusCollectors :: "(string \<Rightarrow> register_answer) \<Rightarrow> 'w incident_service \<Rightarrow> 'w approval_service option \<Rightarrow> gerror option" where
  "registerStatusCollectors register isvc asvc =
     (case metrics_Register (register (co_name (incident_collector isvc))) of
        Some err \<Rightarrow> Some (wrap_err ''register incident status collector: '' err)
      | None \<Rightarrow>
          (case metrics_Register (register (co_name (approval_collector asvc))) of
             Some err \<Rightarrow> Some (wrap_err ''register approval status collector: '' err)
           | None \<Rightarrow> None))"

section \<open>The application\<close>

record 'w app =
  app_cfg :: config
  app_incidentSvc :: "'w incident_service"
  app_incidentRepo :: "'w incident_repo"
  app_approvalRepo :: "'w approval_repo"
  app_runRepo :: "'w run_repo"
  app_approvalSvc :: "'w approval_service"
  app_restartTool :: "'w deployment_tool"
  app_retriever :: "'w Hybrid"
  app_agentRT :: "'w agent_runtime option"
  app_prompt :: string
  app_producer :: "('w connection \<times> 'w connection) option"
  app_dbPing :: "(ctx \<Rightarrow> 'w \<Rightarrow> gerror option) option"

record 'w start =
  st_env :: "string \<Rightarrow> string"
  st_read :: "string \<Rightarrow> gerror + string"
  st_decode :: "string \<Rightarrow> config \<Rightarrow> gerror + config"
  st_explicit :: "string \<Rightarrow> gerror + string option"
  st_outside :: "'w outside"
  st_memory :: "'w databases"
  st_open :: "string \<Rightarrow> 'w \<Rightarrow> (gerror + 'w pg_handle) \<times> 'w"
  st_platform :: "'w platform"
  st_library :: tool_library
  st_readers :: "config \<Rightarrow> readers"
  st_runbook :: "'w Hybrid \<Rightarrow> int \<Rightarrow> 'w tool"
  st_prompt :: "gerror + string"
  st_dial :: "'w dial"
  st_register :: "string \<Rightarrow> register_answer"

definition App_New :: "'w start \<Rightarrow> 'w \<Rightarrow> (gerror + 'w app) \<times> 'w" where
  "App_New st w =
     (case loadConfig (st_env st) (st_read st) (st_decode st) (st_explicit st) of
        Inl err \<Rightarrow> (Inl (wrap_err ''load config: '' err), w)
      | Inr cfg \<Rightarrow>
          (case BuildRunbookRetriever (st_outside st) background cfg w of
             (Inl err, w1) \<Rightarrow> (Inl err, w1)
           | (Inr ragRetriever, w1) \<Rightarrow>
               (case buildDatabases (st_memory st) (st_open st) cfg w1 of
                  (Inl err, w2) \<Rightarrow> (Inl err, w2)
                | (Inr dbs, w2) \<Rightarrow>
                    (case app_buildExecution (st_platform st) dbs cfg of
                       Inl err \<Rightarrow> (Inl err, w2)
                     | Inr restartTool \<Rightarrow>
                         (case buildProducer (st_dial st) cfg w2 of
                            (Inl err, w3) \<Rightarrow> (Inl err, w3)
                          | (Inr producer, w3) \<Rightarrow>
                              (let isvc = app_incidents (st_platform st) dbs; asvc = app_approvals (st_platform st) dbs cfg;
                                   reg = app_registry cfg (st_library st) (st_readers st cfg) (dbs_incidentRepo dbs)
                                     (st_runbook st ragRetriever (rg_TopK (cf_RAG cfg))) restartTool;
                                   agent = app_buildAgent (st_platform st) (dbs_runRepo dbs) cfg reg (st_prompt st)
                               in case registerStatusCollectors (st_register st) isvc (Some asvc) of
                                    Some err \<Rightarrow> (Inl err, w3)
                                  | None \<Rightarrow>
                                      (Inr \<lparr> app_cfg = cfg, app_incidentSvc = isvc, app_incidentRepo = dbs_incidentRepo dbs,
                                             app_approvalRepo = dbs_approvalRepo dbs, app_runRepo = dbs_runRepo dbs,
                                             app_approvalSvc = asvc, app_restartTool = restartTool,
                                             app_retriever = ragRetriever, app_agentRT = fst agent, app_prompt = snd agent,
                                             app_producer = producer,
                                             app_dbPing = map_option pingPostgres (dbs_db dbs) \<rparr>, w3)))))))"

section \<open>World is the application on the in-memory repositories\<close>

definition world_databases :: "world databases" where
  "world_databases = \<lparr> dbs_incidentRepo = world_incident_repo, dbs_runRepo = world_run_repo,
     dbs_approvalRepo = world_approval_repo, dbs_db = None \<rparr>"

definition world_platform :: "environment \<Rightarrow> world platform" where
  "world_platform env = \<lparr> pf_client = call_endpoint env, pf_publish = publish_event, pf_count = count_metric, pf_env = env \<rparr>"

lemma world_platform_env: "pf_env (world_platform env) = env"
  by (simp add: world_platform_def)

lemma app_is_world:
  "app_incidents (world_platform env) world_databases = world_incidents"
  "app_approvals (world_platform env) world_databases cfg = world_approvals cfg env"
  "app_buildExecution (world_platform env) world_databases cfg = buildExecution cfg env"
  "app_buildAgent (world_platform env) world_run_repo cfg
     (app_registry cfg lib rs world_incident_repo (read_tool (tr_runbook rs)) (system_tool cfg env)) file
   = buildAgent cfg env lib rs file"
proof -
  have http: "app_http (world_platform env) cfg = world_http cfg env" by (simp add: app_http_def world_http_def world_platform_def)
  have tool: "app_tool (world_platform env) cfg = world_tool cfg env" unfolding app_tool_def world_tool_def http ..
  show incidents: "app_incidents (world_platform env) world_databases = world_incidents"
    by (simp add: app_incidents_def world_incidents_def app_store_only_def approval_store_only_def world_databases_def world_platform_def)
  have "app_remediation (world_platform env) world_databases cfg = world_remediation cfg env"
    by (simp add: app_remediation_def world_remediation_def tool incidents) (simp add: world_databases_def world_platform_def)
  then show approvals: "app_approvals (world_platform env) world_databases cfg = world_approvals cfg env"
    by (simp add: app_approvals_def world_approvals_def world_executor_def incidents)
      (simp add: world_databases_def world_platform_def)
  show "app_buildExecution (world_platform env) world_databases cfg = buildExecution cfg env"
    unfolding app_buildExecution_def buildExecution_def http tool approvals world_platform_env ..
  show "app_buildAgent (world_platform env) world_run_repo cfg
      (app_registry cfg lib rs world_incident_repo (read_tool (tr_runbook rs)) (system_tool cfg env)) file
    = buildAgent cfg env lib rs file"
    unfolding app_buildAgent_def buildAgent_def worker_runtime_def app_registry_def worker_registry_def app_buildToolRegistry_def
      buildToolRegistry_def app_history_tool_def history_tool_def app_restart_tool_def restart_tool_def
    by (simp add: world_platform_def)
qed

section \<open>What has started\<close>

lemma App_New_Inr:
  assumes "App_New st w = (Inr app, w')"
  obtains cfg h dbs w1 w2 where "loadConfig (st_env st) (st_read st) (st_decode st) (st_explicit st) = Inr cfg"
    "BuildRunbookRetriever (st_outside st) background cfg w = (Inr h, w1)"
    "buildDatabases (st_memory st) (st_open st) cfg w1 = (Inr dbs, w2)"
    "app_buildExecution (st_platform st) dbs cfg = Inr (app_restartTool app)"
    "buildProducer (st_dial st) cfg w2 = (Inr (app_producer app), w')"
    "app_cfg app = cfg" "app_incidentSvc app = app_incidents (st_platform st) dbs"
    "app_approvalSvc app = app_approvals (st_platform st) dbs cfg" "app_retriever app = h"
    "app_incidentRepo app = dbs_incidentRepo dbs" "app_approvalRepo app = dbs_approvalRepo dbs" "app_runRepo app = dbs_runRepo dbs"
    "app_dbPing app = map_option pingPostgres (dbs_db dbs)"
    "app_agentRT app = fst (app_buildAgent (st_platform st) (dbs_runRepo dbs) cfg
       (app_registry cfg (st_library st) (st_readers st cfg) (dbs_incidentRepo dbs)
          (st_runbook st h (rg_TopK (cf_RAG cfg))) (app_restartTool app)) (st_prompt st))"
  using assms unfolding App_New_def
  by (auto simp: Let_def split: sum.splits prod.splits option.splits)

lemma buildDatabases_Inr:
  assumes "buildDatabases memory open_db cfg w = (Inr dbs, w')"
  shows "if cf_PostgresDSN cfg = '''' then dbs = memory\<lparr>dbs_db := None\<rparr>
    else \<exists>db ping. dbs_db dbs = Some db \<and> ph_pool db = Inr ping \<and> ping background w' = None
      \<and> dbs_incidentRepo dbs = postgres_incident_repo (ph_gorm db) \<and> dbs_runRepo dbs = postgres_run_repo (ph_gorm db)
      \<and> dbs_approvalRepo dbs = postgres_approval_repo (ph_gorm db)"
  using assms by (auto simp: buildDatabases_def postgres_Connect_def split: if_splits sum.splits prod.splits option.splits)

lemma buildExecution_Inr:
  assumes "app_buildExecution pf dbs cfg = Inr tool"
  shows "dt_approval tool = Some (app_approvals pf dbs cfg)
    \<and> (if ex_Mode (cf_Execution cfg) = ExecutionModeHTTP
       then ve_Mode (cf_Verification cfg) = ''prometheus''
         \<and> (\<exists>e. dt_http tool = Some e \<and> hx_url e = ex_RestartURL (cf_Execution cfg) \<and> hx_url e \<noteq> '''')
         \<and> (ex_AllowedTargets (cf_Execution cfg) \<noteq> [] \<longrightarrow> dt_allowedTargets tool = Some (ex_AllowedTargets (cf_Execution cfg)))
       else dt_http tool = None)"
  using assms
  by (auto simp: app_buildExecution_def app_tool_def app_http_def NewHTTPExecutor_def buildGatherer_def Let_def SetApproval_def
      WithAllowedTargets_def WithHTTPExecutor_def deployment_New_def split: if_splits sum.splits option.splits)

lemma loadConfig_Inr:
  assumes "loadConfig env read_file decode explicit = Inr cfg"
  shows "Validate cfg = None" "1 \<le> ve_RequiredSuccesses (cf_Verification cfg)"
    "ve_RequiredSuccesses (cf_Verification cfg) \<le> ve_Attempts (cf_Verification cfg)"
proof -
  have load: "config_Load (read_file (if env ''CONFIG_PATH'' = [] then ''configs/config.local.yaml'' else env ''CONFIG_PATH''))
      env decode explicit = Inr cfg"
    using assms unfolding loadConfig_def Let_def .
  show "Validate cfg = None" by (rule Load_valid [OF load])
  show "1 \<le> ve_RequiredSuccesses (cf_Verification cfg)"
    "ve_RequiredSuccesses (cf_Verification cfg) \<le> ve_Attempts (cf_Verification cfg)"
    using loaded_config_is_safe [OF load] by blast+
qed

lemma buildProducer_Inr: "buildProducer dial cfg w = (Inr p, w') \<Longrightarrow> mq_URL (cf_RabbitMQ cfg) = [] \<longleftrightarrow> p = None"
  by (auto simp: buildProducer_def after_value_def wrap_result_def split: if_splits sum.splits prod.splits dest: sym)

lemma valid_execution:
  assumes "app_buildExecution pf dbs cfg = Inr tool" and "Validate cfg = None"
  shows "if ex_Mode (cf_Execution cfg) = ExecutionModeHTTP
    then cf_PostgresDSN cfg \<noteq> [] \<and> mq_URL (cf_RabbitMQ cfg) \<noteq> [] \<and> ve_Mode (cf_Verification cfg) = ''prometheus''
      \<and> au_AdminToken (cf_Auth cfg) \<noteq> []
      \<and> (\<exists>e targets. dt_http tool = Some e \<and> hx_url e = ex_RestartURL (cf_Execution cfg)
           \<and> dt_allowedTargets tool = Some targets \<and> targets \<noteq> [])
    else dt_http tool = None"
proof (cases "ex_Mode (cf_Execution cfg) = ExecutionModeHTTP")
  case True
  have "validate_http cfg = None" using Validate_http [OF assms(2)] True by blast
  with True buildExecution_Inr [OF assms(1)] show ?thesis by (auto simp: validate_http_None)
qed (use buildExecution_Inr [OF assms(1)] in simp)

text \<open>C27. A process that has started is wired safely. Its configuration is a valid one; its services share the
  repositories, which are those of PostgreSQL, on a connection that answered, exactly when a DSN is configured; a
  resolved alert reaches the approvals. With real execution (\<open>http\<close>) everything is persistent, events can be
  published, the endpoint is the configured one behind a nonempty white list, and Prometheus verifies, in a
  sequence that can pass; otherwise no endpoint can be called at all. The agent, where a model is configured, records
  its runs in the same repository, and of its tools only the restart is above low risk.\<close>

theorem started_application_is_safe:
  assumes "App_New st w = (Inr app, w')"
  defines "cfg \<equiv> app_cfg app"
  shows "Validate cfg = None
    \<and> (\<forall>rt. app_agentRT app = Some rt \<longrightarrow> rt_runRepo rt = Some (app_runRepo app)
         \<and> (\<forall>n t. registry_Get n (rt_registry rt) = Some t \<longrightarrow>
              rt_RiskLevel t = (if n = ''worker_restart'' then RiskMedium else RiskLow)))
    \<and> is_repo (app_incidentSvc app) = app_incidentRepo app \<and> as_repo (app_approvalSvc app) = app_approvalRepo app
    \<and> as_incidents (app_approvalSvc app) = Some (app_incidentSvc app) \<and> as_runs (app_approvalSvc app) = Some (app_runRepo app)
    \<and> (\<exists>expire. is_expirer (app_incidentSvc app) = Some expire
         \<and> (\<forall>c i f v. i \<noteq> '''' \<longrightarrow> expire c i f v = ar_ExpirePendingByIncident (app_approvalRepo app) c i f v))
    \<and> dt_approval (app_restartTool app) = Some (app_approvalSvc app)
    \<and> (if cf_PostgresDSN cfg = '''' then app_dbPing app = None
       else \<exists>db. app_incidentRepo app = postgres_incident_repo db \<and> app_approvalRepo app = postgres_approval_repo db
              \<and> app_runRepo app = postgres_run_repo db \<and> app_dbPing app \<noteq> None)
    \<and> (mq_URL (cf_RabbitMQ cfg) = '''' \<longleftrightarrow> app_producer app = None)
    \<and> (if ex_Mode (cf_Execution cfg) = ExecutionModeHTTP
       then cf_PostgresDSN cfg \<noteq> '''' \<and> app_producer app \<noteq> None \<and> ve_Mode (cf_Verification cfg) = ''prometheus''
         \<and> 1 \<le> ve_RequiredSuccesses (cf_Verification cfg)
         \<and> ve_RequiredSuccesses (cf_Verification cfg) \<le> ve_Attempts (cf_Verification cfg)
         \<and> (\<exists>e targets. dt_http (app_restartTool app) = Some e \<and> hx_url e = ex_RestartURL (cf_Execution cfg)
              \<and> dt_allowedTargets (app_restartTool app) = Some targets \<and> targets \<noteq> [])
         \<and> au_AdminToken (cf_Auth cfg) \<noteq> ''''
       else dt_http (app_restartTool app) = None)"
proof -
  from assms(1) obtain cfg' h dbs w1 w2 where
    conf: "loadConfig (st_env st) (st_read st) (st_decode st) (st_explicit st) = Inr cfg'"
    and dbs: "buildDatabases (st_memory st) (st_open st) cfg' w1 = (Inr dbs, w2)"
    and exec: "app_buildExecution (st_platform st) dbs cfg' = Inr (app_restartTool app)"
    and prod: "buildProducer (st_dial st) cfg' w2 = (Inr (app_producer app), w')"
    and agent: "app_agentRT app = fst (app_buildAgent (st_platform st) (dbs_runRepo dbs) cfg'
       (app_registry cfg' (st_library st) (st_readers st cfg') (dbs_incidentRepo dbs)
          (st_runbook st h (rg_TopK (cf_RAG cfg'))) (app_restartTool app)) (st_prompt st))"
    and app: "app_cfg app = cfg'" "app_incidentSvc app = app_incidents (st_platform st) dbs"
      "app_approvalSvc app = app_approvals (st_platform st) dbs cfg'"
      "app_incidentRepo app = dbs_incidentRepo dbs" "app_approvalRepo app = dbs_approvalRepo dbs" "app_runRepo app = dbs_runRepo dbs"
      "app_dbPing app = map_option pingPostgres (dbs_db dbs)"
    by (rule App_New_Inr)
  have cfg: "cfg = cfg'" by (simp add: cfg_def app)
  note valid = loadConfig_Inr [OF conf, folded cfg]
  have expirer: "\<exists>expire. is_expirer (app_incidentSvc app) = Some expire
      \<and> (\<forall>c i f v. i \<noteq> '''' \<longrightarrow> expire c i f v = ar_ExpirePendingByIncident (app_approvalRepo app) c i f v)"
    by (simp add: app app_incidents_def ExpirePending_def app_store_only_def)
  note producer = buildProducer_Inr [OF prod, folded cfg] and endpoint = valid_execution [OF exec [folded cfg] valid(1)]
  have agents: "\<forall>rt. app_agentRT app = Some rt \<longrightarrow> rt_runRepo rt = Some (app_runRepo app)
         \<and> (\<forall>n t. registry_Get n (rt_registry rt) = Some t \<longrightarrow>
              rt_RiskLevel t = (if n = ''worker_restart'' then RiskMedium else RiskLow))"
    unfolding agent app(6) by (auto dest!: buildAgent_records app_registry_risk)
  have store: "if cf_PostgresDSN cfg = [] then app_dbPing app = None
      else \<exists>db. app_incidentRepo app = postgres_incident_repo db \<and> app_approvalRepo app = postgres_approval_repo db
              \<and> app_runRepo app = postgres_run_repo db \<and> app_dbPing app \<noteq> None"
    using buildDatabases_Inr [OF dbs] by (auto simp: cfg app split: if_splits)
  have tool: "dt_approval (app_restartTool app) = Some (app_approvalSvc app)"
    using buildExecution_Inr [OF exec] by (simp add: app)
  show ?thesis
    by (intro conjI valid(1) agents expirer tool store producer; (use endpoint producer valid in \<open>auto split: if_splits\<close>)?)
      (simp_all add: app app_incidents_def app_approvals_def)
qed

text \<open>A start with real execution, where everything outside answers.\<close>

definition start_config :: config where
  "start_config = http_config\<lparr>cf_Embedding := cf_Embedding demo_rag_config, cf_Qdrant := cf_Qdrant demo_rag_config\<rparr>"

definition quiet_channel :: "'w amqp_channel" where
  "quiet_channel = \<lparr> ch_Confirm = Pair None, ch_ExchangeDeclare = (\<lambda>_ _. Pair None), ch_QueueDeclare = (\<lambda>q _. Pair (Inr q)),
     ch_QueueBind = (\<lambda>_ _ _. Pair None), ch_Consume = (\<lambda>_. Pair None) \<rparr>"

definition demo_start :: "db_view start" where
  "demo_start = \<lparr> st_env = (\<lambda>_. ''''), st_read = (\<lambda>_. Inr ''execution:''), st_decode = (\<lambda>_ _. Inr start_config),
     st_explicit = (\<lambda>_. Inr (Some ''http'')), st_outside = demo_outside,
     st_memory = \<lparr> dbs_incidentRepo = postgres_incident_repo ref_db, dbs_runRepo = postgres_run_repo ref_db,
       dbs_approvalRepo = postgres_approval_repo ref_db, dbs_db = None \<rparr>,
     st_open = (\<lambda>dsn. Pair (Inr \<lparr> ph_gorm = ref_db, ph_pool = Inr (\<lambda>_ _. None) \<rparr>)),
     st_platform = \<lparr> pf_client = (\<lambda>_ _ _. Pair (Response 200 '''')), pf_publish = (\<lambda>_ _ w. w), pf_count = (\<lambda>_ w. w), pf_env = demo_env \<rparr>,
     st_library = demo_lib, st_readers = (\<lambda>_. demo_readers), st_runbook = (\<lambda>_ _. read_tool (tr_runbook demo_readers)), st_prompt = Inr ''diagnose'',
     st_dial = (\<lambda>url. Pair (Inr (Pair (Inr quiet_channel)))), st_register = (\<lambda>_. Registered) \<rparr>"

lemma started_application_is_safe_witness:
  "\<exists>app w'. App_New demo_start empty_view = (Inr app, w') \<and> app_producer app \<noteq> None
    \<and> app_incidentRepo app = postgres_incident_repo ref_db"
proof -
  have trim: "TrimSpace ''http'' = ''http''" by (rule TrimSpace_graphic) (simp_all add: graphic_def)
  have conf: "loadConfig (st_env demo_start) (st_read demo_start) (st_decode demo_start) (st_explicit demo_start) = Inr start_config"
    by (simp add: demo_start_def loadConfig_def config_Load_def Let_def start_config_def demo_rag_config_def http_config_def
        config_Default_def Validate_def validate_reranker_def validate_http_def execution_modes trim)
  have cfg: "cf_PostgresDSN start_config = ''dsn''" "mq_URL (cf_RabbitMQ start_config) = ''amqp://mq''"
    "ex_Mode (cf_Execution start_config) = ExecutionModeHTTP" "ve_Mode (cf_Verification start_config) = ''prometheus''"
    "ex_RestartURL (cf_Execution start_config) = ''http://ops/restart''"
    by (simp_all add: start_config_def http_config_def execution_modes)
  obtain h w1 where rag: "BuildRunbookRetriever (st_outside demo_start) background start_config empty_view = (Inr h, w1)"
    using demo_retriever_builds [of start_config empty_view]
    by (auto simp: demo_start_def start_config_def http_config_def demo_rag_config_def)
  have dbs: "\<exists>dbs. buildDatabases (st_memory demo_start) (st_open demo_start) start_config w1 = (Inr dbs, w1)
      \<and> dbs_incidentRepo dbs = postgres_incident_repo ref_db"
    by (simp add: demo_start_def buildDatabases_def postgres_Connect_def cfg)
  have exec: "\<exists>tool. app_buildExecution (st_platform demo_start) dbs start_config = Inr tool" for dbs
    by (simp add: app_buildExecution_def app_http_def NewHTTPExecutor_def buildGatherer_def cfg Let_def)
  have prod: "\<exists>p. buildProducer (st_dial demo_start) start_config w1 = (Inr (Some p), w1)"
    by (simp add: demo_start_def buildProducer_def NewProducer_def EnsureRoute_def after_def after_value_def wrap_result_def
        quiet_channel_def cfg)
  have reg: "registerStatusCollectors (st_register demo_start) isvc asvc = None"
    for isvc :: "db_view incident_service" and asvc :: "db_view approval_service option"
    by (simp add: demo_start_def registerStatusCollectors_def metrics_Register_def)
  from dbs obtain d where d: "buildDatabases (st_memory demo_start) (st_open demo_start) start_config w1 = (Inr d, w1)"
    "dbs_incidentRepo d = postgres_incident_repo ref_db" by blast
  from exec obtain tool where "app_buildExecution (st_platform demo_start) d start_config = Inr tool" by blast
  moreover from prod obtain p where "buildProducer (st_dial demo_start) start_config w1 = (Inr (Some p), w1)" by blast
  ultimately obtain app where app: "App_New demo_start empty_view = (Inr app, w1)"
    "app_incidentRepo app = postgres_incident_repo ref_db" "app_cfg app = start_config"
    using conf rag d reg by (simp add: App_New_def Let_def)
  with started_application_is_safe [OF app(1)] show ?thesis by (auto simp: cfg)
qed

section \<open>The gauges count\<close>

lemma count_by_status_lookup:
  "map_of (count_by_status items counts) s =
     (let n = int (length (filter (\<lambda>inc. status_string (inc_Status inc) = s) items))
      in if n = 0 then map_of counts s else Some ((case map_of counts s of None \<Rightarrow> 0 | Some k \<Rightarrow> k) + n))"
  by (induction items arbitrary: counts) (auto simp: Let_def split: option.splits)

text \<open>A scrape of the in-memory application shows for each status that occurs the number of stored incidents with
  it, and nothing for the others.\<close>

lemma incident_gauge_exact:
  assumes "w_iinv w" and "incident_counts world_incidents c w = Inr counts"
  shows "map_of counts s = (let n = card {i. \<exists>inc. w_istored w i = Some inc \<and> status_string (inc_Status inc) = s}
    in if n = 0 then None else Some (int n))"
proof -
  let ?f = "\<lparr>lf_Service = '''', lf_Status = '''', lf_Limit = 0, lf_Offset = 0\<rparr>"
  obtain items where items: "mem_List c ?f (w_incidents w) = Inr items" "counts = count_by_status items []"
    using assms(2) by (auto simp: incident_counts_def svc_List_def world_incidents_def world_incident_repo_def
        lift_incident_repo_def memory_repo_def split: sum.splits)
  have inv: "mem_inv (w_incidents w)" using assms(1) by (simp add: w_iinv_def)
  obtain xs where xs: "mem_List c (?f\<lparr>lf_Limit := 1, lf_Offset := 0\<rparr>) (w_incidents w) = Inr xs" by (simp add: mem_List_def)
  have "set items = {inc. \<exists>i. mem_stored (w_incidents w) i = Some inc}" "distinct items"
    using listing_is_complete [where f = ?f, OF inv _ xs] items(1) by (auto simp: filter_matches_def)
  moreover have keyed: "\<And>i inc. mem_stored (w_incidents w) i = Some inc \<Longrightarrow> inc_ID inc = i" using inv by (simp add: mem_inv_def)
  ultimately have "{i. \<exists>inc. w_istored w i = Some inc \<and> status_string (inc_Status inc) = s}
      = inc_ID ` set (filter (\<lambda>inc. status_string (inc_Status inc) = s) items)"
    "inj_on inc_ID (set (filter (\<lambda>inc. status_string (inc_Status inc) = s) items))"
    "distinct (filter (\<lambda>inc. status_string (inc_Status inc) = s) items)"
    by (force simp: w_istored_def inj_on_def)+
  then have "card {i. \<exists>inc. w_istored w i = Some inc \<and> status_string (inc_Status inc) = s}
      = length (filter (\<lambda>inc. status_string (inc_Status inc) = s) items)"
    by (simp only: card_image distinct_card)
  then show ?thesis by (simp add: items(2) count_by_status_lookup)
qed

end
