(* ===== verification/Spec2Isabelle.thy ===== *)
theory Spec2Isabelle
  imports Guarantees Knowledge_Setup Readers Chat_Model Startup
begin

text \<open>
  A model of GoOnCall-Agent, an on-call assistant in Go: an alert opens an incident, a language model diagnoses it
  with read-only tools, a restart it asks for waits for a human, an approved restart is executed once over HTTP,
  verified against Prometheus and written down. Paths are those under \<open>src/\<close> of the repository; \<open>internal/\<close> is
  short for \<open>src/internal/\<close>.

  \<^bold>\<open>Parts and how they interact.\<close> The API process (\<open>cmd/api\<close>) serves HTTP: webhooks of Alertmanager create and close
  incidents through the incident service and publish an event; operators approve or reject. The worker process
  (\<open>cmd/worker\<close>) consumes the events from RabbitMQ, runs the agent, records what it does, and its restart tool
  requests an approval. Approving runs the remediation: policy, white list, HTTP call, verification, close.
  Both processes share the repositories, which are in memory or in PostgreSQL.

  \<^bold>\<open>Conventions.\<close> A Go struct is a record with a prefix for its fields, a string enumeration a datatype with its
  wire strings, an interface a record of operations over a state \<open>'w\<close>. A pair of value and error is
  \<open>gerror + 'a\<close>, an error alone \<open>gerror option\<close>; \<open>gerror\<close> has the text and the sentinels that \<open>errors.Is\<close> finds.
  A panic is \<open>None\<close> of an option. Strings are byte strings, \<open>int64\<close> versions and retry counters \<open>64 word\<close>, times
  nanoseconds, \<open>float64\<close> exact rationals with IEEE rounding (\<open>Float64\<close>). The clock and the uuid generator are an
  argument \<open>fresh\<close>, what the outside answers is an argument everywhere. An operation that the code runs under a
  mutex is one step. Where the order of a Go map matters it is the order of an association list.

  \<^bold>\<open>The theories and what they model.\<close>
  \<^item> Shared ground: \<open>Prelude\<close> (errors, contexts, decimal text), \<open>Go_Std\<close>, \<open>Go_Sort\<close>, \<open>Runes\<close>, \<open>Json\<close>, \<open>Sha256\<close>, \<open>Md5\<close>,
    \<open>Float64\<close>: what the program uses of Go's standard library.
  \<^item> Domain: \<open>Incident_Model\<close> (\<open>internal/incident/model\<close>), \<open>State_Machine\<close> (\<open>state_machine/transition.go\<close>, also as a step
    relation), \<open>Incident_Service\<close> (\<open>service/service.go\<close>), \<open>Incident_History\<close> (what the journal says of the past).
  \<^item> Repositories: \<open>Repo_Interface\<close> (the contracts, as locales), \<open>Memory_Repo\<close>, \<open>Approval_Repo\<close>, \<open>Run_Repo\<close> (the in-memory
    implementations, each an interpretation of its contract), \<open>Repo_Lift\<close> (a repository inside a larger state),
    \<open>Postgres_Repo\<close> and \<open>Postgres_Refinement\<close> (the PostgreSQL implementations over the laws of a database).
  \<^item> Execution: \<open>Approval_Service\<close>, \<open>Approval_System\<close> (\<open>internal/execution/approval\<close>), \<open>Deployment\<close> (\<open>internal/tool/deployment\<close>),
    \<open>Policy_Registry\<close>, \<open>Verifier\<close>, \<open>Gatherer\<close>, \<open>Remediation\<close>, \<open>Remediation_System\<close>, \<open>System_History\<close> (\<open>internal/execution\<close>).
  \<^item> The application: \<open>Config\<close>, \<open>World\<close> (the wiring of \<open>internal/bootstrap/execution.go\<close>), \<open>System\<close> (all steps of all
    processes as one relation, \<open>reachable\<close>), \<open>Run_Safety\<close>, \<open>Scenario\<close> (one computed run), \<open>Guarantees\<close>, \<open>Startup\<close> (\<open>New\<close> and
    the gauges).
  \<^item> Agent and queue: \<open>Recorder\<close> (\<open>internal/agent/runtime\<close>), \<open>Chat_Model\<close>, \<open>Messaging\<close>, \<open>Topology\<close> (\<open>internal/messaging\<close>), \<open>Worker\<close>,
    \<open>Worker_Steps\<close> (\<open>internal/bootstrap\<close>), \<open>Readers\<close> (the Prometheus and RabbitMQ tools), \<open>Telemetry\<close> (broker, counters).
  \<^item> HTTP: \<open>Api\<close> (\<open>internal/api\<close>), \<open>Server\<close> (the server over the application).
  \<^item> Knowledge base: \<open>Splitter\<close>, \<open>Loader\<close>, \<open>Vector_Store\<close>, \<open>Retriever\<close>, \<open>Knowledge_Clients\<close>, \<open>Runbook_Tool\<close>, \<open>Evaluation\<close>,
    \<open>Knowledge_Setup\<close> (\<open>internal/knowledge\<close>, \<open>internal/tool/runbook\<close>, \<open>cmd/rageval\<close>).

  \<^bold>\<open>What is shown.\<close> The services are verified once against the contracts of the repositories (\<open>incident_client\<close>,
  \<open>incident_closing\<close>, \<open>approval_system\<close>, \<open>remediation_system\<close>), and the interpretations in the repository theories and
  in \<open>World\<close> carry the results to the program. \<open>System\<close> proves the invariants of all reachable states by rule
  induction; worker, consumer loop and HTTP server are shown to take only steps of it (C5, C7), so C1 to C4 hold
  of the running program: one call of the endpoint for an approval and for an incident, a journal that replays to
  the status, one open incident for a fingerprint, and steps that only go forward. \<open>Guarantees\<close> and \<open>Server\<close> say what
  each operation returns and changes on every branch, with its errors. \<open>Messaging\<close> shows that no message is lost
  whatever the broker answers and that a failing one is dead-lettered after three retries; \<open>Topology\<close> that the
  declared queues route as that model assumes. \<open>Postgres_Refinement\<close> shows atomicity, optimistic locking and the
  single claim under interleaving in PostgreSQL, and that it refines the in-memory repositories. The knowledge
  base is shown bounded, lossless, sound and incremental. The remaining properties are round trips of what is
  sent to other services, the verification loop against its specification, and the start of the process.

  \<^bold>\<open>Fuel and bounds.\<close> The decoder of JSON values runs with \<open>2 * length + 2\<close> units, string literals with the length of
  the text; \<open>json_round\<close> and \<open>literal_fuel\<close> show that this suffices for every encoded value. All other recursions
  terminate by a measure or by structure. The agent's loop is a finite strategy tree (the library stops after the
  configured number of steps). \<open>Subscribe\<close> of the stream broker can block for ever, and then is \<open>None\<close>.

  \<^bold>\<open>Not modelled.\<close> The libraries: gin (requests arrive parsed), GORM and PostgreSQL (laws, \<open>db_laws\<close>), the AMQP client
  (laws, \<open>broker_laws\<close>), eino's ReAct loop (a strategy tree), the Prometheus client (a log of increments), YAML, the
  HTTP client, \<open>time.Parse\<close>, logarithms and square roots (arguments). The request log, the text format of the event
  stream, the entry points and their exit codes, the pool sizes of the database, \<open>internal/storage/redis\<close> and
  \<open>internal/agent/supervisor\<close>, which nothing uses. Clients of the database interleave between two statements of
  \<open>TransitionStatus\<close> (\<open>others\<close>); elsewhere a statement or transaction is atomic. Payloads of audit events are maps of
  the values the code puts in. SHA-256 is defined, and nothing rests on the absence of collisions.
\<close>

section \<open>Reachable states of the application\<close>

lemma reachable_facts:
  assumes "reachable cfg w"
  shows "w_iinv w" "w_ainv w" "history_ok (w_view w)" "bindings_ok (w_astored w) (w_istored w)"
    "one_claim (w_astored w)" "calls_ok (w_keys w) (w_astored w)"
  using reachable_ok [OF assms] by (simp_all add: system_ok_def)

text \<open>C1. The deployment endpoint is called at most once for an approval, at most once for an incident,
  never for an approval that was not claimed by \<open>Approve\<close>, and never for an incident that has not
  passed the approval stage: in every reachable state, whatever the endpoint, Prometheus and the
  clients did.\<close>

theorem endpoint_called_once:
  assumes "reachable cfg w"
  shows "distinct (w_keys w)
    \<and> distinct (map (\<lambda>k. ap_IncidentID (the (w_astored w k))) (w_keys w))
    \<and> (\<forall>k \<in> set (w_keys w). \<exists>a inc. w_astored w k = Some a
         \<and> ap_Status a \<in> {ApprovalExecuting, ApprovalExecuted, ApprovalFailed, ApprovalUnknown}
         \<and> w_istored w (ap_IncidentID a) = Some inc
         \<and> inc_Status inc \<in> {StatusMitigating, StatusVerifying, StatusResolved, StatusFailed, StatusCancelled})"
proof -
  note facts = reachable_facts [OF assms]
  have late: "inc_Status inc \<in> {StatusMitigating, StatusVerifying, StatusResolved, StatusFailed, StatusCancelled}"
    if "3 \<le> stage (inc_Status inc)" for inc
    using that by (cases "inc_Status inc") auto
  have "inj_on (\<lambda>k. ap_IncidentID (the (w_astored w k))) (set (w_keys w))"
    using facts(5,6) unfolding inj_on_def one_claim_def calls_ok_def by (metis option.sel)
  then show ?thesis
    using facts(4,6) late unfolding calls_ok_def bindings_ok_def distinct_map claimed_def by metis
qed

lemma endpoint_called_once_witness:
  "distinct (w_keys demo_w5) \<and> w_keys demo_w5 = [''ap_c0'']"
  using endpoint_called_once [OF demo_reachable] demo_at_5 by blast

text \<open>C2. The audit journal of an incident replays to its status: starting before the creation, each
  status event leaves the status its predecessor reached. The optimistic-lock version is the number
  of recorded transitions, there are never more than five, and the resolution time is set exactly
  for a RESOLVED incident. No incident is ever NEED_APPROVAL or CANCELLED.\<close>

theorem journal_replays:
  assumes "reachable cfg w" and "w_istored w i = Some inc"
  shows "trail '''' (w_journal w i) = Some (status_string (inc_Status inc))
    \<and> inc_Version inc = of_nat (transitions (w_journal w i)) \<and> transitions (w_journal w i) \<le> 5
    \<and> (inc_ResolvedAt inc \<noteq> None \<longleftrightarrow> inc_Status inc = StatusResolved)
    \<and> inc_Status inc \<noteq> StatusNeedApproval \<and> inc_Status inc \<noteq> StatusCancelled"
proof -
  have "entry_ok (Some inc) (w_journal w i)"
    using reachable_facts(3) [OF assms(1)] assms(2) unfolding history_ok_def by (metis fst_conv snd_conv)
  moreover have "stage (inc_Status inc) \<le> 5" by (cases "inc_Status inc") auto
  ultimately show ?thesis by (auto simp: entry_ok_def)
qed

lemma demo_waiting: "\<exists>inc. w_istored demo_w4 ''inc_a0'' = Some inc \<and> inc_Status inc = StatusWaitingApproval"
  by (simp add: demo_at_4 w_istored_def mem_stored_def demo_incident_def)

lemma demo_stored: "\<exists>inc. w_istored demo_w5 ''inc_a0'' = Some inc \<and> inc_Status inc = StatusResolved"
proof -
  obtain k inc where item: "mi_items (w_incidents demo_w5) = [(k, inc)]" "inc_Status inc = StatusResolved"
    using demo_at_5 by (cases "mi_items (w_incidents demo_w5)") auto
  from system_step_change [OF demo_approves reachable_ok [OF demo_reachable_4]] demo_waiting
  obtain inc' where "w_istored demo_w5 ''inc_a0'' = Some inc'" using changes_keep by fastforce
  with item show ?thesis by (auto simp: w_istored_def mem_stored_def split: if_splits)
qed

lemma journal_replays_witness:
  "\<exists>inc. w_istored demo_w5 ''inc_a0'' = Some inc \<and> inc_Status inc = StatusResolved
    \<and> trail '''' (w_journal demo_w5 ''inc_a0'') = Some ''RESOLVED'' \<and> inc_ResolvedAt inc \<noteq> None"
  using demo_stored journal_replays [OF demo_reachable, of "''inc_a0''"] by fastforce

text \<open>C3. One alert source has at most one open incident: two stored incidents with the same
  fingerprint that are both not terminal are the same incident.\<close>

theorem one_open_incident:
  assumes "reachable cfg w" and "w_istored w i = Some a" and "w_istored w j = Some b"
    and "inc_Fingerprint a = inc_Fingerprint b" and "\<not> IsTerminal (inc_Status a)" and "\<not> IsTerminal (inc_Status b)"
  shows "i = j"
proof -
  have "entry_ok (Some a) (w_journal w i)"
    using reachable_facts(3) [OF assms(1)] assms(2) unfolding history_ok_def by (metis fst_conv snd_conv)
  then have "inc_Fingerprint a \<noteq> ''''" by (simp add: entry_ok_def)
  with wi.unique_active reachable_facts(1) [OF assms(1)] assms(2-) show ?thesis by blast
qed

lemma one_open_incident_witness:
  "\<exists>a. w_istored demo_w4 ''inc_a0'' = Some a \<and> \<not> IsTerminal (inc_Status a)
    \<and> (\<forall>j b. w_istored demo_w4 j = Some b \<and> inc_Fingerprint a = inc_Fingerprint b \<and> \<not> IsTerminal (inc_Status b)
         \<longrightarrow> ''inc_a0'' = j)"
proof -
  obtain a where a: "w_istored demo_w4 ''inc_a0'' = Some a" "inc_Status a = StatusWaitingApproval"
    using demo_waiting by blast
  then have "\<not> IsTerminal (inc_Status a)" by simp
  with a one_open_incident [OF demo_reachable_4 a(1)] show ?thesis by blast
qed

text \<open>C4. What a step of the system does to what is stored: no incident and no approval disappears; an
  incident only goes forward along the main flow, is never touched again once terminal, and keeps
  its fingerprint; its journal only grows; an approval keeps everything it was bound to (incident,
  run, tool call, action, arguments) and follows the approval life cycle.\<close>

theorem steps_only_advance:
  assumes "reachable cfg w" and "system_step cfg w w'"
  shows "(\<exists>es. w_journal w' i = w_journal w i @ es)
    \<and> (\<forall>inc. w_istored w i = Some inc \<longrightarrow> (\<exists>inc'. w_istored w' i = Some inc'
         \<and> inc_Fingerprint inc' = inc_Fingerprint inc \<and> stage (inc_Status inc) \<le> stage (inc_Status inc')
         \<and> (IsTerminal (inc_Status inc) \<longrightarrow> inc' = inc)))
    \<and> (\<forall>a. w_astored w i = Some a \<longrightarrow> (\<exists>b. w_astored w' i = Some b
         \<and> same_binding a b \<and> approval_path (ap_Status a) (ap_Status b)))"
proof -
  note change = system_step_change [OF assms(2) reachable_ok [OF assms(1)]]
  have "\<exists>es. w_journal w' i = w_journal w i @ es"
    using changes_journal change by fastforce
  moreover have "\<exists>b. w_astored w' i = Some b \<and> same_binding a b \<and> approval_path (ap_Status a) (ap_Status b)"
    if "w_astored w i = Some a" for a
    using change that unfolding kept_def by (cases "w_astored w' i") fastforce+
  ultimately show ?thesis using changes_keep change by fastforce
qed

lemma steps_only_advance_witness:
  "\<exists>b. w_astored demo_w5 ''ap_c0'' = Some b \<and> same_binding demo_approval b \<and> ap_Status demo_approval = ApprovalPending"
  using steps_only_advance [OF demo_reachable_4 demo_approves, of "''ap_c0''"]
  by (auto simp: demo_at_4 w_astored_def mema_stored_def demo_approval_def new_approval_def)

section \<open>The worker\<close>

text \<open>C5. The worker refines the system: whatever the language model, the tools that only read, the broker
  and the order of deliveries do, a run of the consumer with the handlers the bootstrap installs
  changes the application only by steps of the system. So every property of the reachable states
  holds after it.\<close>

theorem worker_refines_system:
  assumes "agent_of rt cfg" and "reachable cfg (mq_app q)"
    and "run_consumer count_metric fint (handleAgentRequested world_incidents repo rt agent prompt)
      (Some (failIncidentOnDeadLetter world_incidents)) ds q = (fin, q')"
  shows "system_run cfg (mq_app q) (mq_app q') \<and> reachable cfg (mq_app q')"
  using consumer_run [OF assms(1,3)] system_run_reachable assms(2) by blast

lemma worker_refines_system_witness:
  "reachable demo_cfg (mq_app (snd (run_consumer count_metric (\<lambda>_. 0)
     (handleAgentRequested world_incidents (Some world_run_repo) demo_runtime demo_agent ''diagnose'')
     (Some (failIncidentOnDeadLetter world_incidents))
     [Deliver background Confirmed True (demo_fresh ''w'')] (sample_queue demo_w1))))"
proof -
  have "reachable demo_cfg (mq_app (sample_queue demo_w1))" using demo_reachable_1 by (simp add: sample_queue_def)
  from worker_refines_system [OF demo_runtime_of this surjective_pairing] show ?thesis by (rule conjunct2)
qed





text \<open>C13. A duplicated event changes nothing: for an incident that is terminal, or that already has a run
  that is RUNNING or COMPLETED, the handler reports success (so the message is acknowledged) and the
  state of the application is untouched.\<close>

theorem duplicate_event_ignored:
  assumes "reachable cfg w" and "DecodePayload ev = Inr i" and "w_istored w i = Some inc"
    and "IsTerminal (inc_Status inc)
      \<or> (\<exists>j run. w_rstored w j = Some run \<and> run_IncidentID run = i \<and> IsActive (run_Status run))"
  shows "handleAgentRequested world_incidents (Some world_run_repo) rt agent prompt c ev f w = (None, w)"
  using duplicate_kept [OF reachable_rinv [OF assms(1)] reachable_facts(1) [OF assms(1)] assms(3,4)] assms(2)
  by (simp add: handleAgentRequested_def)

lemma duplicate_event_ignored_witness:
  "handleAgentRequested world_incidents (Some world_run_repo) demo_runtime demo_agent ''diagnose'' background sample_event
     (demo_fresh ''w'') demo_w4 = (None, demo_w4)"
proof -
  obtain inc where "w_istored demo_w4 ''inc_a0'' = Some inc" using demo_waiting by blast
  moreover have "\<exists>j run. w_rstored demo_w4 j = Some run \<and> run_IncidentID run = ''inc_a0'' \<and> IsActive (run_Status run)"
    by (intro exI [of _ "''run_1''"] exI [of _ demo_run])
      (simp add: demo_at_4 w_rstored_def memr_stored_def demo_runs_def demo_run_def)
  ultimately show ?thesis
    using duplicate_event_ignored [OF demo_reachable_4 DecodePayload_incident [OF sample_fields(5)]] by blast
qed

end
